(* ===== verification/Kurul_Prelude.thy ===== *)
theory Kurul_Prelude
  imports Main "HOL-Library.List_Lexorder" "HOL-Library.Char_ord" "HOL-Library.Product_Lexorder"
begin

text \<open>
  Shared vocabulary of the development: the refusals an API handler can answer with, the
  action type in which every handler is written (a function from the state to a result and
  the new state), its sequencing and checking combinators with the rewrite rules that run
  them, the frame predicate used for "this operation only changes ...", and generic facts on
  lists (first match, insertion at an index, sorting with a key).
\<close>

section \<open>Identifiers, refusals\<close>

type_synonym ident = string
type_synonym millis = int

text \<open>
  The HTTP exceptions of the API (NestJS classes) with the message they carry, the two
  Prisma refusals the code tells apart, the plan ceiling's refusal with the numbers it
  reports, the storage quota's with the code it carries, and the byte budget's with its code and
  the seconds of \<open>Retry-After\<close>.
\<close>

datatype http_error =
    BadRequest string
  | Unauthorized string
  | Forbidden string
  | NotFound string
  | Conflict string
  | Gone string
  | Unprocessable string
  | UniqueViolation
  | RecordNotFound
  | PlanLimitRefusal string nat nat string
  | PayloadTooLarge string string
  | UnsupportedMediaType string
  | TooManyRequests string string nat
  | ServiceUnavailable string
  | ServerFault string

section \<open>Actions\<close>

type_synonym ('s, 'a) action = "'s \<Rightarrow> (http_error + 'a) \<times> 's"

definition ret :: "'a \<Rightarrow> ('s, 'a) action" where
  "ret x s = (Inr x, s)"

definition raise :: "http_error \<Rightarrow> ('s, 'a) action" where
  "raise e s = (Inl e, s)"

definition andThen :: "('s, 'a) action \<Rightarrow> ('a \<Rightarrow> ('s, 'b) action) \<Rightarrow> ('s, 'b) action" where
  "andThen m f s = (case m s of (Inl e, s') \<Rightarrow> (Inl e, s') | (Inr x, s') \<Rightarrow> f x s')"

definition query :: "('s \<Rightarrow> 'a) \<Rightarrow> ('s, 'a) action" where
  "query f s = (Inr (f s), s)"

definition modify :: "('s \<Rightarrow> 's) \<Rightarrow> ('s, unit) action" where
  "modify f s = (Inr (), f s)"

definition check :: "bool \<Rightarrow> http_error \<Rightarrow> ('s, unit) action" where
  "check b e s = (if b then (Inr (), s) else (Inl e, s))"

text \<open>A lookup that may fail: \<open>if (!row) throw e\<close>.\<close>

definition orThrow :: "http_error \<Rightarrow> 'a option \<Rightarrow> ('s, 'a) action" where
  "orThrow e r s = (case r of None \<Rightarrow> (Inl e, s) | Some x \<Rightarrow> (Inr x, s))"

text \<open>A pure computation that already decided between an error and a value.\<close>

definition lift_result :: "http_error + 'a \<Rightarrow> ('s, 'a) action" where
  "lift_result r s = (r, s)"

text \<open>\<open>for (const x of xs) await f(x)\<close>: in order, stopping at the first error.\<close>

fun forEach :: "'a list \<Rightarrow> ('a \<Rightarrow> ('s, unit) action) \<Rightarrow> ('s, unit) action" where
  "forEach [] f = ret ()"
| "forEach (x # xs) f = andThen (f x) (\<lambda>_. forEach xs f)"

text \<open>The same with the results, in order.\<close>

fun mapEach :: "'a list \<Rightarrow> ('a \<Rightarrow> ('s, 'b) action) \<Rightarrow> ('s, 'b list) action" where
  "mapEach [] f = ret []"
| "mapEach (x # xs) f = andThen (f x) (\<lambda>y. andThen (mapEach xs f) (\<lambda>ys. ret (y # ys)))"

definition whenever :: "bool \<Rightarrow> ('s, unit) action \<Rightarrow> ('s, unit) action" where
  "whenever b m = (if b then m else ret ())"

text \<open>
  Running a sequence on a state: these equations reduce a handler applied to a state to the
  nested case distinction over its checks.
\<close>

named_theorems run "equations that run an action on a state"

lemma ret_run [run]: "ret x s = (Inr x, s)"
  by (simp add: ret_def)

lemma raise_run [run]: "raise e s = (Inl e, s)"
  by (simp add: raise_def)

lemma query_run [run]: "query f s = (Inr (f s), s)"
  by (simp add: query_def)

lemma modify_run [run]: "modify f s = (Inr (), f s)"
  by (simp add: modify_def)

lemma check_run [run]: "check b e s = (if b then (Inr (), s) else (Inl e, s))"
  by (simp add: check_def)

lemma orThrow_run [run]:
  "orThrow e r s = (case r of None \<Rightarrow> (Inl e, s) | Some x \<Rightarrow> (Inr x, s))"
  by (simp add: orThrow_def)

lemma lift_result_run [run]: "lift_result r s = (r, s)"
  by (simp add: lift_result_def)

lemma andThen_ret [run]: "andThen (ret x) f s = f x s"
  by (simp add: andThen_def ret_def)

lemma andThen_raise [run]: "andThen (raise e) f s = (Inl e, s)"
  by (simp add: andThen_def raise_def)

lemma andThen_query [run]: "andThen (query g) f s = f (g s) s"
  by (simp add: andThen_def query_def)

lemma andThen_modify [run]: "andThen (modify g) f s = f () (g s)"
  by (simp add: andThen_def modify_def)

lemma andThen_check [run]: "andThen (check b e) f s = (if b then f () s else (Inl e, s))"
  by (simp add: andThen_def check_def)

lemma andThen_orThrow [run]:
  "andThen (orThrow e r) f s = (case r of None \<Rightarrow> (Inl e, s) | Some x \<Rightarrow> f x s)"
  by (simp add: andThen_def orThrow_def split: option.splits)

lemma andThen_lift_result [run]:
  "andThen (lift_result r) f s = (case r of Inl e \<Rightarrow> (Inl e, s) | Inr x \<Rightarrow> f x s)"
  by (simp add: andThen_def lift_result_def split: sum.splits)

lemma andThen_assoc [run]:
  "andThen (andThen m f) g s = andThen m (\<lambda>x. andThen (f x) g) s"
  by (auto simp: andThen_def split: sum.splits prod.splits)

lemma andThen_if [run]:
  "andThen (if b then m else n) f s = (if b then andThen m f s else andThen n f s)"
  by simp

lemma andThen_whenever [run]:
  "andThen (whenever b m) f s = (if b then andThen m f s else f () s)"
  by (simp add: whenever_def andThen_ret)

lemma whenever_run [run]: "whenever b m s = (if b then m s else (Inr (), s))"
  by (simp add: whenever_def ret_def)

lemma andThen_okD:
  assumes "andThen m f s = (Inr y, s'')"
  obtains x s' where "m s = (Inr x, s')" "f x s' = (Inr y, s'')"
  using assms by (auto simp: andThen_def split: sum.splits prod.splits)

section \<open>Frames\<close>

text \<open>
  \<open>frames R m\<close>: whatever the outcome of \<open>m\<close>, the state before and the state after are
  related by \<open>R\<close>. With a preorder \<open>R\<close> it composes along the sequencing combinators.
\<close>

definition frames :: "('s \<Rightarrow> 's \<Rightarrow> bool) \<Rightarrow> ('s, 'a) action \<Rightarrow> bool" where
  "frames R m \<longleftrightarrow> (\<forall>s. R s (snd (m s)))"

locale frame_rel =
  fixes R :: "'s \<Rightarrow> 's \<Rightarrow> bool"
  assumes refl: "R s s"
    and trans: "R s t \<Longrightarrow> R t u \<Longrightarrow> R s u"
begin

lemma frames_still: "(\<And>s. snd (m s) = s) \<Longrightarrow> frames R m"
  by (simp add: frames_def refl)

lemma frames_ret: "frames R (ret x)"
  by (simp add: frames_def refl ret_def)

lemma frames_raise: "frames R (raise e)"
  by (simp add: frames_def refl raise_def)

lemma frames_query: "frames R (query f)"
  by (simp add: frames_def refl query_def)

lemma frames_check: "frames R (check b e)"
  by (simp add: frames_def refl check_def)

lemma frames_orThrow: "frames R (orThrow e r)"
  by (simp add: frames_def refl orThrow_def split: option.splits)

lemma frames_lift_result: "frames R (lift_result r)"
  by (simp add: frames_def refl lift_result_def)

lemma frames_modify: "(\<And>s. R s (f s)) \<Longrightarrow> frames R (modify f)"
  by (simp add: frames_def modify_def)

lemma frames_andThen:
  assumes "frames R m" and "\<And>x. frames R (f x)"
  shows "frames R (andThen m f)"
  unfolding frames_def
proof
  fix s
  show "R s (snd (andThen m f s))"
  proof (cases "m s")
    case (Pair r s')
    have m: "R s s'"
      using assms(1) Pair by (metis frames_def snd_conv)
    show ?thesis
    proof (cases r)
      case (Inl e)
      with Pair m show ?thesis by (simp add: andThen_def)
    next
      case (Inr x)
      have "R s' (snd (f x s'))"
        using assms(2) by (simp add: frames_def)
      with Pair Inr m show ?thesis
        by (auto simp: andThen_def intro: trans)
    qed
  qed
qed

lemma frames_forEach: "(\<And>x. frames R (f x)) \<Longrightarrow> frames R (forEach xs f)"
  by (induction xs) (simp_all add: frames_ret frames_andThen)

lemma frames_mapEach: "(\<And>x. frames R (f x)) \<Longrightarrow> frames R (mapEach xs f)"
  by (induction xs) (simp_all add: frames_ret frames_andThen)

lemma frames_whenever: "frames R m \<Longrightarrow> frames R (whenever b m)"
  by (simp add: whenever_def frames_ret)

lemma frames_if: "frames R m \<Longrightarrow> frames R n \<Longrightarrow> frames R (if b then m else n)"
  by simp

lemmas frame_rules = frames_ret frames_raise frames_query frames_check frames_orThrow
  frames_lift_result frames_andThen frames_forEach frames_mapEach frames_whenever frames_if

end

section \<open>Lists\<close>

text \<open>JavaScript's \<open>findIndex\<close>: the first index that satisfies the test, or -1.\<close>

fun findIndex :: "('a \<Rightarrow> bool) \<Rightarrow> 'a list \<Rightarrow> int" where
  "findIndex P [] = -1"
| "findIndex P (x # xs) =
     (if P x then 0 else (let i = findIndex P xs in if i < 0 then -1 else i + 1))"

text \<open>\<open>xs[i]\<close> in JavaScript: \<open>undefined\<close> (here \<open>None\<close>) out of range.\<close>

definition at_index :: "'a list \<Rightarrow> int \<Rightarrow> 'a option" where
  "at_index xs i = (if 0 \<le> i \<and> i < int (length xs) then Some (xs ! nat i) else None)"

definition insert_at :: "nat \<Rightarrow> 'a \<Rightarrow> 'a list \<Rightarrow> 'a list" where
  "insert_at i x xs = take i xs @ x # drop i xs"

lemma findIndex_bounds: "findIndex P xs = -1 \<or> (0 \<le> findIndex P xs \<and> findIndex P xs < int (length xs))"
  by (induction xs) (auto simp: Let_def)

lemma findIndex_less: "findIndex P xs < int (length xs)"
  using findIndex_bounds [of P xs] by auto

lemma findIndex_neg_iff: "findIndex P xs < 0 \<longleftrightarrow> \<not> (\<exists>x \<in> set xs. P x)"
  by (induction xs) (auto simp: Let_def split: if_splits)

lemma findIndex_nth: "0 \<le> findIndex P xs \<Longrightarrow> P (xs ! nat (findIndex P xs))"
proof (induction xs)
  case Nil
  then show ?case by simp
next
  case (Cons x xs)
  show ?case
  proof (cases "P x \<or> findIndex P xs < 0")
    case True
    with Cons.prems show ?thesis by (auto simp: Let_def split: if_splits)
  next
    case False
    then have "nat (findIndex P xs + 1) = Suc (nat (findIndex P xs))"
      by (simp add: nat_add_distrib)
    with False Cons.IH show ?thesis by (simp add: Let_def)
  qed
qed

lemma findIndex_unique:
  assumes "distinct (map f xs)" and "i < length xs" and "f (xs ! i) = k"
  shows "findIndex (\<lambda>x. f x = k) xs = int i"
proof -
  let ?j = "findIndex (\<lambda>x. f x = k) xs"
  have "\<exists>x \<in> set xs. f x = k"
    using assms(2,3) by (metis nth_mem)
  then have "0 \<le> ?j"
    using findIndex_neg_iff [of "\<lambda>x. f x = k" xs] by auto
  then have "f (xs ! nat ?j) = k" and "nat ?j < length xs"
    using findIndex_nth [of "\<lambda>x. f x = k" xs] findIndex_less [of "\<lambda>x. f x = k" xs] by auto
  with assms have "nat ?j = i"
    by (metis distinct_map length_map nth_eq_iff_index_eq nth_map)
  with \<open>0 \<le> ?j\<close> show ?thesis by simp
qed

lemma at_index_int [simp]: "at_index xs (int i) = (if i < length xs then Some (xs ! i) else None)"
  by (simp add: at_index_def)

lemma at_index_neg [simp]: "i < 0 \<Longrightarrow> at_index xs i = None"
  by (simp add: at_index_def)

lemma length_insert_at [simp]: "i \<le> length xs \<Longrightarrow> length (insert_at i x xs) = Suc (length xs)"
  by (simp add: insert_at_def)

lemma set_insert_at [simp]: "set (insert_at i x xs) = insert x (set xs)"
proof -
  have "set xs = set (take i xs) \<union> set (drop i xs)"
    by (metis append_take_drop_id set_append)
  then show ?thesis by (auto simp: insert_at_def)
qed

lemma map_insert_at: "map f (insert_at i x xs) = insert_at i (f x) (map f xs)"
  by (simp add: insert_at_def take_map drop_map)

lemma insert_at_nth: "i \<le> length xs \<Longrightarrow> insert_at i x xs ! i = x"
  by (simp add: insert_at_def nth_append)

lemma insert_at_nth_below: "i \<le> length xs \<Longrightarrow> j < i \<Longrightarrow> insert_at i x xs ! j = xs ! j"
  by (simp add: insert_at_def nth_append)

lemma insert_at_nth_above:
  "i \<le> length xs \<Longrightarrow> i \<le> j \<Longrightarrow> j < length xs \<Longrightarrow> insert_at i x xs ! Suc j = xs ! j"
  by (simp add: insert_at_def nth_append nth_Cons' min_def)

lemma find_Some_iff_mem:
  "find P xs = Some x \<Longrightarrow> x \<in> set xs \<and> P x"
  by (auto simp: find_Some_iff)

lemma find_distinct_key:
  assumes "distinct (map f xs)" and "x \<in> set xs"
  shows "find (\<lambda>y. f y = f x) xs = Some x"
  using assms
proof (induction xs)
  case Nil
  then show ?case by simp
next
  case (Cons y ys)
  then show ?case by (auto simp: rev_image_eqI)
qed

lemma find_cong_set: "(\<And>x. x \<in> set xs \<Longrightarrow> P x = Q x) \<Longrightarrow> find P xs = find Q xs"
  by (induction xs) auto

lemma filter_empty_iff: "filter P xs = [] \<longleftrightarrow> find P xs = None"
  by (induction xs) auto

text \<open>A rewrite of some rows leaves the rows outside \<open>Q\<close> alone, or leaves none in \<open>Q\<close>.\<close>

lemma filter_map_other:
  assumes "\<And>x. Q x \<Longrightarrow> f x = x" and "\<And>x. Q (f x) \<longleftrightarrow> Q x"
  shows "filter Q (map f xs) = filter Q xs"
  using assms by (induction xs) simp_all

lemma filter_map_none: "(\<And>x. \<not> Q (f x)) \<Longrightarrow> filter Q (map f xs) = []"
  by (induction xs) simp_all

end
