(* ===== verification/Float64.thy ===== *)
theory Float64
  imports Complex_Main Kurul_Prelude
begin

text \<open>
  JavaScript numbers (IEEE 754 binary64) as they occur in card and column positions: a finite
  double is modelled by its rational value, and every arithmetic operation is the exact
  operation followed by rounding to the nearest double, ties to even. \<open>fl\<close> is that rounding,
  executable, subnormals included. Overflow to an infinity is outside the model: the bounds
  proved here are for magnitudes far below \<open>2 ^ 1024\<close>.
\<close>

type_synonym float64 = rat

text \<open>Number of binary digits of a natural number.\<close>

fun bits :: "nat \<Rightarrow> nat" where
  "bits n = (if n = 0 then 0 else Suc (bits (n div 2)))"

declare bits.simps [simp del]

text \<open>The exponent of the smallest positive double, \<open>2 ^ (- 1074)\<close>.\<close>

definition emin :: nat where
  "emin = 1074"

text \<open>
  The spacing of the doubles around \<open>x\<close>: \<open>x\<close> is counted in units of the smallest double, and
  all but the leading 53 binary digits of that count are rounded away.
\<close>

definition quantum :: "rat \<Rightarrow> rat" where
  "quantum x = 2 ^ (bits (nat \<lfloor>\<bar>x\<bar> * 2 ^ emin\<rfloor>) - 53) / 2 ^ emin"

text \<open>Round to the nearest integer, ties to the even one.\<close>

definition round_half_even :: "rat \<Rightarrow> int" where
  "round_half_even y =
     (let f = \<lfloor>y\<rfloor>; r = y - of_int f
      in if r < 1 / 2 then f else if 1 / 2 < r then f + 1 else if even f then f else f + 1)"

definition fl :: "rat \<Rightarrow> float64" where
  "fl x = of_int (round_half_even (x / quantum x)) * quantum x"

definition fadd :: "float64 \<Rightarrow> float64 \<Rightarrow> float64" where
  "fadd x y = fl (x + y)"

definition fsub :: "float64 \<Rightarrow> float64 \<Rightarrow> float64" where
  "fsub x y = fl (x - y)"

definition fmul :: "float64 \<Rightarrow> float64 \<Rightarrow> float64" where
  "fmul x y = fl (x * y)"

definition fdiv :: "float64 \<Rightarrow> float64 \<Rightarrow> float64" where
  "fdiv x y = fl (x / y)"

section \<open>Rounding error\<close>

lemma bits_le: "n < 2 ^ j \<Longrightarrow> bits n \<le> j"
proof (induction n arbitrary: j rule: bits.induct)
  case (1 n)
  show ?case
  proof (cases "n = 0")
    case True
    then show ?thesis by (simp add: bits.simps)
  next
    case False
    with "1.prems" obtain i where j: "j = Suc i"
      by (cases j) auto
    with "1.prems" have "n div 2 < 2 ^ i" by auto
    with "1.IH" False have "bits (n div 2) \<le> i" by blast
    with False j show ?thesis by (subst bits.simps) simp
  qed
qed

lemma bits_gt: "2 ^ m \<le> n \<Longrightarrow> m < bits n"
proof (induction n arbitrary: m rule: bits.induct)
  case (1 n)
  have "n \<noteq> 0"
    using "1.prems" by (metis le_zero_eq power_not_zero zero_neq_numeral)
  show ?case
  proof (cases m)
    case 0
    with \<open>n \<noteq> 0\<close> show ?thesis by (subst bits.simps) simp
  next
    case (Suc k)
    with "1.prems" have "2 ^ k \<le> n div 2" by auto
    with "1.IH" \<open>n \<noteq> 0\<close> have "k < bits (n div 2)" by blast
    with Suc \<open>n \<noteq> 0\<close> show ?thesis by (subst bits.simps) simp
  qed
qed

lemma round_half_even_error: "\<bar>of_int (round_half_even y) - y\<bar> \<le> 1 / 2"
proof -
  define r where "r = y - of_int \<lfloor>y\<rfloor>"
  have "0 \<le> r" and "r < 1"
    unfolding r_def by linarith+
  then show ?thesis
    unfolding round_half_even_def Let_def r_def [symmetric]
    by (auto simp: r_def)
qed

lemma round_half_even_int [simp]: "round_half_even (of_int i) = i"
  by (simp add: round_half_even_def)

lemma quantum_pos: "0 < quantum x"
  by (simp add: quantum_def)

lemma fl_error: "\<bar>fl x - x\<bar> \<le> quantum x / 2"
proof -
  have q: "0 < quantum x" by (rule quantum_pos)
  have "fl x - x = (of_int (round_half_even (x / quantum x)) - x / quantum x) * quantum x"
    using q by (simp add: fl_def left_diff_distrib)
  then have "\<bar>fl x - x\<bar> = \<bar>of_int (round_half_even (x / quantum x)) - x / quantum x\<bar> * quantum x"
    using q by (simp add: abs_mult)
  also have "\<dots> \<le> 1 / 2 * quantum x"
    using round_half_even_error q by (intro mult_right_mono) auto
  finally show ?thesis by simp
qed

lemma quantum_le:
  assumes "\<bar>x\<bar> * 2 ^ emin < 2 ^ m" and "53 \<le> m"
  shows "quantum x \<le> 2 ^ (m - 53) / 2 ^ emin"
proof -
  have "nat \<lfloor>\<bar>x\<bar> * 2 ^ emin\<rfloor> < 2 ^ m"
  proof -
    have "of_int \<lfloor>\<bar>x\<bar> * 2 ^ emin\<rfloor> < (2 ^ m :: rat)"
      using assms(1) by linarith
    then have "of_int \<lfloor>\<bar>x\<bar> * 2 ^ emin\<rfloor> < (of_int (2 ^ m) :: rat)" by simp
    then have "\<lfloor>\<bar>x\<bar> * 2 ^ emin\<rfloor> < 2 ^ m" by linarith
    then have "nat \<lfloor>\<bar>x\<bar> * 2 ^ emin\<rfloor> < nat (2 ^ m)" by auto
    then show ?thesis by (simp add: nat_power_eq)
  qed
  then have "bits (nat \<lfloor>\<bar>x\<bar> * 2 ^ emin\<rfloor>) - 53 \<le> m - 53"
    using bits_le by (simp add: diff_le_mono)
  then have "(2::rat) ^ (bits (nat \<lfloor>\<bar>x\<bar> * 2 ^ emin\<rfloor>) - 53) \<le> 2 ^ (m - 53)"
    by (intro power_increasing) auto
  then show ?thesis
    by (simp add: quantum_def divide_right_mono)
qed

text \<open>
  The error bound used below: a value of magnitude below \<open>2 ^ j\<close> is rounded by at most
  \<open>2 ^ j / 2 ^ 54\<close>, half a unit in the last of its 53 binary places.
\<close>

lemma fl_error_bound:
  assumes "\<bar>x\<bar> < 2 ^ j"
  shows "\<bar>fl x - x\<bar> \<le> 2 ^ j / 2 ^ 54"
proof -
  have "\<bar>x\<bar> * 2 ^ emin < 2 ^ (j + emin)"
    using assms by (simp add: power_add)
  moreover have "53 \<le> j + emin" by (simp add: emin_def)
  ultimately have "quantum x \<le> 2 ^ (j + emin - 53) / 2 ^ emin"
    by (rule quantum_le)
  moreover have "(2::rat) ^ (j + emin - 53) * 2 ^ 53 = 2 ^ (j + emin)"
  proof -
    have "j + emin = j + emin - 53 + 53" by (simp add: emin_def)
    then show ?thesis by (metis power_add)
  qed
  then have "(2::rat) ^ (j + emin - 53) / 2 ^ emin = 2 ^ j / 2 ^ 53"
    by (simp add: field_simps power_add)
  ultimately have "quantum x / 2 \<le> 2 ^ j / 2 ^ 54" by simp
  with fl_error [of x] show ?thesis by linarith
qed

lemma fl_bounds:
  assumes "\<bar>x\<bar> < 2 ^ j"
  shows "x - 2 ^ j / 2 ^ 54 \<le> fl x \<and> fl x \<le> x + 2 ^ j / 2 ^ 54"
  using fl_error_bound [OF assms] by linarith

lemma fl_zero [simp]: "fl 0 = 0"
  by (simp add: fl_def round_half_even_def)

lemma cancel_power: "(2::rat) ^ k / (2 ^ k * 2 ^ d) = 1 / 2 ^ d"
  by simp

text \<open>Integers below \<open>2 ^ 53\<close> are doubles: rounding leaves them alone.\<close>

lemma fl_of_int:
  assumes "\<bar>i\<bar> < 2 ^ 53"
  shows "fl (of_int i) = of_int i"
proof -
  let ?n = "nat \<lfloor>\<bar>of_int i :: rat\<bar> * 2 ^ emin\<rfloor>"
  have n: "?n = nat \<bar>i\<bar> * 2 ^ emin"
  proof -
    have "\<bar>of_int i :: rat\<bar> * 2 ^ emin = of_int (\<bar>i\<bar> * 2 ^ emin)" by simp
    then show ?thesis
      by (simp only: floor_of_int) (simp add: nat_mult_distrib nat_power_eq)
  qed
  have "nat \<bar>i\<bar> < 2 ^ 53" using assms by (simp add: nat_less_iff)
  then have "?n < 2 ^ (53 + emin)" using n by (simp add: power_add)
  then have "bits ?n \<le> 53 + emin" by (rule bits_le)
  then have "bits ?n - 53 \<le> emin" by simp
  moreover define k where "k = bits ?n - 53"
  ultimately obtain d where d: "emin = k + d"
    using le_Suc_ex by blast
  have "quantum (of_int i) = 2 ^ k / 2 ^ emin"
    unfolding quantum_def k_def ..
  also have "\<dots> = 2 ^ k / (2 ^ k * 2 ^ d)"
    by (simp only: d power_add)
  also have "\<dots> = 1 / 2 ^ d"
    by (rule cancel_power)
  finally have "quantum (of_int i) = 1 / 2 ^ d" .
  moreover have "of_int i / (1 / (2::rat) ^ d) = of_int (i * 2 ^ d)" by simp
  ultimately have "fl (of_int i) = of_int (i * 2 ^ d) * (1 / 2 ^ d)"
    unfolding fl_def by (simp only: round_half_even_int)
  then show ?thesis by simp
qed

lemma fl_numeral [simp]: "numeral k < (2 ^ 53 :: int) \<Longrightarrow> fl (numeral k) = numeral k"
  using fl_of_int [of "numeral k"] by simp

lemma fl_neg_numeral [simp]: "numeral k < (2 ^ 53 :: int) \<Longrightarrow> fl (- numeral k) = - numeral k"
  using fl_of_int [of "- numeral k"] by simp

lemma fl_one [simp]: "fl 1 = 1"
  using fl_of_int [of 1] by simp

text \<open>
  Evaluation of a rounding whose binary exponent is known: with \<open>2 ^ j \<le> \<bar>x\<bar> * 2 ^ i < 2 ^ (j + 1)\<close>
  the spacing is \<open>2 ^ j / 2 ^ (i + 52)\<close>.
\<close>

lemma quantum_eval:
  assumes "2 ^ j \<le> \<bar>x\<bar> * 2 ^ i" and "\<bar>x\<bar> * 2 ^ i < 2 ^ Suc j" and "i + 52 \<le> j + emin" and "i \<le> emin"
  shows "quantum x = 2 ^ j / 2 ^ (i + 52)"
proof -
  define m where "m = j + (emin - i)"
  let ?X = "\<bar>x\<bar> * 2 ^ emin"
  have X: "?X = \<bar>x\<bar> * 2 ^ i * 2 ^ (emin - i)"
    using assms(4) by (simp add: mult.assoc flip: power_add)
  have lo: "2 ^ m \<le> ?X"
    unfolding X m_def power_add using assms(1) by (intro mult_right_mono) auto
  have "?X < 2 ^ Suc j * 2 ^ (emin - i)"
    unfolding X using assms(2) by (intro mult_strict_right_mono) auto
  then have hi: "?X < 2 ^ Suc m"
    by (simp add: m_def power_add)
  have "of_int (2 ^ m) \<le> ?X" and "?X < of_int (2 ^ Suc m)"
    using lo hi by simp_all
  then have "2 ^ m \<le> \<lfloor>?X\<rfloor>" and "\<lfloor>?X\<rfloor> < 2 ^ Suc m"
    unfolding le_floor_iff floor_less_iff by simp_all
  then have "2 ^ m \<le> nat \<lfloor>?X\<rfloor>" and "nat \<lfloor>?X\<rfloor> < 2 ^ Suc m"
    by (simp_all add: nat_le_eq_zle le_nat_iff nat_less_iff)
  then have "m < bits (nat \<lfloor>?X\<rfloor>)" and "bits (nat \<lfloor>?X\<rfloor>) \<le> Suc m"
    by (auto intro: bits_gt bits_le)
  then have "bits (nat \<lfloor>?X\<rfloor>) - 53 = m - 52"
    by linarith
  then have "quantum x = 2 ^ (m - 52) / 2 ^ emin"
    by (simp add: quantum_def)
  moreover have "m - 52 + (i + 52) = j + emin"
    using assms(3,4) by (simp add: m_def)
  then have "(2::rat) ^ (m - 52) * 2 ^ (i + 52) = 2 ^ j * 2 ^ emin"
    by (metis power_add)
  ultimately show ?thesis
    by (simp add: frac_eq_eq)
qed

lemma fl_eval:
  assumes "2 ^ j \<le> \<bar>x\<bar> * 2 ^ i" and "\<bar>x\<bar> * 2 ^ i < 2 ^ Suc j" and "i + 52 \<le> j + emin" and "i \<le> emin"
  shows "fl x = of_int (round_half_even (x / (2 ^ j / 2 ^ (i + 52)))) * (2 ^ j / 2 ^ (i + 52))"
  unfolding fl_def quantum_eval [OF assms] ..

end
