(* ===== verification/FractionalIndex.thy ===== *)
theory FractionalIndex
  imports Float64
begin

text \<open>
  \<open>apps/api/src/common/position/\<close>: the position arithmetic (\<open>fractional-index.ts\<close>) on
  binary64 numbers, and the translation of the neighbours a client names into an insertion
  slot (\<open>apply-insertion.ts\<close>).
\<close>

section \<open>Position arithmetic\<close>

definition POSITION_GAP :: float64 where
  "POSITION_GAP = 1000"

definition MIN_GAP :: float64 where
  "MIN_GAP = fl (1 / 1000000)"

definition midpoint :: "float64 option \<Rightarrow> float64 option \<Rightarrow> float64" where
  "midpoint prev nxt =
     (case prev of
        None \<Rightarrow> (case nxt of None \<Rightarrow> POSITION_GAP | Some n \<Rightarrow> fsub n POSITION_GAP)
      | Some p \<Rightarrow>
          (case nxt of None \<Rightarrow> fadd p POSITION_GAP | Some n \<Rightarrow> fdiv (fadd p n) 2))"

definition needsRebalance :: "float64 option \<Rightarrow> float64 option \<Rightarrow> bool" where
  "needsRebalance prev nxt =
     (case (prev, nxt) of (Some p, Some n) \<Rightarrow> fsub n p < MIN_GAP | _ \<Rightarrow> False)"

definition rebalancePositions :: "nat \<Rightarrow> float64 list" where
  "rebalancePositions count =
     map (\<lambda>index. fmul (fadd (of_nat index) 1) POSITION_GAP) [0..<count]"

text \<open>The magnitudes for which the strictness results below are proved.\<close>

definition safe_position :: "float64 \<Rightarrow> bool" where
  "safe_position p \<longleftrightarrow> \<bar>p\<bar> < 2 ^ 30"

lemma MIN_GAP_lower: "99 / 100000000 < MIN_GAP"
  using fl_bounds [of "1 / 1000000" 0] by (simp add: MIN_GAP_def)

text \<open>A gap that does not ask for a rebalance is wider than half a millionth.\<close>

lemma gap_lower:
  assumes "safe_position p" and "safe_position n" and "\<not> needsRebalance (Some p) (Some n)"
  shows "1 / 2 ^ 21 < n - p"
proof (rule ccontr)
  assume "\<not> 1 / 2 ^ 21 < n - p"
  moreover have "\<bar>n - p\<bar> < 2 ^ 31"
    using assms(1,2) by (simp add: safe_position_def abs_less_iff)
  then have "n - p - 2 ^ 31 / 2 ^ 54 \<le> fl (n - p) \<and> fl (n - p) \<le> n - p + 2 ^ 31 / 2 ^ 54"
    by (rule fl_bounds)
  moreover have "MIN_GAP \<le> fl (n - p)"
    using assms(3) by (simp add: needsRebalance_def fsub_def)
  ultimately show False
    using MIN_GAP_lower by simp
qed

lemma midpoint_strict:
  assumes "safe_position p" and "safe_position n" and "\<not> needsRebalance (Some p) (Some n)"
  shows "p < midpoint (Some p) (Some n) \<and> midpoint (Some p) (Some n) < n"
proof -
  have gap: "1 / 2 ^ 21 < n - p"
    using assms by (rule gap_lower)
  have "\<bar>p + n\<bar> < 2 ^ 31"
    using assms(1,2) by (simp add: safe_position_def abs_less_iff)
  then have sum: "p + n - 2 ^ 31 / 2 ^ 54 \<le> fl (p + n) \<and> fl (p + n) \<le> p + n + 2 ^ 31 / 2 ^ 54"
    by (rule fl_bounds)
  have "\<bar>fl (p + n) / 2\<bar> < 2 ^ 31"
    using sum \<open>\<bar>p + n\<bar> < 2 ^ 31\<close> by (simp add: abs_less_iff)
  then have half: "fl (p + n) / 2 - 2 ^ 31 / 2 ^ 54 \<le> fl (fl (p + n) / 2) \<and>
      fl (fl (p + n) / 2) \<le> fl (p + n) / 2 + 2 ^ 31 / 2 ^ 54"
    by (rule fl_bounds)
  have "midpoint (Some p) (Some n) = fl (fl (p + n) / 2)"
    by (simp add: midpoint_def fadd_def fdiv_def)
  with gap sum half show ?thesis
    by simp
qed

lemma midpoint_append:
  assumes "safe_position p"
  shows "p < midpoint (Some p) None"
proof -
  have "\<bar>p + 1000\<bar> < 2 ^ 31"
    using assms by (simp add: safe_position_def abs_less_iff)
  then have "p + 1000 - 2 ^ 31 / 2 ^ 54 \<le> fl (p + 1000) \<and> fl (p + 1000) \<le> p + 1000 + 2 ^ 31 / 2 ^ 54"
    by (rule fl_bounds)
  then show ?thesis
    by (simp add: midpoint_def fadd_def POSITION_GAP_def)
qed

lemma midpoint_prepend:
  assumes "safe_position n"
  shows "midpoint None (Some n) < n"
proof -
  have "\<bar>n - 1000\<bar> < 2 ^ 31"
    using assms by (simp add: safe_position_def abs_less_iff)
  then have "n - 1000 - 2 ^ 31 / 2 ^ 54 \<le> fl (n - 1000) \<and> fl (n - 1000) \<le> n - 1000 + 2 ^ 31 / 2 ^ 54"
    by (rule fl_bounds)
  then show ?thesis
    by (simp add: midpoint_def fsub_def POSITION_GAP_def)
qed

text \<open>The four forms at once: a fresh position lies strictly between the neighbours it has.\<close>

lemma midpoint_between:
  assumes "\<And>p. prev = Some p \<Longrightarrow> safe_position p" and "\<And>n. nxt = Some n \<Longrightarrow> safe_position n"
    and "\<not> needsRebalance prev nxt"
  shows "(\<forall>p. prev = Some p \<longrightarrow> p < midpoint prev nxt) \<and>
         (\<forall>n. nxt = Some n \<longrightarrow> midpoint prev nxt < n)"
  using assms midpoint_strict midpoint_append midpoint_prepend
  by (cases prev; cases nxt) auto

lemma length_rebalancePositions [simp]: "length (rebalancePositions n) = n"
  by (simp add: rebalancePositions_def)

lemma rebalancePositions_nth:
  assumes "n < 2 ^ 40" and "i < n"
  shows "rebalancePositions n ! i = of_nat (Suc i) * 1000"
proof -
  have "fl (of_int (int (Suc i))) = of_int (int (Suc i))"
    using assms by (intro fl_of_int) simp
  moreover have "fl (of_int (int (Suc i) * 1000)) = of_int (int (Suc i) * 1000)"
    using assms by (intro fl_of_int) simp
  ultimately show ?thesis
    using assms(2) by (simp add: rebalancePositions_def fadd_def fmul_def POSITION_GAP_def add.commute)
qed

lemma rebalancePositions_mono:
  assumes "n < 2 ^ 40"
  shows "sorted_wrt (<) (rebalancePositions n)"
  using assms by (simp add: sorted_wrt_iff_nth_less rebalancePositions_nth)

text \<open>
  Beyond the safe magnitudes the guard is too weak: from \<open>2 ^ 34\<close> on, two adjacent doubles
  are further apart than \<open>MIN_GAP\<close>, so no rebalance is asked for, and their midpoint rounds
  back to one of them.
\<close>

definition large_prev :: float64 where
  "large_prev = 2 ^ 34"

definition large_next :: float64 where
  "large_next = 2 ^ 34 + 1 / 2 ^ 18"

lemma large_collision:
  "\<not> needsRebalance (Some large_prev) (Some large_next) \<and>
   midpoint (Some large_prev) (Some large_next) = large_prev"
proof
  have "fsub large_next large_prev = fl (1 / 2 ^ 18)"
    by (simp add: fsub_def large_next_def large_prev_def)
  then show "\<not> needsRebalance (Some large_prev) (Some large_next)"
    using fl_bounds [of "1 / 2 ^ 18" 0] fl_bounds [of "1 / 1000000" 0]
    by (simp add: needsRebalance_def MIN_GAP_def)
  have "\<lfloor>9007199254740993 / (2::rat)\<rfloor> = 4503599627370496"
    by (simp add: floor_eq_iff)
  then have "fadd large_prev large_next = 2 ^ 35"
    using fl_eval [of 35 "2 ^ 35 + 1 / 2 ^ 18" 0]
    by (simp add: fadd_def large_next_def large_prev_def round_half_even_def Let_def emin_def)
  moreover have "fl (2 ^ 34) = 2 ^ 34"
    using fl_of_int [of "2 ^ 34"] by simp
  ultimately show "midpoint (Some large_prev) (Some large_next) = large_prev"
    by (simp add: midpoint_def fdiv_def large_prev_def)
qed

section \<open>Insertion slots\<close>

text \<open>A sibling as the services select it: its id and its position.\<close>

type_synonym sibling = "ident \<times> float64"

record 'r slot =
  insertionIndex :: int
  prev :: "'r option"
  nxt :: "'r option"

text \<open>JavaScript truthiness of an optional string: absent and empty are both false.\<close>

definition truthy :: "ident option \<Rightarrow> bool" where
  "truthy x = (case x of None \<Rightarrow> False | Some k \<Rightarrow> k \<noteq> [])"

definition sliceSlot :: "'r list \<Rightarrow> int \<Rightarrow> 'r slot" where
  "sliceSlot items i =
     \<lparr>insertionIndex = i, prev = at_index items (i - 1), nxt = at_index items i\<rparr>"

definition resolveMoveNeighbors ::
    "sibling list \<Rightarrow> ident option \<Rightarrow> ident option \<Rightarrow> http_error + sibling slot" where
  "resolveMoveNeighbors remaining prevId nextId =
     (let prevIndex = (case prevId of None \<Rightarrow> -1 | Some k \<Rightarrow> findIndex (\<lambda>it. fst it = k) remaining);
          nextIndex = (case nextId of None \<Rightarrow> -1 | Some k \<Rightarrow> findIndex (\<lambda>it. fst it = k) remaining)
      in if truthy prevId \<and> prevIndex < 0 \<or> truthy nextId \<and> nextIndex < 0 \<or>
            0 \<le> prevIndex \<and> 0 \<le> nextIndex \<and> nextIndex \<noteq> prevIndex + 1
         then Inl (NotFound ''Neighbor not found'')
         else Inr (sliceSlot remaining
                (if 0 \<le> prevIndex then prevIndex + 1
                 else if 0 \<le> nextIndex then nextIndex else int (length remaining))))"

text \<open>
  \<open>siblings.find(...)\<close> and \<open>siblings.at(-1)\<close> followed by \<open>indexOf\<close> of the object found:
  the object's own index.
\<close>

definition resolveCreateNeighbors ::
    "sibling list \<Rightarrow> ident option \<Rightarrow> string \<Rightarrow> http_error + sibling slot" where
  "resolveCreateNeighbors siblings prevId notFoundMessage =
     (let prevIndex = (if truthy prevId
                       then findIndex (\<lambda>it. Some (fst it) = prevId) siblings
                       else int (length siblings) - 1)
      in if truthy prevId \<and> prevIndex < 0 then Inl (NotFound notFoundMessage)
         else Inr (sliceSlot siblings (if 0 \<le> prevIndex then prevIndex + 1 else 0)))"

text \<open>Every slot handed out is a real gap of the list, with the two rows around it.\<close>

definition slot_of :: "'r list \<Rightarrow> nat \<Rightarrow> 'r slot \<Rightarrow> bool" where
  "slot_of xs i s \<longleftrightarrow> i \<le> length xs \<and> s = sliceSlot xs (int i)"

lemma resolveMove_slot:
  assumes "resolveMoveNeighbors xs p n = Inr s"
  shows "\<exists>i. slot_of xs i s"
proof -
  have less: "findIndex P xs + 1 \<le> int (length xs)" "findIndex P xs \<le> int (length xs)" for P
    using findIndex_less [of P xs] by auto
  obtain j where j: "s = sliceSlot xs j" "0 \<le> j" "j \<le> int (length xs)"
    using assms less
    by (force simp: resolveMoveNeighbors_def Let_def split: if_splits option.splits)
  then have "slot_of xs (nat j) s" by (simp add: slot_of_def)
  then show ?thesis ..
qed

lemma resolveCreate_slot:
  assumes "resolveCreateNeighbors xs p msg = Inr s"
  shows "\<exists>i. slot_of xs i s"
proof -
  let ?k = "findIndex (\<lambda>it. Some (fst it) = p) xs"
  obtain j where j: "s = sliceSlot xs j" "0 \<le> j" "j \<le> int (length xs)"
    using assms findIndex_less [of "\<lambda>it. Some (fst it) = p" xs]
    by (force simp: resolveCreateNeighbors_def Let_def split: if_splits)
  then have "slot_of xs (nat j) s" by (simp add: slot_of_def)
  then show ?thesis ..
qed

text \<open>
  Where the slot is: after the named \<open>prev\<close>; otherwise before the named \<open>next\<close>; otherwise
  at the end.
\<close>

lemma resolveMove_prev:
  assumes "distinct (map fst xs)" and "i < length xs" and "fst (xs ! i) \<noteq> []"
  shows "resolveMoveNeighbors xs (Some (fst (xs ! i))) None = Inr (sliceSlot xs (int i + 1))"
  using findIndex_unique [OF assms(1,2) HOL.refl]
  by (simp add: resolveMoveNeighbors_def truthy_def)

lemma resolveMove_next:
  assumes "distinct (map fst xs)" and "i < length xs" and "fst (xs ! i) \<noteq> []"
  shows "resolveMoveNeighbors xs None (Some (fst (xs ! i))) = Inr (sliceSlot xs (int i))"
  using findIndex_unique [OF assms(1,2) HOL.refl]
  by (simp add: resolveMoveNeighbors_def truthy_def)

lemma resolveMove_end: "resolveMoveNeighbors xs None None = Inr (sliceSlot xs (int (length xs)))"
  by (simp add: resolveMoveNeighbors_def truthy_def)

lemma resolveCreate_end:
  "resolveCreateNeighbors xs None msg = Inr (sliceSlot xs (int (length xs)))"
  by (simp add: resolveCreateNeighbors_def truthy_def Let_def)

lemma resolveCreate_after:
  assumes "distinct (map fst xs)" and "i < length xs" and "fst (xs ! i) \<noteq> []"
  shows "resolveCreateNeighbors xs (Some (fst (xs ! i))) msg = Inr (sliceSlot xs (int i + 1))"
proof -
  have "findIndex (\<lambda>it. Some (fst it) = Some (fst (xs ! i))) xs = int i"
    using findIndex_unique [OF assms(1,2) HOL.refl] by simp
  with assms(3) show ?thesis
    by (simp add: resolveCreateNeighbors_def truthy_def Let_def)
qed

section \<open>Strictly increasing positions\<close>

definition increasing :: "sibling list \<Rightarrow> bool" where
  "increasing xs \<longleftrightarrow> sorted_wrt (\<lambda>a b. snd a < snd b) xs"

lemma sorted_wrt_insert_at:
  assumes "sorted_wrt R xs" and "transp R" and "i \<le> length xs"
    and "0 < i \<Longrightarrow> R (xs ! (i - 1)) x" and "i < length xs \<Longrightarrow> R x (xs ! i)"
  shows "sorted_wrt R (insert_at i x xs)"
proof -
  have split: "sorted_wrt R (take i xs @ drop i xs)"
    using assms(1) by simp
  have below: "R a x" if a: "a \<in> set (take i xs)" for a
  proof -
    obtain j where j: "j < i" "j < length xs" "a = xs ! j"
      using a by (auto simp: in_set_conv_nth)
    then have "R (xs ! (i - 1)) x" using assms(4) by auto
    moreover have "j = i - 1 \<or> R (xs ! j) (xs ! (i - 1))"
      using j assms(1,3) sorted_wrt_nth_less [of R xs j "i - 1"] by linarith
    ultimately show ?thesis
      using j assms(2) by (auto dest: transpD)
  qed
  have above: "R x b" if b: "b \<in> set (drop i xs)" for b
  proof -
    obtain d where "d < length xs - i" "b = xs ! (i + d)"
      using b by (auto simp: in_set_conv_nth)
    then obtain j where j: "i \<le> j" "j < length xs" "b = xs ! j"
      by (metis add.commute le_add1 less_diff_conv)
    then have "R x (xs ! i)" using assms(5) by auto
    moreover have "j = i \<or> R (xs ! i) (xs ! j)"
      using j assms(1) sorted_wrt_nth_less [of R xs i j] by linarith
    ultimately show ?thesis
      using j assms(2) by (auto dest: transpD)
  qed
  have "sorted_wrt R (take i xs)" "sorted_wrt R (drop i xs)"
    and "\<forall>a \<in> set (take i xs). \<forall>b \<in> set (drop i xs). R a b"
    using split unfolding sorted_wrt_append by blast+
  with below above show ?thesis
    by (auto simp: insert_at_def sorted_wrt_append)
qed

text \<open>Inserting at a slot whose gap needs no rebalance keeps the list strictly increasing.\<close>

lemma increasing_insert:
  assumes inc: "increasing xs" and slot: "slot_of xs i s"
    and safe: "\<forall>x \<in> set xs. safe_position (snd x)"
    and gap: "\<not> needsRebalance (map_option snd (prev s)) (map_option snd (nxt s))"
  shows "increasing (insert_at i (k, midpoint (map_option snd (prev s)) (map_option snd (nxt s))) xs)"
proof -
  let ?p = "map_option snd (prev s)" and ?n = "map_option snd (nxt s)"
  have i: "i \<le> length xs" and s: "s = sliceSlot xs (int i)"
    using slot by (auto simp: slot_of_def)
  have p: "0 < i \<Longrightarrow> ?p = Some (snd (xs ! (i - 1)))"
    using i by (simp add: s sliceSlot_def at_index_def nat_diff_distrib)
  have n: "i < length xs \<Longrightarrow> ?n = Some (snd (xs ! i))"
    by (simp add: s sliceSlot_def)
  have at: "safe_position (snd x)" if "at_index xs j = Some x" for x j
    using that safe by (auto simp: at_index_def split: if_splits)
  have "safe_position q" if "?p = Some q \<or> ?n = Some q" for q
    using that at by (auto simp: s sliceSlot_def simp del: at_index_int)
  then have b: "\<forall>q. ?p = Some q \<longrightarrow> q < midpoint ?p ?n" "\<forall>q. ?n = Some q \<longrightarrow> midpoint ?p ?n < q"
    using midpoint_between [of ?p ?n] gap by blast+
  show ?thesis
    unfolding increasing_def
  proof (rule sorted_wrt_insert_at)
    show "sorted_wrt (\<lambda>a b. snd a < snd b) xs"
      using inc by (simp add: increasing_def)
    show "transp (\<lambda>a b :: sibling. snd a < snd b)"
      by (auto intro: transpI)
  qed (use i p n b in simp_all)
qed

lemma increasing_zip_rebalance:
  assumes "length ks < 2 ^ 40"
  shows "increasing (zip ks (rebalancePositions (length ks)))"
  using rebalancePositions_mono [OF assms]
  by (simp add: increasing_def sorted_wrt_iff_nth_less)

end
