(* ===== verification/OrderedRows.thy ===== *)
theory OrderedRows
  imports FractionalIndex "HOL-Library.Multiset"
begin

text \<open>
  Rows kept in display order by a position field: the listing the services read
  (\<open>orderBy: position asc, id asc\<close> over the rows of one parent), the bulk position write of
  \<open>apps/api/src/common/position/rebalance-sql.ts\<close>, and the interface \<open>ordered_rows\<close> under
  which columns and tasks share the proofs that an insertion lands where it was asked to.
\<close>

section \<open>Reading and writing positions\<close>

definition listing :: "('r \<Rightarrow> ident) \<Rightarrow> ('r \<Rightarrow> float64) \<Rightarrow> ('r \<Rightarrow> bool) \<Rightarrow> 'r list \<Rightarrow> 'r list" where
  "listing rid rpos S T = sort_key (\<lambda>r. (rpos r, rid r)) (filter S T)"

definition siblings :: "('r \<Rightarrow> ident) \<Rightarrow> ('r \<Rightarrow> float64) \<Rightarrow> ('r \<Rightarrow> bool) \<Rightarrow> 'r list \<Rightarrow> sibling list" where
  "siblings rid rpos S T = map (\<lambda>r. (rid r, rpos r)) (listing rid rpos S T)"

text \<open>
  \<open>UPDATE ... SET position = v.position FROM unnest(ids, positions) AS v WHERE id = v.id AND
  parent = ...\<close>: the scope \<open>S\<close> is the parent predicate.
\<close>

definition batchUpdatePositions ::
    "('r \<Rightarrow> ident) \<Rightarrow> (float64 \<Rightarrow> 'r \<Rightarrow> 'r) \<Rightarrow> ('r \<Rightarrow> bool) \<Rightarrow> (ident \<times> float64) list \<Rightarrow> 'r list \<Rightarrow> 'r list" where
  "batchUpdatePositions rid set_pos S updates T =
     map (\<lambda>r. case map_of updates (rid r) of
                Some p \<Rightarrow> if S r then set_pos p r else r
              | None \<Rightarrow> r) T"

text \<open>
  The updates a rebalance writes for the siblings: those before the insertion index keep
  their index, those after it move up by one to leave the slot free.
\<close>

definition shifted_updates :: "sibling list \<Rightarrow> nat \<Rightarrow> float64 list \<Rightarrow> (ident \<times> float64) list" where
  "shifted_updates sibs i positions =
     map (\<lambda>index. (fst (sibs ! index), positions ! (if index < i then index else index + 1)))
       [0..<length sibs]"

text \<open>
  The updates a move writes for the other rows: the moved row is spliced into the remaining
  ones, every row is paired with the position of its index, and the moved row's own pair is
  left out (it is written by a statement of its own).
\<close>

definition reordered_updates :: "sibling list \<Rightarrow> nat \<Rightarrow> sibling \<Rightarrow> float64 list \<Rightarrow> (ident \<times> float64) list" where
  "reordered_updates remaining i moved positions =
     map (\<lambda>(item, p). (fst item, p))
       (filter (\<lambda>(item, p). fst item \<noteq> fst moved) (zip (insert_at i moved remaining) positions))"

section \<open>Sorting facts\<close>

lemma sort_key_unique:
  assumes "mset ys = mset xs" and "sorted_wrt (\<lambda>a b. f a < f b) ys"
  shows "sort_key f xs = ys"
proof (rule sort_key_inj_key_eq)
  show "mset xs = mset ys" using assms(1) by simp
  have d: "sorted_wrt (<) (map f ys)" using assms(2) by (simp add: sorted_wrt_map)
  then have "distinct (map f ys)" by (simp add: strict_sorted_iff)
  then show "inj_on f (set xs)"
    using assms(1) by (metis distinct_map mset_eq_setD)
  show "sorted (map f ys)" using d by (simp add: strict_sorted_iff)
qed

lemma increasing_keys:
  assumes "increasing (map (\<lambda>r. (rid r, rpos r)) rs)"
  shows "sorted_wrt (\<lambda>a b. (rpos a, rid a) < (rpos b, rid b)) rs"
proof -
  have "sorted_wrt (\<lambda>a b. rpos a < rpos b) rs"
    using assms by (simp add: increasing_def sorted_wrt_map)
  then show ?thesis
    by (rule sorted_wrt_mono_rel [rotated]) simp
qed

lemma mset_insert_at: "mset (insert_at i x xs) = add_mset x (mset xs)"
proof -
  have "mset xs = mset (take i xs) + mset (drop i xs)"
    by (metis append_take_drop_id mset_append)
  then show ?thesis by (simp add: insert_at_def)
qed

lemma set_listing [simp]: "set (listing rid rpos S T) = {r \<in> set T. S r}"
  by (auto simp: listing_def)

lemma mset_listing: "mset (listing rid rpos S T) = mset (filter S T)"
  by (simp add: listing_def)

lemma length_siblings [simp]: "length (siblings rid rpos S T) = length (filter S T)"
  by (simp add: siblings_def listing_def)

lemma distinct_siblings:
  assumes "distinct (map rid T)"
  shows "distinct (map fst (siblings rid rpos S T))"
proof -
  have "distinct (map rid (filter S T))"
    using assms by (rule distinct_map_filter)
  then have "distinct (map rid (listing rid rpos S T))"
    by (metis mset_listing mset_eq_imp_distinct_iff mset_map)
  then show ?thesis by (simp add: siblings_def comp_def)
qed

lemma fst_shifted [simp]: "map fst (shifted_updates sibs i ps) = map fst sibs"
  by (intro nth_equalityI) (simp_all add: shifted_updates_def)

section \<open>The interface\<close>

text \<open>
  A table whose rows carry an id and a position, with a write that only changes the
  position.
\<close>

locale ordered_rows =
  fixes rid :: "'r \<Rightarrow> ident" and rpos :: "'r \<Rightarrow> float64" and set_pos :: "float64 \<Rightarrow> 'r \<Rightarrow> 'r"
  assumes rid_set_pos [simp]: "rid (set_pos p r) = rid r"
    and rpos_set_pos [simp]: "rpos (set_pos p r) = p"
begin

abbreviation lst :: "('r \<Rightarrow> bool) \<Rightarrow> 'r list \<Rightarrow> 'r list" where
  "lst \<equiv> listing rid rpos"

abbreviation sibs :: "('r \<Rightarrow> bool) \<Rightarrow> 'r list \<Rightarrow> sibling list" where
  "sibs \<equiv> siblings rid rpos"

lemma batch_ids [simp]: "map rid (batchUpdatePositions rid set_pos S u T) = map rid T"
  by (simp add: batchUpdatePositions_def split: option.splits)

text \<open>A new row at an insertion slot: the listing is the old one with the row inserted.\<close>

lemma listing_insert:
  assumes "S r" and "increasing (insert_at i (rid r, rpos r) (sibs S T))"
  shows "lst S (T @ [r]) = insert_at i r (lst S T)"
  unfolding listing_def [of _ _ _ "T @ [r]"]
proof (rule sort_key_unique)
  show "mset (insert_at i r (lst S T)) = mset (filter S (T @ [r]))"
    using assms(1) by (simp add: mset_insert_at mset_listing)
  have "increasing (map (\<lambda>r. (rid r, rpos r)) (insert_at i r (lst S T)))"
    using assms(2) by (simp add: map_insert_at siblings_def)
  then show "sorted_wrt (\<lambda>a b. (rpos a, rid a) < (rpos b, rid b)) (insert_at i r (lst S T))"
    by (rule increasing_keys)
qed

text \<open>
  Respreading the siblings over strictly increasing positions changes nothing but the
  positions: the listing keeps its order.
\<close>

lemma listing_respread:
  assumes ids: "distinct (map rid T)" and keep: "\<And>p r. S (set_pos p r) = S r"
    and u: "map fst u = map fst (sibs S T)" and inc: "sorted_wrt (<) (map snd u)"
  shows "lst S (batchUpdatePositions rid set_pos S u T) =
         map (\<lambda>r. set_pos (the (map_of u (rid r))) r) (lst S T)"
proof -
  let ?w = "\<lambda>r. set_pos (the (map_of u (rid r))) r"
  have dom: "map_of u (rid r) \<noteq> None" if "r \<in> set T" "S r" for r
  proof -
    have "rid r \<in> set (map fst (sibs S T))"
      using that by (simp add: siblings_def image_image)
    with u show ?thesis by (simp add: map_of_eq_None_iff flip: set_map)
  qed
  have filt: "filter S (batchUpdatePositions rid set_pos S u T) = map ?w (filter S T)"
    using dom keep unfolding batchUpdatePositions_def
    by (induction T) (fastforce split: option.splits)+
  have len: "length u = length (lst S T)"
    using u by (metis length_map siblings_def)
  have du: "distinct (map fst u)"
    using u distinct_siblings [OF ids] by metis
  have at: "rpos (?w (lst S T ! k)) = snd (u ! k)" if "k < length (lst S T)" for k
  proof -
    have "rid (lst S T ! k) = fst (u ! k)"
    proof -
      have "fst (u ! k) = map fst (sibs S T) ! k"
        using that len by (simp flip: u)
      also have "\<dots> = rid (lst S T ! k)"
        using that by (simp add: siblings_def)
      finally show ?thesis by simp
    qed
    then have "map_of u (rid (lst S T ! k)) = Some (snd (u ! k))"
      using du that len by (simp add: map_of_eq_Some_iff)
    then show ?thesis by simp
  qed
  have "increasing (map (\<lambda>r. (rid r, rpos r)) (map ?w (lst S T)))"
    using inc len at by (simp add: increasing_def sorted_wrt_iff_nth_less)
  then have "sorted_wrt (\<lambda>a b. (rpos a, rid a) < (rpos b, rid b)) (map ?w (lst S T))"
    by (rule increasing_keys)
  moreover have "mset (map ?w (lst S T)) = mset (map ?w (filter S T))"
    by (simp add: mset_listing)
  ultimately have "sort_key (\<lambda>r. (rpos r, rid r)) (map ?w (filter S T)) = map ?w (lst S T)"
    by (intro sort_key_unique)
  then show ?thesis
    by (simp add: listing_def [of _ _ _ "batchUpdatePositions rid set_pos S u T"] filt)
qed

text \<open>The siblings after a respread: the old ids over the new positions.\<close>

lemma siblings_respread:
  assumes ids: "distinct (map rid T)" and keep: "\<And>p r. S (set_pos p r) = S r"
    and u: "map fst u = map fst (sibs S T)" and inc: "sorted_wrt (<) (map snd u)"
  shows "sibs S (batchUpdatePositions rid set_pos S u T) = u"
proof -
  have eq: "sibs S (batchUpdatePositions rid set_pos S u T) =
      map (\<lambda>k. (k, the (map_of u k))) (map fst (sibs S T))"
    using listing_respread [OF assms] by (simp add: siblings_def comp_def)
  have "distinct (map fst u)"
    using u distinct_siblings [OF ids] by metis
  then have "map_of u (fst x) = Some (snd x)" if "x \<in> set u" for x
    using that by (simp add: map_of_eq_Some_iff)
  then have "map (\<lambda>k. (k, the (map_of u k))) (map fst u) = u"
    by (simp add: map_idI)
  with eq u show ?thesis by simp
qed

end

section \<open>Respreading around a slot\<close>

lemma snd_shifted:
  "map snd (shifted_updates sibs i ps) =
     map (\<lambda>j. ps ! (if j < i then j else j + 1)) [0..<length sibs]"
  by (simp add: shifted_updates_def)

lemma increasing_shifted:
  assumes ps: "sorted_wrt (<) ps" and len: "length ps = Suc (length sibs)" and i: "i \<le> length sibs"
  shows "increasing (insert_at i (k, ps ! i) (shifted_updates sibs i ps))"
  unfolding increasing_def
proof (rule sorted_wrt_insert_at)
  have l: "length (shifted_updates sibs i ps) = length sibs"
    by (simp add: shifted_updates_def)
  have lt: "ps ! a < ps ! b" if "a < b" "b \<le> length sibs" for a b
    using ps that len by (simp add: sorted_wrt_nth_less)
  show "sorted_wrt (\<lambda>a b. snd a < snd b) (shifted_updates sibs i ps)"
    unfolding sorted_wrt_iff_nth_less l by (auto simp: shifted_updates_def intro: lt)
  show "transp (\<lambda>a b :: sibling. snd a < snd b)"
    by (auto intro: transpI)
  show "i \<le> length (shifted_updates sibs i ps)" using i l by simp
  show "snd (shifted_updates sibs i ps ! (i - 1)) < snd (k, ps ! i)" if "0 < i"
    using that i by (simp add: shifted_updates_def lt)
  show "snd (k, ps ! i) < snd (shifted_updates sibs i ps ! i)"
    if "i < length (shifted_updates sibs i ps)"
    using that l by (simp add: shifted_updates_def lt)
qed

lemma reordered_eq_shifted:
  assumes "fst moved \<notin> fst ` set remaining" and "i \<le> length remaining"
    and "length ps = Suc (length remaining)"
  shows "reordered_updates remaining i moved ps = shifted_updates remaining i ps"
proof -
  let ?f = "\<lambda>(item, p). fst item \<noteq> fst moved"
  have z: "zip (insert_at i moved remaining) ps =
      zip (take i remaining) (take i ps) @ (moved, ps ! i) # zip (drop i remaining) (drop (Suc i) ps)"
  proof -
    have "ps = take i ps @ ps ! i # drop (Suc i) ps"
      using assms(2,3) by (simp add: id_take_nth_drop)
    then show ?thesis
      using assms(2,3) by (metis (no_types, lifting) insert_at_def length_take less_Suc_eq_le
          min.absorb2 less_imp_le_nat zip_Cons_Cons zip_append)
  qed
  have keep: "filter ?f (zip xs qs) = zip xs qs"
    if sub: "set xs \<subseteq> set remaining" for xs and qs :: "float64 list"
  proof -
    have "fst item \<noteq> fst moved" if "(item, p) \<in> set (zip xs qs)" for item p
      using that sub assms(1) by (metis image_eqI set_zip_leftD subsetD)
    then show ?thesis by (auto simp: filter_id_conv)
  qed
  have "filter ?f (zip (insert_at i moved remaining) ps) =
      zip (take i remaining) (take i ps) @ zip (drop i remaining) (drop (Suc i) ps)"
    unfolding z by (simp add: keep set_take_subset set_drop_subset)
  then have "reordered_updates remaining i moved ps =
      map (\<lambda>(item, p). (fst item, p))
        (zip (take i remaining) (take i ps) @ zip (drop i remaining) (drop (Suc i) ps))"
    by (simp add: reordered_updates_def)
  also have "\<dots> = shifted_updates remaining i ps"
    using assms(2,3) by (intro nth_equalityI) (auto simp: shifted_updates_def nth_append)
  finally show ?thesis .
qed

section \<open>Inserting and moving\<close>

text \<open>The write of one row, found by its id.\<close>

definition replaceRow :: "('r \<Rightarrow> ident) \<Rightarrow> ident \<Rightarrow> 'r \<Rightarrow> 'r list \<Rightarrow> 'r list" where
  "replaceRow rid k r T = map (\<lambda>x. if rid x = k then r else x) T"

text \<open>A write of the rows a key predicate selects is the write of the one row found under it.\<close>

lemma replace_found:
  assumes "distinct (map rid T)" and "find K T = Some row" and "\<And>x. K x \<Longrightarrow> rid x = k"
  shows "map (\<lambda>x. if K x then f x else x) T = replaceRow rid k (f row) T"
    and "k \<in> set (map rid T)" and "rid row = k" and "row \<in> set T"
proof -
  have row: "row \<in> set T" "K row" using assms(2) by (auto dest: find_Some_iff_mem)
  then show "row \<in> set T" "rid row = k" by (simp_all add: assms(3))
  with row show "k \<in> set (map rid T)" by auto
  have same: "x = row" if "x \<in> set T" "rid x = k" for x
    using that row(1) \<open>rid row = k\<close> assms(1) by (simp add: distinct_map inj_on_def)
  have "(if K x then f x else x) = (if rid x = k then f row else x)" if "x \<in> set T" for x
    using same [OF that] row(2) assms(3) [of x] by (cases "rid x = k") auto
  then show "map (\<lambda>x. if K x then f x else x) T = replaceRow rid k (f row) T"
    by (simp add: replaceRow_def)
qed

definition gap_pos :: "sibling option \<Rightarrow> float64 option" where
  "gap_pos = map_option snd"

context ordered_rows
begin

lemma siblings_filter:
  "filter (\<lambda>it. fst it \<noteq> k) (sibs S T) = sibs S (filter (\<lambda>r. rid r \<noteq> k) T)"
  by (simp add: siblings_def listing_def filter_map comp_def conj_commute flip: filter_sort)

lemma siblings_insert:
  assumes "S r" and "increasing (insert_at i (rid r, rpos r) (sibs S T))"
  shows "sibs S (T @ [r]) = insert_at i (rid r, rpos r) (sibs S T)"
  using listing_insert [OF assms] by (simp add: siblings_def map_insert_at)

lemma mset_replace:
  assumes "distinct (map rid T)" and "k \<in> set (map rid T)" and "S m"
  shows "mset (filter S (replaceRow rid k m T)) =
         add_mset m (mset (filter S (filter (\<lambda>r. rid r \<noteq> k) T)))"
  using assms
proof (induction T)
  case Nil
  then show ?case by simp
next
  case (Cons x xs)
  show ?case
  proof (cases "rid x = k")
    case True
    with Cons.prems have no: "\<forall>r \<in> set xs. rid r \<noteq> k"
      by (metis distinct.simps(2) image_eqI list.simps(9) set_map)
    then have "replaceRow rid k m xs = xs" and "filter (\<lambda>r. rid r \<noteq> k) xs = xs"
      by (auto simp: replaceRow_def intro: map_idI)
    with True Cons.prems(3) show ?thesis by (simp add: replaceRow_def)
  next
    case False
    with Cons show ?thesis by (simp add: replaceRow_def)
  qed
qed

text \<open>
  The moved row written at a slot of the remaining ones: the listing is the remaining rows
  with the moved one inserted.
\<close>

lemma siblings_replace:
  assumes "distinct (map rid T)" and "k \<in> set (map rid T)" and "S m" and "rid m = k"
    and inc: "increasing (insert_at i (k, rpos m) (sibs S (filter (\<lambda>r. rid r \<noteq> k) T)))"
  shows "sibs S (replaceRow rid k m T) =
         insert_at i (k, rpos m) (sibs S (filter (\<lambda>r. rid r \<noteq> k) T))"
proof -
  let ?T0 = "filter (\<lambda>r. rid r \<noteq> k) T"
  have "lst S (replaceRow rid k m T) = lst S (?T0 @ [m])"
  proof -
    have "lst S (?T0 @ [m]) = insert_at i m (lst S ?T0)"
      using assms(3,4) inc by (intro listing_insert) simp_all
    moreover have "increasing (map (\<lambda>r. (rid r, rpos r)) (insert_at i m (lst S ?T0)))"
      using inc assms(4) by (simp add: map_insert_at siblings_def)
    then have keys:
      "sorted_wrt (\<lambda>a b. (rpos a, rid a) < (rpos b, rid b)) (insert_at i m (lst S ?T0))"
      by (rule increasing_keys)
    have "lst S (replaceRow rid k m T) = insert_at i m (lst S ?T0)"
      unfolding listing_def [of _ _ _ "replaceRow rid k m T"]
    proof (rule sort_key_unique)
      show "mset (insert_at i m (lst S ?T0)) = mset (filter S (replaceRow rid k m T))"
        unfolding mset_insert_at mset_listing using mset_replace [of T k S m, OF assms(1-3)] by simp
    qed (rule keys)
    ultimately show ?thesis by simp
  qed
  moreover have "sibs S (?T0 @ [m]) = insert_at i (rid m, rpos m) (sibs S ?T0)"
    using assms(3,4) inc by (intro siblings_insert) simp_all
  ultimately show ?thesis using assms(4) by (simp add: siblings_def)
qed

lemma batch_filter:
  "filter (\<lambda>r. rid r \<noteq> k) (batchUpdatePositions rid set_pos S u T) =
   batchUpdatePositions rid set_pos S u (filter (\<lambda>r. rid r \<noteq> k) T)"
  by (induction T) (auto simp: batchUpdatePositions_def split: option.splits)

lemma batch_replace:
  assumes "map_of u k = None" and "rid m = k"
  shows "batchUpdatePositions rid set_pos S u (replaceRow rid k m T) =
         replaceRow rid k m (batchUpdatePositions rid set_pos S u T)"
  using assms by (auto simp: batchUpdatePositions_def replaceRow_def split: option.splits)

text \<open>
  The two branches of an insertion at a slot, rebalance or not, lead to the same order and
  keep the positions strictly increasing.
\<close>

lemma increasing_slot:
  assumes "increasing (sibs S T)" and "slot_of (sibs S T) i s"
    and "\<forall>x \<in> set (sibs S T). safe_position (snd x)"
    and "\<not> needsRebalance (gap_pos (prev s)) (gap_pos (nxt s))"
  shows "increasing (insert_at i (k, midpoint (gap_pos (prev s)) (gap_pos (nxt s))) (sibs S T))"
  using increasing_insert [OF assms(1-3)] assms(4) by (simp add: gap_pos_def)

lemma siblings_rebalanced:
  assumes ids: "distinct (map rid T)" and keep: "\<And>p r. S (set_pos p r) = S r"
    and i: "i \<le> length (sibs S T)" and len: "Suc (length (sibs S T)) < 2 ^ 40"
  defines "ps \<equiv> rebalancePositions (Suc (length (sibs S T)))"
  shows "sibs S (batchUpdatePositions rid set_pos S (shifted_updates (sibs S T) i ps) T) =
           shifted_updates (sibs S T) i ps"
    and "increasing (insert_at i (k, ps ! i) (shifted_updates (sibs S T) i ps))"
proof -
  have ps: "sorted_wrt (<) ps" "length ps = Suc (length (sibs S T))"
    using len by (simp_all add: ps_def rebalancePositions_mono)
  show inc: "increasing (insert_at i (k, ps ! i) (shifted_updates (sibs S T) i ps))" for k
    using ps i by (rule increasing_shifted)
  have "sorted_wrt (<) (map snd (shifted_updates (sibs S T) i ps))"
    using ps i by (simp add: snd_shifted sorted_wrt_iff_nth_less sorted_wrt_nth_less)
  then show "sibs S (batchUpdatePositions rid set_pos S (shifted_updates (sibs S T) i ps) T) =
      shifted_updates (sibs S T) i ps"
    by (intro siblings_respread ids keep) simp_all
qed

text \<open>A row created at a slot, on both branches.\<close>

lemma inserted_order:
  assumes ids: "distinct (map rid T)" and keep: "\<And>p r. S (set_pos p r) = S r"
    and inc: "increasing (sibs S T)" and slot: "slot_of (sibs S T) i s"
    and safe: "\<forall>x \<in> set (sibs S T). safe_position (snd x)"
    and len: "Suc (length (sibs S T)) < 2 ^ 40" and r: "S r"
  defines "reb \<equiv> needsRebalance (gap_pos (prev s)) (gap_pos (nxt s))"
    and "ps \<equiv> rebalancePositions (Suc (length (sibs S T)))"
  assumes pos: "rpos r = (if reb then ps ! i else midpoint (gap_pos (prev s)) (gap_pos (nxt s)))"
    and T': "T' = (if reb then batchUpdatePositions rid set_pos S (shifted_updates (sibs S T) i ps) T else T) @ [r]"
  shows "map fst (sibs S T') = insert_at i (rid r) (map fst (sibs S T)) \<and> increasing (sibs S T')"
proof -
  define base where
    "base = (if reb then batchUpdatePositions rid set_pos S (shifted_updates (sibs S T) i ps) T else T)"
  have i: "i \<le> length (sibs S T)" using slot by (simp add: slot_of_def)
  have base: "map fst (sibs S base) = map fst (sibs S T) \<and>
      increasing (insert_at i (rid r, rpos r) (sibs S base))"
  proof (cases reb)
    case True
    have "sibs S base = shifted_updates (sibs S T) i ps"
      using siblings_rebalanced(1) [of T S i, OF ids keep i len] True by (simp add: base_def ps_def)
    moreover have "increasing (insert_at i (rid r, ps ! i) (shifted_updates (sibs S T) i ps))"
      using siblings_rebalanced(2) [of T S i "rid r", OF ids keep i len] by (simp add: ps_def)
    ultimately show ?thesis using True pos by simp
  next
    case False
    with increasing_slot [OF inc slot safe] pos show ?thesis
      by (simp add: base_def reb_def)
  qed
  moreover have "sibs S T' = insert_at i (rid r, rpos r) (sibs S base)"
    unfolding T' base_def [symmetric] using r base by (intro siblings_insert) simp_all
  ultimately show ?thesis by (simp add: map_insert_at)
qed

text \<open>A row moved to a slot of the others, on both branches.\<close>

lemma moved_order:
  fixes k :: ident and T :: "'r list"
  defines "T0 \<equiv> filter (\<lambda>r. rid r \<noteq> k) T"
  assumes ids: "distinct (map rid T)" and k: "k \<in> set (map rid T)"
    and keep: "\<And>p r. S (set_pos p r) = S r"
    and inc: "increasing (sibs S T0)" and slot: "slot_of (sibs S T0) i s"
    and safe: "\<forall>x \<in> set (sibs S T0). safe_position (snd x)"
    and len: "Suc (length (sibs S T0)) < 2 ^ 40" and m: "S m" "rid m = k"
  defines "reb \<equiv> needsRebalance (gap_pos (prev s)) (gap_pos (nxt s))"
    and "ps \<equiv> rebalancePositions (Suc (length (sibs S T0)))"
  assumes pos: "rpos m = (if reb then ps ! i else midpoint (gap_pos (prev s)) (gap_pos (nxt s)))"
    and T': "T' = (if reb then batchUpdatePositions rid set_pos S
                     (reordered_updates (sibs S T0) i (k, old) ps) (replaceRow rid k m T)
                   else replaceRow rid k m T)"
  shows "map fst (sibs S T') = insert_at i k (map fst (sibs S T0)) \<and> increasing (sibs S T')"
proof (cases reb)
  case False
  have "increasing (insert_at i (k, rpos m) (sibs S T0))"
    using increasing_slot [OF inc slot safe] pos False by (simp add: reb_def)
  then have "sibs S T' = insert_at i (k, rpos m) (sibs S T0)"
    using False siblings_replace [of T k S m i] ids k m by (simp add: T' T0_def)
  with \<open>increasing (insert_at i (k, rpos m) (sibs S T0))\<close> show ?thesis
    by (simp add: map_insert_at)
next
  case True
  let ?u = "shifted_updates (sibs S T0) i ps" and ?B = "batchUpdatePositions rid set_pos S"
  have i: "i \<le> length (sibs S T0)" using slot by (simp add: slot_of_def)
  have new: "k \<notin> fst ` set (sibs S T0)"
    by (auto simp: T0_def siblings_def)
  have u: "reordered_updates (sibs S T0) i (k, old) ps = ?u"
    using i new by (intro reordered_eq_shifted) (simp_all add: ps_def)
  have "map_of ?u k = None"
    using new by (metis fst_shifted map_of_eq_None_iff set_map)
  then have T'': "T' = replaceRow rid k m (?B ?u T)"
    using True m(2) by (simp add: T' u batch_replace)
  have ids0: "distinct (map rid T0)"
    unfolding T0_def using ids by (rule distinct_map_filter)
  have B0: "filter (\<lambda>r. rid r \<noteq> k) (?B ?u T) = ?B ?u T0"
    by (simp add: T0_def batch_filter)
  have sib: "sibs S (?B ?u T0) = ?u"
    and "increasing (insert_at i (k, ps ! i) ?u)"
    using siblings_rebalanced(1) [of T0 S i, OF ids0 keep i len]
      siblings_rebalanced(2) [of T0 S i k, OF ids0 keep i len] by (simp_all add: ps_def)
  then have inc': "increasing (insert_at i (k, rpos m) (sibs S (filter (\<lambda>r. rid r \<noteq> k) (?B ?u T))))"
    using True pos by (simp add: B0)
  have "sibs S T' = insert_at i (k, rpos m) ?u"
    using siblings_replace [of "?B ?u T" k S m i, OF _ _ m inc'] ids k
    by (simp add: T'' B0 sib)
  then show ?thesis
    using inc' by (simp add: map_insert_at B0 sib)
qed

end

end
