(* ===== verification/SlotOrder.thy ===== *)
theory SlotOrder
  imports OrderedRows
begin

text \<open>
  The order of a list as its clients see it: a list of ids, in which a created or moved row
  is put after the row named as its predecessor, else before the row named as its successor,
  else at the end. \<open>resolveMoveNeighbors\<close> and \<open>resolveCreateNeighbors\<close> compute that place.
\<close>

fun insert_after :: "'a \<Rightarrow> 'a \<Rightarrow> 'a list \<Rightarrow> 'a list" where
  "insert_after a k [] = []"
| "insert_after a k (x # xs) = (if x = a then x # k # xs else x # insert_after a k xs)"

fun insert_before :: "'a \<Rightarrow> 'a \<Rightarrow> 'a list \<Rightarrow> 'a list" where
  "insert_before a k [] = []"
| "insert_before a k (x # xs) = (if x = a then k # x # xs else x # insert_before a k xs)"

definition slotted :: "ident option \<Rightarrow> ident option \<Rightarrow> ident \<Rightarrow> ident list \<Rightarrow> ident list" where
  "slotted prevId nextId k xs =
     (if truthy prevId then insert_after (the prevId) k xs
      else if truthy nextId then insert_before (the nextId) k xs
      else xs @ [k])"

lemma findIndex_map: "findIndex P (map f xs) = findIndex (\<lambda>x. P (f x)) xs"
  by (induction xs) (auto simp: Let_def)

lemma insert_at_Suc [simp]: "insert_at (Suc i) k (x # xs) = x # insert_at i k xs"
  by (simp add: insert_at_def)

lemma insert_at_0 [simp]: "insert_at 0 k xs = k # xs"
  by (simp add: insert_at_def)

lemma insert_at_length [simp]: "insert_at (length xs) k xs = xs @ [k]"
  by (simp add: insert_at_def)

lemma nat_Suc_index: "0 \<le> i \<Longrightarrow> nat (i + 1) = Suc (nat i)"
  by simp

lemma insert_after_index:
  "0 \<le> findIndex (\<lambda>x. x = a) xs \<Longrightarrow> insert_after a k xs = insert_at (Suc (nat (findIndex (\<lambda>x. x = a) xs))) k xs"
  by (induction xs) (auto simp: Let_def nat_Suc_index split: if_splits)

lemma insert_before_index:
  "0 \<le> findIndex (\<lambda>x. x = a) xs \<Longrightarrow> insert_before a k xs = insert_at (nat (findIndex (\<lambda>x. x = a) xs)) k xs"
  by (induction xs) (auto simp: Let_def nat_Suc_index split: if_splits)

lemma findIndex_absent: "k \<notin> fst ` set xs \<Longrightarrow> findIndex (\<lambda>it. fst it = k) xs < 0"
  by (simp add: findIndex_neg_iff) blast

lemma resolveMove_slotted:
  assumes "resolveMoveNeighbors xs p n = Inr s" and "[] \<notin> fst ` set xs" and "insertionIndex s = int i"
  shows "insert_at i k (map fst xs) = slotted p n k (map fst xs)"
proof -
  let ?ix = "\<lambda>q. case q of None \<Rightarrow> -1 | Some k \<Rightarrow> findIndex (\<lambda>it. fst it = k) xs"
  have absent: "?ix q < 0" if "\<not> truthy q" for q
    using that findIndex_absent [OF assms(2)] by (cases q) (simp_all add: truthy_def)
  have i: "int i = (if 0 \<le> ?ix p then ?ix p + 1 else if 0 \<le> ?ix n then ?ix n else int (length xs))"
    using assms(1,3) by (auto simp: resolveMoveNeighbors_def Let_def sliceSlot_def split: if_splits)
  have here: "0 \<le> ?ix q" if "truthy q" "q = p \<or> q = n" for q
    using that assms(1) by (force simp: resolveMoveNeighbors_def Let_def split: if_splits)
  have named: "?ix q = findIndex (\<lambda>x. x = the q) (map fst xs)" if "truthy q" for q
    using that by (cases q) (simp_all add: truthy_def findIndex_map)
  show ?thesis
  proof (cases "truthy p")
    case True
    then have "i = Suc (nat (findIndex (\<lambda>x. x = the p) (map fst xs)))"
      using i here [of p] named [of p] by simp
    with True here [of p] named [of p] show ?thesis by (simp add: slotted_def insert_after_index)
  next
    case p: False
    show ?thesis
    proof (cases "truthy n")
      case True
      then have "i = nat (findIndex (\<lambda>x. x = the n) (map fst xs))"
        using i here [of n] named [of n] absent [OF p] by simp
      with p True here [of n] named [of n] show ?thesis by (simp add: slotted_def insert_before_index)
    next
      case False
      then have "i = length (map fst xs)" using i absent [OF p] absent [OF False] by simp
      with p False show ?thesis by (simp add: slotted_def del: length_map)
    qed
  qed
qed

lemma resolveCreate_slotted:
  assumes "resolveCreateNeighbors xs p msg = Inr s" and "insertionIndex s = int i"
  shows "insert_at i k (map fst xs) = slotted p None k (map fst xs)"
proof (cases "truthy p")
  case True
  then have ix: "findIndex (\<lambda>it. Some (fst it) = p) xs = findIndex (\<lambda>x. x = the p) (map fst xs)"
    by (cases p) (simp_all add: truthy_def findIndex_map)
  then have "0 \<le> findIndex (\<lambda>x. x = the p) (map fst xs)"
    "i = Suc (nat (findIndex (\<lambda>x. x = the p) (map fst xs)))"
    using True assms by (auto simp: resolveCreateNeighbors_def Let_def sliceSlot_def split: if_splits)
  with True show ?thesis by (simp add: slotted_def insert_after_index)
next
  case False
  then have "i = length (map fst xs)"
    using assms by (auto simp: resolveCreateNeighbors_def Let_def sliceSlot_def split: if_splits)
  with False show ?thesis by (simp add: slotted_def truthy_def del: length_map)
qed

end
