(* ===== verification/Database.thy ===== *)
theory Database
  imports OrderedRows
begin

text \<open>
  The data the API keeps: the rows of \<open>apps/api/prisma/schema.prisma\<close> (one record per model,
  one list per table), the JSON values of its \<open>Json\<close> columns, and the world a request handler
  runs in: the database, the socket events and mails sent so far, the clock, and the supply
  of identifiers that \<open>@default(uuid(7))\<close> draws from. Transactions roll the tables back and
  nothing else. Deletions follow the \<open>onDelete\<close> clauses of the schema.
\<close>

section \<open>Values\<close>

datatype json =
    JNull
  | JBool bool
  | JNum rat
  | JStr string
  | JArr "json list"
  | JObj "(string \<times> json) list"

definition json_opt_str :: "string option \<Rightarrow> json" where
  "json_opt_str x = (case x of None \<Rightarrow> JNull | Some v \<Rightarrow> JStr v)"

datatype priority = LOW | MEDIUM | HIGH | URGENT

datatype member_role = OWNER | ADMIN | MEMBER | GUEST

datatype column_category = BACKLOG | UNSTARTED | STARTED | COMPLETED | CANCELED

datatype attachment_kind = FILE | LINK

text \<open>\<open>ActivityType\<close> of \<open>packages/shared-types/src/activity.ts\<close>.\<close>

datatype activity_type =
    TaskCreated | TaskUpdated | TaskMoved | TaskDeleted | TaskAssigned | TaskUnassigned
  | TaskLabelAdded | TaskLabelRemoved | CommentCreated | AttachmentCreated | AttachmentDeleted
  | BoardCreated | BoardUpdated | BoardDeleted | BoardImported
  | ColumnCreated | ColumnUpdated | ColumnDeleted | LabelCreated | LabelUpdated | LabelDeleted
  | WorkspaceUpdated | MemberRemoved | MemberLeft | MemberRoleChanged
  | InvitationCreated | InvitationRevoked | InvitationAccepted | AccountDeleted
  | TokenCreated | TokenRevoked

text \<open>The interface languages of \<open>packages/shared-types/src/locales.ts\<close>.\<close>

datatype lang = En | Tr

datatype notification_type = Assignment | Mention | DueSoon

fun category_name :: "column_category \<Rightarrow> string" where
  "category_name BACKLOG = ''BACKLOG''"
| "category_name UNSTARTED = ''UNSTARTED''"
| "category_name STARTED = ''STARTED''"
| "category_name COMPLETED = ''COMPLETED''"
| "category_name CANCELED = ''CANCELED''"

fun role_name :: "member_role \<Rightarrow> string" where
  "role_name OWNER = ''OWNER''"
| "role_name ADMIN = ''ADMIN''"
| "role_name MEMBER = ''MEMBER''"
| "role_name GUEST = ''GUEST''"

fun priority_name :: "priority \<Rightarrow> string" where
  "priority_name LOW = ''LOW''"
| "priority_name MEDIUM = ''MEDIUM''"
| "priority_name HIGH = ''HIGH''"
| "priority_name URGENT = ''URGENT''"

section \<open>Rows\<close>

record user_row =
  u_id :: ident
  u_email :: string
  u_name :: string
  u_emailVerified :: bool
  u_avatarUrl :: "string option"
  u_locale :: "string option"
  u_emailNotifications :: bool
  u_deletedAt :: "millis option"

record workspace_row =
  w_id :: ident
  w_name :: string
  w_slug :: string
  w_planLimits :: "json option"

record member_row =
  m_id :: ident
  m_workspaceId :: ident
  m_userId :: ident
  m_role :: member_role

record invitation_row =
  i_id :: ident
  i_email :: string
  i_inviterId :: ident
  i_workspaceId :: ident
  i_role :: "string option"
  i_status :: string
  i_expiresAt :: millis
  i_createdAt :: millis

record board_row =
  b_id :: ident
  b_workspaceId :: ident
  b_name :: string
  b_description :: "string option"
  b_createdAt :: millis

record column_row =
  c_id :: ident
  c_boardId :: ident
  c_name :: string
  c_position :: float64
  c_color :: "string option"
  c_category :: column_category

record task_row =
  t_id :: ident
  t_boardId :: ident
  t_columnId :: ident
  t_title :: string
  t_description :: "string option"
  t_priority :: priority
  t_position :: float64
  t_dueDate :: "millis option"
  t_estimatedMinutes :: "int option"
  t_createdById :: ident
  t_createdAt :: millis
  t_updatedAt :: millis

record assignee_row =
  ta_id :: ident
  ta_taskId :: ident
  ta_userId :: ident

record label_row =
  l_id :: ident
  l_boardId :: ident
  l_name :: string
  l_color :: string

record task_label_row =
  tl_id :: ident
  tl_taskId :: ident
  tl_labelId :: ident

record comment_row =
  cm_id :: ident
  cm_taskId :: ident
  cm_userId :: ident
  cm_body :: string
  cm_createdAt :: millis

record attachment_row =
  a_id :: ident
  a_taskId :: ident
  a_uploadedById :: ident
  a_kind :: attachment_kind
  a_filename :: string
  a_storageKey :: "string option"
  a_mimeType :: "string option"
  a_size :: "int option"
  a_url :: "string option"
  a_createdAt :: millis

record checklist_row =
  cl_id :: ident
  cl_taskId :: ident
  cl_title :: string
  cl_position :: float64

record item_row =
  ci_id :: ident
  ci_checklistId :: ident
  ci_content :: string
  ci_isDone :: bool
  ci_position :: float64

record activity_row =
  ac_id :: ident
  ac_workspaceId :: ident
  ac_taskId :: "ident option"
  ac_userId :: ident
  ac_type :: activity_type
  ac_payload :: json
  ac_createdAt :: millis

record notification_row =
  n_id :: ident
  n_workspaceId :: ident
  n_userId :: ident
  n_type :: notification_type
  n_taskId :: "ident option"
  n_activityId :: "ident option"
  n_payload :: json
  n_readAt :: "millis option"
  n_createdAt :: millis

record token_row =
  tk_id :: ident
  tk_workspaceId :: ident
  tk_userId :: ident
  tk_name :: string
  tk_prefix :: string
  tk_tokenHash :: string
  tk_lastUsedAt :: "millis option"
  tk_expiresAt :: "millis option"
  tk_revokedAt :: "millis option"
  tk_createdAt :: millis

text \<open>
  The tables of the authentication library that account deletion and the retention sweep write,
  and the daily usage pings.
\<close>

record session_row =
  ss_id :: ident
  ss_userId :: ident
  ss_expiresAt :: millis

record account_row =
  acc_id :: ident
  acc_userId :: ident

record verification_row =
  vf_id :: ident
  vf_identifier :: string
  vf_value :: string
  vf_expiresAt :: millis

record ping_row =
  up_id :: ident
  up_userId :: ident
  up_workspaceId :: ident
  up_kind :: string
  up_day :: int
  up_createdAt :: millis

record database =
  users :: "user_row list"
  workspaces :: "workspace_row list"
  members :: "member_row list"
  invitations :: "invitation_row list"
  boards :: "board_row list"
  columns :: "column_row list"
  tasks :: "task_row list"
  assignees :: "assignee_row list"
  labels :: "label_row list"
  task_labels :: "task_label_row list"
  comments :: "comment_row list"
  attachments :: "attachment_row list"
  checklists :: "checklist_row list"
  items :: "item_row list"
  activities :: "activity_row list"
  notifications :: "notification_row list"
  tokens :: "token_row list"
  sessions :: "session_row list"
  accounts :: "account_row list"
  verifications :: "verification_row list"
  pings :: "ping_row list"

definition empty_database :: database where
  "empty_database = \<lparr>users = [], workspaces = [], members = [], invitations = [], boards = [],
     columns = [], tasks = [], assignees = [], labels = [], task_labels = [], comments = [],
     attachments = [], checklists = [], items = [], activities = [], notifications = [], tokens = [],
     sessions = [], accounts = [], verifications = [], pings = []\<rparr>"

section \<open>The world\<close>

text \<open>
  Socket events as \<open>RealtimeService\<close> publishes them: to a board's room, or to one user's room
  in one workspace. The payload is the event's own fields beside the scope.
\<close>

datatype socket_event =
    TASK_CREATED | TASK_UPDATED | TASK_MOVED | TASK_DELETED | COLUMN_CHANGED | COMMENT_ADDED
  | NOTIFICATION_UNREAD_CHANGED

datatype emission =
    ToBoard ident socket_event ident ident "(string \<times> json) list"
  | ToUser ident ident socket_event
  | EvictUser ident ident

text \<open>
  An email as what it is built from: the recipient and the facts the template of
  \<open>mail/mail-templates.ts\<close> puts into words. \<open>None\<close> as due date where the template has none.
\<close>

record mail_message =
  mm_to :: string
  mm_type :: notification_type
  mm_taskTitle :: string
  mm_workspaceName :: string
  mm_taskUrl :: string
  mm_locale :: lang
  mm_actorName :: string
  mm_dueDate :: "millis option"

text \<open>A file of the attachment store: its key, its bytes, the time it was written.\<close>

record stored_file =
  sf_key :: string
  sf_bytes :: string
  sf_modifiedAt :: millis

record world =
  db :: database
  outbox :: "emission list"
  mails :: "mail_message list"
  clock :: millis
  environ :: "string \<Rightarrow> string option"
  uuids :: "nat \<Rightarrow> ident"
  drawn :: nat
  logs :: "json list"
  files :: "stored_file list"

type_synonym 'a request = "(world, 'a) action"

definition readDb :: "(database \<Rightarrow> 'a) \<Rightarrow> 'a request" where
  "readDb f = query (\<lambda>s. f (db s))"

definition writeDb :: "(database \<Rightarrow> database) \<Rightarrow> unit request" where
  "writeDb f = modify (\<lambda>s. s\<lparr>db := f (db s)\<rparr>)"

definition now :: "millis request" where
  "now = query clock"

definition freshId :: "ident request" where
  "freshId s = (Inr (uuids s (drawn s)), s\<lparr>drawn := Suc (drawn s)\<rparr>)"

definition emitToBoard ::
    "ident \<Rightarrow> socket_event \<Rightarrow> ident \<Rightarrow> ident \<Rightarrow> (string \<times> json) list \<Rightarrow> unit request" where
  "emitToBoard boardId event workspaceId actorId payload =
     modify (\<lambda>s. s\<lparr>outbox := outbox s @ [ToBoard boardId event workspaceId actorId payload]\<rparr>)"

definition emitToUser :: "ident \<Rightarrow> ident \<Rightarrow> socket_event \<Rightarrow> unit request" where
  "emitToUser workspaceId userId event =
     modify (\<lambda>s. s\<lparr>outbox := outbox s @ [ToUser workspaceId userId event]\<rparr>)"

text \<open>\<open>prisma.$transaction\<close>: a refusal restores the tables; identifiers stay drawn.\<close>

definition transaction :: "'a request \<Rightarrow> 'a request" where
  "transaction m s =
     (case m s of (Inl e, s') \<Rightarrow> (Inl e, s'\<lparr>db := db s\<rparr>) | (Inr x, s') \<Rightarrow> (Inr x, s'))"

definition sendMail :: "mail_message \<Rightarrow> unit request" where
  "sendMail message = modify (\<lambda>s. s\<lparr>mails := mails s @ [message]\<rparr>)"

text \<open>\<open>evictUserFromWorkspaceSockets\<close>: the order to the socket server to drop a user's rooms.\<close>

definition evictUser :: "ident \<Rightarrow> ident \<Rightarrow> unit request" where
  "evictUser workspaceId userId =
     modify (\<lambda>s. s\<lparr>outbox := outbox s @ [EvictUser workspaceId userId]\<rparr>)"

text \<open>A JSON line on the log.\<close>

definition logLine :: "json \<Rightarrow> unit request" where
  "logLine line = modify (\<lambda>s. s\<lparr>logs := logs s @ [line]\<rparr>)"

lemma evictUser_run [run]: "evictUser w u s = (Inr (), s\<lparr>outbox := outbox s @ [EvictUser w u]\<rparr>)"
  by (simp add: evictUser_def modify_def)

lemma andThen_evictUser [run]:
  "andThen (evictUser w u) f s = f () (s\<lparr>outbox := outbox s @ [EvictUser w u]\<rparr>)"
  by (simp add: evictUser_def andThen_modify)

lemma logLine_run [run]: "logLine line s = (Inr (), s\<lparr>logs := logs s @ [line]\<rparr>)"
  by (simp add: logLine_def modify_def)

lemma andThen_logLine [run]: "andThen (logLine line) f s = f () (s\<lparr>logs := logs s @ [line]\<rparr>)"
  by (simp add: logLine_def andThen_modify)

lemma sendMail_run [run]: "sendMail m s = (Inr (), s\<lparr>mails := mails s @ [m]\<rparr>)"
  by (simp add: sendMail_def modify_def)

lemma readDb_run [run]: "readDb f s = (Inr (f (db s)), s)"
  by (simp add: readDb_def query_def)

lemma writeDb_run [run]: "writeDb f s = (Inr (), s\<lparr>db := f (db s)\<rparr>)"
  by (simp add: writeDb_def modify_def)

lemma now_run [run]: "now s = (Inr (clock s), s)"
  by (simp add: now_def query_def)

lemma freshId_run [run]: "freshId s = (Inr (uuids s (drawn s)), s\<lparr>drawn := Suc (drawn s)\<rparr>)"
  by (simp add: freshId_def)

lemma emitToBoard_run [run]:
  "emitToBoard b e w a p s = (Inr (), s\<lparr>outbox := outbox s @ [ToBoard b e w a p]\<rparr>)"
  by (simp add: emitToBoard_def modify_def)

lemma emitToUser_run [run]:
  "emitToUser w u e s = (Inr (), s\<lparr>outbox := outbox s @ [ToUser w u e]\<rparr>)"
  by (simp add: emitToUser_def modify_def)

lemma andThen_readDb [run]: "andThen (readDb f) g s = g (f (db s)) s"
  by (simp add: andThen_def readDb_run)

lemma andThen_writeDb [run]: "andThen (writeDb f) g s = g () (s\<lparr>db := f (db s)\<rparr>)"
  by (simp add: andThen_def writeDb_run)

lemma andThen_now [run]: "andThen now g s = g (clock s) s"
  by (simp add: andThen_def now_run)

lemma andThen_freshId [run]:
  "andThen freshId g s = g (uuids s (drawn s)) (s\<lparr>drawn := Suc (drawn s)\<rparr>)"
  by (simp add: andThen_def freshId_run)

lemma andThen_emitToBoard [run]:
  "andThen (emitToBoard b e w a p) g s = g () (s\<lparr>outbox := outbox s @ [ToBoard b e w a p]\<rparr>)"
  by (simp add: andThen_def emitToBoard_run)

lemma andThen_emitToUser [run]:
  "andThen (emitToUser w u e) g s = g () (s\<lparr>outbox := outbox s @ [ToUser w u e]\<rparr>)"
  by (simp add: andThen_def emitToUser_run)

text \<open>A transaction that succeeds is its body; one that is refused leaves the tables alone.\<close>

lemma transaction_ok: "transaction m s = (Inr x, s') \<longleftrightarrow> m s = (Inr x, s')"
  by (auto simp: transaction_def split: prod.splits sum.splits)

lemma transaction_error:
  "transaction m s = (Inl e, s') \<longleftrightarrow> (\<exists>t. m s = (Inl e, t) \<and> s' = t\<lparr>db := db s\<rparr>)"
  by (auto simp: transaction_def split: prod.splits sum.splits)

lemma transaction_rolls_back: "fst (transaction m s) = Inl e \<Longrightarrow> db (snd (transaction m s)) = db s"
  by (auto simp: transaction_def split: prod.splits sum.splits)

lemma andThen_transaction:
  "andThen (transaction m) f s =
     (case m s of (Inl e, s') \<Rightarrow> (Inl e, s'\<lparr>db := db s\<rparr>) | (Inr x, s') \<Rightarrow> f x s')"
  by (auto simp: andThen_def transaction_def split: prod.splits sum.splits)

section \<open>Deletions\<close>

text \<open>A task's composite foreign key \<open>(boardId, columnId)\<close> and the key it refers to.\<close>

definition column_key :: "column_row \<Rightarrow> ident \<times> ident" where
  "column_key c = (c_boardId c, c_id c)"

definition task_column :: "task_row \<Rightarrow> ident \<times> ident" where
  "task_column t = (t_boardId t, t_columnId t)"

definition delete_tasks :: "(task_row \<Rightarrow> bool) \<Rightarrow> database \<Rightarrow> database" where
  "delete_tasks P d =
     (let gone = map t_id (filter P (tasks d));
          goneLists = map cl_id (filter (\<lambda>c. cl_taskId c \<in> set gone) (checklists d))
      in d\<lparr>tasks := filter (\<lambda>t. \<not> P t) (tasks d),
           assignees := filter (\<lambda>x. ta_taskId x \<notin> set gone) (assignees d),
           task_labels := filter (\<lambda>x. tl_taskId x \<notin> set gone) (task_labels d),
           comments := filter (\<lambda>x. cm_taskId x \<notin> set gone) (comments d),
           attachments := filter (\<lambda>x. a_taskId x \<notin> set gone) (attachments d),
           checklists := filter (\<lambda>c. cl_taskId c \<notin> set gone) (checklists d),
           items := filter (\<lambda>x. ci_checklistId x \<notin> set goneLists) (items d),
           activities := map (\<lambda>x. if ac_taskId x \<in> Some ` set gone then x\<lparr>ac_taskId := None\<rparr> else x)
                           (activities d),
           notifications := filter (\<lambda>x. n_taskId x \<notin> Some ` set gone) (notifications d)\<rparr>)"

definition delete_labels :: "(label_row \<Rightarrow> bool) \<Rightarrow> database \<Rightarrow> database" where
  "delete_labels P d =
     (let gone = map l_id (filter P (labels d))
      in d\<lparr>labels := filter (\<lambda>l. \<not> P l) (labels d),
           task_labels := filter (\<lambda>x. tl_labelId x \<notin> set gone) (task_labels d)\<rparr>)"

definition delete_columns :: "(column_row \<Rightarrow> bool) \<Rightarrow> database \<Rightarrow> database" where
  "delete_columns P d =
     (let gone = map column_key (filter P (columns d))
      in delete_tasks (\<lambda>t. task_column t \<in> set gone)
           (d\<lparr>columns := filter (\<lambda>c. \<not> P c) (columns d)\<rparr>))"

definition delete_boards :: "(board_row \<Rightarrow> bool) \<Rightarrow> database \<Rightarrow> database" where
  "delete_boards P d =
     (let gone = map b_id (filter P (boards d))
      in delete_labels (\<lambda>l. l_boardId l \<in> set gone)
           (delete_tasks (\<lambda>t. t_boardId t \<in> set gone)
             (delete_columns (\<lambda>c. c_boardId c \<in> set gone)
               (d\<lparr>boards := filter (\<lambda>b. \<not> P b) (boards d)\<rparr>))))"

definition delete_checklists :: "(checklist_row \<Rightarrow> bool) \<Rightarrow> database \<Rightarrow> database" where
  "delete_checklists P d =
     (let gone = map cl_id (filter P (checklists d))
      in d\<lparr>checklists := filter (\<lambda>c. \<not> P c) (checklists d),
           items := filter (\<lambda>x. ci_checklistId x \<notin> set gone) (items d)\<rparr>)"

definition delete_activities :: "(activity_row \<Rightarrow> bool) \<Rightarrow> database \<Rightarrow> database" where
  "delete_activities P d =
     (let gone = map ac_id (filter P (activities d))
      in d\<lparr>activities := filter (\<lambda>x. \<not> P x) (activities d),
           notifications := map (\<lambda>n. if n_activityId n \<in> Some ` set gone then n\<lparr>n_activityId := None\<rparr> else n)
                              (notifications d)\<rparr>)"

definition delete_workspaces :: "(workspace_row \<Rightarrow> bool) \<Rightarrow> database \<Rightarrow> database" where
  "delete_workspaces P d =
     (let gone = map w_id (filter P (workspaces d));
          e = delete_boards (\<lambda>b. b_workspaceId b \<in> set gone) (delete_activities (\<lambda>x. ac_workspaceId x \<in> set gone) d)
      in e\<lparr>workspaces := filter (\<lambda>w. \<not> P w) (workspaces e),
           members := filter (\<lambda>m. m_workspaceId m \<notin> set gone) (members e),
           invitations := filter (\<lambda>i. i_workspaceId i \<notin> set gone) (invitations e),
           tokens := filter (\<lambda>k. tk_workspaceId k \<notin> set gone) (tokens e),
           notifications := filter (\<lambda>n. n_workspaceId n \<notin> set gone) (notifications e),
           pings := filter (\<lambda>p. up_workspaceId p \<notin> set gone) (pings e)\<rparr>)"

text \<open>\<open>deleteMany\<close> on a table nothing refers to, with the number of rows it removed.\<close>

definition deleteMany ::
    "(database \<Rightarrow> 'r list) \<Rightarrow> (('r list \<Rightarrow> 'r list) \<Rightarrow> database \<Rightarrow> database) \<Rightarrow> ('r \<Rightarrow> bool) \<Rightarrow> nat request" where
  "deleteMany table update P =
     andThen (readDb (\<lambda>d. length (filter P (table d)))) (\<lambda>n.
     andThen (writeDb (update (filter (\<lambda>x. \<not> P x)))) (\<lambda>_.
       ret n))"

lemma andThen_deleteMany [run]:
  "andThen (deleteMany table update P) f s =
     f (length (filter P (table (db s)))) (s\<lparr>db := update (filter (\<lambda>x. \<not> P x)) (db s)\<rparr>)"
  by (simp add: deleteMany_def andThen_assoc andThen_readDb andThen_writeDb andThen_ret)

section \<open>Integrity\<close>

text \<open>
  What the schema's primary keys, unique constraints and foreign keys promise about the
  tables. The composite key of a task, \<open>(boardId, columnId)\<close>, ties its column to its board.
\<close>

definition unique_ids :: "database \<Rightarrow> bool" where
  "unique_ids d \<longleftrightarrow>
     distinct (map u_id (users d)) \<and> distinct (map w_id (workspaces d)) \<and>
     distinct (map m_id (members d)) \<and> distinct (map i_id (invitations d)) \<and>
     distinct (map b_id (boards d)) \<and> distinct (map c_id (columns d)) \<and>
     distinct (map t_id (tasks d)) \<and> distinct (map l_id (labels d)) \<and>
     distinct (map cl_id (checklists d)) \<and> distinct (map ci_id (items d)) \<and>
     distinct (map (\<lambda>x. (ta_taskId x, ta_userId x)) (assignees d)) \<and>
     distinct (map (\<lambda>x. (tl_taskId x, tl_labelId x)) (task_labels d)) \<and>
     distinct (map (\<lambda>x. (m_workspaceId x, m_userId x)) (members d))"

definition refs :: "'a list \<Rightarrow> ('a \<Rightarrow> 'k) \<Rightarrow> 'b list \<Rightarrow> ('b \<Rightarrow> 'k) \<Rightarrow> bool" where
  "refs xs f ys g \<longleftrightarrow> (\<forall>x \<in> set xs. \<exists>y \<in> set ys. g y = f x)"

definition opt_refs :: "'a list \<Rightarrow> ('a \<Rightarrow> 'k option) \<Rightarrow> 'b list \<Rightarrow> ('b \<Rightarrow> 'k) \<Rightarrow> bool" where
  "opt_refs xs f ys g \<longleftrightarrow> (\<forall>x \<in> set xs. f x = None \<or> (\<exists>y \<in> set ys. Some (g y) = f x))"

definition ref_integrity :: "database \<Rightarrow> bool" where
  "ref_integrity d \<longleftrightarrow>
     refs (members d) m_workspaceId (workspaces d) w_id \<and>
     refs (members d) m_userId (users d) u_id \<and>
     refs (boards d) b_workspaceId (workspaces d) w_id \<and>
     refs (columns d) c_boardId (boards d) b_id \<and>
     refs (tasks d) t_boardId (boards d) b_id \<and>
     refs (tasks d) task_column (columns d) column_key \<and>
     refs (tasks d) t_createdById (users d) u_id \<and>
     refs (assignees d) ta_taskId (tasks d) t_id \<and>
     refs (assignees d) ta_userId (users d) u_id \<and>
     refs (labels d) l_boardId (boards d) b_id \<and>
     refs (task_labels d) tl_taskId (tasks d) t_id \<and>
     refs (task_labels d) tl_labelId (labels d) l_id \<and>
     refs (comments d) cm_taskId (tasks d) t_id \<and>
     refs (comments d) cm_userId (users d) u_id \<and>
     refs (attachments d) a_taskId (tasks d) t_id \<and>
     refs (checklists d) cl_taskId (tasks d) t_id \<and>
     refs (items d) ci_checklistId (checklists d) cl_id \<and>
     refs (activities d) ac_workspaceId (workspaces d) w_id \<and>
     refs (activities d) ac_userId (users d) u_id \<and>
     opt_refs (activities d) ac_taskId (tasks d) t_id \<and>
     refs (notifications d) n_workspaceId (workspaces d) w_id \<and>
     refs (notifications d) n_userId (users d) u_id \<and>
     opt_refs (notifications d) n_taskId (tasks d) t_id \<and>
     refs (invitations d) i_workspaceId (workspaces d) w_id \<and>
     refs (tokens d) tk_workspaceId (workspaces d) w_id \<and>
     refs (tokens d) tk_userId (users d) u_id \<and>
     refs (attachments d) a_uploadedById (users d) u_id \<and>
     refs (invitations d) i_inviterId (users d) u_id \<and>
     refs (sessions d) ss_userId (users d) u_id \<and>
     refs (accounts d) acc_userId (users d) u_id \<and>
     refs (pings d) up_userId (users d) u_id \<and>
     refs (pings d) up_workspaceId (workspaces d) w_id \<and>
     opt_refs (notifications d) n_activityId (activities d) ac_id"

end
