(* ===== verification/SampleWorkspace.thy ===== *)
theory SampleWorkspace
  imports Database
begin

text \<open>
  One concrete workspace, small and complete: two members, a board with two columns and three
  tasks, a label, a checklist, a comment, an attachment with its file, a session and an unread notification. The
  theorems about operations are applied to it.
\<close>

definition sample_db :: database where
  "sample_db = \<lparr>
     users = [\<lparr>u_id = ''ada'', u_email = ''ada@x'', u_name = ''Ada'', u_emailVerified = True,
               u_avatarUrl = None, u_locale = Some ''en'', u_emailNotifications = True, u_deletedAt = None\<rparr>,
              \<lparr>u_id = ''bob'', u_email = ''bob@x'', u_name = ''Bob'', u_emailVerified = True,
               u_avatarUrl = None, u_locale = None, u_emailNotifications = True, u_deletedAt = None\<rparr>],
     workspaces = [\<lparr>w_id = ''w1'', w_name = ''Works'', w_slug = ''works'', w_planLimits = None\<rparr>],
     members = [\<lparr>m_id = ''m1'', m_workspaceId = ''w1'', m_userId = ''ada'', m_role = OWNER\<rparr>,
                \<lparr>m_id = ''m2'', m_workspaceId = ''w1'', m_userId = ''bob'', m_role = MEMBER\<rparr>],
     invitations = [],
     boards = [\<lparr>b_id = ''b1'', b_workspaceId = ''w1'', b_name = ''Board'', b_description = None, b_createdAt = 0\<rparr>],
     columns = [\<lparr>c_id = ''c1'', c_boardId = ''b1'', c_name = ''Todo'', c_position = 1000, c_color = None, c_category = UNSTARTED\<rparr>,
                \<lparr>c_id = ''c2'', c_boardId = ''b1'', c_name = ''Done'', c_position = 2000, c_color = None, c_category = COMPLETED\<rparr>],
     tasks = [\<lparr>t_id = ''t1'', t_boardId = ''b1'', t_columnId = ''c1'', t_title = ''One'', t_description = None,
               t_priority = MEDIUM, t_position = 1000, t_dueDate = None, t_estimatedMinutes = None,
               t_createdById = ''ada'', t_createdAt = 0, t_updatedAt = 0\<rparr>,
              \<lparr>t_id = ''t2'', t_boardId = ''b1'', t_columnId = ''c1'', t_title = ''Two'', t_description = None,
               t_priority = LOW, t_position = 2000, t_dueDate = None, t_estimatedMinutes = None,
               t_createdById = ''bob'', t_createdAt = 0, t_updatedAt = 0\<rparr>,
              \<lparr>t_id = ''t3'', t_boardId = ''b1'', t_columnId = ''c2'', t_title = ''Three'', t_description = None,
               t_priority = HIGH, t_position = 1000, t_dueDate = None, t_estimatedMinutes = None,
               t_createdById = ''ada'', t_createdAt = 0, t_updatedAt = 0\<rparr>],
     assignees = [\<lparr>ta_id = ''x1'', ta_taskId = ''t1'', ta_userId = ''bob''\<rparr>],
     labels = [\<lparr>l_id = ''l1'', l_boardId = ''b1'', l_name = ''bug'', l_color = ''red''\<rparr>],
     task_labels = [\<lparr>tl_id = ''y1'', tl_taskId = ''t1'', tl_labelId = ''l1''\<rparr>],
     comments = [\<lparr>cm_id = ''k1'', cm_taskId = ''t1'', cm_userId = ''bob'', cm_body = ''hi'', cm_createdAt = 0\<rparr>],
     attachments = [\<lparr>a_id = ''a1'', a_taskId = ''t2'', a_uploadedById = ''ada'', a_kind = FILE, a_filename = ''f'',
                     a_storageKey = Some ''s'', a_mimeType = None, a_size = Some 7, a_url = None, a_createdAt = 0\<rparr>],
     checklists = [\<lparr>cl_id = ''q1'', cl_taskId = ''t1'', cl_title = ''Steps'', cl_position = 1000\<rparr>],
     items = [\<lparr>ci_id = ''i1'', ci_checklistId = ''q1'', ci_content = ''a'', ci_isDone = True, ci_position = 1000\<rparr>,
              \<lparr>ci_id = ''i2'', ci_checklistId = ''q1'', ci_content = ''b'', ci_isDone = False, ci_position = 2000\<rparr>],
     activities = [],
     notifications = [\<lparr>n_id = ''n1'', n_workspaceId = ''w1'', n_userId = ''bob'', n_type = Assignment,
                       n_taskId = Some ''t1'', n_activityId = None, n_payload = JNull, n_readAt = None, n_createdAt = 0\<rparr>],
     tokens = [],
     sessions = [\<lparr>ss_id = ''s1'', ss_userId = ''bob'', ss_expiresAt = 500\<rparr>],
     accounts = [\<lparr>acc_id = ''o1'', acc_userId = ''bob''\<rparr>], verifications = [], pings = []\<rparr>"

definition sample :: world where
  "sample = \<lparr>db = sample_db, outbox = [], mails = [], clock = 100, environ = (\<lambda>_. None),
             uuids = (\<lambda>n. CHR ''z'' # replicate n CHR ''z''), drawn = 0, logs = [],
             files = [\<lparr>sf_key = ''s'', sf_bytes = ''1234567'', sf_modifiedAt = 0\<rparr>]\<rparr>"

lemma sample_simps [simp]:
  "db sample = sample_db" "outbox sample = []" "mails sample = []" "clock sample = 100"
  "environ sample = (\<lambda>_. None)" "drawn sample = 0" "logs sample = []" "files sample = [\<lparr>sf_key = ''s'', sf_bytes = ''1234567'', sf_modifiedAt = 0\<rparr>]"
  "uuids sample = (\<lambda>n. CHR ''z'' # replicate n CHR ''z'')"
  by (simp_all add: sample_def)

lemma sample_unique: "unique_ids sample_db"
  by (simp add: unique_ids_def sample_db_def)

lemma sample_integrity: "ref_integrity sample_db"
  by (simp add: ref_integrity_def refs_def opt_refs_def sample_db_def task_column_def column_key_def)

end
