(* ===== verification/Activities.thy ===== *)
theory Activities
  imports Database
begin

text \<open>
  What every service calls: the tenant lookup \<open>common/board-access.ts\<close>, the audit log
  \<open>activity/activity.service.ts\<close>, the field diff \<open>common/field-changes.ts\<close>, the cursor pages of
  \<open>common/pagination/\<close> with the clamp on the page size, and the author projection
  \<open>common/author.ts\<close>.
\<close>

section \<open>The tenant predicate\<close>

text \<open>\<open>board: { workspaceId }\<close> in a Prisma \<open>where\<close>, for a row that names its board.\<close>

definition boardIn :: "database \<Rightarrow> ident \<Rightarrow> ident \<Rightarrow> bool" where
  "boardIn d workspaceId boardId \<longleftrightarrow>
     list_ex (\<lambda>b. b_id b = boardId \<and> b_workspaceId b = workspaceId) (boards d)"

definition taskIn :: "database \<Rightarrow> ident \<Rightarrow> ident \<Rightarrow> bool" where
  "taskIn d workspaceId taskId \<longleftrightarrow>
     list_ex (\<lambda>t. t_id t = taskId \<and> boardIn d workspaceId (t_boardId t)) (tasks d)"

definition assertBoard :: "ident \<Rightarrow> ident \<Rightarrow> board_row request" where
  "assertBoard workspaceId boardId =
     andThen (readDb (\<lambda>d. find (\<lambda>b. b_id b = boardId \<and> b_workspaceId b = workspaceId) (boards d)))
       (orThrow (NotFound ''Board not found''))"

lemma assertBoard_run [run]:
  "assertBoard w b s =
     (case find (\<lambda>x. b_id x = b \<and> b_workspaceId x = w) (boards (db s)) of
        None \<Rightarrow> (Inl (NotFound ''Board not found''), s) | Some x \<Rightarrow> (Inr x, s))"
  by (simp add: assertBoard_def run)

lemma andThen_assertBoard [run]:
  "andThen (assertBoard w b) f s =
     (case find (\<lambda>x. b_id x = b \<and> b_workspaceId x = w) (boards (db s)) of
        None \<Rightarrow> (Inl (NotFound ''Board not found''), s) | Some x \<Rightarrow> f x s)"
  by (simp add: assertBoard_def run)

lemma boardIn_find:
  "boardIn d w b \<longleftrightarrow> (\<exists>x. find (\<lambda>x. b_id x = b \<and> b_workspaceId x = w) (boards d) = Some x)"
  by (auto simp: boardIn_def list_ex_iff find_Some_iff2 find_None_iff dest: find_Some_iff_mem
      simp flip: not_None_eq)

text \<open>The tenant predicates read the boards (and the tasks) only.\<close>

lemma boardIn_update [simp]:
  "boardIn (d\<lparr>users := X0\<rparr>) w b = boardIn d w b"
  "boardIn (d\<lparr>workspaces := X1\<rparr>) w b = boardIn d w b"
  "boardIn (d\<lparr>members := X2\<rparr>) w b = boardIn d w b"
  "boardIn (d\<lparr>invitations := X3\<rparr>) w b = boardIn d w b"
  "boardIn (d\<lparr>columns := X4\<rparr>) w b = boardIn d w b"
  "boardIn (d\<lparr>tasks := X5\<rparr>) w b = boardIn d w b"
  "boardIn (d\<lparr>assignees := X6\<rparr>) w b = boardIn d w b"
  "boardIn (d\<lparr>labels := X7\<rparr>) w b = boardIn d w b"
  "boardIn (d\<lparr>task_labels := X8\<rparr>) w b = boardIn d w b"
  "boardIn (d\<lparr>comments := X9\<rparr>) w b = boardIn d w b"
  "boardIn (d\<lparr>attachments := X10\<rparr>) w b = boardIn d w b"
  "boardIn (d\<lparr>checklists := X11\<rparr>) w b = boardIn d w b"
  "boardIn (d\<lparr>items := X12\<rparr>) w b = boardIn d w b"
  "boardIn (d\<lparr>activities := X13\<rparr>) w b = boardIn d w b"
  "boardIn (d\<lparr>notifications := X14\<rparr>) w b = boardIn d w b"
  "boardIn (d\<lparr>tokens := X15\<rparr>) w b = boardIn d w b"
  by (simp_all add: boardIn_def)

lemma taskIn_update [simp]:
  "taskIn (d\<lparr>users := X0\<rparr>) w b = taskIn d w b"
  "taskIn (d\<lparr>workspaces := X1\<rparr>) w b = taskIn d w b"
  "taskIn (d\<lparr>members := X2\<rparr>) w b = taskIn d w b"
  "taskIn (d\<lparr>invitations := X3\<rparr>) w b = taskIn d w b"
  "taskIn (d\<lparr>columns := X4\<rparr>) w b = taskIn d w b"
  "taskIn (d\<lparr>assignees := X6\<rparr>) w b = taskIn d w b"
  "taskIn (d\<lparr>labels := X7\<rparr>) w b = taskIn d w b"
  "taskIn (d\<lparr>task_labels := X8\<rparr>) w b = taskIn d w b"
  "taskIn (d\<lparr>comments := X9\<rparr>) w b = taskIn d w b"
  "taskIn (d\<lparr>attachments := X10\<rparr>) w b = taskIn d w b"
  "taskIn (d\<lparr>checklists := X11\<rparr>) w b = taskIn d w b"
  "taskIn (d\<lparr>items := X12\<rparr>) w b = taskIn d w b"
  "taskIn (d\<lparr>activities := X13\<rparr>) w b = taskIn d w b"
  "taskIn (d\<lparr>notifications := X14\<rparr>) w b = taskIn d w b"
  "taskIn (d\<lparr>tokens := X15\<rparr>) w b = taskIn d w b"
  by (simp_all add: taskIn_def)

section \<open>The audit log\<close>

definition recordActivity ::
    "ident \<Rightarrow> ident option \<Rightarrow> ident \<Rightarrow> activity_type \<Rightarrow> json \<Rightarrow> activity_row request" where
  "recordActivity workspaceId taskId userId typ payload =
     andThen freshId (\<lambda>newId. andThen now (\<lambda>t.
       let row = \<lparr>ac_id = newId, ac_workspaceId = workspaceId, ac_taskId = taskId, ac_userId = userId,
                  ac_type = typ, ac_payload = payload, ac_createdAt = t\<rparr>
       in andThen (writeDb (\<lambda>d. d\<lparr>activities := activities d @ [row]\<rparr>)) (\<lambda>_. ret row)))"

text \<open>The state after an audit entry, and the entry.\<close>

definition activityFor :: "world \<Rightarrow> ident \<Rightarrow> ident option \<Rightarrow> ident \<Rightarrow> activity_type \<Rightarrow> json \<Rightarrow> activity_row" where
  "activityFor s w t u typ payload =
     \<lparr>ac_id = uuids s (drawn s), ac_workspaceId = w, ac_taskId = t, ac_userId = u,
      ac_type = typ, ac_payload = payload, ac_createdAt = clock s\<rparr>"

definition logged :: "world \<Rightarrow> ident \<Rightarrow> ident option \<Rightarrow> ident \<Rightarrow> activity_type \<Rightarrow> json \<Rightarrow> world" where
  "logged s w t u typ payload =
     s\<lparr>drawn := Suc (drawn s),
       db := (db s)\<lparr>activities := activities (db s) @ [activityFor s w t u typ payload]\<rparr>\<rparr>"

lemma andThen_recordActivity [run]:
  "andThen (recordActivity w t u typ p) f s = f (activityFor s w t u typ p) (logged s w t u typ p)"
  by (simp add: recordActivity_def activityFor_def logged_def run Let_def)

lemma recordActivity_run [run]:
  "recordActivity w t u typ p s = (Inr (activityFor s w t u typ p), logged s w t u typ p)"
  by (simp add: recordActivity_def activityFor_def logged_def run Let_def)

lemma logged_simps [simp]:
  "outbox (logged s w t u typ p) = outbox s" "mails (logged s w t u typ p) = mails s"
  "clock (logged s w t u typ p) = clock s" "environ (logged s w t u typ p) = environ s" "uuids (logged s w t u typ p) = uuids s"
  "drawn (logged s w t u typ p) = Suc (drawn s)" "logs (logged s w t u typ p) = logs s"
  "files (logged s w t u typ p) = files s"
  "db (logged s w t u typ p) =
     (db s)\<lparr>activities := activities (db s) @ [activityFor s w t u typ p]\<rparr>"
  by (simp_all add: logged_def)

lemma activityFor_simps [simp]:
  "ac_workspaceId (activityFor s w t u typ p) = w" "ac_taskId (activityFor s w t u typ p) = t"
  "ac_userId (activityFor s w t u typ p) = u" "ac_type (activityFor s w t u typ p) = typ"
  "ac_payload (activityFor s w t u typ p) = p"
  by (simp_all add: activityFor_def)

section \<open>Field changes\<close>

text \<open>
  The fields compared are passed with their two values as JSON; those that differ are
  reported as \<open>{ from, to }\<close>, in the order given.
\<close>

definition fieldChanges :: "(string \<times> json \<times> json) list \<Rightarrow> json" where
  "fieldChanges compared =
     JObj (map (\<lambda>(field, from, to). (field, JObj [(''from'', from), (''to'', to)]))
             (filter (\<lambda>(field, from, to). from \<noteq> to) compared))"

lemma fieldChanges_none: "(\<forall>(f, a, b) \<in> set compared. a = b) \<Longrightarrow> fieldChanges compared = JObj []"
  by (auto simp: fieldChanges_def filter_empty_conv)

section \<open>Cursor pages\<close>

definition DEFAULT_PAGE_LIMIT :: int where
  "DEFAULT_PAGE_LIMIT = 50"

definition MAX_PAGE_LIMIT :: int where
  "MAX_PAGE_LIMIT = 100"

text \<open>
  \<open>clampLimit\<close> after \<open>Number(value)\<close>: \<open>None\<close> is a value that is not a finite number.
  \<open>Math.trunc\<close> of a number that is at least 1 is its floor.
\<close>

definition clampLimit :: "rat option \<Rightarrow> int \<Rightarrow> int \<Rightarrow> int" where
  "clampLimit parsed fallback mx =
     (case parsed of
        None \<Rightarrow> fallback
      | Some v \<Rightarrow> if v < 1 then fallback else min \<lfloor>v\<rfloor> mx)"

record 'a cursor_page =
  items_of :: "'a list"
  nextCursor :: "ident option"
  hasMore :: bool

definition toCursorPage :: "('r \<Rightarrow> ident) \<Rightarrow> 'r list \<Rightarrow> nat \<Rightarrow> ('r \<Rightarrow> 'a) \<Rightarrow> 'a cursor_page" where
  "toCursorPage rid rows limit f =
     (let more = limit < length rows;
          page = (if more then take limit rows else rows)
      in \<lparr>items_of = map f page,
          nextCursor = (if more \<and> page \<noteq> [] then Some (rid (last page)) else None),
          hasMore = more\<rparr>)"

text \<open>
  The query every cursor list runs: the rows of the list, beyond the cursor, in id order,
  one more than the page. \<open>lt\<close> is the direction of the walk (ascending or descending ids).
\<close>

definition cursorQuery :: "('r \<Rightarrow> ident) \<Rightarrow> (ident \<Rightarrow> ident \<Rightarrow> bool) \<Rightarrow> ident option \<Rightarrow> nat \<Rightarrow> 'r list \<Rightarrow> 'r list" where
  "cursorQuery rid lt cursor limit ordered =
     take (limit + 1)
       (filter (\<lambda>r. case cursor of None \<Rightarrow> True | Some c \<Rightarrow> lt c (rid r)) ordered)"

text \<open>A client following \<open>nextCursor\<close> until there is none; the fuel bounds the number of pages.\<close>

fun walkPages :: "nat \<Rightarrow> ('r \<Rightarrow> ident) \<Rightarrow> (ident \<Rightarrow> ident \<Rightarrow> bool) \<Rightarrow> ident option \<Rightarrow> nat \<Rightarrow> 'r list \<Rightarrow> 'r list option" where
  "walkPages 0 rid lt cursor limit ordered = None"
| "walkPages (Suc fuel) rid lt cursor limit ordered =
     (let page = toCursorPage rid (cursorQuery rid lt cursor limit ordered) limit id
      in case nextCursor page of
           None \<Rightarrow> Some (items_of page)
         | Some c \<Rightarrow> map_option ((@) (items_of page)) (walkPages fuel rid lt (Some c) limit ordered))"

text \<open>
  The interface of a cursor walk: a transitive, irreflexive order on ids in which the listed
  rows strictly increase.
\<close>

locale cursor_walk =
  fixes rid :: "'r \<Rightarrow> ident" and lt :: "ident \<Rightarrow> ident \<Rightarrow> bool"
  assumes irrefl: "\<not> lt a a" and trans: "lt a b \<Longrightarrow> lt b c \<Longrightarrow> lt a c"
begin

lemma filter_after:
  assumes "sorted_wrt (\<lambda>a b. lt (rid a) (rid b)) (xs @ y # ys)"
  shows "filter (\<lambda>r. lt (rid y) (rid r)) (xs @ y # ys) = ys"
proof -
  have "\<not> lt (rid y) (rid x)" if "x \<in> set xs" for x
  proof
    assume "lt (rid y) (rid x)"
    moreover have "lt (rid x) (rid y)"
      using that assms by (simp add: sorted_wrt_append)
    ultimately have "lt (rid y) (rid y)" by (rule trans)
    with irrefl show False by blast
  qed
  moreover have "lt (rid y) (rid x)" if "x \<in> set ys" for x
    using that assms by (auto simp: sorted_wrt_append)
  ultimately show ?thesis
    using irrefl by (simp add: filter_empty_conv filter_id_conv)
qed

lemma walkPages_from:
  assumes "sorted_wrt (\<lambda>a b. lt (rid a) (rid b)) ordered" and "0 < limit"
    and "ordered = done @ rest" and "length rest < fuel"
    and "cursor = (if done = [] then None else Some (rid (last done)))"
  shows "walkPages fuel rid lt cursor limit ordered = Some rest"
  using assms(3-5)
proof (induction fuel arbitrary: cursor "done" rest)
  case 0
  then show ?case by simp
next
  case (Suc fuel)
  have rows: "filter (\<lambda>r. case cursor of None \<Rightarrow> True | Some c \<Rightarrow> lt c (rid r)) ordered = rest"
  proof (cases "done = []")
    case True
    with Suc.prems show ?thesis by simp
  next
    case False
    then have "ordered = butlast done @ last done # rest"
      using Suc.prems(1) by simp
    with False Suc.prems(3) assms(1) filter_after show ?thesis by simp
  qed
  show ?case
  proof (cases "limit < length rest")
    case False
    then show ?thesis
      using rows by (simp add: cursorQuery_def toCursorPage_def Let_def)
  next
    case True
    let ?page = "take limit rest"
    have ne: "?page \<noteq> []" using True assms(2) by auto
    have "walkPages fuel rid lt (Some (rid (last ?page))) limit ordered = Some (drop limit rest)"
    proof (rule Suc.IH)
      show "ordered = (done @ ?page) @ drop limit rest" using Suc.prems(1) by simp
      show "length (drop limit rest) < fuel" using True assms(2) Suc.prems(2) by simp
      show "Some (rid (last ?page)) =
          (if done @ ?page = [] then None else Some (rid (last (done @ ?page))))"
        using ne by simp
    qed
    moreover have "min limit (Suc limit) = limit" by simp
    ultimately show ?thesis
      using rows True ne by (simp add: cursorQuery_def toCursorPage_def Let_def)
  qed
qed

lemma walkPages_complete:
  assumes "sorted_wrt (\<lambda>a b. lt (rid a) (rid b)) ordered" and "0 < limit"
  shows "walkPages (Suc (length ordered)) rid lt None limit ordered = Some ordered"
  by (rule walkPages_from [OF assms, of "[]"]) simp_all

end

section \<open>Authors and the activity feed\<close>

record author_dto =
  au_id :: ident
  au_name :: string
  au_avatarUrl :: "string option"
  au_deleted :: bool

definition toAuthorDto :: "user_row \<Rightarrow> author_dto" where
  "toAuthorDto row = \<lparr>au_id = u_id row, au_name = u_name row, au_avatarUrl = u_avatarUrl row,
                      au_deleted = (u_deletedAt row \<noteq> None)\<rparr>"

definition authorOf :: "database \<Rightarrow> ident \<Rightarrow> author_dto option" where
  "authorOf d userId = map_option toAuthorDto (find (\<lambda>u. u_id u = userId) (users d))"

record activity_dto =
  ad_row :: activity_row
  ad_author :: "author_dto option"

definition toActivityDto :: "database \<Rightarrow> activity_row \<Rightarrow> activity_dto" where
  "toActivityDto d row = \<lparr>ad_row = row, ad_author = authorOf d (ac_userId row)\<rparr>"

text \<open>\<open>orderBy: { id: 'desc' }\<close> over the feed's rows.\<close>

definition activityFeed :: "ident \<Rightarrow> ident option \<Rightarrow> database \<Rightarrow> activity_row list" where
  "activityFeed workspaceId taskId d =
     rev (sort_key ac_id
       (filter (\<lambda>a. ac_workspaceId a = workspaceId \<and>
                    (truthy taskId \<longrightarrow> ac_taskId a = taskId)) (activities d)))"

definition activity_list ::
    "ident \<Rightarrow> ident option \<Rightarrow> ident option \<Rightarrow> nat option \<Rightarrow> activity_dto cursor_page request" where
  "activity_list workspaceId taskId cursor limit =
     (let lim = (case limit of None \<Rightarrow> 50 | Some n \<Rightarrow> n);
          cur = (if truthy cursor then cursor else None)
      in readDb (\<lambda>d. toCursorPage ac_id
           (cursorQuery ac_id (\<lambda>c i. i < c) cur lim (activityFeed workspaceId taskId d)) lim (toActivityDto d)))"

definition activity_listWorkspace ::
    "ident \<Rightarrow> ident option \<Rightarrow> nat option \<Rightarrow> activity_dto cursor_page request" where
  "activity_listWorkspace workspaceId cursor limit = activity_list workspaceId None cursor limit"

definition activity_listForTask ::
    "ident \<Rightarrow> ident \<Rightarrow> ident option \<Rightarrow> nat option \<Rightarrow> activity_dto cursor_page request" where
  "activity_listForTask workspaceId taskId cursor limit =
     andThen (readDb (\<lambda>d. taskIn d workspaceId taskId)) (\<lambda>found.
     andThen (check found (NotFound ''Task not found'')) (\<lambda>_.
       activity_list workspaceId (Some taskId) cursor limit))"

interpretation descending: cursor_walk ac_id "\<lambda>c i. i < c"
  by unfold_locales auto

lemma strict_sort_key:
  assumes "distinct (map f xs)"
  shows "sorted_wrt (\<lambda>a b. f a < f b) (sort_key f xs)"
proof -
  have "mset (map f (sort_key f xs)) = mset (map f xs)" by simp
  then have "distinct (map f (sort_key f xs))"
    using assms by (metis mset_eq_imp_distinct_iff)
  then have "sorted_wrt (<) (map f (sort_key f xs))"
    unfolding strict_sorted_iff by simp
  then show ?thesis by (simp add: sorted_wrt_map)
qed

lemma activityFeed_descending:
  assumes "distinct (map ac_id (activities d))"
  shows "sorted_wrt (\<lambda>a b. ac_id b < ac_id a) (activityFeed w t d)"
  unfolding activityFeed_def sorted_wrt_rev
  by (rule strict_sort_key) (rule distinct_map_filter [OF assms])

end
