(* ===== verification/Locales.thy ===== *)
theory Locales
  imports Database
begin

text \<open>
  \<open>packages/shared-types/src/locales.ts\<close> and \<open>apps/api/src/locale/locale.service.ts\<close>: which
  interface languages exist, and how a request's language is chosen. Strings are byte
  sequences; trimming and lower-casing act on the ASCII range, which is the alphabet of
  language tags and of the \<open>Accept-Language\<close> header.
\<close>

section \<open>String functions\<close>

definition is_space :: "char \<Rightarrow> bool" where
  "is_space c \<longleftrightarrow> of_char c = (32::nat) \<or> (9::nat) \<le> of_char c \<and> of_char c \<le> (13::nat)"

definition js_trim :: "string \<Rightarrow> string" where
  "js_trim s = rev (dropWhile is_space (rev (dropWhile is_space s)))"

definition lower_char :: "char \<Rightarrow> char" where
  "lower_char c = (if (65::nat) \<le> of_char c \<and> of_char c \<le> (90::nat) then char_of (of_char c + 32 :: nat) else c)"

definition js_lower :: "string \<Rightarrow> string" where
  "js_lower s = map lower_char s"

fun splitOn :: "char \<Rightarrow> string \<Rightarrow> string list" where
  "splitOn c [] = [[]]"
| "splitOn c (x # xs) =
     (if x = c then [] # splitOn c xs
      else (case splitOn c xs of [] \<Rightarrow> [[x]] | p # ps \<Rightarrow> (x # p) # ps))"

definition starts_with :: "string \<Rightarrow> string \<Rightarrow> bool" where
  "starts_with p s \<longleftrightarrow> take (length p) s = p"

text \<open>
  \<open>Number.parseFloat\<close>: the longest decimal prefix after leading white space, or \<open>None\<close> for
  NaN. \<open>Infinity\<close> is represented by a number beyond every double.
\<close>

definition is_digit :: "char \<Rightarrow> bool" where
  "is_digit c \<longleftrightarrow> (48::nat) \<le> of_char c \<and> of_char c \<le> (57::nat)"

definition digit_value :: "char \<Rightarrow> nat" where
  "digit_value c = of_char c - 48"

definition digits_value :: "string \<Rightarrow> nat" where
  "digits_value ds = foldl (\<lambda>n c. 10 * n + digit_value c) 0 ds"

definition beyond_doubles :: rat where
  "beyond_doubles = 2 ^ 1024"

definition parse_exponent :: "string \<Rightarrow> int" where
  "parse_exponent s =
     (case s of
        [] \<Rightarrow> 0
      | e # rest \<Rightarrow>
          if e \<noteq> CHR ''e'' \<and> e \<noteq> CHR ''E'' then 0
          else let neg = starts_with ''-'' rest;
                   rest' = (if neg \<or> starts_with ''+'' rest then tl rest else rest);
                   ds = takeWhile is_digit rest'
               in if neg then - int (digits_value ds) else int (digits_value ds))"

definition parse_unsigned :: "string \<Rightarrow> rat option" where
  "parse_unsigned s =
     (if starts_with ''Infinity'' s then Some beyond_doubles
      else
        let whole = takeWhile is_digit s;
            rest = dropWhile is_digit s;
            frac = (if starts_with ''.'' rest then takeWhile is_digit (tl rest) else []);
            rest' = (if starts_with ''.'' rest then dropWhile is_digit (tl rest) else rest);
            e = parse_exponent rest'
        in if whole = [] \<and> frac = [] then None
           else let m = of_nat (digits_value (whole @ frac)) / 10 ^ length frac
                in Some (if 0 \<le> e then m * 10 ^ nat e else m / 10 ^ nat (- e)))"

definition parseFloat :: "string \<Rightarrow> rat option" where
  "parseFloat s =
     (let t = dropWhile is_space s
      in if starts_with ''-'' t then map_option uminus (parse_unsigned (tl t))
         else if starts_with ''+'' t then parse_unsigned (tl t)
         else parse_unsigned t)"

section \<open>Locales\<close>

definition SUPPORTED_LOCALES :: "lang list" where
  "SUPPORTED_LOCALES = [En, Tr]"

definition DEFAULT_LOCALE :: lang where
  "DEFAULT_LOCALE = En"

fun lang_tag :: "lang \<Rightarrow> string" where
  "lang_tag En = ''en''"
| "lang_tag Tr = ''tr''"

text \<open>\<open>isLocale\<close> as the narrowing it performs: the locale whose tag the string is.\<close>

definition asLocale :: "string \<Rightarrow> lang option" where
  "asLocale value = find (\<lambda>l. lang_tag l = value) SUPPORTED_LOCALES"

definition isLocale :: "string \<Rightarrow> bool" where
  "isLocale value \<longleftrightarrow> asLocale value \<noteq> None"

definition matchLocale :: "string option \<Rightarrow> lang option" where
  "matchLocale tag =
     (case tag of
        None \<Rightarrow> None
      | Some t \<Rightarrow>
          if t = [] then None
          else let normalized = js_lower (js_trim t)
               in if normalized = [] \<or> normalized = ''*'' then None
                  else if isLocale normalized then asLocale normalized
                  else asLocale (hd (splitOn CHR ''-'' normalized)))"

record weighted_tag =
  wt_tag :: string
  wt_quality :: rat

text \<open>One entry of the header: its tag and weight, unless it is blank or not acceptable.\<close>

definition weigh :: "string \<Rightarrow> weighted_tag option" where
  "weigh part =
     (let pieces = splitOn CHR '';'' part;
          tag = js_trim (hd pieces)
      in if tag = [] then None
         else
           let qParam = find (\<lambda>p. starts_with ''q='' (js_lower (js_trim p))) (tl pieces);
               parsed = (case qParam of None \<Rightarrow> Some 1 | Some p \<Rightarrow> parseFloat (drop 2 (js_trim p)));
               quality = (case parsed of None \<Rightarrow> 1 | Some q \<Rightarrow> q)
           in if quality \<le> 0 then None else Some \<lparr>wt_tag = tag, wt_quality = quality\<rparr>)"

fun first_match :: "weighted_tag list \<Rightarrow> lang option" where
  "first_match [] = None"
| "first_match (w # ws) =
     (case matchLocale (Some (wt_tag w)) of Some l \<Rightarrow> Some l | None \<Rightarrow> first_match ws)"

definition negotiateLocale :: "string option \<Rightarrow> lang option" where
  "negotiateLocale header =
     (case header of
        None \<Rightarrow> None
      | Some h \<Rightarrow>
          if h = [] then None
          else first_match (sort_key (\<lambda>w. - wt_quality w) (List.map_filter weigh (splitOn CHR '','' h))))"

fun resolveLocale :: "string option list \<Rightarrow> lang" where
  "resolveLocale [] = DEFAULT_LOCALE"
| "resolveLocale (c # cs) = (case matchLocale c of Some l \<Rightarrow> l | None \<Rightarrow> resolveLocale cs)"

section \<open>The locale service\<close>

definition locale_read :: "ident \<Rightarrow> lang option request" where
  "locale_read userId =
     readDb (\<lambda>d. matchLocale (Option.bind (find (\<lambda>u. u_id u = userId) (users d)) u_locale))"

definition locale_write :: "ident \<Rightarrow> lang option \<Rightarrow> lang option request" where
  "locale_write userId l =
     andThen (readDb (\<lambda>d. find (\<lambda>u. u_id u = userId) (users d))) (\<lambda>found.
     andThen (orThrow RecordNotFound found) (\<lambda>_.
     andThen (writeDb (\<lambda>d. d\<lparr>users := map (\<lambda>u. if u_id u = userId
         then u\<lparr>u_locale := map_option lang_tag l\<rparr> else u) (users d)\<rparr>)) (\<lambda>_.
       locale_read userId)))"

text \<open>
  \<open>User.locale\<close>, then \<open>Accept-Language\<close>, then \<open>en\<close>. The read of the stored preference cannot
  fail in this model, so its quiet fallback to the header has no separate branch.
\<close>

definition locale_resolve :: "ident option \<Rightarrow> string option \<Rightarrow> lang request" where
  "locale_resolve userId acceptLanguage =
     andThen (case userId of None \<Rightarrow> ret None | Some u \<Rightarrow> locale_read u) (\<lambda>stored.
       ret (case stored of
              Some l \<Rightarrow> l
            | None \<Rightarrow> (case negotiateLocale acceptLanguage of Some l \<Rightarrow> l | None \<Rightarrow> DEFAULT_LOCALE)))"

definition localeFor :: "database \<Rightarrow> ident \<Rightarrow> string option \<Rightarrow> lang" where
  "localeFor d userId acceptLanguage =
     (case matchLocale (Option.bind (find (\<lambda>u. u_id u = userId) (users d)) u_locale) of
        Some l \<Rightarrow> l
      | None \<Rightarrow> (case negotiateLocale acceptLanguage of Some l \<Rightarrow> l | None \<Rightarrow> DEFAULT_LOCALE))"

lemma andThen_locale_resolve [run]:
  "andThen (locale_resolve (Some u) h) f s = f (localeFor (db s) u h) s"
  by (simp add: locale_resolve_def locale_read_def localeFor_def run)

section \<open>Negotiation picks the best acceptable match\<close>

lemma asLocale_tag [simp]: "asLocale (lang_tag l) = Some l"
  by (cases l) (simp_all add: asLocale_def SUPPORTED_LOCALES_def)

lemma asLocale_Some: "asLocale t = Some l \<Longrightarrow> t = lang_tag l"
  by (auto simp: asLocale_def dest!: find_Some_iff_mem)

lemma matchLocale_tag [simp]: "matchLocale (Some (lang_tag l)) = Some l"
  by (cases l) (simp_all add: matchLocale_def asLocale_def isLocale_def SUPPORTED_LOCALES_def
      js_lower_def js_trim_def is_space_def lower_char_def)

lemma first_match_Some:
  assumes "first_match ws = Some l" and "sorted (map f ws)"
  shows "\<exists>w \<in> set ws. matchLocale (Some (wt_tag w)) = Some l \<and>
           (\<forall>v \<in> set ws. matchLocale (Some (wt_tag v)) \<noteq> None \<longrightarrow> f w \<le> f v)"
  using assms by (induction ws) (auto split: option.splits)

lemma first_match_None:
  "first_match ws = None \<longleftrightarrow> (\<forall>w \<in> set ws. matchLocale (Some (wt_tag w)) = None)"
  by (induction ws) (auto split: option.splits)

definition acceptable :: "string \<Rightarrow> weighted_tag list" where
  "acceptable header = List.map_filter weigh (splitOn CHR '','' header)"

lemma weigh_positive: "weigh p = Some w \<Longrightarrow> 0 < wt_quality w"
  by (auto simp: weigh_def Let_def split: if_splits)

lemma acceptable_positive: "w \<in> set (acceptable h) \<Longrightarrow> 0 < wt_quality w"
  by (induction "splitOn CHR '','' h") (auto simp: acceptable_def map_filter_def weigh_positive)

lemma negotiate_best:
  assumes "negotiateLocale (Some h) = Some l"
  shows "\<exists>w \<in> set (acceptable h). matchLocale (Some (wt_tag w)) = Some l \<and>
           (\<forall>v \<in> set (acceptable h). matchLocale (Some (wt_tag v)) \<noteq> None \<longrightarrow> wt_quality v \<le> wt_quality w)"
proof -
  have "first_match (sort_key (\<lambda>w. - wt_quality w) (acceptable h)) = Some l"
    using assms by (auto simp: negotiateLocale_def acceptable_def split: if_splits)
  from first_match_Some [OF this, of "\<lambda>w. - wt_quality w"] show ?thesis by simp
qed

lemma negotiate_none:
  assumes "h \<noteq> []"
  shows "negotiateLocale (Some h) = None \<longleftrightarrow>
         (\<forall>w \<in> set (acceptable h). matchLocale (Some (wt_tag w)) = None)"
  using assms by (simp add: negotiateLocale_def first_match_None flip: acceptable_def)

end
