(* ===== verification/BoardTemplates.thy ===== *)
theory BoardTemplates
  imports Locales
begin

text \<open>
  \<open>apps/api/src/common/board-templates.ts\<close> and \<open>board-defaults.ts\<close>: the catalog of starting
  shapes a board can be created with, its names in both languages (UTF-8 byte sequences), and
  the default seed, which is the Kanban template's columns.
\<close>

section \<open>The catalog\<close>

datatype template_slug = Kanban | ScrumSprint | BugTriage | ContentPipeline

fun slug_name :: "template_slug \<Rightarrow> string" where
  "slug_name Kanban = ''kanban''"
| "slug_name ScrumSprint = ''scrum-sprint''"
| "slug_name BugTriage = ''bug-triage''"
| "slug_name ContentPipeline = ''content-pipeline''"

record default_column =
  dc_name :: string
  dc_position :: float64
  dc_category :: column_category

record default_label =
  dl_name :: string
  dl_color :: string

record template_structure =
  ts_columns :: "(string \<times> float64 \<times> column_category) list"
  ts_labels :: "(string \<times> string) list"

record template_copy =
  tc_name :: string
  tc_description :: string
  tc_columns :: "(string \<times> string) list"
  tc_labels :: "(string \<times> string) list"

record board_template =
  bt_slug :: template_slug
  bt_name :: string
  bt_description :: string
  bt_columns :: "default_column list"
  bt_labels :: "default_label list"

fun TEMPLATE_STRUCTURE :: "template_slug \<Rightarrow> template_structure" where
  "TEMPLATE_STRUCTURE Kanban =
     \<lparr>ts_columns = [(''todo'', 1000, UNSTARTED),
        (''inProgress'', 2000, STARTED),
        (''done'', 3000, COMPLETED)],
      ts_labels = [(''bug'', ''slot-1''), (''feature'', ''slot-2''), (''chore'', ''slot-3''), (''blocked'', ''slot-4'')]\<rparr>"
| "TEMPLATE_STRUCTURE ScrumSprint =
     \<lparr>ts_columns = [(''backlog'', 1000, BACKLOG),
        (''sprintBacklog'', 2000, UNSTARTED),
        (''inProgress'', 3000, STARTED),
        (''review'', 4000, STARTED),
        (''done'', 5000, COMPLETED)],
      ts_labels = [(''story'', ''slot-1''), (''bug'', ''slot-2''), (''spike'', ''slot-3''), (''techDebt'', ''slot-4''), (''blocked'', ''slot-5'')]\<rparr>"
| "TEMPLATE_STRUCTURE BugTriage =
     \<lparr>ts_columns = [(''reported'', 1000, BACKLOG),
        (''triaged'', 2000, UNSTARTED),
        (''fixing'', 3000, STARTED),
        (''verifying'', 4000, STARTED),
        (''closed'', 5000, COMPLETED),
        (''wontFix'', 6000, CANCELED)],
      ts_labels = [(''critical'', ''slot-1''), (''major'', ''slot-2''), (''minor'', ''slot-3''), (''regression'', ''slot-4''), (''needsInfo'', ''slot-5'')]\<rparr>"
| "TEMPLATE_STRUCTURE ContentPipeline =
     \<lparr>ts_columns = [(''ideas'', 1000, BACKLOG),
        (''approved'', 2000, UNSTARTED),
        (''drafting'', 3000, STARTED),
        (''editing'', 4000, STARTED),
        (''published'', 5000, COMPLETED)],
      ts_labels = [(''blog'', ''slot-1''), (''social'', ''slot-2''), (''video'', ''slot-3''), (''newsletter'', ''slot-4'')]\<rparr>"

fun TEMPLATE_COPY :: "lang \<Rightarrow> template_slug \<Rightarrow> template_copy" where
  "TEMPLATE_COPY En Kanban =
     \<lparr>tc_name = ''Kanban'',
      tc_description = ''One flow, three stages. What every board starts as.'',
      tc_columns = [(''todo'', ''To Do''),
        (''inProgress'', ''In Progress''),
        (''done'', ''Done'')],
      tc_labels = [(''bug'', ''Bug''),
        (''feature'', ''Feature''),
        (''chore'', ''Chore''),
        (''blocked'', ''Blocked'')]\<rparr>"
| "TEMPLATE_COPY En ScrumSprint =
     \<lparr>tc_name = ''Scrum Sprint'',
      tc_description = ''A backlog that feeds a sprint, with a review stage before done.'',
      tc_columns = [(''backlog'', ''Backlog''),
        (''sprintBacklog'', ''Sprint Backlog''),
        (''inProgress'', ''In Progress''),
        (''review'', ''Review''),
        (''done'', ''Done'')],
      tc_labels = [(''story'', ''Story''),
        (''bug'', ''Bug''),
        (''spike'', ''Spike''),
        (''techDebt'', ''Tech Debt''),
        (''blocked'', ''Blocked'')]\<rparr>"
| "TEMPLATE_COPY En BugTriage =
     \<lparr>tc_name = ''Bug Triage'',
      tc_description = ''Incoming reports through fixing and verification, with a way to say no.'',
      tc_columns = [(''reported'', ''Reported''),
        (''triaged'', ''Triaged''),
        (''fixing'', ''Fixing''),
        (''verifying'', ''Verifying''),
        (''closed'', ''Closed''),
        (''wontFix'', (''Won'' @ [CHR 0xE2, CHR 0x80, CHR 0x99] @ ''t Fix''))],
      tc_labels = [(''critical'', ''Critical''),
        (''major'', ''Major''),
        (''minor'', ''Minor''),
        (''regression'', ''Regression''),
        (''needsInfo'', ''Needs Info'')]\<rparr>"
| "TEMPLATE_COPY En ContentPipeline =
     \<lparr>tc_name = ''Content Pipeline'',
      tc_description = ''Ideas through drafting and editing to published.'',
      tc_columns = [(''ideas'', ''Ideas''),
        (''approved'', ''Approved''),
        (''drafting'', ''Drafting''),
        (''editing'', ''Editing''),
        (''published'', ''Published'')],
      tc_labels = [(''blog'', ''Blog''),
        (''social'', ''Social''),
        (''video'', ''Video''),
        (''newsletter'', ''Newsletter'')]\<rparr>"
| "TEMPLATE_COPY Tr Kanban =
     \<lparr>tc_name = ''Kanban'',
      tc_description = (''Tek ak'' @ [CHR 0xC4, CHR 0xB1, CHR 0xC5, CHR 0x9F] @ '', '' @ [CHR 0xC3, CHR 0xBC, CHR 0xC3, CHR 0xA7] @ '' a'' @ [CHR 0xC5, CHR 0x9F] @ ''ama. Her panonun ba'' @ [CHR 0xC5, CHR 0x9F] @ ''lad'' @ [CHR 0xC4, CHR 0xB1, CHR 0xC4, CHR 0x9F, CHR 0xC4, CHR 0xB1] @ '' yer.''),
      tc_columns = [(''todo'', (''Yap'' @ [CHR 0xC4, CHR 0xB1] @ ''lacak'')),
        (''inProgress'', ''Devam Ediyor''),
        (''done'', ''Bitti'')],
      tc_labels = [(''bug'', ''Hata''),
        (''feature'', ([CHR 0xC3, CHR 0x96] @ ''zellik'')),
        (''chore'', (''Rutin '' @ [CHR 0xC4, CHR 0xB0, CHR 0xC5, CHR 0x9F])),
        (''blocked'', ''Engelli'')]\<rparr>"
| "TEMPLATE_COPY Tr ScrumSprint =
     \<lparr>tc_name = ''Scrum Sprinti'',
      tc_description = (''Sprinti besleyen bir birikim listesi, bitmeden '' @ [CHR 0xC3, CHR 0xB6] @ ''nce inceleme a'' @ [CHR 0xC5, CHR 0x9F] @ ''amas'' @ [CHR 0xC4, CHR 0xB1] @ ''.''),
      tc_columns = [(''backlog'', ''Birikim''),
        (''sprintBacklog'', ''Sprint Birikimi''),
        (''inProgress'', ''Devam Ediyor''),
        (''review'', ([CHR 0xC4, CHR 0xB0] @ ''nceleme'')),
        (''done'', ''Bitti'')],
      tc_labels = [(''story'', (''Hik'' @ [CHR 0xC3, CHR 0xA2] @ ''ye'')),
        (''bug'', ''Hata''),
        (''spike'', (''Ara'' @ [CHR 0xC5, CHR 0x9F] @ ''t'' @ [CHR 0xC4, CHR 0xB1] @ ''rma'')),
        (''techDebt'', (''Teknik Bor'' @ [CHR 0xC3, CHR 0xA7])),
        (''blocked'', ''Engelli'')]\<rparr>"
| "TEMPLATE_COPY Tr BugTriage =
     \<lparr>tc_name = (''Hata Triyaj'' @ [CHR 0xC4, CHR 0xB1]),
      tc_description = (''Gelen raporlar d'' @ [CHR 0xC3, CHR 0xBC] @ ''zeltme ve do'' @ [CHR 0xC4, CHR 0x9F] @ ''rulamadan ge'' @ [CHR 0xC3, CHR 0xA7] @ ''er, reddetme yolu da vard'' @ [CHR 0xC4, CHR 0xB1] @ ''r.''),
      tc_columns = [(''reported'', ''Bildirildi''),
        (''triaged'', ''Triyaj Edildi''),
        (''fixing'', (''D'' @ [CHR 0xC3, CHR 0xBC] @ ''zeltiliyor'')),
        (''verifying'', (''Do'' @ [CHR 0xC4, CHR 0x9F] @ ''rulan'' @ [CHR 0xC4, CHR 0xB1] @ ''yor'')),
        (''closed'', (''Kapand'' @ [CHR 0xC4, CHR 0xB1])),
        (''wontFix'', (''D'' @ [CHR 0xC3, CHR 0xBC] @ ''zeltilmeyecek''))],
      tc_labels = [(''critical'', ''Kritik''),
        (''major'', ([CHR 0xC3, CHR 0x96] @ ''nemli'')),
        (''minor'', (''K'' @ [CHR 0xC3, CHR 0xBC, CHR 0xC3, CHR 0xA7, CHR 0xC3, CHR 0xBC] @ ''k'')),
        (''regression'', ''Regresyon''),
        (''needsInfo'', ''Bilgi Gerekli'')]\<rparr>"
| "TEMPLATE_COPY Tr ContentPipeline =
     \<lparr>tc_name = ([CHR 0xC4, CHR 0xB0, CHR 0xC3, CHR 0xA7] @ ''erik Hatt'' @ [CHR 0xC4, CHR 0xB1]),
      tc_description = (''Fikirlerden yaz'' @ [CHR 0xC4, CHR 0xB1] @ ''m ve d'' @ [CHR 0xC3, CHR 0xBC] @ ''zenlemeye, oradan yay'' @ [CHR 0xC4, CHR 0xB1] @ ''na.''),
      tc_columns = [(''ideas'', ''Fikirler''),
        (''approved'', (''Onayland'' @ [CHR 0xC4, CHR 0xB1])),
        (''drafting'', (''Yaz'' @ [CHR 0xC4, CHR 0xB1] @ ''l'' @ [CHR 0xC4, CHR 0xB1] @ ''yor'')),
        (''editing'', (''D'' @ [CHR 0xC3, CHR 0xBC] @ ''zenleniyor'')),
        (''published'', (''Yay'' @ [CHR 0xC4, CHR 0xB1] @ ''nda''))],
      tc_labels = [(''blog'', ''Blog''),
        (''social'', ''Sosyal Medya''),
        (''video'', ''Video''),
        (''newsletter'', (''B'' @ [CHR 0xC3, CHR 0xBC] @ ''lten''))]\<rparr>"

definition BOARD_TEMPLATE_SLUGS :: "template_slug list" where
  "BOARD_TEMPLATE_SLUGS = [Kanban, ScrumSprint, BugTriage, ContentPipeline]"

definition DEFAULT_BOARD_TEMPLATE :: template_slug where
  "DEFAULT_BOARD_TEMPLATE = Kanban"

definition isBoardTemplateSlug :: "string \<Rightarrow> bool" where
  "isBoardTemplateSlug value \<longleftrightarrow> list_ex (\<lambda>s. slug_name s = value) BOARD_TEMPLATE_SLUGS"

text \<open>
  \<open>copy.columns[key]!\<close>: the name table is indexed by the structure's keys; a key without a
  name would write \<open>undefined\<close>, and the catalog lemma below shows there is none.
\<close>

definition name_for :: "(string \<times> string) list \<Rightarrow> string \<Rightarrow> string" where
  "name_for table key = (case map_of table key of None \<Rightarrow> ''undefined'' | Some n \<Rightarrow> n)"

definition boardTemplateFor :: "template_slug \<Rightarrow> lang \<Rightarrow> board_template" where
  "boardTemplateFor slug l =
     (let structure = TEMPLATE_STRUCTURE slug; copy = TEMPLATE_COPY l slug
      in \<lparr>bt_slug = slug, bt_name = tc_name copy, bt_description = tc_description copy,
          bt_columns = map (\<lambda>(key, position, category).
            \<lparr>dc_name = name_for (tc_columns copy) key, dc_position = position, dc_category = category\<rparr>)
            (ts_columns structure),
          bt_labels = map (\<lambda>(key, color). \<lparr>dl_name = name_for (tc_labels copy) key, dl_color = color\<rparr>)
            (ts_labels structure)\<rparr>)"

definition boardTemplatesFor :: "lang \<Rightarrow> board_template list" where
  "boardTemplatesFor l = map (\<lambda>slug. boardTemplateFor slug l) BOARD_TEMPLATE_SLUGS"

definition defaultColumnsFor :: "lang \<Rightarrow> default_column list" where
  "defaultColumnsFor l = bt_columns (boardTemplateFor DEFAULT_BOARD_TEMPLATE l)"

section \<open>Label colours\<close>

definition LABEL_SLOTS :: "string list" where
  "LABEL_SLOTS = [''slot-1'', ''slot-2'', ''slot-3'', ''slot-4'', ''slot-5'', ''slot-6'', ''slot-7'', ''slot-8'']"

definition FALLBACK_SLOT :: string where
  "FALLBACK_SLOT = ''slot-1''"

definition toLabelColorSlot :: "string \<Rightarrow> string" where
  "toLabelColorSlot value = (if value \<in> set LABEL_SLOTS then value else FALLBACK_SLOT)"

lemma toLabelColorSlot_slot: "toLabelColorSlot v \<in> set LABEL_SLOTS"
  by (simp add: toLabelColorSlot_def FALLBACK_SLOT_def LABEL_SLOTS_def)

lemma toLabelColorSlot_idem [simp]: "toLabelColorSlot (toLabelColorSlot v) = toLabelColorSlot v"
  using toLabelColorSlot_slot [of v] by (simp add: toLabelColorSlot_def)

section \<open>The catalog is well formed\<close>

text \<open>
  Every key has a name in every language, names are not empty and not repeated, columns are in
  strictly increasing positions and one of them completes work, and every colour is a slot.
\<close>

definition template_ok :: "template_slug \<Rightarrow> lang \<Rightarrow> bool" where
  "template_ok slug l \<longleftrightarrow>
     (let t = boardTemplateFor slug l;
          st = TEMPLATE_STRUCTURE slug; copy = TEMPLATE_COPY l slug
      in (\<forall>(k, p, c) \<in> set (ts_columns st). map_of (tc_columns copy) k \<noteq> None) \<and>
         (\<forall>(k, c) \<in> set (ts_labels st). map_of (tc_labels copy) k \<noteq> None) \<and>
         sorted_wrt (\<lambda>a b. dc_position a < dc_position b) (bt_columns t) \<and>
         distinct (map dc_name (bt_columns t)) \<and> [] \<notin> set (map dc_name (bt_columns t)) \<and>
         distinct (map dl_name (bt_labels t)) \<and> [] \<notin> set (map dl_name (bt_labels t)) \<and>
         COMPLETED \<in> set (map dc_category (bt_columns t)) \<and>
         set (map dl_color (bt_labels t)) \<subseteq> set LABEL_SLOTS)"

lemmas catalog_defs = template_ok_def boardTemplateFor_def name_for_def LABEL_SLOTS_def Let_def

lemma kanban_ok: "template_ok Kanban l"
  by (cases l) (simp_all add: catalog_defs)

lemma scrum_ok: "template_ok ScrumSprint l"
  by (cases l) (simp_all add: catalog_defs)

lemma triage_ok: "template_ok BugTriage l"
  by (cases l) (simp_all add: catalog_defs)

lemma content_ok: "template_ok ContentPipeline l"
  by (cases l) (simp_all add: catalog_defs)

lemma template_ok_all: "template_ok slug l"
  using kanban_ok scrum_ok triage_ok content_ok by (cases slug) simp_all

lemma defaultColumns_increasing:
  "sorted_wrt (\<lambda>a b. dc_position a < dc_position b) (defaultColumnsFor l)"
  using kanban_ok [of l] unfolding template_ok_def defaultColumnsFor_def DEFAULT_BOARD_TEMPLATE_def Let_def
  by blast

end
