(* ===== verification/Columns.thy ===== *)
theory Columns
  imports Activities BoardTemplates
begin

text \<open>
  \<open>apps/api/src/board/column.service.ts\<close>: listing, creating, seeding, renaming, removing and
  moving the columns of a board. The row locks of the source (\<open>SELECT ... FOR UPDATE\<close>) have no
  counterpart: a handler runs without interleaving here.
\<close>

section \<open>Requests and rows\<close>

record create_column_dto =
  ccd_name :: string
  ccd_afterColumnId :: "ident option"
  ccd_color :: "string option"
  ccd_category :: "column_category option"

text \<open>A field a PATCH may omit is an option; one it may also clear is an option of an option.\<close>

record update_column_dto =
  ucd_name :: "string option"
  ucd_color :: "string option option"
  ucd_category :: "column_category option"

record move_column_dto =
  mcd_beforeColumnId :: "ident option"
  mcd_afterColumnId :: "ident option"

record column_dto =
  co_row :: column_row
  co_taskCount :: nat

definition toColumnDto :: "database \<Rightarrow> column_row \<Rightarrow> column_dto" where
  "toColumnDto d row =
     \<lparr>co_row = row, co_taskCount = length (filter (\<lambda>t. t_columnId t = c_id row \<and> t_boardId t = c_boardId row) (tasks d))\<rparr>"

definition columnsOf :: "ident \<Rightarrow> column_row list \<Rightarrow> column_row list" where
  "columnsOf boardId T = listing c_id c_position (\<lambda>c. c_boardId c = boardId) T"

definition columnSiblings :: "ident \<Rightarrow> column_row list \<Rightarrow> sibling list" where
  "columnSiblings boardId T = siblings c_id c_position (\<lambda>c. c_boardId c = boardId) T"

definition batchUpdateColumnPositions :: "ident \<Rightarrow> (ident \<times> float64) list \<Rightarrow> unit request" where
  "batchUpdateColumnPositions boardId updates =
     writeDb (\<lambda>d. d\<lparr>columns :=
       batchUpdatePositions c_id (\<lambda>p c. c\<lparr>c_position := p\<rparr>) (\<lambda>c. c_boardId c = boardId) updates (columns d)\<rparr>)"

interpretation column_rows: ordered_rows c_id c_position "\<lambda>p c. c\<lparr>c_position := p\<rparr>"
  by unfold_locales simp_all

text \<open>\<open>where: { id, board: { workspaceId } }\<close>.\<close>

definition columnIn :: "database \<Rightarrow> ident \<Rightarrow> ident \<Rightarrow> column_row \<Rightarrow> bool" where
  "columnIn d workspaceId columnId c \<longleftrightarrow> c_id c = columnId \<and> boardIn d workspaceId (c_boardId c)"

lemma columnIn_id: "columnIn d w k c \<Longrightarrow> c_id c = k"
  by (simp add: columnIn_def)

definition findColumn :: "ident \<Rightarrow> ident \<Rightarrow> column_row option request" where
  "findColumn workspaceId columnId =
     readDb (\<lambda>d. find (columnIn d workspaceId columnId) (columns d))"

text \<open>\<open>column.update\<close> under the tenant predicate; a row that is not there is Prisma's P2025.\<close>

definition updateColumn :: "ident \<Rightarrow> ident \<Rightarrow> (column_row \<Rightarrow> column_row) \<Rightarrow> column_row request" where
  "updateColumn workspaceId columnId f =
     andThen (findColumn workspaceId columnId) (\<lambda>found.
     andThen (orThrow RecordNotFound found) (\<lambda>row.
     andThen (writeDb (\<lambda>d. d\<lparr>columns :=
        map (\<lambda>c. if columnIn d workspaceId columnId c then f c else c) (columns d)\<rparr>)) (\<lambda>_.
       ret (f row))))"

definition createColumn ::
    "ident \<Rightarrow> string \<Rightarrow> string option \<Rightarrow> column_category option \<Rightarrow> float64 \<Rightarrow> column_row request" where
  "createColumn boardId name color category position =
     andThen freshId (\<lambda>newId.
       let row = \<lparr>c_id = newId, c_boardId = boardId, c_name = name, c_position = position,
                  c_color = color,
                  c_category = (case category of None \<Rightarrow> UNSTARTED | Some c \<Rightarrow> c)\<rparr>
       in andThen (writeDb (\<lambda>d. d\<lparr>columns := columns d @ [row]\<rparr>)) (\<lambda>_. ret row))"

text \<open>One column of a seed: the default columns of a board, or a template's.\<close>

definition seedColumn :: "ident \<Rightarrow> default_column \<Rightarrow> unit request" where
  "seedColumn boardId col =
     andThen (createColumn boardId (dc_name col) None (Some (dc_category col)) (dc_position col)) (\<lambda>_. ret ())"

definition emitColumnChanged :: "ident \<Rightarrow> ident \<Rightarrow> ident \<Rightarrow> ident \<Rightarrow> unit request" where
  "emitColumnChanged workspaceId actorId boardId columnId =
     emitToBoard boardId COLUMN_CHANGED workspaceId actorId [(''columnId'', JStr columnId)]"

section \<open>Operations\<close>

definition column_list :: "ident \<Rightarrow> ident \<Rightarrow> column_dto list request" where
  "column_list workspaceId boardId =
     andThen (assertBoard workspaceId boardId) (\<lambda>_.
       readDb (\<lambda>d. map (toColumnDto d) (columnsOf boardId (columns d))))"

definition column_create :: "ident \<Rightarrow> ident \<Rightarrow> ident \<Rightarrow> create_column_dto \<Rightarrow> column_dto request" where
  "column_create workspaceId boardId actorId dto =
     andThen (assertBoard workspaceId boardId) (\<lambda>_.
     andThen (transaction
       (andThen (readDb (\<lambda>d. columnSiblings boardId (columns d))) (\<lambda>cols.
        andThen (lift_result (resolveCreateNeighbors cols (ccd_afterColumnId dto) ''Column not found'')) (\<lambda>slot.
          let i = nat (insertionIndex slot);
              prevPos = gap_pos (prev slot); nextPos = gap_pos (nxt slot)
          in if needsRebalance prevPos nextPos
             then let positions = rebalancePositions (length cols + 1)
                  in andThen (batchUpdateColumnPositions boardId (shifted_updates cols i positions)) (\<lambda>_.
                     andThen (createColumn boardId (ccd_name dto) (ccd_color dto) (ccd_category dto) (positions ! i))
                       (\<lambda>row. readDb (\<lambda>d. toColumnDto d row)))
             else andThen (createColumn boardId (ccd_name dto) (ccd_color dto) (ccd_category dto)
                            (midpoint prevPos nextPos))
                    (\<lambda>row. readDb (\<lambda>d. toColumnDto d row)))))) (\<lambda>created.
     andThen (recordActivity workspaceId None actorId ColumnCreated
        (JObj [(''columnId'', JStr (c_id (co_row created))), (''boardId'', JStr (c_boardId (co_row created))),
               (''name'', JStr (c_name (co_row created))),
               (''category'', JStr (category_name (c_category (co_row created))))])) (\<lambda>_.
     andThen (emitColumnChanged workspaceId actorId (c_boardId (co_row created)) (c_id (co_row created))) (\<lambda>_.
       ret created))))"

definition column_createDefaults ::
    "ident \<Rightarrow> ident \<Rightarrow> ident \<Rightarrow> string option \<Rightarrow> column_dto list request" where
  "column_createDefaults workspaceId boardId actorId acceptLanguage =
     andThen (assertBoard workspaceId boardId) (\<lambda>_.
     andThen (locale_resolve (Some actorId) acceptLanguage) (\<lambda>l.
     andThen (transaction
       (andThen (readDb (\<lambda>d. length (filter (\<lambda>c. c_boardId c = boardId) (columns d)))) (\<lambda>existing.
        andThen (check (existing = 0) (Conflict ''Board already has columns'')) (\<lambda>_.
        andThen (forEach (defaultColumnsFor l) (seedColumn boardId)) (\<lambda>_.
        andThen (readDb (\<lambda>d. columnsOf boardId (columns d))) (\<lambda>rows.
        andThen (forEach rows (\<lambda>c.
          andThen (recordActivity workspaceId None actorId ColumnCreated
            (JObj [(''columnId'', JStr (c_id c)), (''boardId'', JStr boardId), (''name'', JStr (c_name c)),
                   (''category'', JStr (category_name (c_category c))), (''seeded'', JBool True)])) (\<lambda>_. ret ()))) (\<lambda>_.
          ret rows))))))) (\<lambda>created.
     andThen (forEach created (\<lambda>c. emitColumnChanged workspaceId actorId boardId (c_id c))) (\<lambda>_.
       readDb (\<lambda>d. map (toColumnDto d) created)))))"

definition column_update :: "ident \<Rightarrow> ident \<Rightarrow> ident \<Rightarrow> update_column_dto \<Rightarrow> column_dto request" where
  "column_update workspaceId columnId actorId dto =
     andThen (transaction
       (andThen (findColumn workspaceId columnId) (\<lambda>found.
        andThen (orThrow (NotFound ''Column not found'') found) (\<lambda>scoped.
        andThen (updateColumn workspaceId columnId (\<lambda>c. c\<lparr>
           c_name := (case ucd_name dto of None \<Rightarrow> c_name c | Some v \<Rightarrow> v),
           c_color := (case ucd_color dto of None \<Rightarrow> c_color c | Some v \<Rightarrow> v),
           c_category := (case ucd_category dto of None \<Rightarrow> c_category c | Some v \<Rightarrow> v)\<rparr>)) (\<lambda>updated.
        andThen (recordActivity workspaceId None actorId ColumnUpdated
          (JObj [(''columnId'', JStr columnId), (''boardId'', JStr (c_boardId updated)), (''name'', JStr (c_name updated)),
                 (''changes'', fieldChanges
                    [(''name'', JStr (c_name scoped), JStr (c_name updated)),
                     (''color'', json_opt_str (c_color scoped), json_opt_str (c_color updated)),
                     (''category'', JStr (category_name (c_category scoped)), JStr (category_name (c_category updated)))])])) (\<lambda>_.
          readDb (\<lambda>d. toColumnDto d updated))))))) (\<lambda>dtoOut.
     andThen (emitColumnChanged workspaceId actorId (c_boardId (co_row dtoOut)) (c_id (co_row dtoOut))) (\<lambda>_.
       ret dtoOut))"

definition column_remove :: "ident \<Rightarrow> ident \<Rightarrow> ident \<Rightarrow> unit request" where
  "column_remove workspaceId columnId actorId =
     andThen (transaction
       (andThen (findColumn workspaceId columnId) (\<lambda>found.
        andThen (orThrow (NotFound ''Column not found'') found) (\<lambda>row.
        andThen (readDb (\<lambda>d. length (filter (\<lambda>t. t_columnId t = columnId) (tasks d)))) (\<lambda>taskCount.
        andThen (check (taskCount = 0) (Conflict ''Column has tasks; move or delete them first'')) (\<lambda>_.
        andThen (recordActivity workspaceId None actorId ColumnDeleted
          (JObj [(''columnId'', JStr columnId), (''boardId'', JStr (c_boardId row)), (''name'', JStr (c_name row)),
                 (''category'', JStr (category_name (c_category row)))])) (\<lambda>_.
        andThen (readDb (\<lambda>d. length (filter (columnIn d workspaceId columnId) (columns d)))) (\<lambda>count.
        andThen (writeDb (\<lambda>d. delete_columns (columnIn d workspaceId columnId) d)) (\<lambda>_.
        andThen (check (count \<noteq> 0) (NotFound ''Column not found'')) (\<lambda>_.
          ret row)))))))))) (\<lambda>column.
       emitColumnChanged workspaceId actorId (c_boardId column) (c_id column))"

definition column_move :: "ident \<Rightarrow> ident \<Rightarrow> ident \<Rightarrow> move_column_dto \<Rightarrow> column_dto request" where
  "column_move workspaceId columnId actorId dto =
     andThen (transaction
       (andThen (findColumn workspaceId columnId) (\<lambda>found.
        andThen (orThrow (NotFound ''Column not found'') found) (\<lambda>column.
        andThen (check (mcd_beforeColumnId dto \<noteq> Some columnId \<and> mcd_afterColumnId dto \<noteq> Some columnId)
                   (BadRequest ''A column cannot be its own neighbor'')) (\<lambda>_.
        andThen (readDb (\<lambda>d. columnSiblings (c_boardId column) (columns d))) (\<lambda>cols.
          let remaining = filter (\<lambda>item. fst item \<noteq> columnId) cols
          in andThen (lift_result (resolveMoveNeighbors remaining (mcd_beforeColumnId dto) (mcd_afterColumnId dto))) (\<lambda>slot.
          let i = nat (insertionIndex slot);
              prevPos = gap_pos (prev slot); nextPos = gap_pos (nxt slot)
          in if needsRebalance prevPos nextPos
             then let positions = rebalancePositions (length remaining + 1)
                  in andThen (updateColumn workspaceId columnId (\<lambda>c. c\<lparr>c_position := positions ! i\<rparr>)) (\<lambda>_.
                     andThen (batchUpdateColumnPositions (c_boardId column)
                        (reordered_updates remaining i (c_id column, c_position column) positions)) (\<lambda>_.
                     andThen (findColumn workspaceId columnId) (\<lambda>refreshed.
                     andThen (orThrow RecordNotFound refreshed) (\<lambda>r.
                       readDb (\<lambda>d. toColumnDto d r)))))
             else andThen (updateColumn workspaceId columnId (\<lambda>c. c\<lparr>c_position := midpoint prevPos nextPos\<rparr>)) (\<lambda>updated.
                    readDb (\<lambda>d. toColumnDto d updated))))))))) (\<lambda>moved.
     andThen (emitColumnChanged workspaceId actorId (c_boardId (co_row moved)) (c_id (co_row moved))) (\<lambda>_.
       ret moved))"

section \<open>What a successful request did\<close>

lemma andThen_createColumn [run]:
  "andThen (createColumn b name color cat p) f s =
     (let row = \<lparr>c_id = uuids s (drawn s), c_boardId = b, c_name = name, c_position = p, c_color = color,
                 c_category = (case cat of None \<Rightarrow> UNSTARTED | Some c \<Rightarrow> c)\<rparr>
      in f row (s\<lparr>drawn := Suc (drawn s), db := (db s)\<lparr>columns := columns (db s) @ [row]\<rparr>\<rparr>))"
  by (simp add: createColumn_def run Let_def)

lemma andThen_batchColumns [run]:
  "andThen (batchUpdateColumnPositions b u) f s =
     f () (s\<lparr>db := (db s)\<lparr>columns :=
       batchUpdatePositions c_id (\<lambda>p c. c\<lparr>c_position := p\<rparr>) (\<lambda>c. c_boardId c = b) u (columns (db s))\<rparr>\<rparr>)"
  by (simp add: batchUpdateColumnPositions_def run)

lemma column_create_ok:
  assumes "column_create w b a dto s = (Inr out, s')"
  defines "sibs \<equiv> columnSiblings b (columns (db s))"
  obtains i slot where
    "resolveCreateNeighbors sibs (ccd_afterColumnId dto) ''Column not found'' = Inr slot"
    "slot_of sibs i slot" 
    "columns (db s') = 
        (if needsRebalance (gap_pos (prev slot)) (gap_pos (nxt slot)) 
         then batchUpdatePositions c_id (\<lambda>p c. c\<lparr>c_position := p\<rparr>) (\<lambda>c. c_boardId c = b) 
            (shifted_updates sibs i (rebalancePositions (Suc (length sibs)))) (columns (db s))
         else columns (db s)) @ [co_row out]"
    "c_boardId (co_row out) = b"
    "c_position (co_row out) = (if needsRebalance (gap_pos (prev slot)) (gap_pos (nxt slot)) 
         then rebalancePositions (Suc (length sibs)) ! i else midpoint (gap_pos (prev slot)) (gap_pos (nxt slot)))"
    "c_id (co_row out) = uuids s (drawn s)"
    "boardIn (db s) w b"
proof -
  obtain slot where slot: "resolveCreateNeighbors sibs (ccd_afterColumnId dto) ''Column not found'' = Inr slot"
    using assms(1) by (auto simp: column_create_def run andThen_transaction sibs_def split: option.splits sum.splits)
  then obtain i where i: "slot_of sibs i slot" using resolveCreate_slot by blast
  have ii: "nat (insertionIndex slot) = i" using i by (simp add: slot_of_def sliceSlot_def)
  show ?thesis
  proof (rule that [OF slot i])
  qed (use assms(1) slot ii in \<open>auto simp: column_create_def run andThen_transaction sibs_def Let_def 
     boardIn_find emitColumnChanged_def toColumnDto_def split: option.splits sum.splits if_splits\<close>)
qed

lemmas replace_columns = replace_found [of c_id _ "columnIn d w k" for d w k, OF _ _ columnIn_id]

lemma andThen_findColumn [run]:
  "andThen (findColumn w k) f s = f (find (columnIn (db s) w k) (columns (db s))) s"
  by (simp add: findColumn_def run)

lemma andThen_updateColumn [run]:
  "andThen (updateColumn w k g) f s =
     (case find (columnIn (db s) w k) (columns (db s)) of
        None \<Rightarrow> (Inl RecordNotFound, s)
      | Some row \<Rightarrow> f (g row) (s\<lparr>db := (db s)\<lparr>columns :=
           map (\<lambda>c. if columnIn (db s) w k c then g c else c) (columns (db s))\<rparr>\<rparr>))"
  by (simp add: updateColumn_def run split: option.splits)

lemma columnIn_update [simp]:
  "columnIn (d\<lparr>users := X0\<rparr>) w k = columnIn d w k"
  "columnIn (d\<lparr>workspaces := X1\<rparr>) w k = columnIn d w k"
  "columnIn (d\<lparr>members := X2\<rparr>) w k = columnIn d w k"
  "columnIn (d\<lparr>invitations := X3\<rparr>) w k = columnIn d w k"
  "columnIn (d\<lparr>columns := X4\<rparr>) w k = columnIn d w k"
  "columnIn (d\<lparr>tasks := X5\<rparr>) w k = columnIn d w k"
  "columnIn (d\<lparr>assignees := X6\<rparr>) w k = columnIn d w k"
  "columnIn (d\<lparr>labels := X7\<rparr>) w k = columnIn d w k"
  "columnIn (d\<lparr>task_labels := X8\<rparr>) w k = columnIn d w k"
  "columnIn (d\<lparr>comments := X9\<rparr>) w k = columnIn d w k"
  "columnIn (d\<lparr>attachments := X10\<rparr>) w k = columnIn d w k"
  "columnIn (d\<lparr>checklists := X11\<rparr>) w k = columnIn d w k"
  "columnIn (d\<lparr>items := X12\<rparr>) w k = columnIn d w k"
  "columnIn (d\<lparr>activities := X13\<rparr>) w k = columnIn d w k"
  "columnIn (d\<lparr>notifications := X14\<rparr>) w k = columnIn d w k"
  "columnIn (d\<lparr>tokens := X15\<rparr>) w k = columnIn d w k"
  by (simp_all add: columnIn_def fun_eq_iff)

lemma column_move_ok:
  assumes "column_move w k a dto s = (Inr out, s')" and "distinct (map c_id (columns (db s)))"
  obtains row slot i where
    "find (columnIn (db s) w k) (columns (db s)) = Some row" and
    "mcd_beforeColumnId dto \<noteq> Some k" and "mcd_afterColumnId dto \<noteq> Some k" and
    "resolveMoveNeighbors (columnSiblings (c_boardId row) (filter (\<lambda>c. c_id c \<noteq> k) (columns (db s))))
       (mcd_beforeColumnId dto) (mcd_afterColumnId dto) = Inr slot" and
    "slot_of (columnSiblings (c_boardId row) (filter (\<lambda>c. c_id c \<noteq> k) (columns (db s)))) i slot" and
    "columns (db s') =
       (let T = columns (db s); b = c_boardId row;
            rest = columnSiblings b (filter (\<lambda>c. c_id c \<noteq> k) T);
            ps = rebalancePositions (Suc (length rest));
            reb = needsRebalance (gap_pos (prev slot)) (gap_pos (nxt slot));
            m = row\<lparr>c_position := if reb then ps ! i else midpoint (gap_pos (prev slot)) (gap_pos (nxt slot))\<rparr>
        in if reb
           then batchUpdatePositions c_id (\<lambda>p c. c\<lparr>c_position := p\<rparr>) (\<lambda>c. c_boardId c = b)
                  (reordered_updates rest i (k, c_position row) ps) (replaceRow c_id k m T)
           else replaceRow c_id k m T)"
proof -
  obtain row slot where row: "find (columnIn (db s) w k) (columns (db s)) = Some row"
    and nb: "mcd_beforeColumnId dto \<noteq> Some k" "mcd_afterColumnId dto \<noteq> Some k"
    and slot: "resolveMoveNeighbors
       (columnSiblings (c_boardId row) (filter (\<lambda>c. c_id c \<noteq> k) (columns (db s))))
       (mcd_beforeColumnId dto) (mcd_afterColumnId dto) = Inr slot"
    using assms(1)
    by (auto simp: column_move_def run andThen_transaction Let_def columnSiblings_def
        column_rows.siblings_filter split: option.splits sum.splits if_splits)
  then obtain i where i: "slot_of (columnSiblings (c_boardId row) (filter (\<lambda>c. c_id c \<noteq> k) (columns (db s)))) i slot"
    using resolveMove_slot by blast
  have ii: "nat (insertionIndex slot) = i" using i by (simp add: slot_of_def sliceSlot_def)
  have id: "c_id row = k" by (rule replace_columns(3) [OF assms(2) row])
  show ?thesis
    by (rule that [OF row nb slot i])
      (use assms(1) row nb slot ii id in \<open>auto simp: column_move_def run andThen_transaction Let_def
         columnSiblings_def column_rows.siblings_filter emitColumnChanged_def
         replace_columns(1) [OF assms(2) row]
         split: option.splits sum.splits if_splits\<close>)
qed

section \<open>Order\<close>

text \<open>The abstract state of a board's columns: their ids in display order.\<close>

definition column_order :: "ident \<Rightarrow> database \<Rightarrow> ident list" where
  "column_order boardId d = map c_id (columnsOf boardId (columns d))"

lemma column_order_siblings: "column_order b d = map fst (columnSiblings b (columns d))"
  by (simp add: column_order_def columnSiblings_def columnsOf_def siblings_def comp_def)

text \<open>
  The hypotheses on a board under which the order is exact: ids are unique, positions
  strictly increase in display order, stay below the rounding bound, and are fewer than
  \<open>2 ^ 39\<close>.
\<close>

definition columns_ordered :: "ident \<Rightarrow> database \<Rightarrow> bool" where
  "columns_ordered b d \<longleftrightarrow>
     distinct (map c_id (columns d)) \<and> increasing (columnSiblings b (columns d)) \<and>
     (\<forall>x \<in> set (columnSiblings b (columns d)). safe_position (snd x)) \<and>
     length (columnSiblings b (columns d)) < 2 ^ 39"

lemma column_create_order_lemma:
  assumes ok: "column_create w b a dto s = (Inr out, s')" and ord: "columns_ordered b (db s)"
  shows "\<exists>i slot. resolveCreateNeighbors (columnSiblings b (columns (db s))) (ccd_afterColumnId dto)
             ''Column not found'' = Inr slot \<and> insertionIndex slot = int i \<and>
           column_order b (db s') = insert_at i (c_id (co_row out)) (column_order b (db s)) \<and>
           increasing (columnSiblings b (columns (db s')))"
proof -
  let ?S = "\<lambda>c. c_boardId c = b"
  obtain i slot where c:
    "resolveCreateNeighbors (columnSiblings b (columns (db s))) (ccd_afterColumnId dto) ''Column not found'' = Inr slot"
    "slot_of (columnSiblings b (columns (db s))) i slot"
    "columns (db s') =
        (if needsRebalance (gap_pos (prev slot)) (gap_pos (nxt slot))
         then batchUpdatePositions c_id (\<lambda>p c. c\<lparr>c_position := p\<rparr>) ?S
            (shifted_updates (columnSiblings b (columns (db s))) i
               (rebalancePositions (Suc (length (columnSiblings b (columns (db s))))))) (columns (db s))
         else columns (db s)) @ [co_row out]"
    "c_boardId (co_row out) = b"
    "c_position (co_row out) = (if needsRebalance (gap_pos (prev slot)) (gap_pos (nxt slot))
         then rebalancePositions (Suc (length (columnSiblings b (columns (db s))))) ! i
         else midpoint (gap_pos (prev slot)) (gap_pos (nxt slot)))"
    by (rule column_create_ok [OF ok])
  have "map fst (siblings c_id c_position ?S (columns (db s'))) =
          insert_at i (c_id (co_row out)) (map fst (siblings c_id c_position ?S (columns (db s)))) \<and>
        increasing (siblings c_id c_position ?S (columns (db s')))"
    using ord c by (intro column_rows.inserted_order)
      (auto simp: columns_ordered_def columnSiblings_def)
  with c show ?thesis
    by (auto simp: column_order_siblings columnSiblings_def slot_of_def sliceSlot_def)
qed

lemma column_move_order_lemma:
  assumes ok: "column_move w k a dto s = (Inr out, s')" and ids: "distinct (map c_id (columns (db s)))"
    and row: "find (columnIn (db s) w k) (columns (db s)) = Some row"
    and ord: "columns_ordered (c_boardId row) (db s)"
  shows "\<exists>i slot.
      resolveMoveNeighbors
        (filter (\<lambda>it. fst it \<noteq> k) (columnSiblings (c_boardId row) (columns (db s))))
        (mcd_beforeColumnId dto) (mcd_afterColumnId dto) = Inr slot \<and> insertionIndex slot = int i \<and>
      column_order (c_boardId row) (db s') =
        insert_at i k (filter (\<lambda>x. x \<noteq> k) (column_order (c_boardId row) (db s))) \<and>
      increasing (columnSiblings (c_boardId row) (columns (db s')))"
proof -
  let ?b = "c_boardId row"
  let ?S = "\<lambda>c. c_boardId c = ?b"
  let ?T0 = "filter (\<lambda>c. c_id c \<noteq> k) (columns (db s))"
  have rest: "filter (\<lambda>it. fst it \<noteq> k) (columnSiblings ?b (columns (db s))) = columnSiblings ?b ?T0"
    by (simp add: columnSiblings_def column_rows.siblings_filter)
  have sub: "set (columnSiblings ?b ?T0) \<subseteq> set (columnSiblings ?b (columns (db s)))"
    by (simp flip: rest)
  have inc0: "increasing (columnSiblings ?b ?T0)"
    using ord unfolding columns_ordered_def rest [symmetric] increasing_def
    by (blast intro: sorted_wrt_filter)
  have len0: "Suc (length (columnSiblings ?b ?T0)) < 2 ^ 40"
  proof -
    have "length (columnSiblings ?b ?T0) \<le> length (columnSiblings ?b (columns (db s)))"
      unfolding rest [symmetric] by (rule length_filter_le)
    moreover have "length (columnSiblings ?b (columns (db s))) < 2 ^ 39"
      using ord by (simp add: columns_ordered_def)
    ultimately show ?thesis by simp
  qed
  obtain row' slot i where m: "find (columnIn (db s) w k) (columns (db s)) = Some row'"
    "resolveMoveNeighbors (columnSiblings (c_boardId row') ?T0)
       (mcd_beforeColumnId dto) (mcd_afterColumnId dto) = Inr slot"
    "slot_of (columnSiblings (c_boardId row') ?T0) i slot"
    "columns (db s') =
       (let T = columns (db s); b = c_boardId row';
            rest = columnSiblings b (filter (\<lambda>c. c_id c \<noteq> k) T);
            ps = rebalancePositions (Suc (length rest));
            reb = needsRebalance (gap_pos (prev slot)) (gap_pos (nxt slot));
            m = row'\<lparr>c_position := if reb then ps ! i else midpoint (gap_pos (prev slot)) (gap_pos (nxt slot))\<rparr>
        in if reb
           then batchUpdatePositions c_id (\<lambda>p c. c\<lparr>c_position := p\<rparr>) (\<lambda>c. c_boardId c = b)
                  (reordered_updates rest i (k, c_position row') ps) (replaceRow c_id k m T)
           else replaceRow c_id k m T)"
    by (rule column_move_ok [OF ok ids])
  have [simp]: "row' = row" using m(1) row by simp
  have "map fst (siblings c_id c_position ?S (columns (db s'))) =
          insert_at i k (map fst (siblings c_id c_position ?S ?T0)) \<and>
        increasing (siblings c_id c_position ?S (columns (db s')))"
  proof (rule column_rows.moved_order)
    show "distinct (map c_id (columns (db s)))" by (rule ids)
    show "k \<in> set (map c_id (columns (db s)))" by (rule replace_columns(2) [OF ids row])
    show "increasing (siblings c_id c_position ?S ?T0)"
      using inc0 by (simp add: columnSiblings_def)
    show "slot_of (siblings c_id c_position ?S ?T0) i slot"
      using m(3) by (simp add: columnSiblings_def)
    show "\<forall>x \<in> set (siblings c_id c_position ?S ?T0). safe_position (snd x)"
      using ord sub unfolding columns_ordered_def columnSiblings_def by blast
    show "Suc (length (siblings c_id c_position ?S ?T0)) < 2 ^ 40"
      using len0 by (simp add: columnSiblings_def)
  qed (use m(4) replace_columns(3) [OF ids row] in \<open>auto simp: Let_def columnSiblings_def\<close>)
  moreover have "map fst (siblings c_id c_position ?S ?T0) =
      filter (\<lambda>x. x \<noteq> k) (column_order ?b (db s))"
    using rest by (simp add: column_order_siblings columnSiblings_def filter_map comp_def
        flip: column_rows.siblings_filter)
  ultimately show ?thesis
    using m(2,3) by (auto simp: column_order_siblings columnSiblings_def column_rows.siblings_filter
        slot_of_def sliceSlot_def)
qed

section \<open>Seeding\<close>

definition seededColumn :: "world \<Rightarrow> ident \<Rightarrow> nat \<Rightarrow> default_column \<Rightarrow> column_row" where
  "seededColumn s boardId i col =
     \<lparr>c_id = uuids s (drawn s + i), c_boardId = boardId, c_name = dc_name col,
      c_position = dc_position col, c_color = None, c_category = dc_category col\<rparr>"

definition seededColumns :: "world \<Rightarrow> ident \<Rightarrow> default_column list \<Rightarrow> column_row list" where
  "seededColumns s boardId cols = map (\<lambda>i. seededColumn s boardId i (cols ! i)) [0..<length cols]"

lemma andThen_seedColumn [run]:
  "andThen (seedColumn b col) f s =
     f () (s\<lparr>drawn := Suc (drawn s),
             db := (db s)\<lparr>columns := columns (db s) @ [seededColumn s b 0 col]\<rparr>\<rparr>)"
  by (simp add: seedColumn_def seededColumn_def run Let_def)

lemma map_upt_Cons: "map f [0..<Suc n] = f 0 # map (\<lambda>i. f (Suc i)) [0..<n]"
  by (simp add: upt_conv_Cons map_Suc_upt [symmetric] comp_def del: upt_Suc)

lemma seedColumns_run [run]:
  "forEach cols (seedColumn b) s =
     (Inr (), s\<lparr>drawn := drawn s + length cols,
                db := (db s)\<lparr>columns := columns (db s) @ seededColumns s b cols\<rparr>\<rparr>)"
proof (induction cols arbitrary: s)
  case Nil
  then show ?case by (simp add: run seededColumns_def)
next
  case (Cons c cs)
  have "seededColumns s b (c # cs) = seededColumn s b 0 c # map (\<lambda>i. seededColumn s b (Suc i) (cs ! i)) [0..<length cs]"
    unfolding seededColumns_def list.size One_nat_def add_Suc_right add_0_right map_upt_Cons by simp
  moreover have "seededColumns (s\<lparr>drawn := Suc (drawn s), db := D\<rparr>) b cs =
      map (\<lambda>i. seededColumn s b (Suc i) (cs ! i)) [0..<length cs]" for D
    by (simp add: seededColumns_def seededColumn_def)
  ultimately show ?case
    by (simp add: andThen_seedColumn Cons.IH)
qed

lemma andThen_seedColumns [run]:
  "andThen (forEach cols (seedColumn b)) f s =
     f () (s\<lparr>drawn := drawn s + length cols,
             db := (db s)\<lparr>columns := columns (db s) @ seededColumns s b cols\<rparr>\<rparr>)"
  by (simp add: andThen_def seedColumns_run)

section \<open>Refusals\<close>

lemma forEach_columns_ok: "fst (forEach cs (\<lambda>c. emitColumnChanged w a b (c_id c)) s) = Inr ()"
  by (induction cs arbitrary: s) (simp_all add: run emitColumnChanged_def)

text \<open>Whatever refuses a column request leaves the tables and the socket as they were.\<close>

lemma column_create_refused:
  "column_create w b a dto s = (Inl e, s') \<Longrightarrow> db s' = db s \<and> outbox s' = outbox s"
  by (auto simp: column_create_def run andThen_transaction Let_def emitColumnChanged_def
      split: option.splits sum.splits if_splits)

lemma column_update_refused:
  "column_update w k a dto s = (Inl e, s') \<Longrightarrow> db s' = db s \<and> outbox s' = outbox s"
  by (auto simp: column_update_def run andThen_transaction Let_def emitColumnChanged_def
      split: option.splits sum.splits if_splits)

lemma column_remove_refused:
  "column_remove w k a s = (Inl e, s') \<Longrightarrow> db s' = db s \<and> outbox s' = outbox s"
  by (auto simp: column_remove_def run andThen_transaction Let_def emitColumnChanged_def
      split: option.splits sum.splits if_splits)

lemma column_move_refused:
  "column_move w k a dto s = (Inl e, s') \<Longrightarrow> db s' = db s \<and> outbox s' = outbox s"
  by (auto simp: column_move_def run andThen_transaction Let_def emitColumnChanged_def
      split: option.splits sum.splits if_splits)

section \<open>Removal\<close>

text \<open>Exactly when a column can be removed, and what is then left.\<close>

lemma column_remove_ok:
  "fst (column_remove w k a s) = Inr () \<longleftrightarrow>
     (\<exists>c \<in> set (columns (db s)). columnIn (db s) w k c) \<and> (\<forall>t \<in> set (tasks (db s)). t_columnId t \<noteq> k)"
  by (auto simp: column_remove_def run andThen_transaction Let_def emitColumnChanged_def find_None_iff
      filter_empty_conv split: option.splits sum.splits if_splits dest!: find_Some_iff_mem)

end
