(* ===== verification/Environment.thy ===== *)
theory Environment
  imports Locales
begin

text \<open>
  \<open>apps/api/src/common/env.ts\<close> and \<open>apps/api/src/storage/storage-config.ts\<close>: reading integers,
  ports, strings and booleans out of \<open>process.env\<close>, JavaScript's \<open>Number\<close> on a string with
  it, and the storage ceilings with their defaults and refusals. A configuration error is a
  value: the \<open>Error\<close> the source throws at boot.
\<close>

section \<open>Numbers as text\<close>

type_synonym environment = "string \<Rightarrow> string option"

fun nat_string :: "nat \<Rightarrow> string" where
  "nat_string n = (if n < 10 then [char_of (48 + n)] else nat_string (n div 10) @ [char_of (48 + n mod 10)])"

declare nat_string.simps [simp del]

text \<open>\<open>String(n)\<close> of an integer below \<open>10 ^ 21\<close>, where JavaScript prints every digit.\<close>

definition int_string :: "int \<Rightarrow> string" where
  "int_string n = (if n < 0 then ''-'' @ nat_string (nat (- n)) else nat_string (nat n))"

text \<open>
  \<open>Number(text)\<close>: \<open>None\<close> stands for \<open>NaN\<close> and the infinities, which every caller refuses
  alike. The whole trimmed text has to be a decimal literal, or an unsigned hexadecimal,
  octal or binary one; a finite value is rounded to a double.
\<close>

definition to_double :: "rat \<Rightarrow> float64 option" where
  "to_double v = (if 2 ^ 1024 - 2 ^ 970 \<le> \<bar>v\<bar> then None else Some (fl v))"

definition complete_exponent :: "string \<Rightarrow> bool" where
  "complete_exponent s \<longleftrightarrow>
     (case s of
        [] \<Rightarrow> True
      | e # rest \<Rightarrow>
          (e = CHR ''e'' \<or> e = CHR ''E'') \<and>
          (let ds = (if starts_with ''-'' rest \<or> starts_with ''+'' rest then tl rest else rest)
           in ds \<noteq> [] \<and> list_all is_digit ds))"

definition decimal_tail :: "string \<Rightarrow> string" where
  "decimal_tail s =
     (let rest = dropWhile is_digit s
      in if starts_with ''.'' rest then dropWhile is_digit (tl rest) else rest)"

definition unsigned_literal :: "string \<Rightarrow> rat option" where
  "unsigned_literal s =
     (if starts_with ''Infinity'' s \<or> \<not> complete_exponent (decimal_tail s) then None
      else parse_unsigned s)"

definition radix_digit :: "char \<Rightarrow> nat" where
  "radix_digit c =
     (if is_digit c then digit_value c
      else let l = of_char (lower_char c) in if 97 \<le> l \<and> l \<le> 102 then l - 87 else 16)"

definition radix_literal :: "nat \<Rightarrow> string \<Rightarrow> rat option" where
  "radix_literal r ds =
     (if ds = [] \<or> \<not> list_all (\<lambda>c. radix_digit c < r) ds then None
      else Some (of_nat (foldl (\<lambda>n c. r * n + radix_digit c) 0 ds)))"

definition js_number :: "string \<Rightarrow> float64 option" where
  "js_number text =
     (let t = js_trim text
      in if t = [] then Some 0
         else Option.bind
           (if starts_with ''0x'' t \<or> starts_with ''0X'' t then radix_literal 16 (drop 2 t)
            else if starts_with ''0o'' t \<or> starts_with ''0O'' t then radix_literal 8 (drop 2 t)
            else if starts_with ''0b'' t \<or> starts_with ''0B'' t then radix_literal 2 (drop 2 t)
            else if starts_with ''-'' t then map_option uminus (unsigned_literal (tl t))
            else if starts_with ''+'' t then unsigned_literal (tl t)
            else unsigned_literal t)
           to_double)"

section \<open>Variables\<close>

definition bind_result :: "'e + 'a \<Rightarrow> ('a \<Rightarrow> 'e + 'b) \<Rightarrow> 'e + 'b" where
  "bind_result r f = (case r of Inl e \<Rightarrow> Inl e | Inr x \<Rightarrow> f x)"

definition envString :: "environment \<Rightarrow> string \<Rightarrow> string \<Rightarrow> string" where
  "envString env name fallback =
     (case map_option js_trim (env name) of
        None \<Rightarrow> fallback
      | Some raw \<Rightarrow> if raw = [] then fallback else raw)"

definition is_integer :: "rat \<Rightarrow> bool" where
  "is_integer v \<longleftrightarrow> v = of_int \<lfloor>v\<rfloor>"

definition envInt :: "environment \<Rightarrow> string \<Rightarrow> int \<Rightarrow> http_error + int" where
  "envInt env name fallback =
     (case map_option js_trim (env name) of
        None \<Rightarrow> Inr fallback
      | Some raw \<Rightarrow>
          if raw = [] then Inr fallback
          else (case js_number raw of
                  None \<Rightarrow> Inl (ServerFault (''Invalid '' @ name @ '': expected an integer, received \"'' @ raw @ ''\"''))
                | Some v \<Rightarrow>
                    if is_integer v then Inr \<lfloor>v\<rfloor>
                    else Inl (ServerFault (''Invalid '' @ name @ '': expected an integer, received \"'' @ raw @ ''\"''))))"

definition envPort :: "environment \<Rightarrow> string \<Rightarrow> int \<Rightarrow> http_error + int" where
  "envPort env name fallback =
     bind_result (envInt env name fallback) (\<lambda>port.
       if port < 1 \<or> 65535 < port
       then Inl (ServerFault (''Invalid '' @ name @ '': expected a port between 1 and 65535, received \"'' @
                   int_string port @ ''\"''))
       else Inr port)"

definition TRUE_VALUES :: "string list" where
  "TRUE_VALUES = [''true'', ''1'', ''yes'', ''on'']"

definition FALSE_VALUES :: "string list" where
  "FALSE_VALUES = [''false'', ''0'', ''no'', ''off'']"

definition envBool :: "environment \<Rightarrow> string \<Rightarrow> bool \<Rightarrow> http_error + bool" where
  "envBool env name fallback =
     (case map_option js_trim (env name) of
        None \<Rightarrow> Inr fallback
      | Some raw \<Rightarrow>
          if raw = [] then Inr fallback
          else if js_lower raw \<in> set TRUE_VALUES then Inr True
          else if js_lower raw \<in> set FALSE_VALUES then Inr False
          else Inl (ServerFault (''Invalid '' @ name @ '': expected a boolean, received \"'' @ raw @ ''\"'')))"

section \<open>Storage ceilings\<close>

definition DEFAULT_ATTACHMENT_MAX_BYTES :: int where
  "DEFAULT_ATTACHMENT_MAX_BYTES = 26214400"

definition DEFAULT_ATTACHMENT_WORKSPACE_QUOTA_BYTES :: int where
  "DEFAULT_ATTACHMENT_WORKSPACE_QUOTA_BYTES = 2147483648"

definition DEFAULT_ATTACHMENT_INSTANCE_QUOTA_BYTES :: int where
  "DEFAULT_ATTACHMENT_INSTANCE_QUOTA_BYTES = 21474836480"

definition DEFAULT_ATTACHMENT_UPLOAD_BYTES_PER_MINUTE :: int where
  "DEFAULT_ATTACHMENT_UPLOAD_BYTES_PER_MINUTE = 268435456"

datatype config_source = FromEnv | FromDefault

record storage_config =
  sc_disk :: "string option"
  sc_maxBytes :: int
  sc_workspaceQuotaBytes :: int
  sc_instanceQuotaBytes :: int
  sc_uploadBytesPerMinute :: int
  sc_workspaceQuotaSource :: config_source
  sc_instanceQuotaSource :: config_source
  sc_uploadBudgetSource :: config_source

definition byteCeiling :: "environment \<Rightarrow> string \<Rightarrow> int \<Rightarrow> http_error + int \<times> config_source" where
  "byteCeiling env name fallback =
     (if envString env name [] = [] then Inr (fallback, FromDefault)
      else bind_result (envInt env name fallback) (\<lambda>bytes.
        if bytes < 0
        then Inl (ServerFault (''Invalid '' @ name @ '': expected a non-negative byte count, received \"'' @
                    int_string bytes @ ''\"''))
        else Inr (bytes, FromEnv)))"

definition readStorageConfig :: "environment \<Rightarrow> http_error + storage_config" where
  "readStorageConfig env =
     (let root = envString env ''STORAGE_PATH'' []
      in if root \<noteq> [] \<and> \<not> starts_with ''/'' root
         then Inl (ServerFault (''Invalid STORAGE_PATH: expected an absolute path, received \"'' @ root @ ''\"''))
         else
           bind_result (envInt env ''ATTACHMENT_MAX_BYTES'' DEFAULT_ATTACHMENT_MAX_BYTES) (\<lambda>maxBytes.
           if maxBytes \<le> 0
           then Inl (ServerFault (''Invalid ATTACHMENT_MAX_BYTES: expected a positive byte count, received \"'' @
                       int_string maxBytes @ ''\"''))
           else
             bind_result (byteCeiling env ''ATTACHMENT_WORKSPACE_QUOTA_BYTES''
               DEFAULT_ATTACHMENT_WORKSPACE_QUOTA_BYTES) (\<lambda>(workspaceQuota, workspaceSource).
             bind_result (byteCeiling env ''ATTACHMENT_INSTANCE_QUOTA_BYTES''
               DEFAULT_ATTACHMENT_INSTANCE_QUOTA_BYTES) (\<lambda>(instanceQuota, instanceSource).
             bind_result (byteCeiling env ''ATTACHMENT_UPLOAD_BYTES_PER_MINUTE''
               DEFAULT_ATTACHMENT_UPLOAD_BYTES_PER_MINUTE) (\<lambda>(uploadBudget, uploadSource).
               Inr \<lparr>sc_disk = (if root = [] then None else Some root), sc_maxBytes = maxBytes,
                    sc_workspaceQuotaBytes = workspaceQuota, sc_instanceQuotaBytes = instanceQuota,
                    sc_uploadBytesPerMinute = uploadBudget, sc_workspaceQuotaSource = workspaceSource,
                    sc_instanceQuotaSource = instanceSource, sc_uploadBudgetSource = uploadSource\<rparr>)))))"

definition storageConfigWarnings :: "storage_config \<Rightarrow> string list" where
  "storageConfigWarnings c =
     (if 0 < sc_workspaceQuotaBytes c \<and> 0 < sc_instanceQuotaBytes c \<and>
         sc_instanceQuotaBytes c < sc_workspaceQuotaBytes c
      then [''ATTACHMENT_WORKSPACE_QUOTA_BYTES ('' @ int_string (sc_workspaceQuotaBytes c) @
            '') is larger than ATTACHMENT_INSTANCE_QUOTA_BYTES ('' @ int_string (sc_instanceQuotaBytes c) @
            ''); the instance quota fills first, so no workspace can reach its own'']
      else []) @
     (if 0 < sc_uploadBytesPerMinute c \<and> sc_uploadBytesPerMinute c < sc_maxBytes c
      then [''ATTACHMENT_UPLOAD_BYTES_PER_MINUTE ('' @ int_string (sc_uploadBytesPerMinute c) @
            '') is smaller than ATTACHMENT_MAX_BYTES ('' @ int_string (sc_maxBytes c) @
            ''); a file near the size limit can never fit in the per-minute budget and is answered 429 on every attempt'']
      else [])"

section \<open>Mail and links\<close>

text \<open>\<open>mail/mail-config.ts\<close>, \<open>demo/demo-mode.ts\<close> and \<open>auth/web-urls.ts\<close>.\<close>

record smtp_config =
  sm_host :: string
  sm_port :: int
  sm_secure :: bool
  sm_auth :: "(string \<times> string) option"

record mail_config =
  mc_from :: string
  mc_smtp :: "smtp_config option"

definition readMailConfig :: "environment \<Rightarrow> http_error + mail_config" where
  "readMailConfig env =
     (let from = envString env ''MAIL_FROM'' ''Kurul <noreply@localhost>'';
          host = envString env ''SMTP_HOST'' []
      in if host = [] then Inr \<lparr>mc_from = from, mc_smtp = None\<rparr>
         else
           bind_result (envPort env ''SMTP_PORT'' 587) (\<lambda>port.
           let user = envString env ''SMTP_USER'' []
           in bind_result (envBool env ''SMTP_SECURE'' (port = 465)) (\<lambda>secure.
                Inr \<lparr>mc_from = from,
                     mc_smtp = Some \<lparr>sm_host = host, sm_port = port, sm_secure = secure,
                       sm_auth = (if user = [] then None else Some (user, envString env ''SMTP_PASSWORD'' []))\<rparr>\<rparr>)))"

text \<open>
  Whether the transport that \<open>createMailSender\<close> picks delivers: never on a demo instance, and
  otherwise when there is an SMTP host.
\<close>

definition demoModeEnabled :: "environment \<Rightarrow> http_error + bool" where
  "demoModeEnabled env = envBool env ''DEMO_MODE'' False"

definition mailEnabled :: "environment \<Rightarrow> http_error + bool" where
  "mailEnabled env =
     bind_result (readMailConfig env) (\<lambda>config.
     bind_result (demoModeEnabled env) (\<lambda>demo.
       Inr (\<not> demo \<and> mc_smtp config \<noteq> None)))"

definition trimTrailingSlash :: "string \<Rightarrow> string" where
  "trimTrailingSlash url = rev (dropWhile (\<lambda>c. c = CHR ''/'') (rev url))"

definition webAppUrl :: "environment \<Rightarrow> string" where
  "webAppUrl env = trimTrailingSlash (envString env ''WEB_URL'' ''http://localhost:3000'')"

definition buildInviteAcceptUrl :: "environment \<Rightarrow> ident \<Rightarrow> string" where
  "buildInviteAcceptUrl env invitationId = webAppUrl env @ ''/invite/'' @ invitationId"

definition buildTaskUrl :: "environment \<Rightarrow> ident \<Rightarrow> ident \<Rightarrow> string" where
  "buildTaskUrl env boardId taskId = webAppUrl env @ ''/board/'' @ boardId @ ''/task/'' @ taskId"

section \<open>Printed integers read back\<close>

lemma of_char_digit: "d < 10 \<Longrightarrow> of_char (char_of (48 + d) :: char) = (48 + d :: nat)"
  by simp

lemma is_digit_char: "(d :: nat) < 10 \<Longrightarrow> is_digit (char_of (48 + d))"
  by (simp add: is_digit_def)

lemma nat_string_digits: "list_all is_digit (nat_string n)"
proof (induction n rule: nat_string.induct)
  case (1 n)
  then show ?case
    by (subst nat_string.simps) (auto simp: is_digit_char)
qed

lemma nat_string_nonempty: "nat_string n \<noteq> []"
  by (subst nat_string.simps) simp

lemma digits_value_nat_string: "digits_value (nat_string n) = n"
proof (induction n rule: nat_string.induct)
  case (1 n)
  then show ?case
    by (subst nat_string.simps) (auto simp: digits_value_def digit_value_def)
qed

lemma digits_not_space: "is_digit c \<Longrightarrow> \<not> is_space c"
  by (auto simp: is_digit_def is_space_def)

lemma js_trim_id:
  assumes "s \<noteq> []" and "\<not> is_space (hd s)" and "\<not> is_space (last s)"
  shows "js_trim s = s"
proof -
  have "dropWhile is_space s = s"
    using assms by (cases s) simp_all
  moreover have "dropWhile is_space (rev s) = rev s"
    using assms(1,3) by (cases s rule: rev_cases) simp_all
  ultimately show ?thesis by (simp add: js_trim_def)
qed

lemma starts_with_Cons: "starts_with (a # p) s \<longleftrightarrow> (\<exists>r. s = a # r \<and> starts_with p r)"
  by (cases s) (simp_all add: starts_with_def)

lemma starts_with_Nil [simp]: "starts_with [] s"
  by (simp add: starts_with_def)

lemma starts_with_empty [simp]: "\<not> starts_with (a # p) []"
  by (simp add: starts_with_Cons)

lemma digits_unsigned:
  assumes "list_all is_digit ds" and "ds \<noteq> []"
  shows "unsigned_literal ds = Some (of_nat (digits_value ds))"
proof -
  have all: "\<forall>c \<in> set ds. is_digit c" using assms(1) by (simp add: list_all_iff)
  then have t: "takeWhile is_digit ds = ds" "dropWhile is_digit ds = []"
    by (simp_all add: takeWhile_eq_all_conv)
  have "\<not> starts_with ''Infinity'' ds"
    using all by (auto simp: starts_with_Cons is_digit_def)
  with assms(2) show ?thesis
    by (simp add: t unsigned_literal_def parse_unsigned_def decimal_tail_def complete_exponent_def
        parse_exponent_def Let_def)
qed

lemma nat_string_first:
  assumes "nat_string n = c # cs"
  shows "is_digit c" and "list_all is_digit cs" and "c = CHR ''0'' \<Longrightarrow> cs = []"
proof -
  show "is_digit c" "list_all is_digit cs"
    using nat_string_digits [of n] assms by simp_all
  show "cs = []" if "c = CHR ''0''"
    using assms that
  proof (induction n arbitrary: cs rule: nat_string.induct)
    case (1 n)
    show ?case
    proof (cases "n < 10")
      case True
      with 1 show ?thesis by (subst (asm) (2) nat_string.simps) simp
    next
      case False
      then obtain ds where ds: "nat_string (n div 10) = c # ds"
        using "1.prems" nat_string_nonempty [of "n div 10"]
        by (subst (asm) (2) nat_string.simps) (auto simp: append_eq_Cons_conv)
      with 1 False have "ds = []" by blast
      with ds "1.prems" have "digits_value (nat_string (n div 10)) = 0"
        by (simp add: digits_value_def digit_value_def)
      with False show ?thesis by (simp add: digits_value_nat_string)
    qed
  qed
qed

text \<open>The printed form of an integer, its sign and its digits.\<close>

lemma int_string_shape:
  obtains c cs where "nat_string (nat \<bar>n\<bar>) = c # cs" "is_digit c" "list_all is_digit cs"
    "c = CHR ''0'' \<longrightarrow> cs = []"
    "int_string n = (if n < 0 then [CHR ''-''] else []) @ c # cs"
proof -
  obtain c cs where c: "nat_string (nat \<bar>n\<bar>) = c # cs"
    using nat_string_nonempty by (cases "nat_string (nat \<bar>n\<bar>)") auto
  show ?thesis
    using nat_string_first [OF c] c by (intro that [of c cs]) (auto simp: int_string_def)
qed

lemma js_trim_int_string [simp]: "js_trim (int_string n) = int_string n" "int_string n \<noteq> []"
proof -
  obtain c cs where n: "is_digit c" "list_all is_digit cs"
    "int_string n = (if n < 0 then [CHR ''-''] else []) @ c # cs"
    by (rule int_string_shape [of n])
  have "\<not> is_space (last (c # cs))"
    using n(1,2) digits_not_space by (metis last_in_set list.distinct(1) list_all_iff set_ConsD)
  with n show "js_trim (int_string n) = int_string n" "int_string n \<noteq> []"
    using digits_not_space [OF n(1)] by (auto intro!: js_trim_id simp: is_space_def [of "CHR ''-''"])
qed

text \<open>What JavaScript prints for an integer that a double holds, \<open>Number\<close> reads back.\<close>

lemma to_double_int:
  assumes "\<bar>n\<bar> < 2 ^ 53"
  shows "to_double (of_int n) = Some (of_int n)"
proof -
  have "\<bar>of_int n :: rat\<bar> < 2 ^ 53"
    using assms by (metis of_int_abs of_int_less_iff of_int_numeral of_int_power)
  then have "\<not> (2 ^ 1024 - 2 ^ 970 \<le> \<bar>of_int n :: rat\<bar>)" by simp
  with assms show ?thesis by (simp add: to_double_def fl_of_int)
qed

lemma js_number_int_string:
  assumes "\<bar>n\<bar> < 2 ^ 53"
  shows "js_number (int_string n) = Some (of_int n)"
proof -
  obtain c cs where c: "nat_string (nat \<bar>n\<bar>) = c # cs" "is_digit c" "list_all is_digit cs"
      "c = CHR ''0'' \<longrightarrow> cs = []"
      "int_string n = (if n < 0 then [CHR ''-''] else []) @ c # cs"
    by (rule int_string_shape [of n])
  have "unsigned_literal (c # cs) = Some (of_nat (digits_value (c # cs)))"
    using c by (intro digits_unsigned) simp_all
  then have lit: "unsigned_literal (c # cs) = Some (of_int \<bar>n\<bar>)"
    by (simp add: c(1) [symmetric] digits_value_nat_string of_nat_nat del: of_int_abs)
  have sgn: "c \<noteq> CHR ''-''" "c \<noteq> CHR ''+''"
    using c(2) by (auto simp: is_digit_def)
  have "js_number (int_string n) = Option.bind (Some (of_int n)) to_double"
  proof (cases "n < 0")
    case False
    have "\<not> starts_with [CHR ''0'', x] (c # cs)" for x
      using c(4) by (auto simp: starts_with_Cons)
    moreover have "js_trim (c # cs) = c # cs"
      using js_trim_int_string(1) [of n] False by (simp add: c(5))
    ultimately show ?thesis
      using False lit sgn by (auto simp: js_number_def Let_def c(5) starts_with_Cons)
  next
    case True
    have "js_trim (CHR ''-'' # c # cs) = CHR ''-'' # c # cs"
      using js_trim_int_string(1) [of n] True by (simp add: c(5))
    with True lit show ?thesis
      by (simp add: js_number_def Let_def c(5) starts_with_Cons)
  qed
  with to_double_int [OF assms] show ?thesis by simp
qed

lemma envInt_reads_back:
  assumes "env name = Some (int_string n)" and "\<bar>n\<bar> < 2 ^ 53"
  shows "envInt env name fallback = Inr n"
  using js_number_int_string [OF assms(2)] by (simp add: envInt_def assms(1) is_integer_def)

section \<open>A configuration that is accepted is usable\<close>

lemma byteCeiling_nonneg:
  "byteCeiling env name fallback = Inr (b, src) \<Longrightarrow> 0 \<le> fallback \<Longrightarrow> 0 \<le> b"
  by (auto simp: byteCeiling_def bind_result_def split: if_splits sum.splits)

lemma default_ceilings_nonneg:
  "0 \<le> DEFAULT_ATTACHMENT_WORKSPACE_QUOTA_BYTES" "0 \<le> DEFAULT_ATTACHMENT_INSTANCE_QUOTA_BYTES"
  "0 \<le> DEFAULT_ATTACHMENT_UPLOAD_BYTES_PER_MINUTE"
  by (simp_all add: DEFAULT_ATTACHMENT_WORKSPACE_QUOTA_BYTES_def
      DEFAULT_ATTACHMENT_INSTANCE_QUOTA_BYTES_def DEFAULT_ATTACHMENT_UPLOAD_BYTES_PER_MINUTE_def)

lemma readStorageConfig_sound:
  assumes "readStorageConfig env = Inr c"
  shows "0 < sc_maxBytes c" and "0 \<le> sc_workspaceQuotaBytes c" and "0 \<le> sc_instanceQuotaBytes c"
    and "0 \<le> sc_uploadBytesPerMinute c"
    and "\<And>root. sc_disk c = Some root \<Longrightarrow> starts_with ''/'' root"
  using assms
  by (auto simp: readStorageConfig_def Let_def bind_result_def
      dest!: byteCeiling_nonneg [OF _ default_ceilings_nonneg(1)] byteCeiling_nonneg [OF _ default_ceilings_nonneg(2)]
        byteCeiling_nonneg [OF _ default_ceilings_nonneg(3)] split: if_splits sum.splits)

lemma readStorageConfig_default:
  assumes "env ''STORAGE_PATH'' = None" "env ''ATTACHMENT_MAX_BYTES'' = None"
    "env ''ATTACHMENT_WORKSPACE_QUOTA_BYTES'' = None" "env ''ATTACHMENT_INSTANCE_QUOTA_BYTES'' = None"
    "env ''ATTACHMENT_UPLOAD_BYTES_PER_MINUTE'' = None"
  shows "readStorageConfig env =
    Inr \<lparr>sc_disk = None, sc_maxBytes = 26214400, sc_workspaceQuotaBytes = 2147483648,
         sc_instanceQuotaBytes = 21474836480, sc_uploadBytesPerMinute = 268435456,
         sc_workspaceQuotaSource = FromDefault, sc_instanceQuotaSource = FromDefault,
         sc_uploadBudgetSource = FromDefault\<rparr>"
  using assms
  by (simp add: readStorageConfig_def envString_def envInt_def byteCeiling_def bind_result_def
      DEFAULT_ATTACHMENT_MAX_BYTES_def DEFAULT_ATTACHMENT_WORKSPACE_QUOTA_BYTES_def
      DEFAULT_ATTACHMENT_INSTANCE_QUOTA_BYTES_def DEFAULT_ATTACHMENT_UPLOAD_BYTES_PER_MINUTE_def)

end
