(* ===== verification/Integrity.thy ===== *)
theory Integrity
  imports Activities
begin

text \<open>
  The cascades of the schema keep the foreign keys of the tables: deleting tasks, labels,
  columns, boards or checklists leaves no row that names a deleted one; and which additions
  and rewrites of rows keep them.
\<close>

section \<open>References\<close>

lemma refs_filter [intro]: "refs xs f ys g \<Longrightarrow> refs (filter Q xs) f ys g"
  by (auto simp: refs_def)

lemma opt_refs_filter [intro]: "opt_refs xs f ys g \<Longrightarrow> opt_refs (filter Q xs) f ys g"
  by (auto simp: opt_refs_def)

lemma refs_filter_target:
  "refs xs f ys g \<Longrightarrow> (\<forall>x \<in> set xs. f x \<notin> g ` {y \<in> set ys. \<not> P y}) \<Longrightarrow> refs xs f (filter P ys) g"
  by (simp add: refs_def image_iff) metis

lemma refs_delete:
  "refs xs f ys g \<Longrightarrow> refs (filter (\<lambda>x. f x \<notin> g ` {y \<in> set ys. P y}) xs) f (filter (\<lambda>y. \<not> P y) ys) g"
  by (rule refs_filter_target) auto

lemma opt_refs_filter_target:
  "opt_refs xs f ys g \<Longrightarrow> (\<forall>x \<in> set xs. f x \<notin> Some ` g ` {y \<in> set ys. \<not> P y}) \<Longrightarrow>
     opt_refs xs f (filter P ys) g"
  by (simp add: opt_refs_def image_iff) metis

lemma opt_refs_delete:
  "opt_refs xs f ys g \<Longrightarrow>
     opt_refs (filter (\<lambda>x. f x \<notin> Some ` g ` {y \<in> set ys. P y}) xs) f (filter (\<lambda>y. \<not> P y) ys) g"
  by (rule opt_refs_filter_target) auto

lemma opt_refs_set_null:
  assumes "opt_refs xs f ys g" and "\<And>x. f (h x) = None"
  shows "opt_refs (map (\<lambda>x. if f x \<in> Some ` g ` {y \<in> set ys. P y} then h x else x) xs) f
           (filter (\<lambda>y. \<not> P y) ys) g"
  unfolding opt_refs_def
proof
  fix z
  assume "z \<in> set (map (\<lambda>x. if f x \<in> Some ` g ` {y \<in> set ys. P y} then h x else x) xs)"
  then obtain x where x: "x \<in> set xs" "z = (if f x \<in> Some ` g ` {y \<in> set ys. P y} then h x else x)"
    by auto
  show "f z = None \<or> (\<exists>y \<in> set (filter (\<lambda>y. \<not> P y) ys). Some (g y) = f z)"
  proof (cases "f x \<in> Some ` g ` {y \<in> set ys. P y} \<or> f x = None")
    case True
    with x assms(2) show ?thesis by auto
  next
    case False
    then obtain y where "y \<in> set ys" "Some (g y) = f x"
      using assms(1) x(1) by (auto simp: opt_refs_def)
    with False x(2) show ?thesis by (auto simp: image_iff)
  qed
qed

lemma refs_map [simp]: "(\<And>x. f (m x) = f x) \<Longrightarrow> refs (map m xs) f ys g = refs xs f ys g"
  by (simp add: refs_def)

lemma refs_map_target [simp]: "(\<And>y. g (m y) = g y) \<Longrightarrow> refs xs f (map m ys) g = refs xs f ys g"
  by (simp add: refs_def)

lemma opt_refs_map [simp]: "(\<And>x. f (m x) = f x) \<Longrightarrow> opt_refs (map m xs) f ys g = opt_refs xs f ys g"
  by (simp add: opt_refs_def)

lemma opt_refs_map_target [simp]:
  "(\<And>y. g (m y) = g y) \<Longrightarrow> opt_refs xs f (map m ys) g = opt_refs xs f ys g"
  by (simp add: opt_refs_def)

lemma refs_add [simp]: "refs (xs @ zs) f ys g \<longleftrightarrow> refs xs f ys g \<and> refs zs f ys g"
  by (auto simp: refs_def)

lemma opt_refs_add [simp]: "opt_refs (xs @ zs) f ys g \<longleftrightarrow> opt_refs xs f ys g \<and> opt_refs zs f ys g"
  by (auto simp: opt_refs_def)

lemma refs_single [simp]: "refs [x] f ys g \<longleftrightarrow> (\<exists>y \<in> set ys. g y = f x)"
  by (simp add: refs_def)

lemma opt_refs_single [simp]: "opt_refs [x] f ys g \<longleftrightarrow> f x = None \<or> (\<exists>y \<in> set ys. Some (g y) = f x)"
  by (simp add: opt_refs_def)

lemma refs_append_target: "refs xs f ys g \<Longrightarrow> refs xs f (ys @ zs) g"
  by (auto simp: refs_def)

lemma opt_refs_append_target [simp]: "opt_refs xs f ys g \<Longrightarrow> opt_refs xs f (ys @ zs) g"
  by (auto simp: opt_refs_def)

section \<open>Deletions\<close>

lemma delete_tasks_tables [simp]:
  "tasks (delete_tasks P d) = filter (\<lambda>t. \<not> P t) (tasks d)"
  "users (delete_tasks P d) = users d" "workspaces (delete_tasks P d) = workspaces d"
  "members (delete_tasks P d) = members d" "invitations (delete_tasks P d) = invitations d" "tokens (delete_tasks P d) = tokens d"
  "sessions (delete_tasks P d) = sessions d" "accounts (delete_tasks P d) = accounts d"
  "verifications (delete_tasks P d) = verifications d" "pings (delete_tasks P d) = pings d"
  "boards (delete_tasks P d) = boards d" "columns (delete_tasks P d) = columns d"
  "labels (delete_tasks P d) = labels d"
  by (simp_all add: delete_tasks_def Let_def)

lemma delete_tasks_children:
  "assignees (delete_tasks P d) = filter (\<lambda>x. ta_taskId x \<notin> t_id ` {t \<in> set (tasks d). P t}) (assignees d)"
  "task_labels (delete_tasks P d) = filter (\<lambda>x. tl_taskId x \<notin> t_id ` {t \<in> set (tasks d). P t}) (task_labels d)"
  "comments (delete_tasks P d) = filter (\<lambda>x. cm_taskId x \<notin> t_id ` {t \<in> set (tasks d). P t}) (comments d)"
  "attachments (delete_tasks P d) = filter (\<lambda>x. a_taskId x \<notin> t_id ` {t \<in> set (tasks d). P t}) (attachments d)"
  "checklists (delete_tasks P d) = filter (\<lambda>x. cl_taskId x \<notin> t_id ` {t \<in> set (tasks d). P t}) (checklists d)"
  "items (delete_tasks P d) = filter (\<lambda>x. ci_checklistId x \<notin> cl_id `
     {c \<in> set (checklists d). cl_taskId c \<in> t_id ` {t \<in> set (tasks d). P t}}) (items d)"
  "activities (delete_tasks P d) = map (\<lambda>x. if ac_taskId x \<in> Some ` t_id ` {t \<in> set (tasks d). P t}
     then x\<lparr>ac_taskId := None\<rparr> else x) (activities d)"
  "notifications (delete_tasks P d) = filter (\<lambda>x. n_taskId x \<notin> Some ` t_id ` {t \<in> set (tasks d). P t}) (notifications d)"
  by (simp_all add: delete_tasks_def Let_def)

lemma delete_tasks_integrity:
  assumes "ref_integrity d"
  shows "ref_integrity (delete_tasks P d)"
proof -
  have items: "refs (filter (\<lambda>x. ci_checklistId x \<notin> cl_id `
       {c \<in> set (checklists d). cl_taskId c \<in> t_id ` {t \<in> set (tasks d). P t}}) (items d)) ci_checklistId
     (filter (\<lambda>x. cl_taskId x \<notin> t_id ` {t \<in> set (tasks d). P t}) (checklists d)) cl_id"
    using assms by (intro refs_delete) (simp add: ref_integrity_def)
  show ?thesis
    using assms items unfolding ref_integrity_def delete_tasks_tables delete_tasks_children
    by (intro conjI) (simp_all add: refs_filter refs_delete opt_refs_filter opt_refs_delete opt_refs_set_null)
qed

lemma delete_labels_integrity:
  assumes "ref_integrity d"
  shows "ref_integrity (delete_labels P d)"
  using assms unfolding ref_integrity_def delete_labels_def Let_def set_map set_filter
  by (simp add: refs_filter refs_delete)

text \<open>Dropping rows nothing refers to any more.\<close>

lemma drop_columns_integrity:
  assumes "ref_integrity d" and "\<forall>t \<in> set (tasks d). task_column t \<notin> column_key ` {c \<in> set (columns d). P c}"
  shows "ref_integrity (d\<lparr>columns := filter (\<lambda>c. \<not> P c) (columns d)\<rparr>)"
  using assms unfolding ref_integrity_def
  by (simp add: refs_filter refs_filter_target)

lemma drop_boards_integrity:
  assumes "ref_integrity d"
    and "\<forall>c \<in> set (columns d). c_boardId c \<notin> b_id ` {b \<in> set (boards d). P b}"
    and "\<forall>t \<in> set (tasks d). t_boardId t \<notin> b_id ` {b \<in> set (boards d). P b}"
    and "\<forall>l \<in> set (labels d). l_boardId l \<notin> b_id ` {b \<in> set (boards d). P b}"
  shows "ref_integrity (d\<lparr>boards := filter (\<lambda>b. \<not> P b) (boards d)\<rparr>)"
  using assms unfolding ref_integrity_def
  by (simp add: refs_filter refs_filter_target)

lemma delete_columns_alt:
  "delete_columns P d =
     (let e = delete_tasks (\<lambda>t. task_column t \<in> column_key ` {c \<in> set (columns d). P c}) d
      in e\<lparr>columns := filter (\<lambda>c. \<not> P c) (columns e)\<rparr>)"
  by (simp add: delete_columns_def delete_tasks_def Let_def)

lemma delete_columns_integrity:
  assumes "ref_integrity d"
  shows "ref_integrity (delete_columns P d)"
  unfolding delete_columns_alt Let_def
  by (rule drop_columns_integrity) (use delete_tasks_integrity [OF assms] in auto)

lemma delete_columns_tables [simp]:
  "columns (delete_columns P d) = filter (\<lambda>c. \<not> P c) (columns d)"
  "tasks (delete_columns P d) =
     filter (\<lambda>t. task_column t \<notin> column_key ` {c \<in> set (columns d). P c}) (tasks d)"
  "users (delete_columns P d) = users d" "workspaces (delete_columns P d) = workspaces d"
  "members (delete_columns P d) = members d" "invitations (delete_columns P d) = invitations d" "tokens (delete_columns P d) = tokens d"
  "boards (delete_columns P d) = boards d" "labels (delete_columns P d) = labels d"
  by (simp_all add: delete_columns_alt Let_def)

lemma delete_labels_tables [simp]:
  "labels (delete_labels P d) = filter (\<lambda>l. \<not> P l) (labels d)"
  "users (delete_labels P d) = users d" "workspaces (delete_labels P d) = workspaces d"
  "members (delete_labels P d) = members d" "invitations (delete_labels P d) = invitations d" "tokens (delete_labels P d) = tokens d"
  "boards (delete_labels P d) = boards d" "columns (delete_labels P d) = columns d"
  "tasks (delete_labels P d) = tasks d"
  by (simp_all add: delete_labels_def Let_def)

lemma delete_boards_commute:
  "delete_tasks Q (d\<lparr>boards := B\<rparr>) = (delete_tasks Q d)\<lparr>boards := B\<rparr>"
  "delete_tasks Q (d\<lparr>columns := C\<rparr>) = (delete_tasks Q d)\<lparr>columns := C\<rparr>"
  "delete_labels R (d\<lparr>boards := B\<rparr>) = (delete_labels R d)\<lparr>boards := B\<rparr>"
  by (simp_all add: delete_tasks_def delete_labels_def Let_def)

lemma delete_columns_commute:
  "delete_columns Q (d\<lparr>boards := B\<rparr>) = (delete_columns Q d)\<lparr>boards := B\<rparr>"
  by (simp add: delete_columns_def delete_boards_commute Let_def)

lemma delete_boards_alt:
  "delete_boards P d =
     (let gone = b_id ` {b \<in> set (boards d). P b};
          e = delete_labels (\<lambda>l. l_boardId l \<in> gone)
                (delete_tasks (\<lambda>t. t_boardId t \<in> gone) (delete_columns (\<lambda>c. c_boardId c \<in> gone) d))
      in e\<lparr>boards := filter (\<lambda>b. \<not> P b) (boards e)\<rparr>)"
  by (simp add: delete_boards_def delete_boards_commute delete_columns_commute Let_def)

lemma delete_boards_integrity:
  assumes "ref_integrity d"
  shows "ref_integrity (delete_boards P d)"
  unfolding delete_boards_alt Let_def
  by (rule drop_boards_integrity)
    (use delete_labels_integrity [OF delete_tasks_integrity [OF delete_columns_integrity [OF assms]]] in auto)

lemma delete_boards_tables:
  "boards (delete_boards P d) = filter (\<lambda>b. \<not> P b) (boards d)"
  "columns (delete_boards P d) = filter (\<lambda>c. c_boardId c \<notin> b_id ` {b \<in> set (boards d). P b}) (columns d)"
  "tasks (delete_boards P d) = filter (\<lambda>t. t_boardId t \<notin> b_id ` {b \<in> set (boards d). P b}) (tasks d)"
  "labels (delete_boards P d) = filter (\<lambda>l. l_boardId l \<notin> b_id ` {b \<in> set (boards d). P b}) (labels d)"
  "users (delete_boards P d) = users d" "workspaces (delete_boards P d) = workspaces d"
  "members (delete_boards P d) = members d" "invitations (delete_boards P d) = invitations d" "tokens (delete_boards P d) = tokens d"
  by (auto simp: delete_boards_alt Let_def task_column_def column_key_def intro!: filter_cong)

lemma delete_tasks_logged: "map ac_workspaceId (activities (delete_tasks P d)) = map ac_workspaceId (activities d)"
  by (simp add: delete_tasks_children cong: if_cong)

lemma delete_boards_others:
  "map ac_workspaceId (activities (delete_boards P d)) = map ac_workspaceId (activities d)"
  "pings (delete_boards P d) = pings d" "sessions (delete_boards P d) = sessions d"
  "accounts (delete_boards P d) = accounts d" "verifications (delete_boards P d) = verifications d"
proof -
  have labels: "activities (delete_labels Q e) = activities e" "pings (delete_labels Q e) = pings e"
    "sessions (delete_labels Q e) = sessions e" "accounts (delete_labels Q e) = accounts e"
    "verifications (delete_labels Q e) = verifications e" for Q e
    by (simp_all add: delete_labels_def Let_def)
  have columns: "map ac_workspaceId (activities (delete_columns Q e)) = map ac_workspaceId (activities e)"
    "pings (delete_columns Q e) = pings e" "sessions (delete_columns Q e) = sessions e"
    "accounts (delete_columns Q e) = accounts e" "verifications (delete_columns Q e) = verifications e" for Q e
    by (simp_all add: delete_columns_alt Let_def delete_tasks_logged)
  show "map ac_workspaceId (activities (delete_boards P d)) = map ac_workspaceId (activities d)"
    "pings (delete_boards P d) = pings d" "sessions (delete_boards P d) = sessions d"
    "accounts (delete_boards P d) = accounts d" "verifications (delete_boards P d) = verifications d"
    by (simp_all add: delete_boards_alt Let_def labels columns delete_tasks_logged)
qed

lemma delete_activities_tables [simp]:
  "activities (delete_activities P d) = filter (\<lambda>x. \<not> P x) (activities d)"
  "users (delete_activities P d) = users d" "workspaces (delete_activities P d) = workspaces d"
  "members (delete_activities P d) = members d" "invitations (delete_activities P d) = invitations d"
  "tokens (delete_activities P d) = tokens d" "sessions (delete_activities P d) = sessions d"
  "accounts (delete_activities P d) = accounts d" "verifications (delete_activities P d) = verifications d"
  "pings (delete_activities P d) = pings d" "boards (delete_activities P d) = boards d"
  "columns (delete_activities P d) = columns d" "tasks (delete_activities P d) = tasks d"
  "assignees (delete_activities P d) = assignees d" "labels (delete_activities P d) = labels d"
  "task_labels (delete_activities P d) = task_labels d" "comments (delete_activities P d) = comments d"
  "attachments (delete_activities P d) = attachments d" "checklists (delete_activities P d) = checklists d"
  "items (delete_activities P d) = items d"
  by (simp_all add: delete_activities_def Let_def)

lemma delete_activities_integrity:
  assumes "ref_integrity d"
  shows "ref_integrity (delete_activities P d)"
proof -
  have n: "notifications (delete_activities P d) = map (\<lambda>n. if n_activityId n \<in> Some ` ac_id ` {x \<in> set (activities d). P x}
      then n\<lparr>n_activityId := None\<rparr> else n) (notifications d)"
    by (simp add: delete_activities_def Let_def)
  show ?thesis
    using assms unfolding ref_integrity_def delete_activities_tables n
    by (intro conjI) (simp_all add: refs_filter opt_refs_filter opt_refs_set_null)
qed

lemma drop_workspaces_integrity:
  assumes "ref_integrity d" and gone: "gone = w_id ` {w \<in> set (workspaces d). P w}"
    and "\<forall>b \<in> set (boards d). b_workspaceId b \<notin> gone"
    and "\<forall>x \<in> set (activities d). ac_workspaceId x \<notin> gone"
  shows "ref_integrity (d\<lparr>workspaces := filter (\<lambda>w. \<not> P w) (workspaces d),
     members := filter (\<lambda>m. m_workspaceId m \<notin> gone) (members d),
     invitations := filter (\<lambda>i. i_workspaceId i \<notin> gone) (invitations d),
     tokens := filter (\<lambda>k. tk_workspaceId k \<notin> gone) (tokens d),
     notifications := filter (\<lambda>n. n_workspaceId n \<notin> gone) (notifications d),
     pings := filter (\<lambda>p. up_workspaceId p \<notin> gone) (pings d)\<rparr>)"
  using assms unfolding ref_integrity_def
  by (intro conjI) (simp_all add: refs_filter opt_refs_filter refs_delete refs_filter_target)

lemma delete_workspaces_integrity:
  assumes "ref_integrity d"
  shows "ref_integrity (delete_workspaces P d)"
proof -
  define gone where "gone = w_id ` {w \<in> set (workspaces d). P w}"
  define e where "e = delete_boards (\<lambda>b. b_workspaceId b \<in> gone) (delete_activities (\<lambda>x. ac_workspaceId x \<in> gone) d)"
  have ws: "workspaces e = workspaces d" by (simp add: e_def delete_boards_tables)
  have "delete_workspaces P d = e\<lparr>workspaces := filter (\<lambda>w. \<not> P w) (workspaces e),
     members := filter (\<lambda>m. m_workspaceId m \<notin> gone) (members e),
     invitations := filter (\<lambda>i. i_workspaceId i \<notin> gone) (invitations e),
     tokens := filter (\<lambda>k. tk_workspaceId k \<notin> gone) (tokens e),
     notifications := filter (\<lambda>n. n_workspaceId n \<notin> gone) (notifications e),
     pings := filter (\<lambda>p. up_workspaceId p \<notin> gone) (pings e)\<rparr>" (is "_ = ?R")
    unfolding delete_workspaces_def Let_def set_map set_filter gone_def e_def ..
  moreover have "ref_integrity ?R"
  proof (rule drop_workspaces_integrity)
    show "ref_integrity e" unfolding e_def by (intro delete_boards_integrity delete_activities_integrity assms)
    show "gone = w_id ` {w \<in> set (workspaces e). P w}" by (simp only: ws gone_def)
    show "\<forall>b \<in> set (boards e). b_workspaceId b \<notin> gone" by (simp add: e_def delete_boards_tables)
    have "set (map ac_workspaceId (activities e)) = set (map ac_workspaceId (filter (\<lambda>x. ac_workspaceId x \<notin> gone) (activities d)))"
      by (simp only: e_def delete_boards_others(1) delete_activities_tables)
    moreover have "set (map ac_workspaceId (filter (\<lambda>x. ac_workspaceId x \<notin> gone) (activities d))) \<inter> gone = {}" by auto
    ultimately show "\<forall>x \<in> set (activities e). ac_workspaceId x \<notin> gone"
      by (metis disjoint_iff image_eqI list.set_map)
  qed
  ultimately show ?thesis by (simp only:)
qed

lemma delete_workspaces_tables:
  fixes P d defines "gone \<equiv> w_id ` {w \<in> set (workspaces d). P w}"
  shows "workspaces (delete_workspaces P d) = filter (\<lambda>w. \<not> P w) (workspaces d)"
    and "members (delete_workspaces P d) = filter (\<lambda>m. m_workspaceId m \<notin> gone) (members d)"
    and "invitations (delete_workspaces P d) = filter (\<lambda>i. i_workspaceId i \<notin> gone) (invitations d)"
    and "tokens (delete_workspaces P d) = filter (\<lambda>k. tk_workspaceId k \<notin> gone) (tokens d)"
    and "pings (delete_workspaces P d) = filter (\<lambda>p. up_workspaceId p \<notin> gone) (pings d)"
    and "users (delete_workspaces P d) = users d"
    and "sessions (delete_workspaces P d) = sessions d"
    and "accounts (delete_workspaces P d) = accounts d"
    and "verifications (delete_workspaces P d) = verifications d"
    and "boards (delete_workspaces P d) = filter (\<lambda>b. b_workspaceId b \<notin> gone) (boards d)"
  by (simp_all add: delete_workspaces_def Let_def delete_boards_tables delete_boards_others gone_def)

lemma delete_checklists_integrity:
  assumes "ref_integrity d"
  shows "ref_integrity (delete_checklists P d)"
  using assms unfolding ref_integrity_def delete_checklists_def Let_def set_map set_filter
  by (simp add: refs_filter refs_delete)

text \<open>An audit entry of a member of the workspace refers to rows that exist.\<close>

lemma log_integrity:
  assumes "ref_integrity d" and "\<exists>x \<in> set (workspaces d). w_id x = w" and "\<exists>u \<in> set (users d). u_id u = a"
    and "t = None \<or> (\<exists>y \<in> set (tasks d). Some (t_id y) = t)"
  shows "ref_integrity (d\<lparr>activities := activities d @ [activityFor s w t a typ p]\<rparr>)"
  using assms by (simp add: ref_integrity_def)

section \<open>Rewritten positions and rows\<close>

lemma refs_batch [simp]:
  assumes "\<And>p r. f (sp p r) = f r"
  shows "refs (batchUpdatePositions rid sp S u T) f ys g = refs T f ys g"
  unfolding batchUpdatePositions_def by (rule refs_map) (simp add: assms split: option.split)

lemma refs_batch_target [simp]:
  assumes "\<And>p r. g (sp p r) = g r"
  shows "refs xs f (batchUpdatePositions rid sp S u T) g = refs xs f T g"
  unfolding batchUpdatePositions_def by (rule refs_map_target) (simp add: assms split: option.split)

lemma opt_refs_batch_target [simp]:
  assumes "\<And>p r. g (sp p r) = g r"
  shows "opt_refs xs f (batchUpdatePositions rid sp S u T) g = opt_refs xs f T g"
  unfolding batchUpdatePositions_def by (rule opt_refs_map_target) (simp add: assms split: option.split)

lemma refs_replace:
  assumes "refs T f ys g" and "\<exists>y \<in> set ys. g y = f m"
  shows "refs (replaceRow rid k m T) f ys g"
  using assms by (auto simp: refs_def replaceRow_def)

lemma refs_replace_target [simp]:
  assumes "rid m = k"
  shows "refs xs f (replaceRow rid k m T) rid = refs xs f T rid"
  unfolding replaceRow_def by (rule refs_map_target) (simp add: assms)

lemma opt_refs_replace_target [simp]:
  assumes "rid m = k"
  shows "opt_refs xs f (replaceRow rid k m T) rid = opt_refs xs f T rid"
  unfolding replaceRow_def by (rule opt_refs_map_target) (simp add: assms)

text \<open>New tables of tasks: what the rows refer to, and that no id is lost.\<close>

lemma refs_more: "refs xs f ys g \<Longrightarrow> g ` set ys \<subseteq> g ` set zs \<Longrightarrow> refs xs f zs g"
  unfolding refs_def by (metis image_iff subsetD)

lemma opt_refs_more: "opt_refs xs f ys g \<Longrightarrow> g ` set ys \<subseteq> g ` set zs \<Longrightarrow> opt_refs xs f zs g"
  unfolding opt_refs_def by (metis image_iff subsetD)

lemma tasks_integrity:
  assumes "ref_integrity d" and "refs T t_boardId (boards d) b_id"
    and "refs T task_column (columns d) column_key" and "refs T t_createdById (users d) u_id"
    and "t_id ` set (tasks d) \<subseteq> t_id ` set T"
  shows "ref_integrity (d\<lparr>tasks := T\<rparr>)"
  using assms(1-4) unfolding ref_integrity_def
  by (simp add: refs_more [OF _ assms(5)] opt_refs_more [OF _ assms(5)])

end
