(* ===== verification/Notifications.thy ===== *)
theory Notifications
  imports Environment Integrity
begin

text \<open>
  \<open>apps/api/src/notification/notification.service.ts\<close> and \<open>notification-mailer.ts\<close>: storing a
  notification unless its recipient caused it, the mention batch, the reader's side (list,
  unread count, marking read), the socket signal per recipient, and which stored
  notifications are followed by an email.
\<close>

section \<open>Storing\<close>

text \<open>\<open>[...new Set(xs)]\<close>: the first occurrence of each element, in order.\<close>

definition unique :: "'a list \<Rightarrow> 'a list" where
  "unique xs = rev (remdups (rev xs))"

fun notification_name :: "notification_type \<Rightarrow> string" where
  "notification_name Assignment = ''assignment''"
| "notification_name Mention = ''mention''"
| "notification_name DueSoon = ''due_soon''"

definition emitUnreadChanged :: "ident \<Rightarrow> ident list \<Rightarrow> unit request" where
  "emitUnreadChanged workspaceId userIds =
     forEach (unique userIds) (\<lambda>u. emitToUser workspaceId u NOTIFICATION_UNREAD_CHANGED)"

definition insertNotification ::
    "ident \<Rightarrow> ident \<Rightarrow> notification_type \<Rightarrow> ident option \<Rightarrow> ident option \<Rightarrow> json \<Rightarrow> notification_row request" where
  "insertNotification workspaceId userId typ taskId activityId payload =
     andThen freshId (\<lambda>newId. andThen now (\<lambda>t.
       let row = \<lparr>n_id = newId, n_workspaceId = workspaceId, n_userId = userId, n_type = typ,
                  n_taskId = taskId, n_activityId = activityId, n_payload = payload,
                  n_readAt = None, n_createdAt = t\<rparr>
       in andThen (writeDb (\<lambda>d. d\<lparr>notifications := notifications d @ [row]\<rparr>)) (\<lambda>_. ret row)))"

definition notification_create ::
    "ident \<Rightarrow> ident \<Rightarrow> ident \<Rightarrow> notification_type \<Rightarrow> ident option \<Rightarrow> ident option \<Rightarrow> json \<Rightarrow>
     notification_row option request" where
  "notification_create workspaceId userId actorId typ taskId activityId payload =
     (if userId = actorId then ret None
      else andThen (insertNotification workspaceId userId typ taskId activityId payload) (\<lambda>row. ret (Some row)))"

definition createAssignment ::
    "ident \<Rightarrow> ident \<Rightarrow> ident \<Rightarrow> ident \<Rightarrow> ident option \<Rightarrow> json \<Rightarrow> notification_row option request" where
  "createAssignment workspaceId userId actorId taskId activityId payload =
     notification_create workspaceId userId actorId Assignment (Some taskId) activityId payload"

definition mentionRecipients :: "ident \<Rightarrow> ident list \<Rightarrow> ident list" where
  "mentionRecipients actorId userIds = filter (\<lambda>u. u \<noteq> actorId) (unique userIds)"

definition storeMention ::
    "ident \<Rightarrow> ident \<Rightarrow> ident option \<Rightarrow> json \<Rightarrow> ident \<Rightarrow> unit request" where
  "storeMention workspaceId taskId activityId payload userId =
     andThen (insertNotification workspaceId userId Mention (Some taskId) activityId payload) (\<lambda>_. ret ())"

definition createMentionBatch ::
    "ident \<Rightarrow> ident \<Rightarrow> ident \<Rightarrow> ident option \<Rightarrow> ident list \<Rightarrow> json \<Rightarrow> nat request" where
  "createMentionBatch workspaceId actorId taskId activityId userIds payload =
     (let recipients = mentionRecipients actorId userIds
      in if recipients = [] then ret 0
         else andThen (forEach recipients (storeMention workspaceId taskId activityId payload))
                (\<lambda>_. ret (length recipients)))"

definition DUE_SOON_WINDOW_MS :: millis where
  "DUE_SOON_WINDOW_MS = 24 * 60 * 60 * 1000"

definition shouldSkipDueSoon :: "ident \<Rightarrow> ident \<Rightarrow> bool request" where
  "shouldSkipDueSoon userId taskId =
     andThen now (\<lambda>t. readDb (\<lambda>d.
       list_ex (\<lambda>n. n_userId n = userId \<and> n_taskId n = Some taskId \<and> n_type n = DueSoon \<and>
                    (n_readAt n = None \<or> t - DUE_SOON_WINDOW_MS \<le> n_createdAt n)) (notifications d)))"

section \<open>Reading\<close>

definition notificationFeed ::
    "ident \<Rightarrow> ident \<Rightarrow> bool \<Rightarrow> string option \<Rightarrow> database \<Rightarrow> notification_row list" where
  "notificationFeed workspaceId userId unreadOnly typ d =
     rev (sort_key n_id
       (filter (\<lambda>n. n_workspaceId n = workspaceId \<and> n_userId n = userId \<and>
                    (unreadOnly \<longrightarrow> n_readAt n = None) \<and>
                    (truthy typ \<longrightarrow> Some (notification_name (n_type n)) = typ)) (notifications d)))"

definition notification_list ::
    "ident \<Rightarrow> ident \<Rightarrow> bool \<Rightarrow> string option \<Rightarrow> ident option \<Rightarrow> nat option \<Rightarrow>
     notification_row cursor_page request" where
  "notification_list workspaceId userId unreadOnly typ cursor limit =
     (let lim = (case limit of None \<Rightarrow> 50 | Some n \<Rightarrow> n);
          cur = (if truthy cursor then cursor else None)
      in readDb (\<lambda>d. toCursorPage n_id
           (cursorQuery n_id (\<lambda>c i. i < c) cur lim (notificationFeed workspaceId userId unreadOnly typ d)) lim id))"

definition unreadFor :: "ident \<Rightarrow> ident \<Rightarrow> notification_row \<Rightarrow> bool" where
  "unreadFor workspaceId userId n \<longleftrightarrow>
     n_workspaceId n = workspaceId \<and> n_userId n = userId \<and> n_readAt n = None"

definition unreadCount :: "ident \<Rightarrow> ident \<Rightarrow> nat request" where
  "unreadCount workspaceId userId =
     readDb (\<lambda>d. length (filter (unreadFor workspaceId userId) (notifications d)))"

definition notificationKey :: "ident \<Rightarrow> ident \<Rightarrow> ident \<Rightarrow> notification_row \<Rightarrow> bool" where
  "notificationKey workspaceId userId notificationId n \<longleftrightarrow>
     n_id n = notificationId \<and> n_workspaceId n = workspaceId \<and> n_userId n = userId"

definition markRead :: "ident \<Rightarrow> ident \<Rightarrow> ident \<Rightarrow> notification_row request" where
  "markRead workspaceId userId notificationId =
     andThen (transaction
       (andThen (readDb (\<lambda>d. find (notificationKey workspaceId userId notificationId) (notifications d))) (\<lambda>found.
        andThen (orThrow (NotFound ''Notification not found'') found) (\<lambda>existing.
          if n_readAt existing \<noteq> None then ret (existing, False)
          else andThen now (\<lambda>t.
               andThen (writeDb (\<lambda>d. d\<lparr>notifications :=
                  map (\<lambda>n. if notificationKey workspaceId userId notificationId n
                           then n\<lparr>n_readAt := Some t\<rparr> else n) (notifications d)\<rparr>)) (\<lambda>_.
                 ret (existing\<lparr>n_readAt := Some t\<rparr>, True))))))) (\<lambda>(row, changed).
     andThen (whenever changed (emitUnreadChanged workspaceId [userId])) (\<lambda>_.
       ret row))"

definition markAllRead :: "ident \<Rightarrow> ident \<Rightarrow> nat request" where
  "markAllRead workspaceId userId =
     andThen now (\<lambda>t.
     andThen (readDb (\<lambda>d. length (filter (unreadFor workspaceId userId) (notifications d)))) (\<lambda>count.
     andThen (writeDb (\<lambda>d. d\<lparr>notifications :=
        map (\<lambda>n. if unreadFor workspaceId userId n then n\<lparr>n_readAt := Some t\<rparr> else n) (notifications d)\<rparr>)) (\<lambda>_.
     andThen (whenever (0 < count) (emitUnreadChanged workspaceId [userId])) (\<lambda>_.
       ret count))))"

section \<open>Email\<close>

record mail_input =
  mi_workspaceId :: ident
  mi_userId :: ident
  mi_actorId :: "ident option"
  mi_type :: notification_type
  mi_taskId :: ident

definition actorName :: "database \<Rightarrow> ident option \<Rightarrow> string" where
  "actorName d actorId =
     (case actorId of
        None \<Rightarrow> []
      | Some a \<Rightarrow> (case find (\<lambda>u. u_id u = a) (users d) of None \<Rightarrow> [] | Some u \<Rightarrow> u_name u))"

definition workspaceName :: "database \<Rightarrow> ident \<Rightarrow> string" where
  "workspaceName d workspaceId =
     (case find (\<lambda>w. w_id w = workspaceId) (workspaces d) of None \<Rightarrow> [] | Some w \<Rightarrow> w_name w)"

text \<open>\<open>build\<close>: the message for a stored notification, or \<open>None\<close> when there is nothing to send.\<close>

definition buildMail :: "environment \<Rightarrow> database \<Rightarrow> mail_input \<Rightarrow> mail_message option" where
  "buildMail env d item =
     (if mi_actorId item = Some (mi_userId item) then None
      else case find (\<lambda>u. u_id u = mi_userId item) (users d) of
        None \<Rightarrow> None
      | Some recipient \<Rightarrow>
          if u_deletedAt recipient \<noteq> None \<or> \<not> u_emailNotifications recipient then None
          else case find (\<lambda>t. t_id t = mi_taskId item \<and> boardIn d (mi_workspaceId item) (t_boardId t)) (tasks d) of
            None \<Rightarrow> None
          | Some task \<Rightarrow>
              let message = (\<lambda>actor due.
                    \<lparr>mm_to = u_email recipient, mm_type = mi_type item, mm_taskTitle = t_title task,
                     mm_workspaceName = workspaceName d (mi_workspaceId item),
                     mm_taskUrl = buildTaskUrl env (t_boardId task) (mi_taskId item),
                     mm_locale = (case matchLocale (u_locale recipient) of None \<Rightarrow> DEFAULT_LOCALE | Some l \<Rightarrow> l),
                     mm_actorName = actor, mm_dueDate = due\<rparr>)
              in case mi_type item of
                   Assignment \<Rightarrow> Some (message (actorName d (mi_actorId item)) None)
                 | Mention \<Rightarrow> Some (message (actorName d (mi_actorId item)) None)
                 | DueSoon \<Rightarrow> (case t_dueDate task of None \<Rightarrow> None | Some due \<Rightarrow> Some (message [] (Some due))))"

definition sendFor :: "environment \<Rightarrow> mail_input \<Rightarrow> unit request" where
  "sendFor env item =
     andThen (readDb (\<lambda>d. buildMail env d item)) (\<lambda>message.
       case message of None \<Rightarrow> ret () | Some m \<Rightarrow> sendMail m)"

definition sendForCreated :: "mail_input list \<Rightarrow> unit request" where
  "sendForCreated its =
     (if its = [] then ret ()
      else andThen (query environ) (\<lambda>env.
           andThen (lift_result (mailEnabled env)) (\<lambda>enabled.
           whenever enabled (forEach its (sendFor env)))))"

section \<open>What they do to the state\<close>

lemma set_unique [simp]: "set (unique xs) = set xs"
  by (simp add: unique_def)

lemma distinct_unique [simp]: "distinct (unique xs)"
  by (simp add: unique_def)

lemma unique_single [simp]: "unique [x] = [x]"
  by (simp add: unique_def)

lemma mentionRecipients_facts:
  "distinct (mentionRecipients a us)" "set (mentionRecipients a us) = set us - {a}"
  by (auto simp: mentionRecipients_def)

lemma forEach_emitToUser:
  "forEach us (\<lambda>u. emitToUser w u e) s = (Inr (), s\<lparr>outbox := outbox s @ map (\<lambda>u. ToUser w u e) us\<rparr>)"
  by (induction us arbitrary: s) (simp_all add: run)

lemma emitUnreadChanged_run [run]:
  "emitUnreadChanged w us s =
     (Inr (), s\<lparr>outbox := outbox s @ map (\<lambda>u. ToUser w u NOTIFICATION_UNREAD_CHANGED) (unique us)\<rparr>)"
  by (simp add: emitUnreadChanged_def forEach_emitToUser)

lemma andThen_emitUnreadChanged [run]:
  "andThen (emitUnreadChanged w us) f s =
     f () (s\<lparr>outbox := outbox s @ map (\<lambda>u. ToUser w u NOTIFICATION_UNREAD_CHANGED) (unique us)\<rparr>)"
  by (simp add: andThen_def emitUnreadChanged_run)

definition storedNotification ::
    "world \<Rightarrow> nat \<Rightarrow> ident \<Rightarrow> ident \<Rightarrow> notification_type \<Rightarrow> ident option \<Rightarrow> ident option \<Rightarrow> json \<Rightarrow> notification_row" where
  "storedNotification s i w u typ t act p =
     \<lparr>n_id = uuids s (drawn s + i), n_workspaceId = w, n_userId = u, n_type = typ, n_taskId = t,
      n_activityId = act, n_payload = p, n_readAt = None, n_createdAt = clock s\<rparr>"

lemma andThen_insertNotification [run]:
  "andThen (insertNotification w u typ t act p) f s =
     f (storedNotification s 0 w u typ t act p)
       (s\<lparr>drawn := Suc (drawn s), db := (db s)\<lparr>notifications :=
          notifications (db s) @ [storedNotification s 0 w u typ t act p]\<rparr>\<rparr>)"
  by (simp add: insertNotification_def storedNotification_def run Let_def)

lemma andThen_createAssignment [run]:
  "andThen (createAssignment w u a t act p) f s =
     (if u = a then f None s
      else f (Some (storedNotification s 0 w u Assignment (Some t) act p))
         (s\<lparr>drawn := Suc (drawn s), db := (db s)\<lparr>notifications :=
            notifications (db s) @ [storedNotification s 0 w u Assignment (Some t) act p]\<rparr>\<rparr>))"
  by (simp add: createAssignment_def notification_create_def run)

text \<open>The rows a mention batch stores.\<close>

definition mentionRows ::
    "world \<Rightarrow> ident \<Rightarrow> ident \<Rightarrow> ident option \<Rightarrow> ident list \<Rightarrow> json \<Rightarrow> notification_row list" where
  "mentionRows s w t act us p =
     map (\<lambda>i. storedNotification s i w (us ! i) Mention (Some t) act p) [0..<length us]"

lemma andThen_storeMention [run]:
  "andThen (storeMention w t act p u) f s =
     f () (s\<lparr>drawn := Suc (drawn s), db := (db s)\<lparr>notifications :=
        notifications (db s) @ [storedNotification s 0 w u Mention (Some t) act p]\<rparr>\<rparr>)"
  by (simp add: storeMention_def run)

lemma insertMentions_run:
  "forEach us (storeMention w t act p) s =
     (Inr (), s\<lparr>drawn := drawn s + length us,
       db := (db s)\<lparr>notifications := notifications (db s) @ mentionRows s w t act us p\<rparr>\<rparr>)"
proof (induction us arbitrary: s)
  case Nil
  then show ?case by (simp add: run mentionRows_def)
next
  case (Cons u us)
  have "mentionRows s w t act (u # us) p = storedNotification s 0 w u Mention (Some t) act p #
      map (\<lambda>i. storedNotification s (Suc i) w (us ! i) Mention (Some t) act p) [0..<length us]"
    unfolding mentionRows_def list.size One_nat_def add_Suc_right add_0_right
    by (simp add: upt_conv_Cons map_Suc_upt [symmetric] comp_def del: upt_Suc)
  moreover have "mentionRows (s\<lparr>drawn := Suc (drawn s), db := D\<rparr>) w t act us p =
      map (\<lambda>i. storedNotification s (Suc i) w (us ! i) Mention (Some t) act p) [0..<length us]" for D
    by (simp add: mentionRows_def storedNotification_def)
  ultimately show ?case
    by (simp add: andThen_storeMention Cons.IH)
qed

lemma andThen_createMentionBatch [run]:
  "andThen (createMentionBatch w a t act us p) f s =
     f (length (mentionRecipients a us))
       (s\<lparr>drawn := drawn s + length (mentionRecipients a us),
          db := (db s)\<lparr>notifications := notifications (db s) @ mentionRows s w t act (mentionRecipients a us) p\<rparr>\<rparr>)"
  by (cases "mentionRecipients a us = []")
    (simp_all add: createMentionBatch_def run andThen_def insertMentions_run mentionRows_def Let_def)

text \<open>Sending email appends to the mails and changes nothing else.\<close>

lemma andThen_sendFor [run]:
  "andThen (sendFor env item) f s =
     f () (s\<lparr>mails := mails s @ (case buildMail env (db s) item of None \<Rightarrow> [] | Some m \<Rightarrow> [m])\<rparr>)"
  by (cases "buildMail env (db s) item") (simp_all add: sendFor_def run andThen_def)

lemma forEach_sendFor:
  "forEach its (sendFor env) s =
     (Inr (), s\<lparr>mails := mails s @ List.map_filter (buildMail env (db s)) its\<rparr>)"
  by (induction its arbitrary: s) (auto simp: run map_filter_simps split: option.splits)

definition mailsFor :: "mail_input list \<Rightarrow> world \<Rightarrow> mail_message list" where
  "mailsFor its s =
     (if mailEnabled (environ s) = Inr True then List.map_filter (buildMail (environ s) (db s)) its else [])"

lemma andThen_sendForCreated [run]:
  "andThen (sendForCreated its) f s =
     (case mailEnabled (environ s) of
        Inl e \<Rightarrow> if its = [] then f () s else (Inl e, s)
      | Inr _ \<Rightarrow> f () (s\<lparr>mails := mails s @ mailsFor its s\<rparr>))"
  by (cases "mailEnabled (environ s)")
    (auto simp: sendForCreated_def mailsFor_def run andThen_def [of "forEach _ _"] forEach_sendFor map_filter_simps)

section \<open>Private to the recipient\<close>

interpretation newest_first: cursor_walk n_id "\<lambda>c i. i < c"
  by unfold_locales auto

lemma notificationFeed_descending:
  assumes "distinct (map n_id (notifications d))"
  shows "sorted_wrt (\<lambda>a b. n_id b < n_id a) (notificationFeed w u unread typ d)"
  unfolding notificationFeed_def sorted_wrt_rev
  by (rule strict_sort_key) (rule distinct_map_filter [OF assms])

lemma buildMail_some:
  assumes "buildMail env d item = Some m"
  obtains u t where "find (\<lambda>u. u_id u = mi_userId item) (users d) = Some u"
    and "find (\<lambda>t. t_id t = mi_taskId item \<and> boardIn d (mi_workspaceId item) (t_boardId t)) (tasks d) = Some t"
    and "mi_actorId item \<noteq> Some (mi_userId item)" and "u_deletedAt u = None" and "u_emailNotifications u"
    and "mm_to m = u_email u" and "mm_taskTitle m = t_title t"
    and "mi_type item = DueSoon \<Longrightarrow> mm_dueDate m = t_dueDate t \<and> t_dueDate t \<noteq> None"
proof -
  have ne: "mi_actorId item \<noteq> Some (mi_userId item)"
    using assms by (auto simp: buildMail_def)
  obtain u where u: "find (\<lambda>u. u_id u = mi_userId item) (users d) = Some u"
    using assms ne by (auto simp: buildMail_def split: option.splits)
  have ok: "u_deletedAt u = None" "u_emailNotifications u"
    using assms ne u by (auto simp: buildMail_def split: if_splits)
  obtain t where t:
    "find (\<lambda>t. t_id t = mi_taskId item \<and> boardIn d (mi_workspaceId item) (t_boardId t)) (tasks d) = Some t"
    using assms ne u ok by (auto simp: buildMail_def split: option.splits)
  show ?thesis
    by (rule that [OF u t ne ok])
      (use assms ne u ok t in \<open>cases "mi_type item"; auto simp: buildMail_def Let_def split: option.splits\<close>)+
qed

lemma mail_recipient:
  assumes "buildMail env d item = Some m"
  shows "\<exists>u \<in> set (users d). u_id u = mi_userId item \<and> mm_to m = u_email u \<and>
           u_deletedAt u = None \<and> u_emailNotifications u \<and> mi_actorId item \<noteq> Some (u_id u)"
    and "\<exists>t \<in> set (tasks d). t_id t = mi_taskId item \<and> boardIn d (mi_workspaceId item) (t_boardId t) \<and>
           mm_taskTitle m = t_title t \<and> (mi_type item = DueSoon \<longrightarrow> mm_dueDate m = t_dueDate t \<and> t_dueDate t \<noteq> None)"
proof -
  obtain u t where c: "find (\<lambda>u. u_id u = mi_userId item) (users d) = Some u"
    "find (\<lambda>t. t_id t = mi_taskId item \<and> boardIn d (mi_workspaceId item) (t_boardId t)) (tasks d) = Some t"
    "mi_actorId item \<noteq> Some (mi_userId item)" "u_deletedAt u = None" "u_emailNotifications u"
    "mm_to m = u_email u" "mm_taskTitle m = t_title t"
    "mi_type item = DueSoon \<longrightarrow> mm_dueDate m = t_dueDate t \<and> t_dueDate t \<noteq> None"
    by (rule buildMail_some [OF assms]) simp
  note u = find_Some_iff_mem [OF c(1)] and t = find_Some_iff_mem [OF c(2)]
  show "\<exists>u \<in> set (users d). u_id u = mi_userId item \<and> mm_to m = u_email u \<and>
           u_deletedAt u = None \<and> u_emailNotifications u \<and> mi_actorId item \<noteq> Some (u_id u)"
    using u c(3-6) by metis
  show "\<exists>t \<in> set (tasks d). t_id t = mi_taskId item \<and> boardIn d (mi_workspaceId item) (t_boardId t) \<and>
           mm_taskTitle m = t_title t \<and> (mi_type item = DueSoon \<longrightarrow> mm_dueDate m = t_dueDate t \<and> t_dueDate t \<noteq> None)"
    using t c(7,8) by metis
qed

lemma markAllRead_ok:
  assumes "markAllRead w u s = (r, s')"
  shows "r = Inr (length (filter (unreadFor w u) (notifications (db s))))"
    and "filter (unreadFor w u) (notifications (db s')) = []"
    and "filter (\<lambda>n. \<not> (n_workspaceId n = w \<and> n_userId n = u)) (notifications (db s')) =
         filter (\<lambda>n. \<not> (n_workspaceId n = w \<and> n_userId n = u)) (notifications (db s))"
    and "outbox s' = outbox s @
           (if filter (unreadFor w u) (notifications (db s)) = [] then []
            else [ToUser w u NOTIFICATION_UNREAD_CHANGED])"
proof -
  let ?f = "\<lambda>n. if unreadFor w u n then n\<lparr>n_readAt := Some (clock s)\<rparr> else n"
  have s': "r = Inr (length (filter (unreadFor w u) (notifications (db s))))"
    "notifications (db s') = map ?f (notifications (db s))"
    "outbox s' = outbox s @ (if filter (unreadFor w u) (notifications (db s)) = [] then []
       else [ToUser w u NOTIFICATION_UNREAD_CHANGED])"
    using assms by (auto simp: markAllRead_def run split: if_splits)
  show "r = Inr (length (filter (unreadFor w u) (notifications (db s))))" and
    "outbox s' = outbox s @ (if filter (unreadFor w u) (notifications (db s)) = [] then []
       else [ToUser w u NOTIFICATION_UNREAD_CHANGED])" by (fact s')+
  have read: "\<not> unreadFor w u (?f n)" for n
    by (cases "unreadFor w u n") (simp_all add: unreadFor_def)
  show "filter (unreadFor w u) (notifications (db s')) = []"
    unfolding s'(2) by (rule filter_map_none) (rule read)
  show "filter (\<lambda>n. \<not> (n_workspaceId n = w \<and> n_userId n = u)) (notifications (db s')) =
      filter (\<lambda>n. \<not> (n_workspaceId n = w \<and> n_userId n = u)) (notifications (db s))"
    unfolding s'(2) by (rule filter_map_other) (auto simp: unreadFor_def)
qed

end
