(* ===== verification/Tasks.thy ===== *)
theory Tasks
  imports Columns Notifications
begin

text \<open>
  \<open>apps/api/src/task/\<close>: the task service (list, create, read, update, delete, move), the column
  values a request writes (\<open>task-fields.ts\<close>), the list filter (\<open>task-query-where.ts\<close> with
  \<open>common/escape-like.ts\<close>), the projections (\<open>task.mapper.ts\<close>, \<open>task.include.ts\<close>,
  \<open>attachment-count.ts\<close>), the scoped reads and the broadcast (\<open>task-read.service.ts\<close>,
  \<open>task-events.service.ts\<close>). Two things the source takes from elsewhere are parameters:
  \<open>parseDate\<close>, the instant \<open>new Date(text)\<close> denotes (\<open>None\<close>: an invalid date), and \<open>ilike\<close>,
  the database's case-insensitive pattern match. Instants in payloads are milliseconds.
\<close>

section \<open>Projections\<close>

record assignee_dto =
  asd_userId :: ident
  asd_name :: string
  asd_avatarUrl :: "string option"

record checklist_dto =
  cd_id :: ident
  cd_title :: string
  cd_position :: float64
  cd_items :: "item_row list"

record task_dto =
  td_row :: task_row
  td_assignees :: "assignee_dto list"
  td_labels :: "label_row list"
  td_attachmentCount :: nat
  td_total :: nat
  td_done :: nat
  td_checklists :: "checklist_dto list option"

definition toLabelDto :: "label_row \<Rightarrow> label_row" where
  "toLabelDto row = row\<lparr>l_color := toLabelColorSlot (l_color row)\<rparr>"

text \<open>\<open>taskInclude\<close>: the join rows in id order, each with the row it refers to.\<close>

definition assigneesOf :: "database \<Rightarrow> ident \<Rightarrow> assignee_dto list" where
  "assigneesOf d taskId =
     List.map_filter (\<lambda>x. map_option
         (\<lambda>u. \<lparr>asd_userId = u_id u, asd_name = u_name u, asd_avatarUrl = u_avatarUrl u\<rparr>)
         (find (\<lambda>u. u_id u = ta_userId x) (users d)))
       (sort_key ta_id (filter (\<lambda>x. ta_taskId x = taskId) (assignees d)))"

definition labelsOf :: "database \<Rightarrow> ident \<Rightarrow> label_row list" where
  "labelsOf d taskId =
     List.map_filter (\<lambda>x. map_option toLabelDto (find (\<lambda>l. l_id l = tl_labelId x) (labels d)))
       (sort_key tl_id (filter (\<lambda>x. tl_taskId x = taskId) (task_labels d)))"

definition itemsOf :: "database \<Rightarrow> ident \<Rightarrow> item_row list" where
  "itemsOf d checklistId = sort_key ci_position (filter (\<lambda>i. ci_checklistId i = checklistId) (items d))"

definition checklistsOf :: "database \<Rightarrow> ident \<Rightarrow> checklist_dto list" where
  "checklistsOf d taskId =
     map (\<lambda>c. \<lparr>cd_id = cl_id c, cd_title = cl_title c, cd_position = cl_position c,
               cd_items = itemsOf d (cl_id c)\<rparr>)
       (sort_key cl_position (filter (\<lambda>c. cl_taskId c = taskId) (checklists d)))"

definition countAttachments :: "database \<Rightarrow> ident \<Rightarrow> nat" where
  "countAttachments d taskId = length (filter (\<lambda>a. a_taskId a = taskId) (attachments d))"

text \<open>The grouped count: an entry for each task of the page that has attachments.\<close>

definition countAttachmentsByTask :: "database \<Rightarrow> ident list \<Rightarrow> (ident \<times> nat) list" where
  "countAttachmentsByTask d taskIds =
     (if taskIds = [] then []
      else map (\<lambda>k. (k, countAttachments d k))
             (remdups (map a_taskId (filter (\<lambda>a. a_taskId a \<in> set taskIds) (attachments d)))))"

text \<open>\<open>summarizeChecklists\<close>: total and done over the items of every checklist.\<close>

fun summarizeChecklists :: "checklist_dto list \<Rightarrow> nat \<times> nat" where
  "summarizeChecklists [] = (0, 0)"
| "summarizeChecklists (c # cs) =
     (let (total, ticked) = summarizeChecklists cs
      in (total + length (cd_items c), ticked + length (filter ci_isDone (cd_items c))))"

definition toTaskDto :: "database \<Rightarrow> task_row \<Rightarrow> nat \<Rightarrow> bool \<Rightarrow> task_dto" where
  "toTaskDto d row attachmentCount detail =
     (let cs = checklistsOf d (t_id row)
      in \<lparr>td_row = row, td_assignees = assigneesOf d (t_id row), td_labels = labelsOf d (t_id row),
          td_attachmentCount = attachmentCount,
          td_total = fst (summarizeChecklists cs), td_done = snd (summarizeChecklists cs),
          td_checklists = (if detail then Some cs else None)\<rparr>)"

definition toTaskListDto :: "database \<Rightarrow> task_row \<Rightarrow> nat \<Rightarrow> task_dto" where
  "toTaskListDto d row n = toTaskDto d row n False"

definition toTaskDetailDto :: "database \<Rightarrow> task_row \<Rightarrow> nat \<Rightarrow> task_dto" where
  "toTaskDetailDto d row n = toTaskDto d row n True"

text \<open>A row created one statement ago, mapped without a second read.\<close>

definition createdTaskDto :: "task_row \<Rightarrow> task_dto" where
  "createdTaskDto row =
     \<lparr>td_row = row, td_assignees = [], td_labels = [], td_attachmentCount = 0, td_total = 0,
      td_done = 0, td_checklists = Some []\<rparr>"

section \<open>Fields\<close>

record create_task_dto =
  ctd_title :: string
  ctd_columnId :: ident
  ctd_description :: "string option"
  ctd_priority :: "priority option"
  ctd_dueDate :: "string option option"
  ctd_estimatedMinutes :: "int option"
  ctd_afterTaskId :: "ident option"

record update_task_dto =
  utd_title :: "string option"
  utd_description :: "string option option"
  utd_priority :: "priority option"
  utd_dueDate :: "string option option"
  utd_estimatedMinutes :: "int option option"

record move_task_dto =
  mtd_columnId :: ident
  mtd_beforeTaskId :: "ident option"
  mtd_afterTaskId :: "ident option"

text \<open>\<open>None\<close> is \<open>undefined\<close>, \<open>Some None\<close> is \<open>null\<close>.\<close>

definition parseDueDate ::
    "(string \<Rightarrow> millis option) \<Rightarrow> string option option \<Rightarrow> http_error + millis option option" where
  "parseDueDate parseDate value =
     (case value of
        None \<Rightarrow> Inr None
      | Some None \<Rightarrow> Inr (Some None)
      | Some (Some text) \<Rightarrow>
          (case parseDate text of
             None \<Rightarrow> Inl (BadRequest ''dueDate must be a valid ISO 8601 timestamp'')
           | Some t \<Rightarrow> Inr (Some (Some t))))"

record task_attributes =
  at_title :: string
  at_description :: "string option"
  at_priority :: "priority option"
  at_dueDate :: "millis option"
  at_estimatedMinutes :: "int option"

definition createTaskAttributes ::
    "(string \<Rightarrow> millis option) \<Rightarrow> create_task_dto \<Rightarrow> http_error + task_attributes" where
  "createTaskAttributes parseDate dto =
     bind_result (parseDueDate parseDate (ctd_dueDate dto)) (\<lambda>due.
       Inr \<lparr>at_title = ctd_title dto, at_description = ctd_description dto,
            at_priority = ctd_priority dto,
            at_dueDate = (case due of None \<Rightarrow> None | Some v \<Rightarrow> v),
            at_estimatedMinutes = ctd_estimatedMinutes dto\<rparr>)"

record task_patch =
  pa_title :: "string option"
  pa_description :: "string option option"
  pa_priority :: "priority option"
  pa_dueDate :: "millis option option"
  pa_estimatedMinutes :: "int option option"

definition applyPatch :: "task_patch \<Rightarrow> task_row \<Rightarrow> task_row" where
  "applyPatch p t = t\<lparr>
     t_title := (case pa_title p of None \<Rightarrow> t_title t | Some v \<Rightarrow> v),
     t_description := (case pa_description p of None \<Rightarrow> t_description t | Some v \<Rightarrow> v),
     t_priority := (case pa_priority p of None \<Rightarrow> t_priority t | Some v \<Rightarrow> v),
     t_dueDate := (case pa_dueDate p of None \<Rightarrow> t_dueDate t | Some v \<Rightarrow> v),
     t_estimatedMinutes := (case pa_estimatedMinutes p of None \<Rightarrow> t_estimatedMinutes t | Some v \<Rightarrow> v)\<rparr>"

definition json_opt_int :: "int option \<Rightarrow> json" where
  "json_opt_int x = (case x of None \<Rightarrow> JNull | Some n \<Rightarrow> JNum (of_int n))"

text \<open>A field is changed when it was sent and differs from the stored row.\<close>

definition changed :: "string \<Rightarrow> 'a option \<Rightarrow> 'a \<Rightarrow> ('a \<Rightarrow> json) \<Rightarrow> (string \<times> json) list" where
  "changed field sent stored enc =
     (case sent of None \<Rightarrow> [] | Some v \<Rightarrow> if v = stored then [] else [(field, enc v)])"

definition planTaskUpdate ::
    "(string \<Rightarrow> millis option) \<Rightarrow> task_row \<Rightarrow> update_task_dto \<Rightarrow>
     http_error + task_patch \<times> (string \<times> json) list" where
  "planTaskUpdate parseDate existing dto =
     bind_result (parseDueDate parseDate (utd_dueDate dto)) (\<lambda>due.
       Inr (\<lparr>pa_title = utd_title dto, pa_description = utd_description dto,
             pa_priority = utd_priority dto, pa_dueDate = due,
             pa_estimatedMinutes = utd_estimatedMinutes dto\<rparr>,
            changed ''title'' (utd_title dto) (t_title existing) JStr @
            changed ''description'' (utd_description dto) (t_description existing) json_opt_str @
            changed ''priority'' (utd_priority dto) (t_priority existing) (\<lambda>p. JStr (priority_name p)) @
            changed ''dueDate'' due (t_dueDate existing) json_opt_int @
            changed ''estimatedMinutes'' (utd_estimatedMinutes dto) (t_estimatedMinutes existing) json_opt_int))"

section \<open>Filters\<close>

definition escapeLikePattern :: "string \<Rightarrow> string" where
  "escapeLikePattern value =
     concat (map (\<lambda>c. if c = CHR 0x5C \<or> c = CHR ''%'' \<or> c = CHR ''_'' then [CHR 0x5C, c] else [c]) value)"

record task_query =
  tq_limit :: "nat option"
  tq_cursor :: "ident option"
  tq_q :: "string option"
  tq_priority :: "priority list option"
  tq_assigneeId :: "string list option"
  tq_labelId :: "ident list option"
  tq_dueDate :: "string option"
  tq_dueGte :: "string option"
  tq_dueLte :: "string option"

text \<open>A bound of the due-date range: absent, an instant, or text that is no date.\<close>

definition parseBound ::
    "(string \<Rightarrow> millis option) \<Rightarrow> string option \<Rightarrow> http_error + millis option" where
  "parseBound parseDate value =
     (if truthy value
      then (case parseDate (the value) of
              None \<Rightarrow> Inl (ServerFault ''Invalid value: provided Date object is invalid'')
            | Some t \<Rightarrow> Inr (Some t))
      else Inr None)"

definition given :: "'a list option \<Rightarrow> 'a list" where
  "given xs = (case xs of None \<Rightarrow> [] | Some ys \<Rightarrow> ys)"

definition matchesFilters ::
    "(string \<Rightarrow> string \<Rightarrow> bool) \<Rightarrow> database \<Rightarrow> ident \<Rightarrow> task_query \<Rightarrow> millis option \<Rightarrow> millis option \<Rightarrow>
     task_row \<Rightarrow> bool" where
  "matchesFilters ilike d boardId qry dueGte dueLte t \<longleftrightarrow>
     t_boardId t = boardId \<and>
     (truthy (tq_q qry) \<longrightarrow>
        (let pattern = ''%'' @ escapeLikePattern (the (tq_q qry)) @ ''%''
         in ilike pattern (t_title t) \<or>
            (case t_description t of None \<Rightarrow> False | Some text \<Rightarrow> ilike pattern text))) \<and>
     (given (tq_priority qry) \<noteq> [] \<longrightarrow> t_priority t \<in> set (given (tq_priority qry))) \<and>
     (given (tq_assigneeId qry) \<noteq> [] \<longrightarrow>
        (let wanted = given (tq_assigneeId qry);
             mine = map ta_userId (filter (\<lambda>x. ta_taskId x = t_id t) (assignees d));
             userIds = filter (\<lambda>k. k \<noteq> ''null'') wanted
         in ''null'' \<in> set wanted \<and> mine = [] \<or>
            userIds \<noteq> [] \<and> list_ex (\<lambda>u. u \<in> set userIds) mine)) \<and>
     (given (tq_labelId qry) \<noteq> [] \<longrightarrow>
        list_ex (\<lambda>x. tl_taskId x = t_id t \<and> tl_labelId x \<in> set (given (tq_labelId qry))) (task_labels d)) \<and>
     (tq_dueDate qry = Some ''null'' \<longrightarrow> t_dueDate t = None) \<and>
     (dueGte \<noteq> None \<or> dueLte \<noteq> None \<longrightarrow>
        (case t_dueDate t of
           None \<Rightarrow> False
         | Some due \<Rightarrow> (case dueGte of None \<Rightarrow> True | Some a \<Rightarrow> a \<le> due) \<and>
                       (case dueLte of None \<Rightarrow> True | Some b \<Rightarrow> due \<le> b)))"

section \<open>Scoped reads and writes\<close>

text \<open>\<open>where: { id, board: { workspaceId } }\<close>.\<close>

definition taskKey :: "database \<Rightarrow> ident \<Rightarrow> ident \<Rightarrow> task_row \<Rightarrow> bool" where
  "taskKey d workspaceId taskId t \<longleftrightarrow> t_id t = taskId \<and> boardIn d workspaceId (t_boardId t)"

definition findTaskRow :: "ident \<Rightarrow> ident \<Rightarrow> task_row option request" where
  "findTaskRow workspaceId taskId = readDb (\<lambda>d. find (taskKey d workspaceId taskId) (tasks d))"

definition findTaskBasic :: "ident \<Rightarrow> ident \<Rightarrow> task_row request" where
  "findTaskBasic workspaceId taskId =
     andThen (findTaskRow workspaceId taskId) (orThrow (NotFound ''Task not found''))"

definition findTask :: "ident \<Rightarrow> ident \<Rightarrow> task_dto request" where
  "findTask workspaceId taskId =
     andThen (findTaskBasic workspaceId taskId) (\<lambda>row.
       readDb (\<lambda>d. toTaskDetailDto d row (countAttachments d taskId)))"

definition emitTask :: "ident \<Rightarrow> ident \<Rightarrow> socket_event \<Rightarrow> task_row \<Rightarrow> (string \<times> json) list \<Rightarrow> unit request" where
  "emitTask workspaceId actorId event row extra =
     emitToBoard (t_boardId row) event workspaceId actorId ((''taskId'', JStr (t_id row)) # extra)"

definition emitUpdated :: "ident \<Rightarrow> ident \<Rightarrow> ident \<Rightarrow> task_dto request" where
  "emitUpdated workspaceId taskId actorId =
     andThen (findTask workspaceId taskId) (\<lambda>dto.
     andThen (emitTask workspaceId actorId TASK_UPDATED (td_row dto) []) (\<lambda>_.
       ret dto))"

text \<open>\<open>task.update\<close>: \<open>updatedAt\<close> is stamped on every update of the row.\<close>

definition updateTask :: "ident \<Rightarrow> ident \<Rightarrow> (task_row \<Rightarrow> task_row) \<Rightarrow> task_row request" where
  "updateTask workspaceId taskId f =
     andThen (findTaskRow workspaceId taskId) (\<lambda>found.
     andThen (orThrow RecordNotFound found) (\<lambda>row.
     andThen now (\<lambda>t.
       let g = (\<lambda>x. (f x)\<lparr>t_updatedAt := t\<rparr>)
       in andThen (writeDb (\<lambda>d. d\<lparr>tasks :=
            map (\<lambda>x. if taskKey d workspaceId taskId x then g x else x) (tasks d)\<rparr>)) (\<lambda>_.
          ret (g row)))))"

definition insertTask ::
    "ident \<Rightarrow> ident \<Rightarrow> ident \<Rightarrow> task_attributes \<Rightarrow> float64 \<Rightarrow> task_row request" where
  "insertTask boardId columnId userId attributes position =
     andThen freshId (\<lambda>newId. andThen now (\<lambda>t.
       let row = \<lparr>t_id = newId, t_boardId = boardId, t_columnId = columnId,
                  t_title = at_title attributes, t_description = at_description attributes,
                  t_priority = (case at_priority attributes of None \<Rightarrow> MEDIUM | Some p \<Rightarrow> p),
                  t_position = position, t_dueDate = at_dueDate attributes,
                  t_estimatedMinutes = at_estimatedMinutes attributes,
                  t_createdById = userId, t_createdAt = t, t_updatedAt = t\<rparr>
       in andThen (writeDb (\<lambda>d. d\<lparr>tasks := tasks d @ [row]\<rparr>)) (\<lambda>_. ret row)))"

definition tasksOf :: "ident \<Rightarrow> task_row list \<Rightarrow> task_row list" where
  "tasksOf columnId T = listing t_id t_position (\<lambda>t. t_columnId t = columnId) T"

definition taskSiblings :: "ident \<Rightarrow> task_row list \<Rightarrow> sibling list" where
  "taskSiblings columnId T = siblings t_id t_position (\<lambda>t. t_columnId t = columnId) T"

definition batchUpdateTaskPositions :: "ident \<Rightarrow> (ident \<times> float64) list \<Rightarrow> unit request" where
  "batchUpdateTaskPositions columnId updates =
     writeDb (\<lambda>d. d\<lparr>tasks :=
       batchUpdatePositions t_id (\<lambda>p t. t\<lparr>t_position := p\<rparr>) (\<lambda>t. t_columnId t = columnId) updates (tasks d)\<rparr>)"

interpretation task_rows: ordered_rows t_id t_position "\<lambda>p t. t\<lparr>t_position := p\<rparr>"
  by unfold_locales simp_all

definition findColumnOnBoard :: "ident \<Rightarrow> ident \<Rightarrow> ident \<Rightarrow> column_row request" where
  "findColumnOnBoard workspaceId boardId columnId =
     andThen (readDb (\<lambda>d. find (\<lambda>c. columnIn d workspaceId columnId c \<and> c_boardId c = boardId) (columns d)))
       (orThrow (NotFound ''Column not found''))"

section \<open>Operations\<close>

definition task_list ::
    "(string \<Rightarrow> string \<Rightarrow> bool) \<Rightarrow> (string \<Rightarrow> millis option) \<Rightarrow> ident \<Rightarrow> ident \<Rightarrow> task_query \<Rightarrow>
     task_dto cursor_page request" where
  "task_list ilike parseDate workspaceId boardId qry =
     andThen (assertBoard workspaceId boardId) (\<lambda>_.
     andThen (lift_result (parseBound parseDate (tq_dueGte qry))) (\<lambda>dueGte.
     andThen (lift_result (parseBound parseDate (tq_dueLte qry))) (\<lambda>dueLte.
       let lim = (case tq_limit qry of None \<Rightarrow> 50 | Some n \<Rightarrow> n);
           cur = (if truthy (tq_cursor qry) then tq_cursor qry else None)
       in readDb (\<lambda>d.
            let found = cursorQuery t_id (\<lambda>c i. c < i) cur lim
                          (sort_key t_id (filter (matchesFilters ilike d boardId qry dueGte dueLte) (tasks d)));
                counts = countAttachmentsByTask d (map t_id found)
            in toCursorPage t_id found lim (\<lambda>t. toTaskListDto d t
                 (case map_of counts (t_id t) of None \<Rightarrow> 0 | Some n \<Rightarrow> n))))))"

definition task_create ::
    "(string \<Rightarrow> millis option) \<Rightarrow> ident \<Rightarrow> ident \<Rightarrow> ident \<Rightarrow> create_task_dto \<Rightarrow> task_dto request" where
  "task_create parseDate workspaceId boardId userId dto =
     andThen (assertBoard workspaceId boardId) (\<lambda>_.
     andThen (findColumnOnBoard workspaceId boardId (ctd_columnId dto)) (\<lambda>column.
     andThen (lift_result (createTaskAttributes parseDate dto)) (\<lambda>attributes.
     andThen (transaction
       (andThen (readDb (\<lambda>d. taskSiblings (c_id column) (tasks d))) (\<lambda>sibs.
        andThen (lift_result (resolveCreateNeighbors sibs (ctd_afterTaskId dto) ''Task not found'')) (\<lambda>slot.
          let i = nat (insertionIndex slot);
              prevPos = gap_pos (prev slot); nextPos = gap_pos (nxt slot);
              write = (\<lambda>position.
                andThen (insertTask boardId (c_id column) userId attributes position) (\<lambda>created.
                andThen (recordActivity workspaceId (Some (t_id created)) userId TaskCreated
                  (JObj [(''title'', JStr (t_title created)), (''columnId'', JStr (t_columnId created)),
                         (''boardId'', JStr (t_boardId created))])) (\<lambda>_.
                  ret created)))
          in if needsRebalance prevPos nextPos
             then let positions = rebalancePositions (length sibs + 1)
                  in andThen (batchUpdateTaskPositions (c_id column) (shifted_updates sibs i positions)) (\<lambda>_.
                     write (positions ! i))
             else write (midpoint prevPos nextPos))))) (\<lambda>created.
     andThen (emitTask workspaceId userId TASK_CREATED created []) (\<lambda>_.
       ret (createdTaskDto created))))))"

definition task_get :: "ident \<Rightarrow> ident \<Rightarrow> task_dto request" where
  "task_get workspaceId taskId = findTask workspaceId taskId"

definition task_update ::
    "(string \<Rightarrow> millis option) \<Rightarrow> ident \<Rightarrow> ident \<Rightarrow> ident \<Rightarrow> update_task_dto \<Rightarrow> task_dto request" where
  "task_update parseDate workspaceId taskId userId dto =
     andThen (findTask workspaceId taskId) (\<lambda>existing.
     andThen (lift_result (planTaskUpdate parseDate (td_row existing) dto)) (\<lambda>(patch, changes).
       if changes = [] then ret existing
       else
         andThen (transaction
           (andThen (findTaskRow workspaceId taskId) (\<lambda>scoped.
            andThen (orThrow (NotFound ''Task not found'') scoped) (\<lambda>_.
            andThen (updateTask workspaceId taskId (applyPatch patch)) (\<lambda>updated.
            andThen (recordActivity workspaceId (Some taskId) userId TaskUpdated
              (JObj [(''title'', JStr (t_title updated)), (''changes'', JObj changes)])) (\<lambda>_.
              readDb (\<lambda>d. toTaskDetailDto d updated (countAttachments d taskId)))))))) (\<lambda>result.
         andThen (emitTask workspaceId userId TASK_UPDATED (td_row result) []) (\<lambda>_.
           ret result))))"

definition task_remove :: "ident \<Rightarrow> ident \<Rightarrow> ident \<Rightarrow> unit request" where
  "task_remove workspaceId taskId userId =
     andThen (transaction
       (andThen (findTaskBasic workspaceId taskId) (\<lambda>row.
        andThen (recordActivity workspaceId None userId TaskDeleted
          (JObj [(''taskId'', JStr (t_id row)), (''title'', JStr (t_title row)),
                 (''columnId'', JStr (t_columnId row)), (''boardId'', JStr (t_boardId row))])) (\<lambda>_.
        andThen (readDb (\<lambda>d. length (filter (taskKey d workspaceId taskId) (tasks d)))) (\<lambda>count.
        andThen (writeDb (\<lambda>d. delete_tasks (taskKey d workspaceId taskId) d)) (\<lambda>_.
        andThen (check (count \<noteq> 0) (NotFound ''Task not found'')) (\<lambda>_.
          ret row))))))) (\<lambda>task.
       emitTask workspaceId userId TASK_DELETED task [])"

definition task_move :: "ident \<Rightarrow> ident \<Rightarrow> ident \<Rightarrow> move_task_dto \<Rightarrow> task_dto request" where
  "task_move workspaceId taskId userId dto =
     andThen (transaction
       (andThen (findTaskBasic workspaceId taskId) (\<lambda>task.
        andThen (check (mtd_beforeTaskId dto \<noteq> Some taskId \<and> mtd_afterTaskId dto \<noteq> Some taskId)
                   (BadRequest ''A task cannot be its own neighbor'')) (\<lambda>_.
        andThen (findColumn workspaceId (mtd_columnId dto)) (\<lambda>target.
        andThen (orThrow (NotFound ''Column not found'') target) (\<lambda>targetColumn.
        andThen (check (c_boardId targetColumn = t_boardId task)
                   (Unprocessable ''Cannot move a task to a column on another board'')) (\<lambda>_.
        andThen (readDb (\<lambda>d. if t_columnId task = c_id targetColumn then Some targetColumn
                              else find (\<lambda>c. c_id c = t_columnId task) (columns d))) (\<lambda>fromColumn.
        andThen (readDb (\<lambda>d. taskSiblings (c_id targetColumn) (tasks d))) (\<lambda>sibs.
          let remaining = filter (\<lambda>item. fst item \<noteq> taskId) sibs
          in andThen (lift_result (resolveMoveNeighbors remaining (mtd_beforeTaskId dto) (mtd_afterTaskId dto))) (\<lambda>slot.
             andThen (readDb (\<lambda>d. countAttachments d taskId)) (\<lambda>attachmentCount.
          let i = nat (insertionIndex slot);
              prevPos = gap_pos (prev slot); nextPos = gap_pos (nxt slot);
              place = (\<lambda>p t. t\<lparr>t_columnId := c_id targetColumn, t_position := p\<rparr>)
          in andThen
               (if needsRebalance prevPos nextPos
                then let positions = rebalancePositions (length remaining + 1)
                     in andThen (updateTask workspaceId taskId (place (positions ! i))) (\<lambda>_.
                        andThen (batchUpdateTaskPositions (c_id targetColumn)
                           (reordered_updates remaining i (t_id task, t_position task) positions)) (\<lambda>_.
                        andThen now (\<lambda>t.
                          readDb (\<lambda>d. toTaskDetailDto d ((place (positions ! i) task)\<lparr>t_updatedAt := t\<rparr>) attachmentCount))))
                else andThen (updateTask workspaceId taskId (place (midpoint prevPos nextPos))) (\<lambda>updated.
                       readDb (\<lambda>d. toTaskDetailDto d updated attachmentCount))) (\<lambda>result.
             andThen (recordActivity workspaceId (Some taskId) userId TaskMoved
               (JObj [(''title'', JStr (t_title task)), (''fromColumnId'', JStr (t_columnId task)),
                      (''fromColumnName'', JStr (case fromColumn of None \<Rightarrow> [] | Some c \<Rightarrow> c_name c)),
                      (''toColumnId'', JStr (c_id targetColumn)), (''toColumnName'', JStr (c_name targetColumn)),
                      (''toColumnCategory'', JStr (category_name (c_category targetColumn)))])) (\<lambda>_.
               ret result))))))))))))) (\<lambda>result.
     andThen (emitTask workspaceId userId TASK_MOVED (td_row result)
        [(''columnId'', JStr (t_columnId (td_row result))), (''position'', JNum (t_position (td_row result)))]) (\<lambda>_.
       ret result))"

section \<open>Running them\<close>

lemma taskKey_id: "taskKey d w k t \<Longrightarrow> t_id t = k"
  by (simp add: taskKey_def)

lemmas replace_tasks = replace_found [of t_id _ "taskKey d w k" for d w k, OF _ _ taskKey_id]

lemma taskKey_update [simp]:
  "taskKey (d\<lparr>activities := A\<rparr>) w k = taskKey d w k" "taskKey (d\<lparr>tasks := T\<rparr>) w k = taskKey d w k"
  "taskKey (d\<lparr>notifications := N\<rparr>) w k = taskKey d w k" "taskKey (d\<lparr>assignees := X\<rparr>) w k = taskKey d w k"
  "taskKey (d\<lparr>task_labels := L\<rparr>) w k = taskKey d w k" "taskKey (d\<lparr>checklists := C\<rparr>) w k = taskKey d w k"
  "taskKey (d\<lparr>items := I\<rparr>) w k = taskKey d w k" "taskKey (d\<lparr>comments := M\<rparr>) w k = taskKey d w k"
  by (simp_all add: taskKey_def fun_eq_iff)

lemma andThen_findTaskRow [run]:
  "andThen (findTaskRow w k) f s = f (find (taskKey (db s) w k) (tasks (db s))) s"
  by (simp add: findTaskRow_def run)

lemma andThen_findTaskBasic [run]:
  "andThen (findTaskBasic w k) f s =
     (case find (taskKey (db s) w k) (tasks (db s)) of
        None \<Rightarrow> (Inl (NotFound ''Task not found''), s) | Some row \<Rightarrow> f row s)"
  by (simp add: findTaskBasic_def run)

lemma andThen_findTask [run]:
  "andThen (findTask w k) f s =
     (case find (taskKey (db s) w k) (tasks (db s)) of
        None \<Rightarrow> (Inl (NotFound ''Task not found''), s)
      | Some row \<Rightarrow> f (toTaskDetailDto (db s) row (countAttachments (db s) k)) s)"
  by (simp add: findTask_def run split: option.splits)

lemma andThen_emitTask [run]:
  "andThen (emitTask w a ev row extra) f s =
     f () (s\<lparr>outbox := outbox s @ [ToBoard (t_boardId row) ev w a ((''taskId'', JStr (t_id row)) # extra)]\<rparr>)"
  by (simp add: emitTask_def run)

lemma emitTask_run [run]:
  "emitTask w a ev row extra s =
     (Inr (), s\<lparr>outbox := outbox s @ [ToBoard (t_boardId row) ev w a ((''taskId'', JStr (t_id row)) # extra)]\<rparr>)"
  by (simp add: emitTask_def run)

lemma toTaskDetailDto_row [simp]:
  "td_row (toTaskDetailDto d row n) = row" "td_row (toTaskListDto d row n) = row"
  by (simp_all add: toTaskDetailDto_def toTaskListDto_def toTaskDto_def Let_def)

lemma createdTaskDto_row [simp]: "td_row (createdTaskDto row) = row"
  by (simp add: createdTaskDto_def)

lemma emitUpdated_run [run]:
  "emitUpdated w k a s =
     (case find (taskKey (db s) w k) (tasks (db s)) of
        None \<Rightarrow> (Inl (NotFound ''Task not found''), s)
      | Some row \<Rightarrow> (Inr (toTaskDetailDto (db s) row (countAttachments (db s) k)),
          s\<lparr>outbox := outbox s @ [ToBoard (t_boardId row) TASK_UPDATED w a [(''taskId'', JStr (t_id row))]]\<rparr>))"
  by (simp add: emitUpdated_def run split: option.splits)

lemma andThen_updateTask [run]:
  "andThen (updateTask w k g) f s =
     (case find (taskKey (db s) w k) (tasks (db s)) of
        None \<Rightarrow> (Inl RecordNotFound, s)
      | Some row \<Rightarrow> f ((g row)\<lparr>t_updatedAt := clock s\<rparr>) (s\<lparr>db := (db s)\<lparr>tasks :=
           map (\<lambda>x. if taskKey (db s) w k x then (g x)\<lparr>t_updatedAt := clock s\<rparr> else x) (tasks (db s))\<rparr>\<rparr>))"
  by (simp add: updateTask_def run Let_def split: option.splits)

definition newTask :: "world \<Rightarrow> ident \<Rightarrow> ident \<Rightarrow> ident \<Rightarrow> task_attributes \<Rightarrow> float64 \<Rightarrow> task_row" where
  "newTask s b c u attrs p =
     \<lparr>t_id = uuids s (drawn s), t_boardId = b, t_columnId = c, t_title = at_title attrs,
      t_description = at_description attrs,
      t_priority = (case at_priority attrs of None \<Rightarrow> MEDIUM | Some q \<Rightarrow> q), t_position = p,
      t_dueDate = at_dueDate attrs, t_estimatedMinutes = at_estimatedMinutes attrs,
      t_createdById = u, t_createdAt = clock s, t_updatedAt = clock s\<rparr>"

lemma newTask_simps [simp]:
  "t_id (newTask s b c u attrs p) = uuids s (drawn s)" "t_boardId (newTask s b c u attrs p) = b"
  "t_columnId (newTask s b c u attrs p) = c" "t_position (newTask s b c u attrs p) = p"
  "t_createdById (newTask s b c u attrs p) = u" "t_title (newTask s b c u attrs p) = at_title attrs"
  by (simp_all add: newTask_def)

lemma andThen_insertTask [run]:
  "andThen (insertTask b c u attrs p) f s =
     f (newTask s b c u attrs p) (s\<lparr>drawn := Suc (drawn s),
        db := (db s)\<lparr>tasks := tasks (db s) @ [newTask s b c u attrs p]\<rparr>\<rparr>)"
  by (simp add: insertTask_def newTask_def run Let_def)

lemma andThen_batchTasks [run]:
  "andThen (batchUpdateTaskPositions c u) f s =
     f () (s\<lparr>db := (db s)\<lparr>tasks :=
       batchUpdatePositions t_id (\<lambda>p t. t\<lparr>t_position := p\<rparr>) (\<lambda>t. t_columnId t = c) u (tasks (db s))\<rparr>\<rparr>)"
  by (simp add: batchUpdateTaskPositions_def run)

lemma andThen_findColumnOnBoard [run]:
  "andThen (findColumnOnBoard w b c) f s =
     (case find (\<lambda>x. columnIn (db s) w c x \<and> c_boardId x = b) (columns (db s)) of
        None \<Rightarrow> (Inl (NotFound ''Column not found''), s) | Some x \<Rightarrow> f x s)"
  by (simp add: findColumnOnBoard_def run)

section \<open>What a successful creation did\<close>

lemma task_create_ok:
  assumes "task_create pd w b u dto s = (Inr out, s')"
  defines "c \<equiv> ctd_columnId dto" and "sibs \<equiv> taskSiblings (ctd_columnId dto) (tasks (db s))"
  obtains i slot attrs where
    "resolveCreateNeighbors sibs (ctd_afterTaskId dto) ''Task not found'' = Inr slot"
    "slot_of sibs i slot"
    "createTaskAttributes pd dto = Inr attrs"
    "boardIn (db s) w b"
    "\<exists>x \<in> set (columns (db s)). c_id x = c \<and> c_boardId x = b"
    "tasks (db s') =
        (if needsRebalance (gap_pos (prev slot)) (gap_pos (nxt slot))
         then batchUpdatePositions t_id (\<lambda>p t. t\<lparr>t_position := p\<rparr>) (\<lambda>t. t_columnId t = c)
            (shifted_updates sibs i (rebalancePositions (Suc (length sibs)))) (tasks (db s))
         else tasks (db s)) @ [td_row out]"
    "td_row out = newTask s b c u attrs
       (if needsRebalance (gap_pos (prev slot)) (gap_pos (nxt slot))
        then rebalancePositions (Suc (length sibs)) ! i
        else midpoint (gap_pos (prev slot)) (gap_pos (nxt slot)))"
proof -
  obtain col where col: "find (\<lambda>x. columnIn (db s) w c x \<and> c_boardId x = b) (columns (db s)) = Some col"
    using assms(1) by (auto simp: task_create_def run andThen_transaction c_def split: option.splits)
  then have id: "c_id col = c" and ex: "\<exists>x \<in> set (columns (db s)). c_id x = c \<and> c_boardId x = b"
    and bi: "boardIn (db s) w b"
    by (auto dest!: find_Some_iff_mem simp: columnIn_def)
  obtain slot attrs where slot: "resolveCreateNeighbors sibs (ctd_afterTaskId dto) ''Task not found'' = Inr slot"
    and attrs: "createTaskAttributes pd dto = Inr attrs"
    using assms(1) col id
    by (auto simp: task_create_def run andThen_transaction sibs_def c_def split: option.splits sum.splits)
  then obtain i where i: "slot_of sibs i slot" using resolveCreate_slot by blast
  have ii: "nat (insertionIndex slot) = i" using i by (simp add: slot_of_def sliceSlot_def)
  show ?thesis
    by (rule that [OF slot i attrs bi ex])
      (use assms(1) slot attrs ii col id in \<open>auto simp: task_create_def run andThen_transaction sibs_def c_def Let_def
         newTask_def split: option.splits sum.splits if_splits\<close>)
qed

section \<open>What a successful move did\<close>

lemma task_move_ok:
  assumes "task_move w k a dto s = (Inr out, s')" and "distinct (map t_id (tasks (db s)))"
  defines "T0 \<equiv> filter (\<lambda>t. t_id t \<noteq> k) (tasks (db s))" and "c \<equiv> mtd_columnId dto"
  obtains row slot i where
    "find (taskKey (db s) w k) (tasks (db s)) = Some row"
    "resolveMoveNeighbors (taskSiblings c T0) (mtd_beforeTaskId dto) (mtd_afterTaskId dto) = Inr slot"
    "slot_of (taskSiblings c T0) i slot"
    "\<exists>x \<in> set (columns (db s)). c_id x = c \<and> c_boardId x = t_boardId row"
    "tasks (db s') =
       (let ps = rebalancePositions (Suc (length (taskSiblings c T0)));
            reb = needsRebalance (gap_pos (prev slot)) (gap_pos (nxt slot));
            m = row\<lparr>t_columnId := c,
                    t_position := if reb then ps ! i else midpoint (gap_pos (prev slot)) (gap_pos (nxt slot)),
                    t_updatedAt := clock s\<rparr>
        in if reb
           then batchUpdatePositions t_id (\<lambda>p t. t\<lparr>t_position := p\<rparr>) (\<lambda>t. t_columnId t = c)
                  (reordered_updates (taskSiblings c T0) i (k, t_position row) ps)
                  (replaceRow t_id k m (tasks (db s)))
           else replaceRow t_id k m (tasks (db s)))"
proof -
  obtain row where row: "find (taskKey (db s) w k) (tasks (db s)) = Some row"
    using assms(1) by (auto simp: task_move_def run andThen_transaction split: option.splits)
  have nb: "mtd_beforeTaskId dto \<noteq> Some k" "mtd_afterTaskId dto \<noteq> Some k"
    using assms(1) row by (auto simp: task_move_def run andThen_transaction split: if_splits)
  obtain col where col: "find (columnIn (db s) w c) (columns (db s)) = Some col"
    using assms(1) row nb by (auto simp: task_move_def run andThen_transaction c_def split: option.splits)
  have cid: "c_id col = c" and cmem: "col \<in> set (columns (db s))"
    using col by (auto dest!: find_Some_iff_mem simp: columnIn_def)
  have bid: "c_boardId col = t_boardId row"
    using assms(1) row nb col by (auto simp: task_move_def run andThen_transaction c_def split: if_splits)
  have ex: "\<exists>x \<in> set (columns (db s)). c_id x = c \<and> c_boardId x = t_boardId row"
    using cid cmem bid by blast
  have rest: "filter (\<lambda>item. fst item \<noteq> k) (taskSiblings c (tasks (db s))) = taskSiblings c T0"
    by (simp add: taskSiblings_def task_rows.siblings_filter T0_def)
  obtain slot where slot:
    "resolveMoveNeighbors (taskSiblings c T0) (mtd_beforeTaskId dto) (mtd_afterTaskId dto) = Inr slot"
    using assms(1) row nb col bid cid
    by (auto simp: task_move_def run andThen_transaction Let_def c_def [symmetric] rest split: sum.splits)
  then obtain i where i: "slot_of (taskSiblings c T0) i slot" using resolveMove_slot by blast
  have ii: "nat (insertionIndex slot) = i" using i by (simp add: slot_of_def sliceSlot_def)
  have id: "t_id row = k" by (rule replace_tasks(3) [OF assms(2) row])
  note repl = replace_tasks(1) [OF assms(2) row]
  show ?thesis
  proof (rule that [OF row slot i ex])
    show "tasks (db s') =
       (let ps = rebalancePositions (Suc (length (taskSiblings c T0)));
            reb = needsRebalance (gap_pos (prev slot)) (gap_pos (nxt slot));
            m = row\<lparr>t_columnId := c,
                    t_position := if reb then ps ! i else midpoint (gap_pos (prev slot)) (gap_pos (nxt slot)),
                    t_updatedAt := clock s\<rparr>
        in if reb
           then batchUpdatePositions t_id (\<lambda>p t. t\<lparr>t_position := p\<rparr>) (\<lambda>t. t_columnId t = c)
                  (reordered_updates (taskSiblings c T0) i (k, t_position row) ps)
                  (replaceRow t_id k m (tasks (db s)))
           else replaceRow t_id k m (tasks (db s)))"
    proof (cases "needsRebalance (gap_pos (prev slot)) (gap_pos (nxt slot))")
      case True
      then show ?thesis
        using assms(1) row nb col bid cid slot
        by (auto simp: task_move_def run andThen_transaction Let_def c_def [symmetric] rest ii id repl)
    next
      case False
      then show ?thesis
        using assms(1) row nb col bid cid slot
        by (auto simp: task_move_def run andThen_transaction Let_def c_def [symmetric] rest ii id repl)
    qed
  qed
qed

section \<open>Order\<close>

text \<open>The abstract state of a column: the ids of its tasks in display order.\<close>

definition task_order :: "ident \<Rightarrow> database \<Rightarrow> ident list" where
  "task_order columnId d = map t_id (tasksOf columnId (tasks d))"

lemma task_order_siblings: "task_order c d = map fst (taskSiblings c (tasks d))"
  by (simp add: task_order_def taskSiblings_def tasksOf_def siblings_def comp_def)

definition tasks_ordered :: "ident \<Rightarrow> database \<Rightarrow> bool" where
  "tasks_ordered c d \<longleftrightarrow>
     distinct (map t_id (tasks d)) \<and> increasing (taskSiblings c (tasks d)) \<and>
     (\<forall>x \<in> set (taskSiblings c (tasks d)). safe_position (snd x)) \<and>
     length (taskSiblings c (tasks d)) < 2 ^ 39"

lemma task_create_order_lemma:
  assumes ok: "task_create pd w b u dto s = (Inr out, s')" and ord: "tasks_ordered (ctd_columnId dto) (db s)"
  defines "c \<equiv> ctd_columnId dto"
  shows "\<exists>i slot. resolveCreateNeighbors (taskSiblings c (tasks (db s))) (ctd_afterTaskId dto)
             ''Task not found'' = Inr slot \<and> insertionIndex slot = int i \<and>
           task_order c (db s') = insert_at i (t_id (td_row out)) (task_order c (db s)) \<and>
           increasing (taskSiblings c (tasks (db s')))"
proof -
  let ?S = "\<lambda>t. t_columnId t = c"
  obtain i slot attrs where
    n: "resolveCreateNeighbors (taskSiblings c (tasks (db s))) (ctd_afterTaskId dto) ''Task not found'' = Inr slot"
    "slot_of (taskSiblings c (tasks (db s))) i slot"
    and t: "tasks (db s') =
        (if needsRebalance (gap_pos (prev slot)) (gap_pos (nxt slot))
         then batchUpdatePositions t_id (\<lambda>p t. t\<lparr>t_position := p\<rparr>) ?S
            (shifted_updates (taskSiblings c (tasks (db s))) i
              (rebalancePositions (Suc (length (taskSiblings c (tasks (db s))))))) (tasks (db s))
         else tasks (db s)) @ [td_row out]"
    and r: "td_row out = newTask s b c u attrs
       (if needsRebalance (gap_pos (prev slot)) (gap_pos (nxt slot))
        then rebalancePositions (Suc (length (taskSiblings c (tasks (db s))))) ! i
        else midpoint (gap_pos (prev slot)) (gap_pos (nxt slot)))"
    unfolding c_def by (rule task_create_ok [OF ok])
  have "map fst (siblings t_id t_position ?S (tasks (db s'))) =
          insert_at i (t_id (td_row out)) (map fst (siblings t_id t_position ?S (tasks (db s)))) \<and>
        increasing (siblings t_id t_position ?S (tasks (db s')))"
  proof (rule task_rows.inserted_order)
    show "t_position (td_row out) =
        (if needsRebalance (gap_pos (prev slot)) (gap_pos (nxt slot))
         then rebalancePositions (Suc (length (siblings t_id t_position ?S (tasks (db s))))) ! i
         else midpoint (gap_pos (prev slot)) (gap_pos (nxt slot)))"
      unfolding r by (simp add: taskSiblings_def)
    show "t_columnId (td_row out) = c" by (simp add: r)
  qed (use ord n t in \<open>auto simp: tasks_ordered_def taskSiblings_def c_def\<close>)
  with n show ?thesis
    by (auto simp: task_order_siblings taskSiblings_def slot_of_def sliceSlot_def)
qed

lemma tasks_ordered_rest:
  fixes k :: ident
  assumes "tasks_ordered c d"
  defines "T0 \<equiv> filter (\<lambda>t. t_id t \<noteq> k) (tasks d)"
  shows "filter (\<lambda>it. fst it \<noteq> k) (taskSiblings c (tasks d)) = taskSiblings c T0"
    and "increasing (taskSiblings c T0)" and "\<forall>x \<in> set (taskSiblings c T0). safe_position (snd x)"
    and "Suc (length (taskSiblings c T0)) < 2 ^ 40"
    and "map fst (taskSiblings c T0) = filter (\<lambda>x. x \<noteq> k) (task_order c d)"
proof -
  show rest: "filter (\<lambda>it. fst it \<noteq> k) (taskSiblings c (tasks d)) = taskSiblings c T0"
    by (simp add: taskSiblings_def task_rows.siblings_filter T0_def)
  show "increasing (taskSiblings c T0)"
    using assms(1) unfolding tasks_ordered_def rest [symmetric] increasing_def
    by (blast intro: sorted_wrt_filter)
  show "\<forall>x \<in> set (taskSiblings c T0). safe_position (snd x)"
    using assms(1) unfolding tasks_ordered_def rest [symmetric] by simp
  have "length (taskSiblings c T0) \<le> length (taskSiblings c (tasks d))"
    unfolding rest [symmetric] by (rule length_filter_le)
  moreover have "length (taskSiblings c (tasks d)) < 2 ^ 39"
    using assms(1) by (simp add: tasks_ordered_def)
  ultimately show "Suc (length (taskSiblings c T0)) < 2 ^ 40" by simp
  show "map fst (taskSiblings c T0) = filter (\<lambda>x. x \<noteq> k) (task_order c d)"
    unfolding rest [symmetric] by (simp add: task_order_siblings filter_map comp_def)
qed

text \<open>A column the task is not moved to keeps its other tasks in order.\<close>

lemma siblings_other:
  assumes "\<not> S m" and "\<And>t. S t \<Longrightarrow> \<not> U t" and "\<And>p t. S (t\<lparr>t_position := p\<rparr>) = S t"
  shows "siblings t_id t_position S (batchUpdatePositions t_id (\<lambda>p t. t\<lparr>t_position := p\<rparr>) U us (replaceRow t_id k m T)) =
         siblings t_id t_position S (filter (\<lambda>t. t_id t \<noteq> k) T)"
    and "siblings t_id t_position S (replaceRow t_id k m T) =
         siblings t_id t_position S (filter (\<lambda>t. t_id t \<noteq> k) T)"
proof -
  have one: "filter S (replaceRow t_id k m T) = filter S (filter (\<lambda>t. t_id t \<noteq> k) T)"
    using assms(1) by (induction T) (auto simp: replaceRow_def)
  have "filter S (batchUpdatePositions t_id (\<lambda>p t. t\<lparr>t_position := p\<rparr>) U us X) = filter S X" for X
    unfolding batchUpdatePositions_def
    by (rule filter_map_other) (auto simp: assms(2,3) split: option.splits)
  with one show "siblings t_id t_position S (batchUpdatePositions t_id (\<lambda>p t. t\<lparr>t_position := p\<rparr>) U us (replaceRow t_id k m T)) =
      siblings t_id t_position S (filter (\<lambda>t. t_id t \<noteq> k) T)"
    by (simp add: siblings_def listing_def)
  show "siblings t_id t_position S (replaceRow t_id k m T) =
      siblings t_id t_position S (filter (\<lambda>t. t_id t \<noteq> k) T)"
    using one by (simp add: siblings_def listing_def)
qed

lemma task_move_order_lemma:
  assumes ok: "task_move w k a dto s = (Inr out, s')" and ord: "tasks_ordered (mtd_columnId dto) (db s)"
  defines "c \<equiv> mtd_columnId dto"
  shows "\<exists>i slot.
      resolveMoveNeighbors (filter (\<lambda>it. fst it \<noteq> k) (taskSiblings c (tasks (db s))))
        (mtd_beforeTaskId dto) (mtd_afterTaskId dto) = Inr slot \<and> insertionIndex slot = int i \<and>
      task_order c (db s') = insert_at i k (filter (\<lambda>x. x \<noteq> k) (task_order c (db s))) \<and>
      increasing (taskSiblings c (tasks (db s'))) \<and>
      (\<forall>c'. c' \<noteq> c \<longrightarrow> task_order c' (db s') = filter (\<lambda>x. x \<noteq> k) (task_order c' (db s)))"
proof -
  let ?S = "\<lambda>t. t_columnId t = c" and ?T = "tasks (db s)"
  let ?rest = "filter (\<lambda>t. t_id t \<noteq> k) ?T"
  have ids: "distinct (map t_id ?T)" using ord by (simp add: tasks_ordered_def)
  obtain row slot i where
    row: "find (taskKey (db s) w k) ?T = Some row"
    and n: "resolveMoveNeighbors (taskSiblings c ?rest) (mtd_beforeTaskId dto) (mtd_afterTaskId dto) = Inr slot"
    and sl: "slot_of (taskSiblings c ?rest) i slot"
    and t: "tasks (db s') =
       (let ps = rebalancePositions (Suc (length (taskSiblings c ?rest)));
            reb = needsRebalance (gap_pos (prev slot)) (gap_pos (nxt slot));
            m = row\<lparr>t_columnId := c,
                    t_position := if reb then ps ! i else midpoint (gap_pos (prev slot)) (gap_pos (nxt slot)),
                    t_updatedAt := clock s\<rparr>
        in if reb
           then batchUpdatePositions t_id (\<lambda>p t. t\<lparr>t_position := p\<rparr>) ?S
                  (reordered_updates (taskSiblings c ?rest) i (k, t_position row) ps) (replaceRow t_id k m ?T)
           else replaceRow t_id k m ?T)"
    unfolding c_def by (rule task_move_ok [OF ok ids])
  note rest = tasks_ordered_rest [OF ord, of k, folded c_def]
  define m where "m = row\<lparr>t_columnId := c,
      t_position := if needsRebalance (gap_pos (prev slot)) (gap_pos (nxt slot))
        then rebalancePositions (Suc (length (taskSiblings c ?rest))) ! i
        else midpoint (gap_pos (prev slot)) (gap_pos (nxt slot)), t_updatedAt := clock s\<rparr>"
  have t': "tasks (db s') =
       (if needsRebalance (gap_pos (prev slot)) (gap_pos (nxt slot))
        then batchUpdatePositions t_id (\<lambda>p t. t\<lparr>t_position := p\<rparr>) ?S
               (reordered_updates (taskSiblings c ?rest) i (k, t_position row)
                 (rebalancePositions (Suc (length (taskSiblings c ?rest))))) (replaceRow t_id k m ?T)
        else replaceRow t_id k m ?T)"
    unfolding t m_def Let_def by (rule refl)
  have m: "t_columnId m = c" "t_id m = k"
    using replace_tasks(3) [OF ids row] by (simp_all add: m_def)
  have "map fst (siblings t_id t_position ?S (tasks (db s'))) =
          insert_at i k (map fst (siblings t_id t_position ?S ?rest)) \<and>
        increasing (siblings t_id t_position ?S (tasks (db s')))"
  proof (rule task_rows.moved_order [OF ids replace_tasks(2) [OF ids row]])
    show "t_position m =
        (if needsRebalance (gap_pos (prev slot)) (gap_pos (nxt slot))
         then rebalancePositions (Suc (length (siblings t_id t_position ?S ?rest))) ! i
         else midpoint (gap_pos (prev slot)) (gap_pos (nxt slot)))"
      by (simp add: m_def taskSiblings_def)
    show "tasks (db s') =
       (if needsRebalance (gap_pos (prev slot)) (gap_pos (nxt slot))
        then batchUpdatePositions t_id (\<lambda>p t. t\<lparr>t_position := p\<rparr>) ?S
               (reordered_updates (siblings t_id t_position ?S ?rest) i (k, t_position row)
                 (rebalancePositions (Suc (length (siblings t_id t_position ?S ?rest))))) (replaceRow t_id k m ?T)
        else replaceRow t_id k m ?T)"
      using t' unfolding taskSiblings_def .
  qed (use rest sl m in \<open>simp_all add: taskSiblings_def\<close>)
  moreover have "task_order c' (db s') = filter (\<lambda>x. x \<noteq> k) (task_order c' (db s))" if "c' \<noteq> c" for c'
  proof -
    have "taskSiblings c' (tasks (db s')) = taskSiblings c' ?rest"
      unfolding t' taskSiblings_def using that m
      by (simp add: siblings_other)
    moreover have "map fst (taskSiblings c' ?rest) = filter (\<lambda>x. x \<noteq> k) (map fst (taskSiblings c' ?T))"
      by (simp add: taskSiblings_def filter_map comp_def flip: task_rows.siblings_filter)
    ultimately show ?thesis by (simp add: task_order_siblings)
  qed
  ultimately show ?thesis
    using n sl rest(1,5) by (auto simp: task_order_siblings taskSiblings_def slot_of_def sliceSlot_def)
qed

section \<open>Refusals\<close>

text \<open>Whatever refuses a task request leaves the tables, the socket and the mails alone.\<close>

definition untouched :: "world \<Rightarrow> world \<Rightarrow> bool" where
  "untouched s s' \<longleftrightarrow> db s' = db s \<and> outbox s' = outbox s \<and> mails s' = mails s"

lemma task_create_refused: "task_create pd w b u dto s = (Inl e, s') \<Longrightarrow> untouched s s'"
  by (auto simp: task_create_def untouched_def run andThen_transaction Let_def
      split: option.splits sum.splits if_splits)

lemma task_remove_refused: "task_remove w k u s = (Inl e, s') \<Longrightarrow> untouched s s'"
  by (auto simp: task_remove_def untouched_def run andThen_transaction Let_def
      split: option.splits sum.splits if_splits)

lemma task_move_refused: "task_move w k u dto s = (Inl e, s') \<Longrightarrow> untouched s s'"
  by (auto simp: task_move_def untouched_def run andThen_transaction Let_def
      split: option.splits sum.splits if_splits)

lemma task_update_refused: "task_update pd w k u dto s = (Inl e, s') \<Longrightarrow> untouched s s'"
  by (auto simp: task_update_def untouched_def run andThen_transaction Let_def
      split: option.splits sum.splits if_splits prod.splits)

section \<open>Updates\<close>

lemma changed_empty_iff: "changed f sent stored enc = [] \<longleftrightarrow> (case sent of None \<Rightarrow> True | Some v \<Rightarrow> v = stored)"
  by (simp add: changed_def split: option.splits)

text \<open>Nothing counts as changed exactly when writing the patch would not change the row.\<close>

lemma planTaskUpdate_changes:
  assumes "planTaskUpdate pd t dto = Inr (patch, changes)"
  shows "changes = [] \<longleftrightarrow> applyPatch patch t = t"
proof -
  obtain due where p: "patch = \<lparr>pa_title = utd_title dto, pa_description = utd_description dto,
      pa_priority = utd_priority dto, pa_dueDate = due, pa_estimatedMinutes = utd_estimatedMinutes dto\<rparr>"
    and c: "changes = changed ''title'' (utd_title dto) (t_title t) JStr @
      changed ''description'' (utd_description dto) (t_description t) json_opt_str @
      changed ''priority'' (utd_priority dto) (t_priority t) (\<lambda>p. JStr (priority_name p)) @
      changed ''dueDate'' due (t_dueDate t) json_opt_int @
      changed ''estimatedMinutes'' (utd_estimatedMinutes dto) (t_estimatedMinutes t) json_opt_int"
    using assms by (auto simp: planTaskUpdate_def bind_result_def split: sum.splits)
  show ?thesis
    unfolding p c append_is_Nil_conv changed_empty_iff
    by (cases t) (auto simp: applyPatch_def split: option.splits)
qed

lemma task_update_silent:
  assumes "task_update pd w k u dto s = (Inr out, s')" and "find (taskKey (db s) w k) (tasks (db s)) = Some row"
    and "planTaskUpdate pd row dto = Inr (patch, changes)" and "applyPatch patch row = row"
  shows "s' = s \<and> out = toTaskDetailDto (db s) row (countAttachments (db s) k)"
proof -
  have "changes = []" using planTaskUpdate_changes [OF assms(3)] assms(4) by simp
  with assms(1-3) show ?thesis by (auto simp: task_update_def run)
qed

lemma task_update_written:
  assumes ok: "task_update pd w k u dto s = (Inr out, s')" and row: "find (taskKey (db s) w k) (tasks (db s)) = Some row"
    and plan: "planTaskUpdate pd row dto = Inr (patch, changes)" and diff: "applyPatch patch row \<noteq> row"
    and ids: "distinct (map t_id (tasks (db s)))"
  shows "td_row out = (applyPatch patch row)\<lparr>t_updatedAt := clock s\<rparr>"
    and "tasks (db s') = replaceRow t_id k (td_row out) (tasks (db s))"
    and "activities (db s') = activities (db s) @
          [activityFor s w (Some k) u TaskUpdated
            (JObj [(''title'', JStr (t_title (td_row out))), (''changes'', JObj changes)])]"
    and "outbox s' = outbox s @ [ToBoard (t_boardId row) TASK_UPDATED w u [(''taskId'', JStr k)]]"
proof -
  have c: "changes \<noteq> []" using planTaskUpdate_changes [OF plan] diff by simp
  have id: "t_id row = k" by (rule replace_tasks(3) [OF ids row])
  have b: "t_boardId (applyPatch p t) = t_boardId t" "t_id (applyPatch p t) = t_id t" for p t
    by (simp_all add: applyPatch_def)
  note facts = ok row plan c id b replace_tasks(1) [OF ids row]
  show "td_row out = (applyPatch patch row)\<lparr>t_updatedAt := clock s\<rparr>"
    and "tasks (db s') = replaceRow t_id k (td_row out) (tasks (db s))"
    and "activities (db s') = activities (db s) @
          [activityFor s w (Some k) u TaskUpdated
            (JObj [(''title'', JStr (t_title (td_row out))), (''changes'', JObj changes)])]"
    and "outbox s' = outbox s @ [ToBoard (t_boardId row) TASK_UPDATED w u [(''taskId'', JStr k)]]"
    using facts by (auto simp: task_update_def run andThen_transaction activityFor_def)
qed

section \<open>Removal\<close>

lemma task_remove_ok:
  assumes "task_remove w k u s = (Inr (), s')"
  obtains row p where "row \<in> set (tasks (db s))" "t_id row = k" "boardIn (db s) w (t_boardId row)"
    "db s' = delete_tasks (taskKey (db s) w k)
       ((db s)\<lparr>activities := activities (db s) @ [activityFor s w None u TaskDeleted p]\<rparr>)"
    "outbox s' = outbox s @ [ToBoard (t_boardId row) TASK_DELETED w u [(''taskId'', JStr k)]]"
proof -
  obtain row where row: "find (taskKey (db s) w k) (tasks (db s)) = Some row"
    using assms by (auto simp: task_remove_def run andThen_transaction split: option.splits)
  then have r: "row \<in> set (tasks (db s))" "t_id row = k" "boardIn (db s) w (t_boardId row)"
    by (auto dest: find_Some_iff_mem simp: taskKey_def)
  show ?thesis
    by (rule that [OF r])
      (use assms row r in \<open>auto simp: task_remove_def run andThen_transaction split: if_splits\<close>)
qed

lemma task_remove_iff: "fst (task_remove w k u s) = Inr () \<longleftrightarrow> taskIn (db s) w k"
proof -
  have "taskIn (db s) w k \<longleftrightarrow> find (taskKey (db s) w k) (tasks (db s)) \<noteq> None"
    by (auto simp: taskIn_def list_ex_iff taskKey_def find_None_iff)
  moreover have "find (taskKey (db s) w k) (tasks (db s)) = Some row \<Longrightarrow>
      filter (taskKey (db s) w k) (tasks (db s)) \<noteq> []" for row
    by (simp add: filter_empty_iff)
  ultimately show ?thesis
    by (auto simp: task_remove_def run andThen_transaction split: option.splits if_splits)
qed

lemma task_remove_integrity:
  assumes ok: "task_remove w k u s = (Inr (), s')" and ri: "ref_integrity (db s)"
    and u: "\<exists>x \<in> set (users (db s)). u_id x = u"
  shows "ref_integrity (db s')"
proof -
  obtain row p where c: "row \<in> set (tasks (db s))" "boardIn (db s) w (t_boardId row)"
    "db s' = delete_tasks (taskKey (db s) w k)
       ((db s)\<lparr>activities := activities (db s) @ [activityFor s w None u TaskDeleted p]\<rparr>)"
    by (rule task_remove_ok [OF ok]) blast
  have "\<exists>x \<in> set (workspaces (db s)). w_id x = w"
    using ri c(2) by (auto simp: ref_integrity_def refs_def boardIn_def list_ex_iff)
  with ri u show ?thesis
    unfolding c(3) by (intro delete_tasks_integrity log_integrity) simp_all
qed

section \<open>Creation and moves keep the references\<close>

lemma task_column_position [simp]: "task_column (t\<lparr>t_position := p\<rparr>) = task_column t"
  by (simp add: task_column_def)

lemma set_batch_ids [simp]:
  assumes "\<And>p r. rid (sp p r) = rid r"
  shows "rid ` set (batchUpdatePositions rid sp S u T) = rid ` set T"
proof -
  have "map rid (batchUpdatePositions rid sp S u T) = map rid T"
    by (simp add: batchUpdatePositions_def assms split: option.split)
  then show ?thesis by (metis set_map)
qed

definition createdPayload :: "task_row \<Rightarrow> json" where
  "createdPayload t =
     JObj [(''title'', JStr (t_title t)), (''columnId'', JStr (t_columnId t)), (''boardId'', JStr (t_boardId t))]"

lemma task_create_db:
  assumes "task_create pd w b u dto s = (Inr out, s')"
  shows "db s' = (db s)\<lparr>tasks := tasks (db s'), activities := activities (db s) @
           [activityFor (s\<lparr>drawn := Suc (drawn s)\<rparr>) w (Some (t_id (td_row out))) u TaskCreated
              (createdPayload (td_row out))]\<rparr>"
    and "outbox s' = outbox s @ [ToBoard (t_boardId (td_row out)) TASK_CREATED w u [(''taskId'', JStr (t_id (td_row out)))]]"
  using assms
  by (auto simp: task_create_def run andThen_transaction Let_def activityFor_def createdPayload_def
      split: option.splits sum.splits if_splits)

lemma task_create_integrity:
  assumes ok: "task_create pd w b u dto s = (Inr out, s')" and ri: "ref_integrity (db s)"
    and u: "\<exists>x \<in> set (users (db s)). u_id x = u"
  shows "ref_integrity (db s')"
proof -
  obtain i slot attrs where
    "resolveCreateNeighbors (taskSiblings (ctd_columnId dto) (tasks (db s))) (ctd_afterTaskId dto) ''Task not found'' = Inr slot"
    "slot_of (taskSiblings (ctd_columnId dto) (tasks (db s))) i slot" "createTaskAttributes pd dto = Inr attrs"
    and bi: "boardIn (db s) w b"
    and col: "\<exists>x \<in> set (columns (db s)). c_id x = ctd_columnId dto \<and> c_boardId x = b"
    and t: "tasks (db s') =
        (if needsRebalance (gap_pos (prev slot)) (gap_pos (nxt slot))
         then batchUpdatePositions t_id (\<lambda>p t. t\<lparr>t_position := p\<rparr>) (\<lambda>t. t_columnId t = ctd_columnId dto)
            (shifted_updates (taskSiblings (ctd_columnId dto) (tasks (db s))) i
              (rebalancePositions (Suc (length (taskSiblings (ctd_columnId dto) (tasks (db s))))))) (tasks (db s))
         else tasks (db s)) @ [td_row out]"
    and r: "td_row out = newTask s b (ctd_columnId dto) u attrs
       (if needsRebalance (gap_pos (prev slot)) (gap_pos (nxt slot))
        then rebalancePositions (Suc (length (taskSiblings (ctd_columnId dto) (tasks (db s))))) ! i
        else midpoint (gap_pos (prev slot)) (gap_pos (nxt slot)))"
    by (rule task_create_ok [OF ok])
  note d = task_create_db(1) [OF ok]
  have row: "t_boardId (td_row out) = b" "t_createdById (td_row out) = u"
    "task_column (td_row out) = (b, ctd_columnId dto)"
    by (simp_all add: r task_column_def)
  have board: "\<exists>x \<in> set (boards (db s)). b_id x = b" and ws: "\<exists>x \<in> set (workspaces (db s)). w_id x = w"
    using bi ri by (auto simp: boardIn_def list_ex_iff ref_integrity_def refs_def)
  have key: "\<exists>x \<in> set (columns (db s)). column_key x = (b, ctd_columnId dto)"
    using col by (auto simp: column_key_def)
  have old: "refs (tasks (db s)) t_boardId (boards (db s)) b_id"
    "refs (tasks (db s)) task_column (columns (db s)) column_key"
    "refs (tasks (db s)) t_createdById (users (db s)) u_id"
    using ri by (simp_all add: ref_integrity_def)
  have "ref_integrity ((db s)\<lparr>tasks := tasks (db s')\<rparr>)"
  proof (rule tasks_integrity [OF ri])
    show "refs (tasks (db s')) t_boardId (boards (db s)) b_id"
      "refs (tasks (db s')) task_column (columns (db s)) column_key"
      "refs (tasks (db s')) t_createdById (users (db s)) u_id"
      using old board key u row unfolding t by simp_all
    show "t_id ` set (tasks (db s)) \<subseteq> t_id ` set (tasks (db s'))"
      unfolding t by auto
  qed
  then have "ref_integrity ((db s)\<lparr>tasks := tasks (db s')\<rparr>\<lparr>activities := activities ((db s)\<lparr>tasks := tasks (db s')\<rparr>) @
      [activityFor (s\<lparr>drawn := Suc (drawn s)\<rparr>) w (Some (t_id (td_row out))) u TaskCreated (createdPayload (td_row out))]\<rparr>)"
    by (rule log_integrity) (use ws u in \<open>simp_all add: t\<close>)
  then show ?thesis by (subst d) simp
qed

lemma task_move_db:
  assumes "task_move w k u dto s = (Inr out, s')"
  shows "\<exists>p. db s' = (db s)\<lparr>tasks := tasks (db s'),
           activities := activities (db s) @ [activityFor s w (Some k) u TaskMoved p]\<rparr>"
  using assms
  by (auto simp: task_move_def run andThen_transaction Let_def activityFor_def
      split: option.splits sum.splits if_splits intro!: exI)

lemma task_move_integrity:
  assumes ok: "task_move w k u dto s = (Inr out, s')" and ri: "ref_integrity (db s)"
    and u: "\<exists>x \<in> set (users (db s)). u_id x = u" and ids: "distinct (map t_id (tasks (db s)))"
  shows "ref_integrity (db s')"
proof -
  let ?c = "mtd_columnId dto" and ?rest = "filter (\<lambda>t. t_id t \<noteq> k) (tasks (db s))"
  obtain row slot i where row: "find (taskKey (db s) w k) (tasks (db s)) = Some row"
    and "resolveMoveNeighbors (taskSiblings ?c ?rest) (mtd_beforeTaskId dto) (mtd_afterTaskId dto) = Inr slot"
    and "slot_of (taskSiblings ?c ?rest) i slot"
    and col: "\<exists>x \<in> set (columns (db s)). c_id x = ?c \<and> c_boardId x = t_boardId row"
    and t: "tasks (db s') =
       (let ps = rebalancePositions (Suc (length (taskSiblings ?c ?rest)));
            reb = needsRebalance (gap_pos (prev slot)) (gap_pos (nxt slot));
            m = row\<lparr>t_columnId := ?c,
                    t_position := if reb then ps ! i else midpoint (gap_pos (prev slot)) (gap_pos (nxt slot)),
                    t_updatedAt := clock s\<rparr>
        in if reb
           then batchUpdatePositions t_id (\<lambda>p t. t\<lparr>t_position := p\<rparr>) (\<lambda>t. t_columnId t = ?c)
                  (reordered_updates (taskSiblings ?c ?rest) i (k, t_position row) ps)
                  (replaceRow t_id k m (tasks (db s)))
           else replaceRow t_id k m (tasks (db s)))"
    by (rule task_move_ok [OF ok ids])
  note r = replace_tasks [OF ids row]
  have ri': "refs (tasks (db s)) t_boardId (boards (db s)) b_id"
    "refs (tasks (db s)) task_column (columns (db s)) column_key"
    "refs (tasks (db s)) t_createdById (users (db s)) u_id"
    using ri by (simp_all add: ref_integrity_def)
  have "boardIn (db s) w (t_boardId row)"
    using row by (auto dest: find_Some_iff_mem simp: taskKey_def)
  then have ws: "\<exists>x \<in> set (workspaces (db s)). w_id x = w"
    using ri by (auto simp: boardIn_def list_ex_iff ref_integrity_def refs_def)
  have rows: "\<exists>y \<in> set (boards (db s)). b_id y = t_boardId row"
    "\<exists>y \<in> set (users (db s)). u_id y = t_createdById row"
    "\<exists>y \<in> set (columns (db s)). column_key y = (t_boardId row, ?c)"
    using ri' r(4) col by (auto simp: refs_def column_key_def)
  have repl: "refs (replaceRow t_id k m (tasks (db s))) t_boardId (boards (db s)) b_id"
    "refs (replaceRow t_id k m (tasks (db s))) task_column (columns (db s)) column_key"
    "refs (replaceRow t_id k m (tasks (db s))) t_createdById (users (db s)) u_id"
    "t_id ` set (replaceRow t_id k m (tasks (db s))) = t_id ` set (tasks (db s))"
    if "t_boardId m = t_boardId row" "t_columnId m = ?c" "t_createdById m = t_createdById row" "t_id m = k" for m
  proof -
    show "refs (replaceRow t_id k m (tasks (db s))) t_boardId (boards (db s)) b_id"
      "refs (replaceRow t_id k m (tasks (db s))) task_column (columns (db s)) column_key"
      "refs (replaceRow t_id k m (tasks (db s))) t_createdById (users (db s)) u_id"
      using ri' rows that by (auto intro!: refs_replace simp: task_column_def)
    have "map t_id (replaceRow t_id k m (tasks (db s))) = map t_id (tasks (db s))"
      using that(4) by (simp add: replaceRow_def)
    then show "t_id ` set (replaceRow t_id k m (tasks (db s))) = t_id ` set (tasks (db s))"
      by (metis set_map)
  qed
  have t': "refs (tasks (db s')) t_boardId (boards (db s)) b_id"
    "refs (tasks (db s')) task_column (columns (db s)) column_key"
    "refs (tasks (db s')) t_createdById (users (db s)) u_id"
    "t_id ` set (tasks (db s')) = t_id ` set (tasks (db s))"
    unfolding t Let_def by (simp_all add: repl r(3) split del: if_split split: if_split)
  have "ref_integrity ((db s)\<lparr>tasks := tasks (db s')\<rparr>)"
    using t' by (intro tasks_integrity [OF ri]) simp_all
  moreover obtain p where d: "db s' = (db s)\<lparr>tasks := tasks (db s'),
      activities := activities (db s) @ [activityFor s w (Some k) u TaskMoved p]\<rparr>"
    using task_move_db [OF ok] by blast
  moreover have "\<exists>y \<in> set (tasks (db s')). Some (t_id y) = Some k"
  proof -
    have "k \<in> t_id ` set (tasks (db s'))" unfolding t'(4) using r(2) by simp
    then show ?thesis by auto
  qed
  ultimately show ?thesis
    using log_integrity [of "(db s)\<lparr>tasks := tasks (db s')\<rparr>" w u "Some k" s TaskMoved p] ws u
    by (subst d) simp
qed

section \<open>Pages\<close>

interpretation task_pages: cursor_walk t_id "\<lambda>c i. c < i"
  by unfold_locales auto

lemma countAttachmentsByTask_lookup:
  assumes "k \<in> set ks"
  shows "(case map_of (countAttachmentsByTask d ks) k of None \<Rightarrow> 0 | Some n \<Rightarrow> n) = countAttachments d k"
proof (cases "\<exists>a \<in> set (attachments d). a_taskId a = k")
  case True
  have "map_of (map (\<lambda>k. (k, f k)) xs) k = (if k \<in> set xs then Some (f k) else None)" for f :: "ident \<Rightarrow> nat" and xs
    by (induction xs) auto
  with True assms show ?thesis
    by (auto simp: countAttachmentsByTask_def)
next
  case False
  then have "countAttachments d k = 0"
    by (auto simp: countAttachments_def filter_empty_conv)
  moreover have "map_of (countAttachmentsByTask d ks) k = None"
    using False by (auto simp: countAttachmentsByTask_def map_of_eq_None_iff)
  ultimately show ?thesis by simp
qed

lemma summarize_done_le: "snd (summarizeChecklists cs) \<le> fst (summarizeChecklists cs)"
  by (induction cs) (auto simp: Let_def split: prod.splits intro: add_mono)

section \<open>Search is literal\<close>

text \<open>
  What the database documents of a pattern match: \<open>%\<close> stands for any characters, a backslash takes
  the next character literally, and a character that is none of \<open>%\<close>, \<open>_\<close> and backslash stands for
  itself, up to \<open>fd\<close>: \<open>lower_char\<close> for \<open>ILIKE\<close>, the identity for \<open>LIKE\<close>.
\<close>

definition like_semantics :: "(char \<Rightarrow> char) \<Rightarrow> (string \<Rightarrow> string \<Rightarrow> bool) \<Rightarrow> bool" where
  "like_semantics fd ilike \<longleftrightarrow>
     (\<forall>t. ilike [] t \<longleftrightarrow> t = []) \<and>
     (\<forall>p t. ilike (CHR ''%'' # p) t \<longleftrightarrow> (\<exists>n \<le> length t. ilike p (drop n t))) \<and>
     (\<forall>c p t. ilike (CHR 0x5C # c # p) t \<longleftrightarrow>
        (case t of [] \<Rightarrow> False | x # r \<Rightarrow> fd x = fd c \<and> ilike p r)) \<and>
     (\<forall>c p t. c \<noteq> CHR ''%'' \<and> c \<noteq> CHR ''_'' \<and> c \<noteq> CHR 0x5C \<longrightarrow>
        (ilike (c # p) t \<longleftrightarrow>
          (case t of [] \<Rightarrow> False | x # r \<Rightarrow> fd x = fd c \<and> ilike p r)))"

lemma like_facts:
  assumes "like_semantics fd ilike"
  shows "ilike [] t \<longleftrightarrow> t = []"
    and "ilike (CHR ''%'' # p) t \<longleftrightarrow> (\<exists>n \<le> length t. ilike p (drop n t))"
    and "ilike (CHR 0x5C # c # p) t \<longleftrightarrow>
      (case t of [] \<Rightarrow> False | x # r \<Rightarrow> fd x = fd c \<and> ilike p r)"
    and "c \<noteq> CHR ''%'' \<Longrightarrow> c \<noteq> CHR ''_'' \<Longrightarrow> c \<noteq> CHR 0x5C \<Longrightarrow>
      ilike (c # p) t \<longleftrightarrow> (case t of [] \<Rightarrow> False | x # r \<Rightarrow> fd x = fd c \<and> ilike p r)"
proof -
  note law = assms [unfolded like_semantics_def]
  note 1 = law [THEN conjunct1] and 2 = law [THEN conjunct2, THEN conjunct1]
    and 3 = law [THEN conjunct2, THEN conjunct2, THEN conjunct1]
    and 4 = law [THEN conjunct2, THEN conjunct2, THEN conjunct2]
  show "ilike [] t \<longleftrightarrow> t = []" by (rule spec [OF 1])
  show "ilike (CHR ''%'' # p) t \<longleftrightarrow> (\<exists>n \<le> length t. ilike p (drop n t))"
    by (rule spec [OF spec [OF 2]])
  show "ilike (CHR 0x5C # c # p) t \<longleftrightarrow>
      (case t of [] \<Rightarrow> False | x # r \<Rightarrow> fd x = fd c \<and> ilike p r)"
    by (rule spec [OF spec [OF spec [OF 3]]])
  show "ilike (c # p) t \<longleftrightarrow> (case t of [] \<Rightarrow> False | x # r \<Rightarrow> fd x = fd c \<and> ilike p r)"
    if "c \<noteq> CHR ''%''" "c \<noteq> CHR ''_''" "c \<noteq> CHR 0x5C"
    by (rule spec [OF spec [OF spec [OF 4]], THEN mp]) (use that in simp)
qed

lemma escapeLike_Cons:
  "escapeLikePattern (c # v) =
     (if c = CHR 0x5C \<or> c = CHR ''%'' \<or> c = CHR ''_'' then [CHR 0x5C, c] else [c]) @ escapeLikePattern v"
  by (simp add: escapeLikePattern_def)

lemma escape_step:
  assumes "like_semantics fd ilike"
  shows "ilike (escapeLikePattern (c # v) @ p) t \<longleftrightarrow>
    (case t of [] \<Rightarrow> False | x # r \<Rightarrow> fd x = fd c \<and> ilike (escapeLikePattern v @ p) r)"
proof (cases "c = CHR 0x5C \<or> c = CHR ''%'' \<or> c = CHR ''_''")
  case True
  then have "escapeLikePattern (c # v) @ p = CHR 0x5C # c # (escapeLikePattern v @ p)"
    by (simp add: escapeLike_Cons)
  then show ?thesis by (simp only: like_facts(3) [OF assms])
next
  case False
  then have "escapeLikePattern (c # v) @ p = c # (escapeLikePattern v @ p)"
    by (simp add: escapeLike_Cons)
  with False show ?thesis by (simp only: like_facts(4) [OF assms] de_Morgan_disj not_False_eq_True)
qed

lemma escape_prefix:
  assumes "like_semantics fd ilike"
  shows "ilike (escapeLikePattern v @ p) t \<longleftrightarrow>
    (\<exists>m r. t = m @ r \<and> map fd m = map fd v \<and> ilike p r)"
proof (induction v arbitrary: t)
  case Nil
  then show ?case by (simp add: escapeLikePattern_def)
next
  case (Cons c v)
  show ?case
  proof (cases t)
    case Nil
    then show ?thesis by (simp add: escape_step [OF assms])
  next
    case (Cons x r)
    have "(\<exists>m q. x # r = m @ q \<and> map fd m = map fd (c # v) \<and> ilike p q) \<longleftrightarrow>
        fd x = fd c \<and> (\<exists>m q. r = m @ q \<and> map fd m = map fd v \<and> ilike p q)"
      (is "?L \<longleftrightarrow> ?R")
    proof
      assume ?L
      then obtain m q where m: "x # r = m @ q" "map fd m = map fd (c # v)" "ilike p q" by blast
      then obtain m' where "m = x # m'" by (cases m) (auto simp: Cons_eq_map_conv)
      with m show ?R by (auto simp: Cons_eq_map_conv)
    next
      assume ?R
      then obtain m q where "fd x = fd c" "r = m @ q" "map fd m = map fd v" "ilike p q"
        by blast
      then show ?L by (intro exI [of _ "x # m"] exI [of _ q]) simp
    qed
    with Cons show ?thesis by (simp add: escape_step [OF assms] Cons.IH)
  qed
qed

lemma contains_pattern:
  assumes "like_semantics fd ilike"
  shows "ilike (''%'' @ escapeLikePattern v @ ''%'') t \<longleftrightarrow>
    (\<exists>a m b. t = a @ m @ b \<and> map fd m = map fd v)"
proof -
  have any: "ilike ''%'' r" for r
    unfolding like_facts(2) [OF assms] like_facts(1) [OF assms] by (intro exI [of _ "length r"]) simp
  have "ilike (''%'' @ escapeLikePattern v @ ''%'') t \<longleftrightarrow>
      (\<exists>n \<le> length t. \<exists>m b. drop n t = m @ b \<and> map fd m = map fd v)"
    unfolding append.simps like_facts(2) [OF assms]
    by (simp only: escape_prefix [OF assms] any simp_thms)
  also have "\<dots> \<longleftrightarrow> (\<exists>a m b. t = a @ m @ b \<and> map fd m = map fd v)" (is "?L \<longleftrightarrow> ?R")
  proof
    assume ?L
    then obtain n m b where "drop n t = m @ b" "map fd m = map fd v" by blast
    then show ?R by (metis append_take_drop_id)
  next
    assume ?R
    then obtain a m b where "t = a @ m @ b" "map fd m = map fd v" by blast
    then show ?L by (intro exI [of _ "length a"]) auto
  qed
  finally show ?thesis .
qed

lemma contains_literal:
  assumes "like_semantics lower_char ilike"
  shows "ilike (''%'' @ escapeLikePattern v @ ''%'') t \<longleftrightarrow> (\<exists>a m b. t = a @ m @ b \<and> js_lower m = js_lower v)"
  using contains_pattern [OF assms] by (simp add: js_lower_def)

text \<open>The case-sensitive match of an escaped text is the text itself, somewhere.\<close>

lemma contains_exactly:
  assumes "like_semantics id like"
  shows "like (''%'' @ escapeLikePattern v @ ''%'') t \<longleftrightarrow> (\<exists>a b. t = a @ v @ b)"
  using contains_pattern [OF assms] by simp

end
