(* ===== verification/Checklists.thy ===== *)
theory Checklists
  imports Tasks
begin

text \<open>
  \<open>checklist.service.ts\<close> and \<open>checklist-item.service.ts\<close>: the checklists of a task and their
  items. Both lists append one gap beyond the last position and move by midpoints, but never
  respread: a move into a gap that is too narrow keeps the tie.
\<close>

section \<open>Siblings\<close>

definition checklistKey :: "database \<Rightarrow> ident \<Rightarrow> ident \<Rightarrow> ident \<Rightarrow> checklist_row \<Rightarrow> bool" where
  "checklistKey d workspaceId taskId checklistId c \<longleftrightarrow>
     cl_id c = checklistId \<and> cl_taskId c = taskId \<and> taskIn d workspaceId taskId"

text \<open>\<open>where: { id, checklist: { taskId, task: { board: { workspaceId } } } }\<close>.\<close>

definition itemKey :: "database \<Rightarrow> ident \<Rightarrow> ident \<Rightarrow> ident \<Rightarrow> item_row \<Rightarrow> bool" where
  "itemKey d workspaceId taskId itemId i \<longleftrightarrow>
     ci_id i = itemId \<and>
     list_ex (\<lambda>c. cl_id c = ci_checklistId i \<and> cl_taskId c = taskId) (checklists d) \<and>
     taskIn d workspaceId taskId"

definition checklistSiblings :: "ident \<Rightarrow> checklist_row list \<Rightarrow> sibling list" where
  "checklistSiblings taskId T =
     map (\<lambda>c. (cl_id c, cl_position c)) (sort_key cl_position (filter (\<lambda>c. cl_taskId c = taskId) T))"

definition itemSiblings :: "ident \<Rightarrow> item_row list \<Rightarrow> sibling list" where
  "itemSiblings checklistId T =
     map (\<lambda>i. (ci_id i, ci_position i)) (sort_key ci_position (filter (\<lambda>i. ci_checklistId i = checklistId) T))"

text \<open>\<open>(siblings[0]?.position ?? 0) + POSITION_GAP\<close> of the siblings in descending order.\<close>

definition appendPosition :: "sibling list \<Rightarrow> float64" where
  "appendPosition sibs = fadd (case sibs of [] \<Rightarrow> 0 | _ \<Rightarrow> snd (last sibs)) POSITION_GAP"

text \<open>The neighbours of a move: after the named sibling, or at the front.\<close>

definition afterNeighbors ::
    "sibling list \<Rightarrow> ident option \<Rightarrow> string \<Rightarrow> http_error + (float64 option \<times> float64 option)" where
  "afterNeighbors others afterId message =
     (let afterIndex = (if truthy afterId then findIndex (\<lambda>r. Some (fst r) = afterId) others else -1)
      in if truthy afterId \<and> afterIndex = -1 then Inl (NotFound message)
         else Inr (if 0 \<le> afterIndex then map_option snd (at_index others afterIndex) else None,
                   map_option snd (at_index others (afterIndex + 1))))"

section \<open>Checklists\<close>

definition checklist_create :: "ident \<Rightarrow> ident \<Rightarrow> ident \<Rightarrow> string \<Rightarrow> task_dto request" where
  "checklist_create workspaceId taskId actorId title =
     andThen (findTaskBasic workspaceId taskId) (\<lambda>task.
     andThen (transaction
       (andThen (readDb (\<lambda>d. appendPosition (checklistSiblings (t_id task) (checklists d)))) (\<lambda>position.
        andThen freshId (\<lambda>newId.
          writeDb (\<lambda>d. d\<lparr>checklists := checklists d @
            [\<lparr>cl_id = newId, cl_taskId = t_id task, cl_title = title, cl_position = position\<rparr>]\<rparr>))))) (\<lambda>_.
       emitUpdated workspaceId taskId actorId))"

definition checklist_update :: "ident \<Rightarrow> ident \<Rightarrow> ident \<Rightarrow> ident \<Rightarrow> string \<Rightarrow> task_dto request" where
  "checklist_update workspaceId taskId actorId checklistId title =
     andThen (findTaskBasic workspaceId taskId) (\<lambda>_.
     andThen (readDb (\<lambda>d. length (filter (checklistKey d workspaceId taskId checklistId) (checklists d)))) (\<lambda>count.
     andThen (writeDb (\<lambda>d. d\<lparr>checklists := map (\<lambda>c. if checklistKey d workspaceId taskId checklistId c
         then c\<lparr>cl_title := title\<rparr> else c) (checklists d)\<rparr>)) (\<lambda>_.
     andThen (check (count \<noteq> 0) (NotFound ''Checklist not found'')) (\<lambda>_.
       emitUpdated workspaceId taskId actorId))))"

definition checklist_remove :: "ident \<Rightarrow> ident \<Rightarrow> ident \<Rightarrow> ident \<Rightarrow> task_dto request" where
  "checklist_remove workspaceId taskId actorId checklistId =
     andThen (findTaskBasic workspaceId taskId) (\<lambda>_.
     andThen (readDb (\<lambda>d. length (filter (checklistKey d workspaceId taskId checklistId) (checklists d)))) (\<lambda>count.
     andThen (writeDb (\<lambda>d. delete_checklists (checklistKey d workspaceId taskId checklistId) d)) (\<lambda>_.
     andThen (check (count \<noteq> 0) (NotFound ''Checklist not found'')) (\<lambda>_.
       emitUpdated workspaceId taskId actorId))))"

definition checklist_move :: "ident \<Rightarrow> ident \<Rightarrow> ident \<Rightarrow> ident \<Rightarrow> ident option \<Rightarrow> task_dto request" where
  "checklist_move workspaceId taskId actorId checklistId afterId =
     andThen (findTaskBasic workspaceId taskId) (\<lambda>_.
     andThen (readDb (\<lambda>d. checklistSiblings taskId (checklists d))) (\<lambda>sibs.
     andThen (check (list_ex (\<lambda>r. fst r = checklistId) sibs) (NotFound ''Checklist not found'')) (\<lambda>_.
     andThen (lift_result (afterNeighbors (filter (\<lambda>r. fst r \<noteq> checklistId) sibs) afterId ''Checklist not found''))
       (\<lambda>(prevPos, nextPos).
     andThen (writeDb (\<lambda>d. d\<lparr>checklists := map (\<lambda>c. if cl_id c = checklistId
         then c\<lparr>cl_position := midpoint prevPos nextPos\<rparr> else c) (checklists d)\<rparr>)) (\<lambda>_.
       emitUpdated workspaceId taskId actorId)))))"

section \<open>Items\<close>

definition item_create :: "ident \<Rightarrow> ident \<Rightarrow> ident \<Rightarrow> ident \<Rightarrow> string \<Rightarrow> task_dto request" where
  "item_create workspaceId taskId actorId checklistId content =
     andThen (findTaskBasic workspaceId taskId) (\<lambda>_.
     andThen (readDb (\<lambda>d. find (checklistKey d workspaceId taskId checklistId) (checklists d))) (\<lambda>checklist.
     andThen (orThrow (NotFound ''Checklist not found'') checklist) (\<lambda>_.
     andThen (transaction
       (andThen (readDb (\<lambda>d. appendPosition (itemSiblings checklistId (items d)))) (\<lambda>position.
        andThen freshId (\<lambda>newId.
          writeDb (\<lambda>d. d\<lparr>items := items d @
            [\<lparr>ci_id = newId, ci_checklistId = checklistId, ci_content = content, ci_isDone = False,
              ci_position = position\<rparr>]\<rparr>))))) (\<lambda>_.
       emitUpdated workspaceId taskId actorId))))"

text \<open>
  \<open>@IsOptional()\<close> lets an explicit \<open>null\<close> through: a field is absent, null, or a value. The
  columns are not nullable, so the database client refuses to write a null.
\<close>

record update_item_dto =
  uid_content :: "string option option"
  uid_isDone :: "bool option option"

definition item_update :: "ident \<Rightarrow> ident \<Rightarrow> ident \<Rightarrow> ident \<Rightarrow> update_item_dto \<Rightarrow> task_dto request" where
  "item_update workspaceId taskId actorId itemId dto =
     andThen (findTaskBasic workspaceId taskId) (\<lambda>_.
       if uid_content dto = None \<and> uid_isDone dto = None
       then andThen (readDb (\<lambda>d. find (itemKey d workspaceId taskId itemId) (items d))) (\<lambda>existing.
            andThen (orThrow (NotFound ''Checklist item not found'') existing) (\<lambda>_.
              findTask workspaceId taskId))
       else andThen (check (uid_content dto \<noteq> Some None \<and> uid_isDone dto \<noteq> Some None)
              (ServerFault ''Argument must not be null'')) (\<lambda>_.
            andThen (readDb (\<lambda>d. length (filter (itemKey d workspaceId taskId itemId) (items d)))) (\<lambda>count.
            andThen (writeDb (\<lambda>d. d\<lparr>items := map (\<lambda>i. if itemKey d workspaceId taskId itemId i
                then i\<lparr>ci_content := (case uid_content dto of Some (Some v) \<Rightarrow> v | _ \<Rightarrow> ci_content i),
                       ci_isDone := (case uid_isDone dto of Some (Some v) \<Rightarrow> v | _ \<Rightarrow> ci_isDone i)\<rparr>
                else i) (items d)\<rparr>)) (\<lambda>_.
            andThen (check (count \<noteq> 0) (NotFound ''Checklist item not found'')) (\<lambda>_.
              emitUpdated workspaceId taskId actorId)))))"

definition item_remove :: "ident \<Rightarrow> ident \<Rightarrow> ident \<Rightarrow> ident \<Rightarrow> task_dto request" where
  "item_remove workspaceId taskId actorId itemId =
     andThen (findTaskBasic workspaceId taskId) (\<lambda>_.
     andThen (readDb (\<lambda>d. length (filter (itemKey d workspaceId taskId itemId) (items d)))) (\<lambda>count.
     andThen (writeDb (\<lambda>d. d\<lparr>items := filter (\<lambda>i. \<not> itemKey d workspaceId taskId itemId i) (items d)\<rparr>)) (\<lambda>_.
     andThen (check (count \<noteq> 0) (NotFound ''Checklist item not found'')) (\<lambda>_.
       emitUpdated workspaceId taskId actorId))))"

definition item_move :: "ident \<Rightarrow> ident \<Rightarrow> ident \<Rightarrow> ident \<Rightarrow> ident option \<Rightarrow> task_dto request" where
  "item_move workspaceId taskId actorId itemId afterId =
     andThen (findTaskBasic workspaceId taskId) (\<lambda>_.
     andThen (readDb (\<lambda>d. find (itemKey d workspaceId taskId itemId) (items d))) (\<lambda>found.
     andThen (orThrow (NotFound ''Checklist item not found'') found) (\<lambda>owner.
     andThen (readDb (\<lambda>d. itemSiblings (ci_checklistId owner) (items d))) (\<lambda>sibs.
     andThen (lift_result (afterNeighbors (filter (\<lambda>r. fst r \<noteq> itemId) sibs) afterId ''Checklist item not found''))
       (\<lambda>(prevPos, nextPos).
     andThen (writeDb (\<lambda>d. d\<lparr>items := map (\<lambda>i. if ci_id i = itemId
         then i\<lparr>ci_position := midpoint prevPos nextPos\<rparr> else i) (items d)\<rparr>)) (\<lambda>_.
       emitUpdated workspaceId taskId actorId))))))"

section \<open>Order\<close>

interpretation item_rows: ordered_rows ci_id ci_position "\<lambda>p i. i\<lparr>ci_position := p\<rparr>"
  by unfold_locales simp_all

interpretation checklist_rows: ordered_rows cl_id cl_position "\<lambda>p c. c\<lparr>cl_position := p\<rparr>"
  by unfold_locales simp_all

text \<open>
  The lists are read in position order alone. While the positions strictly increase that is
  the order of positions and ids, for which insertions and moves are understood.
\<close>

lemma sort_by_position:
  assumes "increasing (map (\<lambda>r. (rid r, pos r)) (sort_key pos (filter S T)))"
  shows "siblings rid pos S T = map (\<lambda>r. (rid r, pos r)) (sort_key pos (filter S T))"
proof -
  have "sorted_wrt (\<lambda>a b. pos a < pos b) (sort_key pos (filter S T))"
    using assms by (simp add: increasing_def sorted_wrt_map)
  then have "sorted_wrt (\<lambda>a b. (pos a, rid a) < (pos b, rid b)) (sort_key pos (filter S T))"
    by (rule sorted_wrt_mono_rel [rotated]) (simp add: less_prod_def')
  then have "sort_key (\<lambda>r. (pos r, rid r)) (filter S T) = sort_key pos (filter S T)"
    by (intro sort_key_unique) simp_all
  then show ?thesis by (simp add: siblings_def listing_def)
qed

lemma sort_by_position':
  assumes "increasing (siblings rid pos S T)"
  shows "map (\<lambda>r. (rid r, pos r)) (sort_key pos (filter S T)) = siblings rid pos S T"
proof -
  have "sorted_wrt (\<lambda>a b. pos a < pos b) (listing rid pos S T)"
    using assms by (simp add: siblings_def increasing_def sorted_wrt_map)
  then have "sort_key pos (filter S T) = listing rid pos S T"
    by (intro sort_key_unique) (simp_all add: listing_def)
  then show ?thesis by (simp add: siblings_def)
qed

lemma appendPosition_slot:
  "appendPosition sibs =
     midpoint (gap_pos (prev (sliceSlot sibs (int (length sibs))))) (gap_pos (nxt (sliceSlot sibs (int (length sibs)))))"
proof (cases sibs rule: rev_cases)
  case Nil
  then show ?thesis
    by (simp add: appendPosition_def sliceSlot_def gap_pos_def midpoint_def fadd_def POSITION_GAP_def at_index_def)
next
  case (snoc xs x)
  have "at_index sibs (int (length sibs) - 1) = Some x" "at_index sibs (int (length sibs)) = None"
    by (simp_all add: at_index_def snoc nth_append)
  with snoc show ?thesis
    by (cases xs) (simp_all add: appendPosition_def sliceSlot_def gap_pos_def midpoint_def)
qed

definition item_order :: "ident \<Rightarrow> database \<Rightarrow> ident list" where
  "item_order checklistId d = map fst (itemSiblings checklistId (items d))"

definition items_ordered :: "ident \<Rightarrow> database \<Rightarrow> bool" where
  "items_ordered c d \<longleftrightarrow>
     distinct (map ci_id (items d)) \<and> increasing (itemSiblings c (items d)) \<and>
     (\<forall>x \<in> set (itemSiblings c (items d)). safe_position (snd x)) \<and>
     length (itemSiblings c (items d)) < 2 ^ 39"

lemma items_ordered_siblings:
  assumes "items_ordered c d"
  shows "itemSiblings c (items d) = siblings ci_id ci_position (\<lambda>i. ci_checklistId i = c) (items d)"
  using assms unfolding items_ordered_def itemSiblings_def
  by (intro sort_by_position [symmetric]) blast

lemma item_create_ok:
  assumes "item_create w k a c content s = (Inr out, s')"
  shows "items (db s') = items (db s) @
    [\<lparr>ci_id = uuids s (drawn s), ci_checklistId = c, ci_content = content, ci_isDone = False,
      ci_position = appendPosition (itemSiblings c (items (db s)))\<rparr>]"
  using assms
  by (auto simp: item_create_def run andThen_transaction split: option.splits)

lemma item_create_order_lemma:
  assumes ok: "item_create w k a c content s = (Inr out, s')" and ord: "items_ordered c (db s)"
  shows "item_order c (db s') = item_order c (db s) @ [uuids s (drawn s)] \<and>
         increasing (itemSiblings c (items (db s')))"
proof -
  let ?S = "\<lambda>i. ci_checklistId i = c" and ?I = "items (db s)"
  let ?sibs = "siblings ci_id ci_position ?S ?I"
  let ?slot = "sliceSlot ?sibs (int (length ?sibs))"
  define r where "r = \<lparr>ci_id = uuids s (drawn s), ci_checklistId = c, ci_content = content, ci_isDone = False,
      ci_position = appendPosition (itemSiblings c ?I)\<rparr>"
  note sib = items_ordered_siblings [OF ord]
  have noreb: "\<not> needsRebalance (gap_pos (prev ?slot)) (gap_pos (nxt ?slot))"
    by (simp add: needsRebalance_def sliceSlot_def gap_pos_def at_index_def split: option.splits)
  have "map fst (siblings ci_id ci_position ?S (items (db s'))) =
          insert_at (length ?sibs) (ci_id r) (map fst ?sibs) \<and>
        increasing (siblings ci_id ci_position ?S (items (db s')))"
    by (rule item_rows.inserted_order [where s = ?slot])
      (use ord noreb item_create_ok [OF ok] in
        \<open>auto simp: items_ordered_def sib r_def slot_of_def appendPosition_slot\<close>)
  moreover from this have "itemSiblings c (items (db s')) = siblings ci_id ci_position ?S (items (db s'))"
    unfolding itemSiblings_def by (intro sort_by_position') blast
  ultimately show ?thesis
    by (simp add: item_order_def sib r_def insert_at_def)
qed

text \<open>What \<open>afterNeighbors\<close> answers is a gap of the other siblings.\<close>

lemma afterNeighbors_slot:
  assumes "afterNeighbors others afterId msg = Inr (p, n)"
  defines "j \<equiv> nat (if truthy afterId then findIndex (\<lambda>r. Some (fst r) = afterId) others + 1 else 0)"
  shows "slot_of others j (sliceSlot others (int j))"
    and "p = gap_pos (prev (sliceSlot others (int j)))" and "n = gap_pos (nxt (sliceSlot others (int j)))"
    and "truthy afterId \<Longrightarrow> 0 < j \<and> Some (fst (others ! (j - 1))) = afterId"
proof -
  let ?f = "findIndex (\<lambda>r. Some (fst r) = afterId) others"
  have b: "?f = -1 \<or> 0 \<le> ?f \<and> ?f < int (length others)"
    using findIndex_bounds by blast
  show "slot_of others j (sliceSlot others (int j))"
    "p = gap_pos (prev (sliceSlot others (int j)))" "n = gap_pos (nxt (sliceSlot others (int j)))"
    using assms(1) b
    by (auto simp: afterNeighbors_def slot_of_def j_def sliceSlot_def gap_pos_def Let_def split: if_splits)
  show "0 < j \<and> Some (fst (others ! (j - 1))) = afterId" if "truthy afterId"
  proof -
    have "0 \<le> ?f" using assms(1) b that by (auto simp: afterNeighbors_def Let_def split: if_splits)
    moreover from this have "Some (fst (others ! nat ?f)) = afterId"
      using findIndex_nth [of "\<lambda>r. Some (fst r) = afterId" others] by blast
    ultimately show ?thesis using that by (simp add: j_def nat_add_distrib)
  qed
qed

lemma itemKey_id: "itemKey d w t k i \<Longrightarrow> ci_id i = k"
  by (simp add: itemKey_def)

lemma found_item:
  assumes "find (itemKey d w t k) T = Some owner"
  shows "ci_id owner = k" and "owner \<in> set T"
  using assms by (auto dest: find_Some_iff_mem itemKey_id)

lemma item_move_ok:
  assumes "item_move w t a k afterId s = (Inr out, s')"
  obtains owner p n where "find (itemKey (db s) w t k) (items (db s)) = Some owner"
    "afterNeighbors (filter (\<lambda>r. fst r \<noteq> k) (itemSiblings (ci_checklistId owner) (items (db s)))) afterId
       ''Checklist item not found'' = Inr (p, n)"
    "items (db s') = map (\<lambda>i. if ci_id i = k then i\<lparr>ci_position := midpoint p n\<rparr> else i) (items (db s))"
proof -
  obtain owner where o: "find (itemKey (db s) w t k) (items (db s)) = Some owner"
    using assms by (auto simp: item_move_def run split: option.splits)
  obtain p n where pn:
    "afterNeighbors (filter (\<lambda>r. fst r \<noteq> k) (itemSiblings (ci_checklistId owner) (items (db s)))) afterId
       ''Checklist item not found'' = Inr (p, n)"
    using assms o by (auto simp: item_move_def run split: option.splits sum.splits)
  show ?thesis
    by (rule that [OF o pn]) (use assms o pn in \<open>auto simp: item_move_def run split: option.splits\<close>)
qed

text \<open>
  A move lands right after the named sibling (or at the front) whenever the gap it splits is
  not one that the other ordered lists would respread.
\<close>

lemma item_move_order_lemma:
  assumes ok: "item_move w t a k afterId s = (Inr out, s')"
    and row: "find (itemKey (db s) w t k) (items (db s)) = Some owner"
    and ord: "items_ordered (ci_checklistId owner) (db s)"
    and gap: "\<And>p n. afterNeighbors (filter (\<lambda>r. fst r \<noteq> k) (itemSiblings (ci_checklistId owner) (items (db s)))) afterId
       ''Checklist item not found'' = Inr (p, n) \<Longrightarrow> \<not> needsRebalance p n"
  defines "rest \<equiv> filter (\<lambda>x. x \<noteq> k) (item_order (ci_checklistId owner) (db s))"
  shows "\<exists>j. item_order (ci_checklistId owner) (db s') = insert_at j k rest \<and> j \<le> length rest \<and>
      (if truthy afterId then 0 < j \<and> Some (rest ! (j - 1)) = afterId else j = 0) \<and>
      increasing (itemSiblings (ci_checklistId owner) (items (db s')))"
proof -
  let ?c = "ci_checklistId owner"
  let ?S = "\<lambda>i. ci_checklistId i = ?c" and ?I = "items (db s)"
  let ?others = "siblings ci_id ci_position ?S (filter (\<lambda>i. ci_id i \<noteq> k) ?I)"
  have ids: "distinct (map ci_id ?I)" using ord by (simp add: items_ordered_def)
  note sib = items_ordered_siblings [OF ord] and r = found_item [OF row]
  have others: "filter (\<lambda>r. fst r \<noteq> k) (itemSiblings ?c ?I) = ?others"
    by (simp add: sib item_rows.siblings_filter)
  obtain owner' p n where o: "find (itemKey (db s) w t k) ?I = Some owner'"
    "afterNeighbors (filter (\<lambda>r. fst r \<noteq> k) (itemSiblings (ci_checklistId owner') ?I)) afterId
       ''Checklist item not found'' = Inr (p, n)"
    "items (db s') = map (\<lambda>i. if ci_id i = k then i\<lparr>ci_position := midpoint p n\<rparr> else i) ?I"
    by (rule item_move_ok [OF ok])
  have [simp]: "owner' = owner" using o(1) row by simp
  have pn: "afterNeighbors ?others afterId ''Checklist item not found'' = Inr (p, n)"
    using o(2) others by simp
  define j where "j = nat (if truthy afterId then findIndex (\<lambda>r. Some (fst r) = afterId) ?others + 1 else 0)"
  note slot = afterNeighbors_slot [OF pn, folded j_def]
  let ?slot = "sliceSlot ?others (int j)"
  have noreb: "\<not> needsRebalance (gap_pos (prev ?slot)) (gap_pos (nxt ?slot))"
    using gap [unfolded others, OF pn] slot(2,3) by simp
  define m where "m = owner\<lparr>ci_position := midpoint p n\<rparr>"
  have inc0: "increasing ?others" and safe0: "\<forall>x \<in> set ?others. safe_position (snd x)"
    and len0: "Suc (length ?others) < 2 ^ 40"
  proof -
    show "increasing ?others"
      using ord unfolding items_ordered_def others [symmetric] increasing_def by (blast intro: sorted_wrt_filter)
    show "\<forall>x \<in> set ?others. safe_position (snd x)"
      using ord unfolding items_ordered_def others [symmetric] by simp
    have "length ?others \<le> length (itemSiblings ?c ?I)"
      unfolding others [symmetric] by (rule length_filter_le)
    moreover have "length (itemSiblings ?c ?I) < 2 ^ 39" using ord by (simp add: items_ordered_def)
    ultimately show "Suc (length ?others) < 2 ^ 40" by simp
  qed
  have items': "items (db s') = replaceRow ci_id k m ?I"
    unfolding o(3) replaceRow_def m_def
  proof (rule map_cong [OF HOL.refl])
    fix i assume i: "i \<in> set ?I"
    show "(if ci_id i = k then i\<lparr>ci_position := midpoint p n\<rparr> else i) =
        (if ci_id i = k then owner\<lparr>ci_position := midpoint p n\<rparr> else i)"
      using i r ids by (auto simp: distinct_map inj_on_def)
  qed
  have "map fst (siblings ci_id ci_position ?S (items (db s'))) = insert_at j k (map fst ?others) \<and>
        increasing (siblings ci_id ci_position ?S (items (db s')))"
  proof (rule item_rows.moved_order [OF ids])
    show "k \<in> set (map ci_id ?I)" using r by force
    show "items (db s') =
       (if needsRebalance (gap_pos (prev ?slot)) (gap_pos (nxt ?slot))
        then batchUpdatePositions ci_id (\<lambda>p i. i\<lparr>ci_position := p\<rparr>) ?S
               (reordered_updates ?others j (k, 0) (rebalancePositions (Suc (length ?others)))) (replaceRow ci_id k m ?I)
        else replaceRow ci_id k m ?I)"
      using items' noreb by simp
    show "ci_position m = (if needsRebalance (gap_pos (prev ?slot)) (gap_pos (nxt ?slot))
         then rebalancePositions (Suc (length ?others)) ! j
         else midpoint (gap_pos (prev ?slot)) (gap_pos (nxt ?slot)))"
      using noreb slot(2,3) by (simp add: m_def)
  qed (use inc0 safe0 len0 slot(1) r(1) in \<open>simp_all add: m_def\<close>)
  moreover from this have "itemSiblings ?c (items (db s')) = siblings ci_id ci_position ?S (items (db s'))"
    unfolding itemSiblings_def by (intro sort_by_position') blast
  moreover have rest: "rest = map fst ?others"
    unfolding rest_def item_order_def others [symmetric] by (simp add: filter_map comp_def)
  moreover have "j \<le> length rest" using slot(1) rest by (simp add: slot_of_def)
  moreover have "if truthy afterId then 0 < j \<and> Some (rest ! (j - 1)) = afterId else j = 0"
  proof (cases "truthy afterId")
    case True
    with slot(4) \<open>j \<le> length rest\<close> rest show ?thesis by auto
  next
    case False
    then show ?thesis by (simp add: j_def)
  qed
  ultimately show ?thesis by (auto simp: item_order_def)
qed

text \<open>
  Two items at adjacent doubles: the midpoint is the lower of the two, so a move between them
  ties with the item it was to follow, and no respread resolves the tie.
\<close>

definition next_double :: float64 where
  "next_double = 1 + 1 / 2 ^ 52"

lemma adjacent_midpoint: "midpoint (Some 1) (Some next_double) = 1" "needsRebalance (Some 1) (Some next_double)"
proof -
  have "\<lfloor>9007199254740993 / (2::rat)\<rfloor> = 4503599627370496"
    by (simp add: floor_eq_iff)
  then have "fadd 1 next_double = 2"
    using fl_eval [of 1 "2 + 1 / 2 ^ 52" 0]
    by (simp add: fadd_def next_double_def round_half_even_def Let_def emin_def)
  then show "midpoint (Some 1) (Some next_double) = 1"
    by (simp add: midpoint_def fdiv_def)
  have "fsub next_double 1 = fl (1 / 2 ^ 52)"
    by (simp add: fsub_def next_double_def)
  then show "needsRebalance (Some 1) (Some next_double)"
    using fl_bounds [of "1 / 2 ^ 52" 0] MIN_GAP_lower by (simp add: needsRebalance_def)
qed

end
