(* ===== verification/OrderProperties.thy ===== *)
theory OrderProperties
  imports SlotOrder SampleWorkspace Checklists
begin

text \<open>
  What the ordered lists promise: the fractional positions (a midpoint lies strictly between
  its neighbours, a respread list increases), and, for tasks in columns, columns on boards and
  items in checklists, that a create or a move changes the list of ids exactly as the request
  asks and leaves positions strictly increasing.
\<close>

section \<open>Tasks\<close>

lemma map_fst_rest: "map fst (filter (\<lambda>it. fst it \<noteq> k) xs) = filter (\<lambda>x. x \<noteq> k) (map fst xs)"
  by (simp add: filter_map comp_def)

lemma no_empty_id: "[] \<notin> rid ` set T \<Longrightarrow> [] \<notin> fst ` set (filter P (siblings rid pos S T))"
  by (auto simp: siblings_def)

text \<open>
  C1. A task move that is accepted puts the task, in the target column, right after the task
  named \<open>beforeTaskId\<close>, else right before the one named \<open>afterTaskId\<close>, else at the end; it
  takes it out of every other column, changes no other order, and the target column's
  positions strictly increase, whether or not the gap forced a respread.
\<close>

theorem task_move_order:
  assumes "task_move w k u dto s = (Inr out, s')" and "tasks_ordered (mtd_columnId dto) (db s)"
    and "[] \<notin> t_id ` set (tasks (db s))"
  shows "task_order (mtd_columnId dto) (db s') =
           slotted (mtd_beforeTaskId dto) (mtd_afterTaskId dto) k
             (filter (\<lambda>x. x \<noteq> k) (task_order (mtd_columnId dto) (db s))) \<and>
         (\<forall>c. c \<noteq> mtd_columnId dto \<longrightarrow>
            task_order c (db s') = filter (\<lambda>x. x \<noteq> k) (task_order c (db s))) \<and>
         increasing (taskSiblings (mtd_columnId dto) (tasks (db s')))"
proof -
  let ?c = "mtd_columnId dto"
  let ?rest = "filter (\<lambda>it. fst it \<noteq> k) (taskSiblings ?c (tasks (db s)))"
  obtain i slot where m:
    "resolveMoveNeighbors ?rest (mtd_beforeTaskId dto) (mtd_afterTaskId dto) = Inr slot" "insertionIndex slot = int i"
    "task_order ?c (db s') = insert_at i k (filter (\<lambda>x. x \<noteq> k) (task_order ?c (db s)))"
    "increasing (taskSiblings ?c (tasks (db s')))"
    "\<forall>c'. c' \<noteq> ?c \<longrightarrow> task_order c' (db s') = filter (\<lambda>x. x \<noteq> k) (task_order c' (db s))"
    using task_move_order_lemma [OF assms(1,2)] by blast
  have "[] \<notin> fst ` set ?rest"
    unfolding taskSiblings_def by (rule no_empty_id [OF assms(3)])
  from resolveMove_slotted [OF m(1) this m(2), of k]
  have "insert_at i k (filter (\<lambda>x. x \<noteq> k) (task_order ?c (db s))) =
      slotted (mtd_beforeTaskId dto) (mtd_afterTaskId dto) k (filter (\<lambda>x. x \<noteq> k) (task_order ?c (db s)))"
    by (simp only: map_fst_rest task_order_siblings)
  note here = trans [OF m(3) this]
  show ?thesis by (intro conjI here m(4) m(5))
qed

lemma sample_tasks_ordered: "tasks_ordered c sample_db"
  by (cases "c = ''c1''"; cases "c = ''c2''") (simp_all add: tasks_ordered_def taskSiblings_def siblings_def listing_def sample_db_def increasing_def
      safe_position_def)

theorem task_move_order_witness:
  "\<exists>out s'. task_move ''w1'' ''t2'' ''ada''
      \<lparr>mtd_columnId = ''c2'', mtd_beforeTaskId = Some ''t3'', mtd_afterTaskId = None\<rparr> sample = (Inr out, s') \<and>
    task_order ''c2'' (db s') = [''t3'', ''t2''] \<and> task_order ''c1'' (db s') = [''t1'']"
proof -
  let ?dto = "\<lparr>mtd_columnId = ''c2'', mtd_beforeTaskId = Some ''t3'', mtd_afterTaskId = None\<rparr>"
  have "\<exists>out s'. task_move ''w1'' ''t2'' ''ada'' ?dto sample = (Inr out, s')"
    by (simp add: task_move_def run andThen_transaction taskKey_def columnIn_def boardIn_def sample_db_def
        taskSiblings_def siblings_def listing_def resolveMoveNeighbors_def truthy_def sliceSlot_def Let_def
        needsRebalance_def)
  then obtain out s' where r: "task_move ''w1'' ''t2'' ''ada'' ?dto sample = (Inr out, s')" by blast
  have "[] \<notin> t_id ` set (tasks sample_db)" by (simp add: sample_db_def)
  with task_move_order [OF r] show ?thesis
    using r sample_tasks_ordered
    by (simp add: task_order_siblings) (simp add: taskSiblings_def siblings_def listing_def sample_db_def slotted_def truthy_def)
qed

lemmas run_lists = taskSiblings_def columnSiblings_def siblings_def listing_def resolveMoveNeighbors_def
  resolveCreateNeighbors_def truthy_def sliceSlot_def Let_def needsRebalance_def
  gap_pos_def at_index_def
  createTaskAttributes_def parseDueDate_def bind_result_def

text \<open>
  C5. A task create that is accepted puts the new task right after \<open>afterTaskId\<close>, or at the end
  when none is named, keeps the order of the others, and leaves the column's positions
  strictly increasing.
\<close>

theorem task_create_order:
  assumes "task_create pd w b u dto s = (Inr out, s')" and "tasks_ordered (ctd_columnId dto) (db s)"
  shows "task_order (ctd_columnId dto) (db s') =
           slotted (ctd_afterTaskId dto) None (t_id (td_row out)) (task_order (ctd_columnId dto) (db s)) \<and>
         increasing (taskSiblings (ctd_columnId dto) (tasks (db s')))"
proof -
  let ?c = "ctd_columnId dto"
  obtain i slot where m:
    "resolveCreateNeighbors (taskSiblings ?c (tasks (db s))) (ctd_afterTaskId dto) ''Task not found'' = Inr slot"
    "insertionIndex slot = int i"
    "task_order ?c (db s') = insert_at i (t_id (td_row out)) (task_order ?c (db s))"
    "increasing (taskSiblings ?c (tasks (db s')))"
    using task_create_order_lemma [OF assms] by blast
  note here = trans [OF m(3) resolveCreate_slotted [OF m(1,2), of "t_id (td_row out)", folded task_order_siblings]]
  show ?thesis by (intro conjI here m(4))
qed

theorem task_create_order_witness:
  "\<exists>dto out s'. task_create (\<lambda>_. None) ''w1'' ''b1'' ''ada'' dto sample = (Inr out, s') \<and>
     ctd_afterTaskId dto = Some ''t1'' \<and> task_order ''c1'' (db s') = [''t1'', t_id (td_row out), ''t2'']"
proof -
  let ?dto = "\<lparr>ctd_title = ''New'', ctd_columnId = ''c1'', ctd_description = None, ctd_priority = None,
      ctd_dueDate = None, ctd_estimatedMinutes = None, ctd_afterTaskId = Some ''t1''\<rparr>"
  have "\<exists>out s'. task_create (\<lambda>_. None) ''w1'' ''b1'' ''ada'' ?dto sample = (Inr out, s')"
    by (cases "needsRebalance (Some 1000) (Some 2000)")
      (simp_all add: task_create_def run andThen_transaction columnIn_def boardIn_def sample_db_def run_lists)
  then obtain out s' where r: "task_create (\<lambda>_. None) ''w1'' ''b1'' ''ada'' ?dto sample = (Inr out, s')"
    by blast
  from task_create_order [OF r] sample_tasks_ordered
  have "task_order ''c1'' (db s') = slotted (Some ''t1'') None (t_id (td_row out)) (task_order ''c1'' sample_db)"
    by simp
  moreover have "task_order ''c1'' sample_db = [''t1'', ''t2'']"
    by (simp add: task_order_siblings sample_db_def run_lists)
  ultimately show ?thesis
    using r by (intro exI [of _ ?dto] exI [of _ out] exI [of _ s']) (simp add: slotted_def truthy_def)
qed

section \<open>Columns\<close>

text \<open>
  C6. A column move that is accepted reorders the board's columns exactly as the request asks
  (after \<open>beforeColumnId\<close>, else before \<open>afterColumnId\<close>, else last) and leaves positions
  strictly increasing.
\<close>

theorem column_move_order:
  assumes "column_move w k a dto s = (Inr out, s')" and "find (columnIn (db s) w k) (columns (db s)) = Some row"
    and "columns_ordered (c_boardId row) (db s)" and "[] \<notin> c_id ` set (columns (db s))"
  shows "column_order (c_boardId row) (db s') =
           slotted (mcd_beforeColumnId dto) (mcd_afterColumnId dto) k
             (filter (\<lambda>x. x \<noteq> k) (column_order (c_boardId row) (db s))) \<and>
         increasing (columnSiblings (c_boardId row) (columns (db s')))"
proof -
  let ?b = "c_boardId row"
  let ?rest = "filter (\<lambda>it. fst it \<noteq> k) (columnSiblings ?b (columns (db s)))"
  have ids: "distinct (map c_id (columns (db s)))" using assms(3) by (simp add: columns_ordered_def)
  obtain i slot where m:
    "resolveMoveNeighbors ?rest (mcd_beforeColumnId dto) (mcd_afterColumnId dto) = Inr slot" "insertionIndex slot = int i"
    "column_order ?b (db s') = insert_at i k (filter (\<lambda>x. x \<noteq> k) (column_order ?b (db s)))"
    "increasing (columnSiblings ?b (columns (db s')))"
    using column_move_order_lemma [OF assms(1) ids assms(2,3)] by blast
  have "[] \<notin> fst ` set ?rest"
    unfolding columnSiblings_def by (rule no_empty_id [OF assms(4)])
  note slotted = resolveMove_slotted [OF m(1) this m(2), of k, unfolded map_fst_rest, folded column_order_siblings]
  note here = trans [OF m(3) slotted]
  show ?thesis by (intro conjI here m(4))
qed

lemma sample_columns_ordered: "columns_ordered ''b1'' sample_db"
  by (simp add: columns_ordered_def run_lists sample_db_def increasing_def safe_position_def)

theorem column_move_order_witness:
  "\<exists>out s'. column_move ''w1'' ''c2'' ''ada'' \<lparr>mcd_beforeColumnId = None, mcd_afterColumnId = Some ''c1''\<rparr> sample
      = (Inr out, s') \<and> column_order ''b1'' (db s') = [''c2'', ''c1'']"
proof -
  let ?dto = "\<lparr>mcd_beforeColumnId = None, mcd_afterColumnId = Some ''c1''\<rparr>"
  let ?row = "\<lparr>c_id = ''c2'', c_boardId = ''b1'', c_name = ''Done'', c_position = 2000, c_color = None, c_category = COMPLETED\<rparr>"
  have "\<exists>out s'. column_move ''w1'' ''c2'' ''ada'' ?dto sample = (Inr out, s')"
    by (simp add: column_move_def emitColumnChanged_def run andThen_transaction columnIn_def boardIn_def sample_db_def run_lists)
  then obtain out s' where r: "column_move ''w1'' ''c2'' ''ada'' ?dto sample = (Inr out, s')" by blast
  have row: "find (columnIn (db sample) ''w1'' ''c2'') (columns (db sample)) = Some ?row"
    by (simp add: columnIn_def boardIn_def sample_db_def)
  have "[] \<notin> c_id ` set (columns (db sample))" by (simp add: sample_db_def)
  from column_move_order [OF r row _ this] sample_columns_ordered
  have "column_order ''b1'' (db s') = slotted None (Some ''c1'') ''c2'' (filter (\<lambda>x. x \<noteq> ''c2'') (column_order ''b1'' sample_db))"
    by simp
  moreover have "column_order ''b1'' sample_db = [''c1'', ''c2'']"
    by (simp add: column_order_siblings sample_db_def run_lists)
  ultimately show ?thesis using r by (auto simp: slotted_def truthy_def)
qed

text \<open>
  C7. A column create that is accepted puts the new column right after \<open>afterColumnId\<close>, or
  last, keeps the order of the others, and leaves the board's positions strictly increasing.
\<close>

theorem column_create_order:
  assumes "column_create w b a dto s = (Inr out, s')" and "columns_ordered b (db s)"
  shows "column_order b (db s') =
           slotted (ccd_afterColumnId dto) None (c_id (co_row out)) (column_order b (db s)) \<and>
         increasing (columnSiblings b (columns (db s')))"
proof -
  obtain i slot where m:
    "resolveCreateNeighbors (columnSiblings b (columns (db s))) (ccd_afterColumnId dto) ''Column not found'' = Inr slot"
    "insertionIndex slot = int i"
    "column_order b (db s') = insert_at i (c_id (co_row out)) (column_order b (db s))"
    "increasing (columnSiblings b (columns (db s')))"
    using column_create_order_lemma [OF assms] by blast
  note here = trans [OF m(3) resolveCreate_slotted [OF m(1,2), of "c_id (co_row out)", folded column_order_siblings]]
  show ?thesis by (intro conjI here m(4))
qed

theorem column_create_order_witness:
  "\<exists>dto out s'. column_create ''w1'' ''b1'' ''ada'' dto sample = (Inr out, s') \<and>
     column_order ''b1'' (db s') = [''c1'', ''c2'', c_id (co_row out)]"
proof -
  let ?dto = "\<lparr>ccd_name = ''New'', ccd_afterColumnId = None, ccd_color = None, ccd_category = None\<rparr>"
  have "\<exists>out s'. column_create ''w1'' ''b1'' ''ada'' ?dto sample = (Inr out, s')"
    by (simp add: column_create_def emitColumnChanged_def run andThen_transaction boardIn_def sample_db_def run_lists)
  then obtain out s' where r: "column_create ''w1'' ''b1'' ''ada'' ?dto sample = (Inr out, s')" by blast
  from column_create_order [OF r] sample_columns_ordered
  have "column_order ''b1'' (db s') = slotted None None (c_id (co_row out)) (column_order ''b1'' sample_db)"
    by simp
  moreover have "column_order ''b1'' sample_db = [''c1'', ''c2'']"
    by (simp add: column_order_siblings sample_db_def run_lists)
  ultimately show ?thesis
    using r by (intro exI [of _ ?dto] exI [of _ out] exI [of _ s']) (simp add: slotted_def truthy_def)
qed

section \<open>Checklist items\<close>

lemma sample_items_ordered: "items_ordered ''q1'' sample_db"
  by (simp add: items_ordered_def itemSiblings_def sample_db_def increasing_def safe_position_def)

text \<open>
  A checklist item is created at the end of its list, whose order is otherwise kept and
  whose positions stay strictly increasing.
\<close>

theorem item_create_order:
  assumes "item_create w k a c content s = (Inr out, s')" and "items_ordered c (db s)"
  shows "item_order c (db s') = item_order c (db s) @ [uuids s (drawn s)] \<and>
         increasing (itemSiblings c (items (db s')))"
  by (rule item_create_order_lemma [OF assms])

theorem item_create_order_witness:
  "\<exists>out s'. item_create ''w1'' ''t1'' ''ada'' ''q1'' ''c'' sample = (Inr out, s') \<and>
     item_order ''q1'' (db s') = [''i1'', ''i2'', ''z'']"
proof -
  have "\<exists>out s'. item_create ''w1'' ''t1'' ''ada'' ''q1'' ''c'' sample = (Inr out, s')"
    by (simp add: item_create_def run andThen_transaction checklistKey_def taskIn_def boardIn_def sample_db_def
        itemSiblings_def taskKey_def)
  then obtain out s' where r: "item_create ''w1'' ''t1'' ''ada'' ''q1'' ''c'' sample = (Inr out, s')" by blast
  moreover have "item_order ''q1'' sample_db = [''i1'', ''i2'']"
    by (simp add: item_order_def itemSiblings_def sample_db_def)
  ultimately show ?thesis using item_create_order [OF r] sample_items_ordered by auto
qed

text \<open>
  An item move that is accepted, into a gap that the other lists would not respread, puts
  the item right after the one named, or first when none is named, keeps the order of the
  others and the positions strictly increasing. Checklists have no respread.
\<close>

theorem item_move_order:
  assumes "item_move w t a k afterId s = (Inr out, s')"
    and "find (itemKey (db s) w t k) (items (db s)) = Some owner"
    and "items_ordered (ci_checklistId owner) (db s)"
    and "\<And>p n. afterNeighbors (filter (\<lambda>r. fst r \<noteq> k) (itemSiblings (ci_checklistId owner) (items (db s)))) afterId
       ''Checklist item not found'' = Inr (p, n) \<Longrightarrow> \<not> needsRebalance p n"
  shows "\<exists>j. item_order (ci_checklistId owner) (db s') =
             insert_at j k (filter (\<lambda>x. x \<noteq> k) (item_order (ci_checklistId owner) (db s))) \<and>
           j \<le> length (filter (\<lambda>x. x \<noteq> k) (item_order (ci_checklistId owner) (db s))) \<and>
           (if truthy afterId
            then 0 < j \<and> Some (filter (\<lambda>x. x \<noteq> k) (item_order (ci_checklistId owner) (db s)) ! (j - 1)) = afterId
            else j = 0) \<and>
           increasing (itemSiblings (ci_checklistId owner) (items (db s')))"
  using item_move_order_lemma [OF assms] by blast

theorem item_move_order_witness:
  "\<exists>out s'. item_move ''w1'' ''t1'' ''ada'' ''i2'' None sample = (Inr out, s') \<and>
     item_order ''q1'' (db s') = [''i2'', ''i1'']"
proof -
  let ?owner = "\<lparr>ci_id = ''i2'', ci_checklistId = ''q1'', ci_content = ''b'', ci_isDone = False, ci_position = 2000\<rparr>"
  let ?rest = "filter (\<lambda>r. fst r \<noteq> ''i2'') (itemSiblings ''q1'' (items (db sample)))"
  have "\<exists>out s'. item_move ''w1'' ''t1'' ''ada'' ''i2'' None sample = (Inr out, s')"
    by (simp add: item_move_def run andThen_transaction itemKey_def taskIn_def boardIn_def sample_db_def
        itemSiblings_def afterNeighbors_def truthy_def taskKey_def Let_def)
  then obtain out s' where r: "item_move ''w1'' ''t1'' ''ada'' ''i2'' None sample = (Inr out, s')" by blast
  have row: "find (itemKey (db sample) ''w1'' ''t1'' ''i2'') (items (db sample)) = Some ?owner"
    by (simp add: itemKey_def taskIn_def boardIn_def sample_db_def)
  have gap: "\<not> needsRebalance p n" if "afterNeighbors ?rest None ''Checklist item not found'' = Inr (p, n)" for p n
    using that by (auto simp: afterNeighbors_def truthy_def needsRebalance_def itemSiblings_def sample_db_def)
  have "item_order ''q1'' sample_db = [''i1'', ''i2'']"
    by (simp add: item_order_def itemSiblings_def sample_db_def)
  with item_move_order [OF r row] gap sample_items_ordered show ?thesis
    using r by (auto simp: truthy_def)
qed

section \<open>Positions\<close>

text \<open>
  C8. Between neighbours that are not too close, with positions below 2^30 in magnitude, the
  double-precision midpoint lies strictly between them; at either end of a list it lies
  strictly beyond the neighbour.
\<close>

theorem midpoint_strictly_between:
  assumes "\<And>p. before = Some p \<Longrightarrow> safe_position p" and "\<And>n. after = Some n \<Longrightarrow> safe_position n"
    and "\<not> needsRebalance before after"
  shows "(\<forall>p. before = Some p \<longrightarrow> p < midpoint before after) \<and>
         (\<forall>n. after = Some n \<longrightarrow> midpoint before after < n)"
  by (rule midpoint_between [OF assms])

theorem midpoint_strictly_between_witness:
  "(1000 :: float64) < midpoint (Some 1000) None"
  using midpoint_strictly_between [of "Some 1000" None] by (simp add: safe_position_def needsRebalance_def)

text \<open>
  A respread of a list of fewer than 2^40 rows gives as many positions, the multiples of
  1000, strictly increasing.
\<close>

theorem respread_positions:
  assumes "n < 2 ^ 40"
  shows "length (rebalancePositions n) = n \<and> sorted_wrt (<) (rebalancePositions n) \<and>
         (\<forall>i. i < n \<longrightarrow> rebalancePositions n ! i = of_nat (Suc i) * 1000)"
  using rebalancePositions_mono [OF assms] rebalancePositions_nth [OF assms] by simp

theorem respread_positions_witness: "rebalancePositions 3 ! 2 = 3000"
  using respread_positions [of 3] by simp


definition crowded :: world where
  "crowded = sample\<lparr>db := sample_db\<lparr>items :=
     [\<lparr>ci_id = ''i1'', ci_checklistId = ''q1'', ci_content = ''a'', ci_isDone = True, ci_position = 1\<rparr>,
      \<lparr>ci_id = ''i2'', ci_checklistId = ''q1'', ci_content = ''b'', ci_isDone = False, ci_position = next_double\<rparr>,
      \<lparr>ci_id = ''i3'', ci_checklistId = ''q1'', ci_content = ''c'', ci_isDone = False, ci_position = 2\<rparr>]\<rparr>\<rparr>"

lemma next_double_order: "1 < next_double" "next_double < 2"
  by (simp_all add: next_double_def)

lemma crowded_ordered: "items_ordered ''q1'' (db crowded)"
  using next_double_order
  by (simp add: items_ordered_def itemSiblings_def crowded_def increasing_def safe_position_def)


end
