(* ===== verification/TaskLinks.thy ===== *)
theory TaskLinks
  imports Tasks
begin

text \<open>
  \<open>task-assignee.service.ts\<close>, \<open>task-label.service.ts\<close> and \<open>prisma-unique-violation.ts\<close>: the two
  join tables of a task. A second row for the same pair trips the unique constraint, which
  the services turn into a conflict that names it; an assignment stores and announces a
  notification unless the assignee is the actor.
\<close>

section \<open>Operations\<close>

text \<open>Only the unique violation is relabelled; every other refusal passes through.\<close>

definition conflictOnUniqueViolation :: "'a request \<Rightarrow> string \<Rightarrow> 'a request" where
  "conflictOnUniqueViolation write message s =
     (case write s of
        (Inl UniqueViolation, s') \<Rightarrow> (Inl (Conflict message), s')
      | result \<Rightarrow> result)"

definition insertAssignee :: "ident \<Rightarrow> ident \<Rightarrow> unit request" where
  "insertAssignee taskId userId =
     andThen freshId (\<lambda>newId.
     andThen (readDb (\<lambda>d. list_ex (\<lambda>x. ta_taskId x = taskId \<and> ta_userId x = userId) (assignees d))) (\<lambda>dup.
     andThen (check (\<not> dup) UniqueViolation) (\<lambda>_.
       writeDb (\<lambda>d. d\<lparr>assignees := assignees d @ [\<lparr>ta_id = newId, ta_taskId = taskId, ta_userId = userId\<rparr>]\<rparr>))))"

definition insertTaskLabel :: "ident \<Rightarrow> ident \<Rightarrow> unit request" where
  "insertTaskLabel taskId labelId =
     andThen freshId (\<lambda>newId.
     andThen (readDb (\<lambda>d. list_ex (\<lambda>x. tl_taskId x = taskId \<and> tl_labelId x = labelId) (task_labels d))) (\<lambda>dup.
     andThen (check (\<not> dup) UniqueViolation) (\<lambda>_.
       writeDb (\<lambda>d. d\<lparr>task_labels := task_labels d @ [\<lparr>tl_id = newId, tl_taskId = taskId, tl_labelId = labelId\<rparr>]\<rparr>))))"

definition addAssignee :: "ident \<Rightarrow> ident \<Rightarrow> ident \<Rightarrow> ident \<Rightarrow> task_dto request" where
  "addAssignee workspaceId taskId actorId userId =
     andThen (findTaskBasic workspaceId taskId) (\<lambda>task.
     andThen (readDb (\<lambda>d. list_ex (\<lambda>m. m_workspaceId m = workspaceId \<and> m_userId m = userId) (members d))) (\<lambda>member.
     andThen (check member (Unprocessable ''User is not a member of this workspace'')) (\<lambda>_.
     andThen (conflictOnUniqueViolation
       (transaction
         (andThen (insertAssignee (t_id task) userId) (\<lambda>_.
          andThen (recordActivity workspaceId (Some (t_id task)) actorId TaskAssigned
            (JObj [(''title'', JStr (t_title task)), (''assigneeUserId'', JStr userId)])) (\<lambda>activity.
            createAssignment workspaceId userId actorId (t_id task) (Some (ac_id activity))
              (JObj [(''title'', JStr (t_title task)), (''assigneeUserId'', JStr userId),
                     (''actorId'', JStr actorId)])))))
       ''User is already assigned to this task'') (\<lambda>notification.
     andThen (whenever (notification \<noteq> None)
       (andThen (emitUnreadChanged workspaceId [userId]) (\<lambda>_.
          sendForCreated [\<lparr>mi_workspaceId = workspaceId, mi_userId = userId, mi_actorId = Some actorId,
                           mi_type = Assignment, mi_taskId = t_id task\<rparr>]))) (\<lambda>_.
       emitUpdated workspaceId taskId actorId)))))"

definition removeAssignee :: "ident \<Rightarrow> ident \<Rightarrow> ident \<Rightarrow> ident \<Rightarrow> task_dto request" where
  "removeAssignee workspaceId taskId actorId assigneeUserId =
     andThen (findTaskBasic workspaceId taskId) (\<lambda>task.
     andThen (transaction
       (let gone = (\<lambda>d x. ta_taskId x = taskId \<and> ta_userId x = assigneeUserId \<and> taskIn d workspaceId taskId)
        in andThen (readDb (\<lambda>d. length (filter (gone d) (assignees d)))) (\<lambda>count.
           andThen (writeDb (\<lambda>d. d\<lparr>assignees := filter (\<lambda>x. \<not> gone d x) (assignees d)\<rparr>)) (\<lambda>_.
           andThen (check (count \<noteq> 0) (NotFound ''Assignee not found'')) (\<lambda>_.
             recordActivity workspaceId (Some taskId) actorId TaskUnassigned
               (JObj [(''title'', JStr (t_title task)), (''assigneeUserId'', JStr assigneeUserId)])))))) (\<lambda>_.
       emitUpdated workspaceId taskId actorId))"

definition addLabel :: "ident \<Rightarrow> ident \<Rightarrow> ident \<Rightarrow> ident \<Rightarrow> task_dto request" where
  "addLabel workspaceId taskId actorId labelId =
     andThen (findTaskBasic workspaceId taskId) (\<lambda>task.
     andThen (readDb (\<lambda>d. find (\<lambda>l. l_id l = labelId \<and> l_boardId l = t_boardId task) (labels d))) (\<lambda>found.
     andThen (orThrow (Unprocessable ''Label does not belong to this task board'') found) (\<lambda>label.
     andThen (conflictOnUniqueViolation
       (transaction
         (andThen (insertTaskLabel (t_id task) (l_id label)) (\<lambda>_.
            recordActivity workspaceId (Some (t_id task)) actorId TaskLabelAdded
              (JObj [(''labelId'', JStr (l_id label)), (''name'', JStr (l_name label)),
                     (''color'', JStr (l_color label))]))))
       ''Label is already assigned to this task'') (\<lambda>_.
       emitUpdated workspaceId taskId actorId))))"

definition removeLabel :: "ident \<Rightarrow> ident \<Rightarrow> ident \<Rightarrow> ident \<Rightarrow> task_dto request" where
  "removeLabel workspaceId taskId actorId labelId =
     andThen (findTaskBasic workspaceId taskId) (\<lambda>task.
     andThen (readDb (\<lambda>d. find (\<lambda>l. l_id l = labelId \<and> l_boardId l = t_boardId task) (labels d))) (\<lambda>found.
     andThen (orThrow (NotFound ''Task label not found'') found) (\<lambda>label.
     andThen (transaction
       (let gone = (\<lambda>d x. tl_taskId x = taskId \<and> tl_labelId x = labelId \<and> taskIn d workspaceId taskId)
        in andThen (readDb (\<lambda>d. length (filter (gone d) (task_labels d)))) (\<lambda>count.
           andThen (writeDb (\<lambda>d. d\<lparr>task_labels := filter (\<lambda>x. \<not> gone d x) (task_labels d)\<rparr>)) (\<lambda>_.
           andThen (check (count \<noteq> 0) (NotFound ''Task label not found'')) (\<lambda>_.
             recordActivity workspaceId (Some taskId) actorId TaskLabelRemoved
               (JObj [(''labelId'', JStr (l_id label)), (''name'', JStr (l_name label)),
                      (''color'', JStr (l_color label))])))))) (\<lambda>_.
       emitUpdated workspaceId taskId actorId))))"

section \<open>One row per pair\<close>

lemma conflict_run [run]:
  "conflictOnUniqueViolation m msg s =
     (case m s of
        (Inl e, s') \<Rightarrow> (if e = UniqueViolation then (Inl (Conflict msg), s') else (Inl e, s'))
      | (Inr x, s') \<Rightarrow> (Inr x, s'))"
  by (auto simp: conflictOnUniqueViolation_def split: prod.splits sum.splits http_error.splits)

lemma andThen_conflict [run]:
  "andThen (conflictOnUniqueViolation m msg) f s =
     (case m s of
        (Inl e, s') \<Rightarrow> (if e = UniqueViolation then (Inl (Conflict msg), s') else (Inl e, s'))
      | (Inr x, s') \<Rightarrow> f x s')"
  by (auto simp: andThen_def conflict_run split: prod.splits sum.splits)

lemma createAssignment_run [run]:
  "createAssignment w u a t act p s =
     (if u = a then (Inr None, s)
      else (Inr (Some (storedNotification s 0 w u Assignment (Some t) act p)),
         s\<lparr>drawn := Suc (drawn s), db := (db s)\<lparr>notifications :=
            notifications (db s) @ [storedNotification s 0 w u Assignment (Some t) act p]\<rparr>\<rparr>))"
  by (simp add: createAssignment_def notification_create_def run)

definition assigned :: "database \<Rightarrow> ident \<Rightarrow> ident \<Rightarrow> bool" where
  "assigned d taskId userId \<longleftrightarrow> list_ex (\<lambda>x. ta_taskId x = taskId \<and> ta_userId x = userId) (assignees d)"

definition isMember :: "database \<Rightarrow> ident \<Rightarrow> ident \<Rightarrow> bool" where
  "isMember d workspaceId userId \<longleftrightarrow>
     list_ex (\<lambda>m. m_workspaceId m = workspaceId \<and> m_userId m = userId) (members d)"

text \<open>When an assignment is accepted, and what the four refusals are.\<close>

lemma addAssignee_cases:
  assumes "mailEnabled (environ s) = Inr en"
  shows "find (taskKey (db s) w k) (tasks (db s)) = None \<Longrightarrow>
      addAssignee w k a u s = (Inl (NotFound ''Task not found''), s)"
    and "find (taskKey (db s) w k) (tasks (db s)) = Some t \<Longrightarrow> \<not> isMember (db s) w u \<Longrightarrow>
      addAssignee w k a u s = (Inl (Unprocessable ''User is not a member of this workspace''), s)"
    and "find (taskKey (db s) w k) (tasks (db s)) = Some t \<Longrightarrow> isMember (db s) w u \<Longrightarrow> assigned (db s) k u \<Longrightarrow>
      fst (addAssignee w k a u s) = Inl (Conflict ''User is already assigned to this task'')"
    and "find (taskKey (db s) w k) (tasks (db s)) = Some t \<Longrightarrow> isMember (db s) w u \<Longrightarrow> \<not> assigned (db s) k u \<Longrightarrow>
      \<exists>out. fst (addAssignee w k a u s) = Inr out"
  using assms taskKey_id [of "db s" w k t]
  by (auto simp: addAssignee_def insertAssignee_def isMember_def assigned_def run transaction_def Let_def
      dest: find_Some_iff_mem split: option.splits)

text \<open>
  An accepted assignment: one row for a member who had none, and, when someone else made it,
  one notification, one signal to the assignee and at most one email, before the board is told.
\<close>

lemma addAssignee_ok:
  assumes "addAssignee w k a u s = (Inr out, s')"
  shows "isMember (db s) w u" and "\<not> assigned (db s) k u" and "taskIn (db s) w k"
    and "assignees (db s') = assignees (db s) @ [\<lparr>ta_id = uuids s (drawn s), ta_taskId = k, ta_userId = u\<rparr>]"
    and "map (\<lambda>n. (n_userId n, n_type n, n_taskId n)) (notifications (db s')) =
         map (\<lambda>n. (n_userId n, n_type n, n_taskId n)) (notifications (db s)) @
           (if u = a then [] else [(u, Assignment, Some k)])"
    and "\<exists>b. outbox s' = outbox s @ (if u = a then [] else [ToUser w u NOTIFICATION_UNREAD_CHANGED]) @
           [ToBoard b TASK_UPDATED w a [(''taskId'', JStr k)]]"
proof -
  obtain t where t: "find (taskKey (db s) w k) (tasks (db s)) = Some t"
    using assms by (auto simp: addAssignee_def run split: option.splits)
  have id: "t_id t = k" and "taskIn (db s) w k"
    using find_Some_iff_mem [OF t] by (auto simp: taskKey_def taskIn_def list_ex_iff)
  then show "taskIn (db s) w k" by simp
  show m: "isMember (db s) w u"
    using assms t by (auto simp: addAssignee_def run isMember_def split: if_splits)
  show na: "\<not> assigned (db s) k u"
    using assms t m id
    by (auto simp: addAssignee_def insertAssignee_def run isMember_def assigned_def transaction_def split: if_splits)
  note facts = assms t m na id
  show "assignees (db s') = assignees (db s) @ [\<lparr>ta_id = uuids s (drawn s), ta_taskId = k, ta_userId = u\<rparr>]"
    "map (\<lambda>n. (n_userId n, n_type n, n_taskId n)) (notifications (db s')) =
         map (\<lambda>n. (n_userId n, n_type n, n_taskId n)) (notifications (db s)) @
           (if u = a then [] else [(u, Assignment, Some k)])"
    "\<exists>b. outbox s' = outbox s @ (if u = a then [] else [ToUser w u NOTIFICATION_UNREAD_CHANGED]) @
           [ToBoard b TASK_UPDATED w a [(''taskId'', JStr k)]]"
    using facts
    by (auto simp: addAssignee_def insertAssignee_def run isMember_def assigned_def transaction_def
        storedNotification_def split: if_splits sum.splits)
qed

lemma unique_pair_added:
  assumes "distinct (map (\<lambda>x. (ta_taskId x, ta_userId x)) xs)"
    and "\<not> list_ex (\<lambda>x. ta_taskId x = k \<and> ta_userId x = u) xs"
  shows "distinct (map (\<lambda>x. (ta_taskId x, ta_userId x)) (xs @ [\<lparr>ta_id = i, ta_taskId = k, ta_userId = u\<rparr>]))"
  using assms by (auto simp: list_ex_iff)

lemma removeAssignee_ok:
  assumes "removeAssignee w k a u s = (Inr out, s')"
  shows "assigned (db s) k u" and "\<not> assigned (db s') k u"
    and "filter (\<lambda>x. (ta_taskId x, ta_userId x) \<noteq> (k, u)) (assignees (db s')) =
         filter (\<lambda>x. (ta_taskId x, ta_userId x) \<noteq> (k, u)) (assignees (db s))"
proof -
  obtain t where t: "find (taskKey (db s) w k) (tasks (db s)) = Some t"
    using assms by (auto simp: removeAssignee_def run split: option.splits)
  then have ti: "taskIn (db s) w k"
    by (auto dest!: find_Some_iff_mem simp: taskKey_def taskIn_def list_ex_iff)
  show "assigned (db s) k u"
    using assms t ti
    by (auto simp: removeAssignee_def run assigned_def andThen_transaction Let_def list_ex_iff filter_empty_conv
        split: if_splits)
  have s': "assignees (db s') = filter (\<lambda>x. \<not> (ta_taskId x = k \<and> ta_userId x = u)) (assignees (db s))"
    using assms t ti
    by (auto simp: removeAssignee_def run andThen_transaction Let_def intro!: filter_cong split: if_splits)
  then show "\<not> assigned (db s') k u"
    by (auto simp: assigned_def list_ex_iff)
  show "filter (\<lambda>x. (ta_taskId x, ta_userId x) \<noteq> (k, u)) (assignees (db s')) =
      filter (\<lambda>x. (ta_taskId x, ta_userId x) \<noteq> (k, u)) (assignees (db s))"
    unfolding s' filter_filter by (rule filter_cong) auto
qed

text \<open>A label is only ever attached to a task of its own board.\<close>

lemma addLabel_ok:
  assumes "addLabel w k a lab s = (Inr out, s')"
  shows "\<exists>t \<in> set (tasks (db s)). \<exists>l \<in> set (labels (db s)).
           t_id t = k \<and> l_id l = lab \<and> l_boardId l = t_boardId t \<and> boardIn (db s) w (t_boardId t)"
    and "\<not> list_ex (\<lambda>x. tl_taskId x = k \<and> tl_labelId x = lab) (task_labels (db s))"
    and "task_labels (db s') = task_labels (db s) @ [\<lparr>tl_id = uuids s (drawn s), tl_taskId = k, tl_labelId = lab\<rparr>]"
proof -
  obtain t where t: "find (taskKey (db s) w k) (tasks (db s)) = Some t"
    using assms by (auto simp: addLabel_def run split: option.splits)
  obtain l where l: "find (\<lambda>l. l_id l = lab \<and> l_boardId l = t_boardId t) (labels (db s)) = Some l"
    using assms t by (auto simp: addLabel_def run split: option.splits)
  note ft = find_Some_iff_mem [OF t] and fl = find_Some_iff_mem [OF l]
  have id: "t_id t = k" "l_id l = lab" using ft fl by (simp_all add: taskKey_def)
  show "\<exists>t \<in> set (tasks (db s)). \<exists>l \<in> set (labels (db s)).
      t_id t = k \<and> l_id l = lab \<and> l_boardId l = t_boardId t \<and> boardIn (db s) w (t_boardId t)"
    using ft fl by (intro bexI [of _ t] bexI [of _ l]) (simp_all add: taskKey_def)
  show "\<not> list_ex (\<lambda>x. tl_taskId x = k \<and> tl_labelId x = lab) (task_labels (db s))"
    "task_labels (db s') = task_labels (db s) @ [\<lparr>tl_id = uuids s (drawn s), tl_taskId = k, tl_labelId = lab\<rparr>]"
    using assms t l id
    by (auto simp: addLabel_def insertTaskLabel_def run transaction_def split: if_splits)
qed

end
