(* ===== verification/PlanLimits.thy ===== *)
theory PlanLimits
  imports Environment Activities
begin

text \<open>
  \<open>apps/api/src/plan/plan-limits.ts\<close> and \<open>plan-limits.service.ts\<close>, with
  \<open>common/pending-invitation.ts\<close>: the ceilings on seats, boards, workspaces, accounts and stored
  bytes, read from the environment, overridden per workspace by a JSON column, and checked
  before each write that would exceed one.
\<close>

section \<open>Ceilings\<close>

text \<open>A ceiling is a number, or \<open>None\<close> for unlimited (\<open>null\<close> in the source).\<close>

type_synonym ceiling = "nat option"

record instance_limits =
  il_seatsPerWorkspace :: ceiling
  il_boardsPerWorkspace :: ceiling
  il_workspaces :: ceiling
  il_users :: ceiling

text \<open>An absent key defers to the instance; a present one answers for the workspace.\<close>

record plan_override =
  po_seats :: "ceiling option"
  po_boards :: "ceiling option"
  po_storageBytes :: "ceiling option"

record workspace_limits =
  wl_seats :: ceiling
  wl_boards :: ceiling
  wl_storageBytes :: ceiling

record instance_ceilings =
  ic_limits :: instance_limits
  ic_storageBytesPerWorkspace :: ceiling
  ic_storageBytesPerInstance :: ceiling

definition readCeiling :: "environment \<Rightarrow> string \<Rightarrow> http_error + ceiling" where
  "readCeiling env name =
     (if envString env name [] = [] then Inr None
      else bind_result (envInt env name 0) (\<lambda>value.
        if value < 0
        then Inl (ServerFault (''Invalid '' @ name @ '': expected a non-negative count, received \"'' @
                    int_string value @ ''\"''))
        else Inr (if value = 0 then None else Some (nat value))))"

definition readInstancePlanLimits :: "environment \<Rightarrow> http_error + instance_limits" where
  "readInstancePlanLimits env =
     bind_result (readCeiling env ''PLAN_MAX_SEATS_PER_WORKSPACE'') (\<lambda>seats.
     bind_result (readCeiling env ''PLAN_MAX_BOARDS_PER_WORKSPACE'') (\<lambda>bs.
     bind_result (readCeiling env ''PLAN_MAX_WORKSPACES'') (\<lambda>ws.
     bind_result (readCeiling env ''PLAN_MAX_USERS'') (\<lambda>us.
       Inr \<lparr>il_seatsPerWorkspace = seats, il_boardsPerWorkspace = bs,
            il_workspaces = ws, il_users = us\<rparr>))))"

text \<open>\<open>None\<close> is the source's \<open>undefined\<close>: the key was never set.\<close>

definition parseOverrideValue :: "json \<Rightarrow> ceiling option" where
  "parseOverrideValue value =
     (case value of
        JNull \<Rightarrow> Some None
      | JNum v \<Rightarrow>
          if \<not> is_integer v \<or> v < 0 then None
          else if v = 0 then Some None else Some (Some (nat \<lfloor>v\<rfloor>))
      | _ \<Rightarrow> None)"

definition parseWorkspacePlanOverride :: "json option \<Rightarrow> plan_override" where
  "parseWorkspacePlanOverride stored =
     (let source = (case stored of Some (JObj kv) \<Rightarrow> kv | _ \<Rightarrow> []);
          key = (\<lambda>k. Option.bind (map_of source k) parseOverrideValue)
      in \<lparr>po_seats = key ''seats'', po_boards = key ''boards'', po_storageBytes = key ''storageBytes''\<rparr>)"

definition quotaBytesToCeiling :: "int \<Rightarrow> ceiling" where
  "quotaBytesToCeiling bytes = (if bytes = 0 then None else Some (nat bytes))"

definition resolveWorkspacePlanLimits :: "instance_limits \<Rightarrow> int \<Rightarrow> plan_override \<Rightarrow> workspace_limits" where
  "resolveWorkspacePlanLimits inst storageQuotaBytes ov =
     \<lparr>wl_seats = (case po_seats ov of Some c \<Rightarrow> c | None \<Rightarrow> il_seatsPerWorkspace inst),
      wl_boards = (case po_boards ov of Some c \<Rightarrow> c | None \<Rightarrow> il_boardsPerWorkspace inst),
      wl_storageBytes = (case po_storageBytes ov of Some c \<Rightarrow> c | None \<Rightarrow> quotaBytesToCeiling storageQuotaBytes)\<rparr>"

definition describeInstancePlanLimits :: "instance_limits \<Rightarrow> int \<Rightarrow> int \<Rightarrow> instance_ceilings" where
  "describeInstancePlanLimits inst workspaceQuotaBytes instanceQuotaBytes =
     \<lparr>ic_limits = inst, ic_storageBytesPerWorkspace = quotaBytesToCeiling workspaceQuotaBytes,
      ic_storageBytesPerInstance = quotaBytesToCeiling instanceQuotaBytes\<rparr>"

section \<open>The service\<close>

definition instanceLimits :: "instance_limits request" where
  "instanceLimits = andThen (query environ) (\<lambda>env. lift_result (readInstancePlanLimits env))"

definition storageConfig :: "storage_config request" where
  "storageConfig = andThen (query environ) (\<lambda>env. lift_result (readStorageConfig env))"

definition instanceCeilings :: "instance_ceilings request" where
  "instanceCeilings =
     andThen instanceLimits (\<lambda>inst.
     andThen storageConfig (\<lambda>storage.
       ret (describeInstancePlanLimits inst (sc_workspaceQuotaBytes storage) (sc_instanceQuotaBytes storage))))"

definition forWorkspace :: "ident \<Rightarrow> workspace_limits request" where
  "forWorkspace workspaceId =
     andThen (readDb (\<lambda>d. find (\<lambda>w. w_id w = workspaceId) (workspaces d))) (\<lambda>workspace.
     andThen instanceLimits (\<lambda>inst.
     andThen storageConfig (\<lambda>storage.
       ret (resolveWorkspacePlanLimits inst (sc_workspaceQuotaBytes storage)
              (parseWorkspacePlanOverride (Option.bind workspace w_planLimits))))))"

definition workspaceStorageQuotaBytes :: "ident \<Rightarrow> nat request" where
  "workspaceStorageQuotaBytes workspaceId =
     andThen (forWorkspace workspaceId) (\<lambda>limits.
       ret (case wl_storageBytes limits of None \<Rightarrow> 0 | Some n \<Rightarrow> n))"

definition pendingInvitation :: "ident \<Rightarrow> millis \<Rightarrow> invitation_row \<Rightarrow> bool" where
  "pendingInvitation workspaceId t i \<longleftrightarrow>
     i_workspaceId i = workspaceId \<and> i_status i = ''pending'' \<and> t < i_expiresAt i"

definition memberCount :: "ident \<Rightarrow> database \<Rightarrow> nat" where
  "memberCount workspaceId d = length (filter (\<lambda>m. m_workspaceId m = workspaceId) (members d))"

definition boardCount :: "ident \<Rightarrow> database \<Rightarrow> nat" where
  "boardCount workspaceId d = length (filter (\<lambda>b. b_workspaceId b = workspaceId) (boards d))"

definition seatsUsed :: "ident \<Rightarrow> nat request" where
  "seatsUsed workspaceId =
     andThen now (\<lambda>t. readDb (\<lambda>d.
       memberCount workspaceId d + length (filter (pendingInvitation workspaceId t) (invitations d))))"

definition storedBytes :: "ident \<Rightarrow> int request" where
  "storedBytes workspaceId =
     readDb (\<lambda>d. sum_list (map (\<lambda>a. case a_size a of None \<Rightarrow> 0 | Some n \<Rightarrow> n)
       (filter (\<lambda>a. a_kind a = FILE \<and> taskIn d workspaceId (a_taskId a)) (attachments d))))"

record plan_usage =
  pu_limits :: workspace_limits
  pu_seats :: nat
  pu_boards :: nat
  pu_storageBytes :: int

definition plan :: "ident \<Rightarrow> plan_usage request" where
  "plan workspaceId =
     andThen (forWorkspace workspaceId) (\<lambda>limits.
     andThen (seatsUsed workspaceId) (\<lambda>seats.
     andThen (readDb (boardCount workspaceId)) (\<lambda>bs.
     andThen (storedBytes workspaceId) (\<lambda>bytes.
       ret \<lparr>pu_limits = limits, pu_seats = seats, pu_boards = bs, pu_storageBytes = bytes\<rparr>))))"

definition assertSeatAvailable :: "ident \<Rightarrow> bool \<Rightarrow> unit request" where
  "assertSeatAvailable workspaceId countsInvitations =
     andThen (forWorkspace workspaceId) (\<lambda>limits.
       case wl_seats limits of
         None \<Rightarrow> ret ()
       | Some seats \<Rightarrow>
           andThen (if countsInvitations then seatsUsed workspaceId else readDb (memberCount workspaceId)) (\<lambda>current.
             check (current < seats)
               (PlanLimitRefusal ''PLAN_LIMIT_SEATS'' seats current ''This workspace has no seats left on its plan'')))"

definition assertBoardAvailable :: "ident \<Rightarrow> unit request" where
  "assertBoardAvailable workspaceId =
     andThen (forWorkspace workspaceId) (\<lambda>limits.
       case wl_boards limits of
         None \<Rightarrow> ret ()
       | Some bs \<Rightarrow>
           andThen (readDb (boardCount workspaceId)) (\<lambda>current.
             check (current < bs)
               (PlanLimitRefusal ''PLAN_LIMIT_BOARDS'' bs current
                  ''This workspace has reached the number of boards its plan allows'')))"

definition assertWorkspaceAvailable :: "unit request" where
  "assertWorkspaceAvailable =
     andThen instanceLimits (\<lambda>inst.
       case il_workspaces inst of
         None \<Rightarrow> ret ()
       | Some limit \<Rightarrow>
           andThen (readDb (\<lambda>d. length (workspaces d))) (\<lambda>current.
             check (current < limit)
               (PlanLimitRefusal ''PLAN_LIMIT_WORKSPACES'' limit current
                  ''This instance has reached the number of workspaces it allows'')))"

text \<open>The refusal of a sign-up as a value: the limit and the number of accounts not erased.\<close>

definition signUpRefusal :: "(nat \<times> nat) option request" where
  "signUpRefusal =
     andThen instanceLimits (\<lambda>inst.
       case il_users inst of
         None \<Rightarrow> ret None
       | Some limit \<Rightarrow>
           andThen (readDb (\<lambda>d. length (filter (\<lambda>u. u_deletedAt u = None) (users d)))) (\<lambda>current.
             ret (if current < limit then None else Some (limit, current))))"

section \<open>Ceilings and what is used\<close>

text \<open>A count fits under a ceiling with room for one more.\<close>

definition room :: "nat \<Rightarrow> ceiling \<Rightarrow> bool" where
  "room current c \<longleftrightarrow> (case c of None \<Rightarrow> True | Some limit \<Rightarrow> current < limit)"

lemma instanceLimits_run [run]:
  "instanceLimits s = (readInstancePlanLimits (environ s), s)"
  by (simp add: instanceLimits_def run)

lemma andThen_instanceLimits [run]:
  "andThen instanceLimits f s =
     (case readInstancePlanLimits (environ s) of Inl e \<Rightarrow> (Inl e, s) | Inr x \<Rightarrow> f x s)"
  by (simp add: instanceLimits_def run)

lemma andThen_storageConfig [run]:
  "andThen storageConfig f s =
     (case readStorageConfig (environ s) of Inl e \<Rightarrow> (Inl e, s) | Inr x \<Rightarrow> f x s)"
  by (simp add: storageConfig_def run)

text \<open>The limits of one workspace, and the case that the environment refuses them.\<close>

definition limitsFor :: "ident \<Rightarrow> world \<Rightarrow> http_error + workspace_limits" where
  "limitsFor w s =
     bind_result (readInstancePlanLimits (environ s)) (\<lambda>inst.
     bind_result (readStorageConfig (environ s)) (\<lambda>storage.
       Inr (resolveWorkspacePlanLimits inst (sc_workspaceQuotaBytes storage)
              (parseWorkspacePlanOverride
                (Option.bind (find (\<lambda>x. w_id x = w) (workspaces (db s))) w_planLimits)))))"

lemma andThen_forWorkspace [run]:
  "andThen (forWorkspace w) f s = (case limitsFor w s of Inl e \<Rightarrow> (Inl e, s) | Inr x \<Rightarrow> f x s)"
  by (simp add: forWorkspace_def limitsFor_def bind_result_def run split: sum.splits)

lemma limitsFor_db [simp]:
  "limitsFor w (s\<lparr>drawn := k\<rparr>) = limitsFor w s" "limitsFor w (s\<lparr>outbox := out\<rparr>) = limitsFor w s"
  by (simp_all add: limitsFor_def)

lemma andThen_seatsUsed [run]:
  "andThen (seatsUsed w) f s =
     f (memberCount w (db s) + length (filter (pendingInvitation w (clock s)) (invitations (db s)))) s"
  by (simp add: seatsUsed_def run)

lemma andThen_assertBoardAvailable [run]:
  "andThen (assertBoardAvailable w) f s =
     (case limitsFor w s of
        Inl e \<Rightarrow> (Inl e, s)
      | Inr limits \<Rightarrow>
          if room (boardCount w (db s)) (wl_boards limits) then f () s
          else (Inl (PlanLimitRefusal ''PLAN_LIMIT_BOARDS'' (the (wl_boards limits)) (boardCount w (db s))
                  ''This workspace has reached the number of boards its plan allows''), s))"
  by (auto simp: assertBoardAvailable_def run room_def split: sum.splits option.splits)

text \<open>Exactly when a seat is there, with the two ways of counting.\<close>

lemma assertSeatAvailable_iff:
  assumes "limitsFor w s = Inr limits"
  shows "fst (assertSeatAvailable w counts s) = Inr () \<longleftrightarrow>
    room (memberCount w (db s) +
            (if counts then length (filter (pendingInvitation w (clock s)) (invitations (db s))) else 0))
         (wl_seats limits)"
  using andThen_forWorkspace [of w] assms
  by (auto simp: assertSeatAvailable_def run room_def split: option.splits)

lemma seat_held_by_invitation:
  assumes "limitsFor w s = Inr limits" and "fst (assertSeatAvailable w True s) = Inr ()"
  shows "fst (assertSeatAvailable w False s) = Inr ()"
  using assms by (auto simp: assertSeatAvailable_iff room_def split: option.splits)

lemma seat_refusal_detail:
  assumes "fst (assertSeatAvailable w counts s) = Inl (PlanLimitRefusal code limit current msg)"
    and "limitsFor w s = Inr limits"
  shows "code = ''PLAN_LIMIT_SEATS''" and "wl_seats limits = Some limit" and "limit \<le> current"
  using assms by (auto simp: assertSeatAvailable_def run split: option.splits if_splits)

text \<open>Override, instance, unlimited: the order of precedence, key by key.\<close>

lemma override_precedence:
  assumes "limitsFor w s = Inr limits" and "readInstancePlanLimits (environ s) = Inr inst"
    and "find (\<lambda>x. w_id x = w) (workspaces (db s)) = Some row"
  defines "stored \<equiv> \<lambda>key. (case w_planLimits row of Some (JObj kv) \<Rightarrow> map_of kv key | _ \<Rightarrow> None)"
  shows "wl_boards limits =
      (case stored ''boards'' of
         Some JNull \<Rightarrow> None
       | Some (JNum v) \<Rightarrow>
           if is_integer v \<and> 0 \<le> v then (if v = 0 then None else Some (nat \<lfloor>v\<rfloor>)) else il_boardsPerWorkspace inst
       | _ \<Rightarrow> il_boardsPerWorkspace inst)"
    and "wl_seats limits =
      (case stored ''seats'' of
         Some JNull \<Rightarrow> None
       | Some (JNum v) \<Rightarrow>
           if is_integer v \<and> 0 \<le> v then (if v = 0 then None else Some (nat \<lfloor>v\<rfloor>)) else il_seatsPerWorkspace inst
       | _ \<Rightarrow> il_seatsPerWorkspace inst)"
  using assms(1-3)
  by (auto simp: limitsFor_def bind_result_def resolveWorkspacePlanLimits_def parseWorkspacePlanOverride_def
      parseOverrideValue_def stored_def Let_def split: sum.splits option.splits json.splits if_splits)

text \<open>A ceiling read from the environment is never zero: zero means unlimited.\<close>

lemma readCeiling_positive: "readCeiling env name = Inr (Some n) \<Longrightarrow> 0 < n"
  by (auto simp: readCeiling_def bind_result_def split: if_splits sum.splits)

lemma readCeiling_unset: "env name = None \<Longrightarrow> readCeiling env name = Inr None"
  by (simp add: readCeiling_def envString_def)

lemma readCeiling_set:
  assumes "env name = Some (int_string (int n))" and "n < 2 ^ 53"
  shows "readCeiling env name = Inr (if n = 0 then None else Some n)"
proof -
  have "\<bar>int n\<bar> < 2 ^ 53"
    using assms(2) by (metis abs_of_nat of_nat_less_iff of_nat_numeral of_nat_power)
  then have "envInt env name 0 = Inr (int n)"
    using assms(1) by (intro envInt_reads_back)
  then show ?thesis
    by (simp add: readCeiling_def envString_def assms(1) bind_result_def)
qed

lemma signUpRefusal_iff:
  assumes "readInstancePlanLimits (environ s) = Inr inst"
  shows "fst (signUpRefusal s) = Inr None \<longleftrightarrow>
    room (length (filter (\<lambda>u. u_deletedAt u = None) (users (db s)))) (il_users inst)"
  using assms by (auto simp: signUpRefusal_def run room_def split: option.splits)

end
