(* ===== verification/Boards.thy ===== *)
theory Boards
  imports Columns PlanLimits Integrity
begin

text \<open>
  \<open>apps/api/src/board/board.service.ts\<close>: listing, creating from a template, reading, renaming and
  deleting the boards of a workspace, with the audit row each change writes in its transaction
  and the plan ceiling a creation is checked against.
\<close>

section \<open>Requests\<close>

record create_board_dto =
  cbd_name :: string
  cbd_description :: "string option"
  cbd_template :: "template_slug option"

record update_board_dto =
  ubd_name :: "string option"
  ubd_description :: "string option option"

definition seedFor :: "create_board_dto \<Rightarrow> lang \<Rightarrow> default_column list \<times> default_label list" where
  "seedFor dto l =
     (case cbd_template dto of
        None \<Rightarrow> (defaultColumnsFor l, [])
      | Some slug \<Rightarrow> let t = boardTemplateFor slug l in (bt_columns t, bt_labels t))"

definition createLabel :: "ident \<Rightarrow> string \<Rightarrow> string \<Rightarrow> label_row request" where
  "createLabel boardId name color =
     andThen freshId (\<lambda>newId.
       let row = \<lparr>l_id = newId, l_boardId = boardId, l_name = name, l_color = color\<rparr>
       in andThen (writeDb (\<lambda>d. d\<lparr>labels := labels d @ [row]\<rparr>)) (\<lambda>_. ret row))"

definition seedLabel :: "ident \<Rightarrow> default_label \<Rightarrow> unit request" where
  "seedLabel boardId lab = andThen (createLabel boardId (dl_name lab) (dl_color lab)) (\<lambda>_. ret ())"

definition createBoardRow :: "ident \<Rightarrow> create_board_dto \<Rightarrow> board_row request" where
  "createBoardRow workspaceId dto =
     andThen freshId (\<lambda>newId. andThen now (\<lambda>t.
       let row = \<lparr>b_id = newId, b_workspaceId = workspaceId, b_name = cbd_name dto,
                  b_description = cbd_description dto, b_createdAt = t\<rparr>
       in andThen (writeDb (\<lambda>d. d\<lparr>boards := boards d @ [row]\<rparr>)) (\<lambda>_. ret row)))"

text \<open>\<open>where: { id, workspaceId }\<close>.\<close>

definition boardKey :: "ident \<Rightarrow> ident \<Rightarrow> board_row \<Rightarrow> bool" where
  "boardKey workspaceId boardId b \<longleftrightarrow> b_id b = boardId \<and> b_workspaceId b = workspaceId"

section \<open>Operations\<close>

definition board_list :: "ident \<Rightarrow> board_row list request" where
  "board_list workspaceId =
     readDb (\<lambda>d. sort_key b_createdAt (filter (\<lambda>b. b_workspaceId b = workspaceId) (boards d)))"

definition board_listTemplates :: "ident \<Rightarrow> string option \<Rightarrow> board_template list request" where
  "board_listTemplates actorId acceptLanguage =
     andThen (locale_resolve (Some actorId) acceptLanguage) (\<lambda>l. ret (boardTemplatesFor l))"

definition board_create :: "ident \<Rightarrow> ident \<Rightarrow> create_board_dto \<Rightarrow> string option \<Rightarrow> board_row request" where
  "board_create workspaceId actorId dto acceptLanguage =
     andThen (locale_resolve (Some actorId) acceptLanguage) (\<lambda>l.
       let seedColumns = fst (seedFor dto l); seedLabels = snd (seedFor dto l)
       in transaction
         (andThen (assertBoardAvailable workspaceId) (\<lambda>_.
          andThen (createBoardRow workspaceId dto) (\<lambda>created.
          andThen (forEach seedColumns (seedColumn (b_id created))) (\<lambda>_.
          andThen (forEach seedLabels (seedLabel (b_id created))) (\<lambda>_.
          andThen (recordActivity workspaceId None actorId BoardCreated
            (JObj ([(''boardId'', JStr (b_id created)), (''name'', JStr (b_name created)),
                    (''seededColumns'', JArr (map (\<lambda>c. JStr (dc_name c)) seedColumns))] @
                   (case cbd_template dto of None \<Rightarrow> [] | Some slug \<Rightarrow> [(''template'', JStr (slug_name slug))]) @
                   (if seedLabels \<noteq> []
                    then [(''seededLabels'', JArr (map (\<lambda>l. JStr (dl_name l)) seedLabels))] else [])))) (\<lambda>_.
            ret created)))))))"

definition board_get :: "ident \<Rightarrow> ident \<Rightarrow> board_row request" where
  "board_get workspaceId boardId = assertBoard workspaceId boardId"

definition board_update :: "ident \<Rightarrow> ident \<Rightarrow> ident \<Rightarrow> update_board_dto \<Rightarrow> board_row request" where
  "board_update workspaceId boardId actorId dto =
     transaction
       (andThen (readDb (\<lambda>d. find (boardKey workspaceId boardId) (boards d))) (\<lambda>found.
        andThen (orThrow (NotFound ''Board not found'') found) (\<lambda>scoped.
        let f = (\<lambda>b. b\<lparr>b_name := (case ubd_name dto of None \<Rightarrow> b_name b | Some v \<Rightarrow> v),
                     b_description := (case ubd_description dto of None \<Rightarrow> b_description b | Some v \<Rightarrow> v)\<rparr>);
            updated = f scoped
        in andThen (writeDb (\<lambda>d. d\<lparr>boards :=
              map (\<lambda>b. if boardKey workspaceId boardId b then f b else b) (boards d)\<rparr>)) (\<lambda>_.
           andThen (recordActivity workspaceId None actorId BoardUpdated
             (JObj [(''boardId'', JStr boardId), (''name'', JStr (b_name updated)),
                    (''changes'', fieldChanges
                       [(''name'', JStr (b_name scoped), JStr (b_name updated)),
                        (''description'', json_opt_str (b_description scoped),
                           json_opt_str (b_description updated))])])) (\<lambda>_.
             ret updated)))))"

definition board_remove :: "ident \<Rightarrow> ident \<Rightarrow> ident \<Rightarrow> unit request" where
  "board_remove workspaceId boardId actorId =
     transaction
       (andThen (readDb (\<lambda>d. find (boardKey workspaceId boardId) (boards d))) (\<lambda>found.
        andThen (orThrow (NotFound ''Board not found'') found) (\<lambda>scoped.
        andThen (readDb (\<lambda>d. length (filter (\<lambda>t. t_boardId t = boardId) (tasks d)))) (\<lambda>taskCount.
        andThen (recordActivity workspaceId None actorId BoardDeleted
          (JObj [(''boardId'', JStr boardId), (''name'', JStr (b_name scoped)),
                 (''taskCount'', JNum (of_nat taskCount))])) (\<lambda>_.
        andThen (readDb (\<lambda>d. length (filter (boardKey workspaceId boardId) (boards d)))) (\<lambda>count.
        andThen (writeDb (delete_boards (boardKey workspaceId boardId))) (\<lambda>_.
          check (count \<noteq> 0) (NotFound ''Board not found''))))))))"

section \<open>Seeding\<close>

definition seededLabel :: "world \<Rightarrow> ident \<Rightarrow> nat \<Rightarrow> default_label \<Rightarrow> label_row" where
  "seededLabel s boardId i lab =
     \<lparr>l_id = uuids s (drawn s + i), l_boardId = boardId, l_name = dl_name lab, l_color = dl_color lab\<rparr>"

definition seededLabels :: "world \<Rightarrow> ident \<Rightarrow> default_label list \<Rightarrow> label_row list" where
  "seededLabels s boardId labs = map (\<lambda>i. seededLabel s boardId i (labs ! i)) [0..<length labs]"

lemma andThen_seedLabel [run]:
  "andThen (seedLabel b lab) f s =
     f () (s\<lparr>drawn := Suc (drawn s),
             db := (db s)\<lparr>labels := labels (db s) @ [seededLabel s b 0 lab]\<rparr>\<rparr>)"
  by (simp add: seedLabel_def createLabel_def seededLabel_def run Let_def)

lemma seedLabels_run [run]:
  "forEach labs (seedLabel b) s =
     (Inr (), s\<lparr>drawn := drawn s + length labs,
                db := (db s)\<lparr>labels := labels (db s) @ seededLabels s b labs\<rparr>\<rparr>)"
proof (induction labs arbitrary: s)
  case Nil
  then show ?case by (simp add: run seededLabels_def)
next
  case (Cons c cs)
  have "seededLabels s b (c # cs) = seededLabel s b 0 c # map (\<lambda>i. seededLabel s b (Suc i) (cs ! i)) [0..<length cs]"
    unfolding seededLabels_def list.size One_nat_def add_Suc_right add_0_right map_upt_Cons by simp
  moreover have "seededLabels (s\<lparr>drawn := Suc (drawn s), db := D\<rparr>) b cs =
      map (\<lambda>i. seededLabel s b (Suc i) (cs ! i)) [0..<length cs]" for D
    by (simp add: seededLabels_def seededLabel_def)
  ultimately show ?case
    by (simp add: andThen_seedLabel Cons.IH)
qed

lemma andThen_seedLabels [run]:
  "andThen (forEach labs (seedLabel b)) f s =
     f () (s\<lparr>drawn := drawn s + length labs,
             db := (db s)\<lparr>labels := labels (db s) @ seededLabels s b labs\<rparr>\<rparr>)"
  by (simp add: andThen_def seedLabels_run)

section \<open>Creation\<close>

lemma limitsFor_congruence [simp]: "limitsFor w (s\<lparr>drawn := k, db := D\<rparr>) = limitsFor w (s\<lparr>db := D\<rparr>)"
  by (simp add: limitsFor_def)

lemma board_create_ok:
  assumes "board_create w a dto h s = (Inr row, s')"
  defines "seed \<equiv> seedFor dto (localeFor (db s) a h)"
  obtains limits entry where
    "limitsFor w s = Inr limits" and "room (boardCount w (db s)) (wl_boards limits)"
    and "row = \<lparr>b_id = uuids s (drawn s), b_workspaceId = w, b_name = cbd_name dto,
               b_description = cbd_description dto, b_createdAt = clock s\<rparr>"
    and "db s' = (db s)\<lparr>boards := boards (db s) @ [row],
            columns := columns (db s) @ seededColumns (s\<lparr>drawn := Suc (drawn s)\<rparr>) (b_id row) (fst seed),
            labels := labels (db s) @ seededLabels (s\<lparr>drawn := Suc (drawn s) + length (fst seed)\<rparr>) (b_id row) (snd seed),
            activities := activities (db s) @ [entry]\<rparr>"
    and "ac_workspaceId entry = w" and "ac_userId entry = a" and "ac_taskId entry = None"
    and "ac_type entry = BoardCreated" and "outbox s' = outbox s"
proof -
  obtain limits where lim: "limitsFor w s = Inr limits" "room (boardCount w (db s)) (wl_boards limits)"
    using assms(1) by (auto simp: board_create_def run transaction_ok Let_def split: sum.splits if_splits)
  let ?n = "Suc (drawn s) + length (fst seed) + length (snd seed)"
  show ?thesis
  proof (rule that [OF lim])
  qed (use assms(1) lim in \<open>auto simp: board_create_def createBoardRow_def run transaction_ok Let_def seed_def
      seededColumns_def seededColumn_def seededLabels_def seededLabel_def\<close>)
qed

text \<open>Rows of a new parent, in increasing positions, are listed in the order they were written.\<close>

lemma listing_of_new:
  assumes "\<forall>x \<in> set T. \<not> S x" and "\<forall>x \<in> set Z. S x" and "sorted_wrt (\<lambda>a b. rpos a < rpos b) Z"
  shows "listing rid rpos S (T @ Z) = Z"
proof -
  have "sorted_wrt (\<lambda>a b. (rpos a, rid a) \<le> (rpos b, rid b)) Z"
    by (rule sorted_wrt_mono_rel [OF _ assms(3)]) auto
  then have "sorted (map (\<lambda>r. (rpos r, rid r)) Z)"
    by (simp add: sorted_wrt_map)
  moreover have "filter S (T @ Z) = Z"
    using assms(1,2) by (simp add: filter_empty_conv filter_id_conv)
  ultimately show ?thesis
    by (simp add: listing_def sort_key_id_if_sorted)
qed

lemma seededColumns_facts:
  "map c_name (seededColumns s b cols) = map dc_name cols"
  "map c_category (seededColumns s b cols) = map dc_category cols"
  "map c_position (seededColumns s b cols) = map dc_position cols"
  "\<forall>c \<in> set (seededColumns s b cols). c_boardId c = b"
  "length (seededColumns s b cols) = length cols"
  by (auto simp: seededColumns_def seededColumn_def comp_def intro: nth_equalityI)

lemma seedFor_increasing: "sorted_wrt (\<lambda>a b. dc_position a < dc_position b) (fst (seedFor dto l))"
proof (cases "cbd_template dto")
  case None
  then show ?thesis by (simp add: seedFor_def defaultColumns_increasing)
next
  case (Some slug)
  with template_ok_all [of slug l] show ?thesis
    by (simp add: seedFor_def Let_def template_ok_def)
qed

lemma board_create_columns:
  assumes ok: "board_create w a dto h s = (Inr row, s')"
    and fresh: "\<forall>c \<in> set (columns (db s)). c_boardId c \<noteq> uuids s (drawn s)"
  shows "map (\<lambda>c. (c_name c, c_category c)) (columnsOf (b_id row) (columns (db s'))) =
         map (\<lambda>c. (dc_name c, dc_category c)) (fst (seedFor dto (localeFor (db s) a h)))"
    and "sorted_wrt (\<lambda>a b. c_position a < c_position b) (columnsOf (b_id row) (columns (db s')))"
proof -
  define cols where "cols = fst (seedFor dto (localeFor (db s) a h))"
  obtain limits entry where c: "row = \<lparr>b_id = uuids s (drawn s), b_workspaceId = w, b_name = cbd_name dto,
               b_description = cbd_description dto, b_createdAt = clock s\<rparr>"
    "columns (db s') = columns (db s) @ seededColumns (s\<lparr>drawn := Suc (drawn s)\<rparr>) (b_id row) cols"
    by (rule board_create_ok [OF ok]) (simp add: cols_def)
  define Z where "Z = seededColumns (s\<lparr>drawn := Suc (drawn s)\<rparr>) (b_id row) cols"
  have "sorted_wrt (<) (map c_position Z)"
    unfolding Z_def seededColumns_facts using seedFor_increasing by (simp add: cols_def sorted_wrt_map)
  then have inc: "sorted_wrt (\<lambda>a b. c_position a < c_position b) Z" by (simp add: sorted_wrt_map)
  then have "columnsOf (b_id row) (columns (db s')) = Z"
    unfolding columnsOf_def c(2) Z_def [symmetric]
    using fresh c(1) seededColumns_facts(4) by (intro listing_of_new) (auto simp: Z_def)
  moreover have "map (\<lambda>c. (c_name c, c_category c)) Z = map (\<lambda>c. (dc_name c, dc_category c)) cols"
    by (auto simp: Z_def seededColumns_def seededColumn_def intro: nth_equalityI)
  ultimately show "map (\<lambda>c. (c_name c, c_category c)) (columnsOf (b_id row) (columns (db s'))) =
      map (\<lambda>c. (dc_name c, dc_category c)) (fst (seedFor dto (localeFor (db s) a h)))"
    "sorted_wrt (\<lambda>a b. c_position a < c_position b) (columnsOf (b_id row) (columns (db s')))"
    using inc by (simp_all add: cols_def)
qed

lemma board_create_count:
  assumes "board_create w a dto h s = (Inr row, s')" and "limitsFor w s = Inr limits"
    and "wl_boards limits = Some n"
  shows "boardCount w (db s') = Suc (boardCount w (db s))" and "boardCount w (db s') \<le> n"
proof -
  obtain entry where "room (boardCount w (db s)) (wl_boards limits)"
    and "boards (db s') = boards (db s) @ [row]" and "b_workspaceId row = w"
    by (rule board_create_ok [OF assms(1)]) (use assms(2) in simp)
  then show "boardCount w (db s') = Suc (boardCount w (db s))" and "boardCount w (db s') \<le> n"
    using assms(3) by (auto simp: boardCount_def room_def)
qed

lemma board_create_integrity:
  assumes ok: "board_create w a dto h s = (Inr row, s')" and ri: "ref_integrity (db s)"
    and w: "\<exists>x \<in> set (workspaces (db s)). w_id x = w" and a: "\<exists>u \<in> set (users (db s)). u_id u = a"
  shows "ref_integrity (db s')"
proof -
  define seed where "seed = seedFor dto (localeFor (db s) a h)"
  obtain limits entry where c: "limitsFor w s = Inr limits" "room (boardCount w (db s)) (wl_boards limits)"
    "row = \<lparr>b_id = uuids s (drawn s), b_workspaceId = w, b_name = cbd_name dto,
       b_description = cbd_description dto, b_createdAt = clock s\<rparr>"
    "db s' = (db s)\<lparr>boards := boards (db s) @ [row],
       columns := columns (db s) @ seededColumns (s\<lparr>drawn := Suc (drawn s)\<rparr>) (b_id row) (fst seed),
       labels := labels (db s) @ seededLabels (s\<lparr>drawn := Suc (drawn s) + length (fst seed)\<rparr>) (b_id row) (snd seed),
       activities := activities (db s) @ [entry]\<rparr>"
    "ac_workspaceId entry = w" "ac_userId entry = a" "ac_taskId entry = None"
    "ac_type entry = BoardCreated" "outbox s' = outbox s"
    by (rule board_create_ok [OF ok, folded seed_def])
  have "refs (seededColumns t b cols) c_boardId (bs @ [row]) b_id" if "b = b_id row" for t b cols bs
    using seededColumns_facts(4) that by (fastforce simp: refs_def)
  moreover have "refs (seededLabels t b cols) l_boardId (bs @ [row]) b_id" if "b = b_id row" for t b cols bs
    using that by (auto simp: refs_def seededLabels_def seededLabel_def)
  ultimately show ?thesis
    using ri w a c(3,5-7) unfolding c(4)
    by (simp add: ref_integrity_def refs_append_target)
qed

section \<open>Removal\<close>

lemma board_remove_iff: "fst (board_remove w b a s) = Inr () \<longleftrightarrow> boardIn (db s) w b"
  by (auto simp: board_remove_def run transaction_def boardIn_def list_ex_iff boardKey_def find_None_iff
      filter_empty_conv Let_def split: option.splits prod.splits sum.splits if_splits
      dest!: find_Some_iff_mem)

lemma board_remove_ok:
  assumes "board_remove w b a s = (Inr (), s')"
  obtains row where "row \<in> set (boards (db s))" and "b_id row = b" and "b_workspaceId row = w"
    and "db s' = delete_boards (boardKey w b)
           ((db s)\<lparr>activities := activities (db s) @
              [activityFor s w None a BoardDeleted
                (JObj [(''boardId'', JStr b), (''name'', JStr (b_name row)),
                   (''taskCount'', JNum (of_nat (length (filter (\<lambda>t. t_boardId t = b) (tasks (db s))))))])]\<rparr>)"
proof -
  obtain row where row: "find (boardKey w b) (boards (db s)) = Some row"
    using assms by (auto simp: board_remove_def run transaction_ok split: option.splits)
  then have "row \<in> set (boards (db s))" "b_id row = b" "b_workspaceId row = w"
    by (auto dest: find_Some_iff_mem simp: boardKey_def)
  then show ?thesis
    by (rule that) (use assms row in \<open>auto simp: board_remove_def run transaction_ok split: if_splits\<close>)
qed

text \<open>Nothing of the board is left, and what is not of the board is untouched.\<close>

lemma board_remove_rows:
  assumes "board_remove w b a s = (Inr (), s')"
  shows "columns (db s') = filter (\<lambda>c. c_boardId c \<noteq> b) (columns (db s))"
    and "tasks (db s') = filter (\<lambda>t. t_boardId t \<noteq> b) (tasks (db s))"
    and "labels (db s') = filter (\<lambda>l. l_boardId l \<noteq> b) (labels (db s))"
    and "boards (db s') = filter (\<lambda>x. \<not> boardKey w b x) (boards (db s))"
proof -
  obtain row entry where c: "row \<in> set (boards (db s))" "b_id row = b" "b_workspaceId row = w"
    "db s' = delete_boards (boardKey w b) ((db s)\<lparr>activities := entry\<rparr>)"
    by (rule board_remove_ok [OF assms]) blast
  then have "b_id ` {x \<in> set (boards (db s)). boardKey w b x} = {b}"
    by (auto simp: boardKey_def)
  then show "columns (db s') = filter (\<lambda>c. c_boardId c \<noteq> b) (columns (db s))"
    "tasks (db s') = filter (\<lambda>t. t_boardId t \<noteq> b) (tasks (db s))"
    "labels (db s') = filter (\<lambda>l. l_boardId l \<noteq> b) (labels (db s))"
    "boards (db s') = filter (\<lambda>x. \<not> boardKey w b x) (boards (db s))"
    by (simp_all add: c(4) delete_boards_tables)
qed

lemma board_remove_integrity:
  assumes ok: "board_remove w b a s = (Inr (), s')" and ri: "ref_integrity (db s)"
    and a: "\<exists>u \<in> set (users (db s)). u_id u = a"
  shows "ref_integrity (db s')"
proof -
  obtain row p where c: "row \<in> set (boards (db s))" "b_workspaceId row = w"
    "db s' = delete_boards (boardKey w b)
       ((db s)\<lparr>activities := activities (db s) @ [activityFor s w None a BoardDeleted p]\<rparr>)"
    by (rule board_remove_ok [OF ok]) blast
  have "\<exists>x \<in> set (workspaces (db s)). w_id x = w"
    using ri c(1,2) by (auto simp: ref_integrity_def refs_def)
  with ri a show ?thesis
    unfolding c(3) by (intro delete_boards_integrity log_integrity) simp_all
qed

end
