(* ===== verification/Labels.thy ===== *)
theory Labels
  imports TaskLinks Boards
begin

text \<open>
  \<open>apps/api/src/label/label.service.ts\<close>: the labels of a board. A creation and its audit entry
  are two statements without a transaction; a change and a removal are one transaction each.
\<close>

section \<open>Operations\<close>

record update_label_dto =
  uld_name :: "string option"
  uld_color :: "string option"

definition labelKey :: "database \<Rightarrow> ident \<Rightarrow> ident \<Rightarrow> label_row \<Rightarrow> bool" where
  "labelKey d workspaceId labelId l \<longleftrightarrow> l_id l = labelId \<and> boardIn d workspaceId (l_boardId l)"

definition label_list :: "ident \<Rightarrow> ident \<Rightarrow> label_row list request" where
  "label_list workspaceId boardId =
     andThen (assertBoard workspaceId boardId) (\<lambda>_.
       readDb (\<lambda>d. map toLabelDto
         (sort_key (\<lambda>l. (l_name l, l_id l)) (filter (\<lambda>l. l_boardId l = boardId) (labels d)))))"

definition label_create :: "ident \<Rightarrow> ident \<Rightarrow> ident \<Rightarrow> string \<Rightarrow> string \<Rightarrow> label_row request" where
  "label_create workspaceId boardId actorId name color =
     andThen (assertBoard workspaceId boardId) (\<lambda>_.
     andThen (createLabel boardId name color) (\<lambda>created.
     andThen (recordActivity workspaceId None actorId LabelCreated
       (JObj [(''labelId'', JStr (l_id created)), (''boardId'', JStr boardId),
              (''name'', JStr (l_name created)), (''color'', JStr (l_color created))])) (\<lambda>_.
       ret (toLabelDto created))))"

definition label_update :: "ident \<Rightarrow> ident \<Rightarrow> ident \<Rightarrow> update_label_dto \<Rightarrow> label_row request" where
  "label_update workspaceId labelId actorId dto =
     andThen (transaction
       (andThen (readDb (\<lambda>d. find (labelKey d workspaceId labelId) (labels d))) (\<lambda>found.
        andThen (orThrow (NotFound ''Label not found'') found) (\<lambda>scoped.
        let f = (\<lambda>l. l\<lparr>l_name := (case uld_name dto of None \<Rightarrow> l_name l | Some v \<Rightarrow> v),
                     l_color := (case uld_color dto of None \<Rightarrow> l_color l | Some v \<Rightarrow> v)\<rparr>);
            row = f scoped
        in andThen (writeDb (\<lambda>d. d\<lparr>labels :=
              map (\<lambda>l. if labelKey d workspaceId labelId l then f l else l) (labels d)\<rparr>)) (\<lambda>_.
           andThen (recordActivity workspaceId None actorId LabelUpdated
             (JObj [(''labelId'', JStr labelId), (''boardId'', JStr (l_boardId row)), (''name'', JStr (l_name row)),
                    (''changes'', fieldChanges
                       [(''name'', JStr (l_name scoped), JStr (l_name row)),
                        (''color'', JStr (l_color scoped), JStr (l_color row))])])) (\<lambda>_.
             ret row)))))) (\<lambda>updated.
       ret (toLabelDto updated))"

definition label_remove :: "ident \<Rightarrow> ident \<Rightarrow> ident \<Rightarrow> unit request" where
  "label_remove workspaceId labelId actorId =
     transaction
       (andThen (readDb (\<lambda>d. find (labelKey d workspaceId labelId) (labels d))) (\<lambda>found.
        andThen (orThrow (NotFound ''Label not found'') found) (\<lambda>scoped.
        andThen (recordActivity workspaceId None actorId LabelDeleted
          (JObj [(''labelId'', JStr labelId), (''boardId'', JStr (l_boardId scoped)),
                 (''name'', JStr (l_name scoped)), (''color'', JStr (l_color scoped))])) (\<lambda>_.
        andThen (readDb (\<lambda>d. length (filter (labelKey d workspaceId labelId) (labels d)))) (\<lambda>count.
        andThen (writeDb (\<lambda>d. delete_labels (labelKey d workspaceId labelId) d)) (\<lambda>_.
          check (count \<noteq> 0) (NotFound ''Label not found'')))))))"

section \<open>Removal strips the label from every task\<close>

lemma labelKey_activities [simp]: "labelKey (d\<lparr>activities := A\<rparr>) w k = labelKey d w k"
  by (simp add: labelKey_def fun_eq_iff)

lemma label_remove_ok:
  assumes "label_remove w k a s = (Inr (), s')"
  obtains row p where "row \<in> set (labels (db s))" "l_id row = k" "boardIn (db s) w (l_boardId row)"
    "db s' = delete_labels (labelKey (db s) w k)
       ((db s)\<lparr>activities := activities (db s) @ [activityFor s w None a LabelDeleted p]\<rparr>)"
proof -
  obtain row where row: "find (labelKey (db s) w k) (labels (db s)) = Some row"
    using assms by (auto simp: label_remove_def run transaction_ok split: option.splits)
  then have r: "row \<in> set (labels (db s))" "l_id row = k" "boardIn (db s) w (l_boardId row)"
    by (auto dest: find_Some_iff_mem simp: labelKey_def)
  show ?thesis
    by (rule that [OF r]) (use assms row in \<open>auto simp: label_remove_def run transaction_ok split: if_splits\<close>)
qed

lemma label_remove_rows:
  assumes ok: "label_remove w k a s = (Inr (), s')" and ids: "distinct (map l_id (labels (db s)))"
  shows "labels (db s') = filter (\<lambda>l. l_id l \<noteq> k) (labels (db s))"
    and "task_labels (db s') = filter (\<lambda>x. tl_labelId x \<noteq> k) (task_labels (db s))"
    and "tasks (db s') = tasks (db s)"
proof -
  obtain row p where c: "row \<in> set (labels (db s))" "l_id row = k" "boardIn (db s) w (l_boardId row)"
    "db s' = delete_labels (labelKey (db s) w k)
       ((db s)\<lparr>activities := activities (db s) @ [activityFor s w None a LabelDeleted p]\<rparr>)"
    by (rule label_remove_ok [OF ok])
  have only: "labelKey (db s) w k l \<longleftrightarrow> l_id l = k" if "l \<in> set (labels (db s))" for l
  proof -
    have "l = row" if "l_id l = k"
      using that \<open>l \<in> set (labels (db s))\<close> c(1,2) ids by (simp add: distinct_map inj_on_def)
    with c(3) show ?thesis by (auto simp: labelKey_def)
  qed
  then have "l_id ` {l \<in> set (labels (db s)). labelKey (db s) w k l} = {k}"
    using c(1,2) by auto
  with only show "labels (db s') = filter (\<lambda>l. l_id l \<noteq> k) (labels (db s))"
    "task_labels (db s') = filter (\<lambda>x. tl_labelId x \<noteq> k) (task_labels (db s))"
    "tasks (db s') = tasks (db s)"
    by (auto simp: c(4) delete_labels_def Let_def intro!: filter_cong)
qed

lemma label_remove_integrity:
  assumes ok: "label_remove w k a s = (Inr (), s')" and ri: "ref_integrity (db s)"
    and a: "\<exists>x \<in> set (users (db s)). u_id x = a"
  shows "ref_integrity (db s')"
proof -
  obtain row p where c: "row \<in> set (labels (db s))" "boardIn (db s) w (l_boardId row)"
    "db s' = delete_labels (labelKey (db s) w k)
       ((db s)\<lparr>activities := activities (db s) @ [activityFor s w None a LabelDeleted p]\<rparr>)"
    by (rule label_remove_ok [OF ok]) blast
  have "\<exists>x \<in> set (workspaces (db s)). w_id x = w"
    using ri c(2) by (auto simp: ref_integrity_def refs_def boardIn_def list_ex_iff)
  with ri a show ?thesis
    unfolding c(3) by (intro delete_labels_integrity log_integrity) simp_all
qed

text \<open>The colour a client reads is always a slot of the palette.\<close>

lemma label_list_slots:
  "fst (label_list w b s) = Inr ls \<Longrightarrow> l_color ` set ls \<subseteq> set LABEL_SLOTS"
  by (auto simp: label_list_def run toLabelDto_def toLabelColorSlot_slot split: option.splits)

end
