(* ===== verification/Comments.thy ===== *)
theory Comments
  imports Tasks
begin

text \<open>
  \<open>apps/api/src/comment/comment.service.ts\<close> with the mention markup of \<open>common/mentions/\<close>
  (\<open>parse-mentions.ts\<close>, \<open>redact-mentions.ts\<close>): what a comment's body mentions, who is
  notified of it, who may delete it, and how an anonymised user's name leaves the bodies.
\<close>

section \<open>Mention markup\<close>

definition MAX_MENTION_NAME :: nat where
  "MAX_MENTION_NAME = 200"

text \<open>\<open>[0-9a-f]\<close> and \<open>[89ab]\<close> under the \<open>i\<close> flag, and the UUIDv7 shape.\<close>

definition is_hex :: "char \<Rightarrow> bool" where
  "is_hex c \<longleftrightarrow> is_digit c \<or> lower_char c \<in> set ''abcdef''"

definition uuid_v7_shape :: "(char \<Rightarrow> bool) list" where
  "uuid_v7_shape = replicate 8 is_hex @ [\<lambda>c. c = CHR ''-''] @ replicate 4 is_hex @ [\<lambda>c. c = CHR ''-''] @
     [\<lambda>c. c = CHR ''7''] @ replicate 3 is_hex @ [\<lambda>c. c = CHR ''-''] @
     [\<lambda>c. lower_char c \<in> set ''89ab''] @ replicate 3 is_hex @ [\<lambda>c. c = CHR ''-''] @ replicate 12 is_hex"

definition isUuidV7 :: "string \<Rightarrow> bool" where
  "isUuidV7 s \<longleftrightarrow> list_all2 (\<lambda>p c. p c) uuid_v7_shape s"

text \<open>
  A match of \<open>@\[([^\]]{0,200})\]\((id)\)\<close> at the head of the text, for ids of \<open>n\<close> characters
  that \<open>ok\<close> accepts: the name, the id and what follows. A name cannot contain \<open>]\<close>, so it
  is all the text up to the first one.
\<close>

definition mentionMatch :: "nat \<Rightarrow> (string \<Rightarrow> bool) \<Rightarrow> string \<Rightarrow> (string \<times> string \<times> string) option" where
  "mentionMatch n ok s =
     (let name = takeWhile (\<lambda>c. c \<noteq> CHR '']'') (drop 2 s);
          r = drop (2 + length name) s;
          ident = take n (drop 2 r)
      in if take 2 s = ''@['' \<and> length name \<le> MAX_MENTION_NAME \<and> take 2 r = ''](''
            \<and> ok ident \<and> take 1 (drop (2 + n) r) = '')''
         then Some (name, ident, drop (3 + n) r) else None)"

lemma mentionMatch_shorter: "mentionMatch n ok s = Some (name, i, rest) \<Longrightarrow> length rest < length s"
  by (cases s) (auto simp: mentionMatch_def Let_def split: if_splits)

text \<open>\<open>matchAll\<close> with the global flag: the next search starts after the match.\<close>

function scanMentions :: "string \<Rightarrow> string list" where
  "scanMentions [] = []"
| "scanMentions (c # cs) =
     (case mentionMatch 36 isUuidV7 (c # cs) of
        None \<Rightarrow> scanMentions cs
      | Some (name, i, rest) \<Rightarrow> i # scanMentions rest)"
  by pat_completeness auto
termination
  by (relation "measure length") (auto dest: mentionMatch_shorter)

definition parseMentions :: "string \<Rightarrow> ident list" where
  "parseMentions body = unique (scanMentions body)"

text \<open>
  The replacement text of \<open>String.replace\<close>: \<open>$$\<close>, \<open>$&\<close>, and the text before or after the match
  are substituted; any other \<open>$\<close> stands for itself, the pattern having no groups.
\<close>

fun substitution :: "string \<Rightarrow> string \<Rightarrow> string \<Rightarrow> string \<Rightarrow> string" where
  "substitution before matched after [] = []"
| "substitution before matched after [c] = [c]"
| "substitution before matched after (c # e # cs) =
     (if c \<noteq> CHR ''$'' then c # substitution before matched after (e # cs)
      else if e = CHR ''$'' then c # substitution before matched after cs
      else if e = CHR ''&'' then matched @ substitution before matched after cs
      else if e = CHR 0x60 then before @ substitution before matched after cs
      else if e = CHR 0x27 then after @ substitution before matched after cs
      else c # substitution before matched after (e # cs))"

definition DEFAULT_MENTION_REDACTION :: string where
  "DEFAULT_MENTION_REDACTION = ''Deleted user''"

function redactFrom :: "string \<Rightarrow> string \<Rightarrow> string \<Rightarrow> string \<Rightarrow> string" where
  "redactFrom userId replacement before [] = []"
| "redactFrom userId replacement before (c # cs) =
     (case mentionMatch (length userId) (\<lambda>i. js_lower i = js_lower userId) (c # cs) of
        None \<Rightarrow> c # redactFrom userId replacement (before @ [c]) cs
      | Some (name, i, rest) \<Rightarrow>
          let matched = take (length (c # cs) - length rest) (c # cs)
          in substitution before matched rest (''@['' @ replacement @ ''](''  @ userId @ '')'') @
             redactFrom userId replacement (before @ matched) rest)"
  by pat_completeness auto
termination
  by (relation "measure (\<lambda>(u, r, b, s). length s)") (auto dest: mentionMatch_shorter)

definition redactMentionsOf :: "string \<Rightarrow> ident \<Rightarrow> string \<Rightarrow> string" where
  "redactMentionsOf body userId replacement = redactFrom userId replacement [] body"

section \<open>Operations\<close>

record comment_dto =
  cmd_row :: comment_row
  cmd_author :: "author_dto option"

definition toCommentDto :: "database \<Rightarrow> comment_row \<Rightarrow> comment_dto" where
  "toCommentDto d row = \<lparr>cmd_row = row, cmd_author = authorOf d (cm_userId row)\<rparr>"

definition commentTask :: "ident \<Rightarrow> ident \<Rightarrow> task_row request" where
  "commentTask workspaceId taskId =
     andThen (readDb (\<lambda>d. find (\<lambda>t. t_id t = taskId \<and> boardIn d workspaceId (t_boardId t)) (tasks d)))
       (orThrow (NotFound ''Task not found''))"

definition commentThread :: "ident \<Rightarrow> database \<Rightarrow> comment_row list" where
  "commentThread taskId d = sort_key cm_id (filter (\<lambda>c. cm_taskId c = taskId) (comments d))"

definition comment_list ::
    "ident \<Rightarrow> ident \<Rightarrow> ident option \<Rightarrow> nat option \<Rightarrow> comment_dto cursor_page request" where
  "comment_list workspaceId taskId cursor limit =
     andThen (commentTask workspaceId taskId) (\<lambda>_.
       let lim = (case limit of None \<Rightarrow> 100 | Some n \<Rightarrow> n);
           cur = (if truthy cursor then cursor else None)
       in readDb (\<lambda>d. toCursorPage cm_id
            (cursorQuery cm_id (\<lambda>c i. c < i) cur lim (commentThread taskId d)) lim (toCommentDto d)))"

definition insertComment :: "ident \<Rightarrow> ident \<Rightarrow> string \<Rightarrow> comment_row request" where
  "insertComment taskId userId body =
     andThen freshId (\<lambda>newId. andThen now (\<lambda>t.
       let row = \<lparr>cm_id = newId, cm_taskId = taskId, cm_userId = userId, cm_body = body, cm_createdAt = t\<rparr>
       in andThen (writeDb (\<lambda>d. d\<lparr>comments := comments d @ [row]\<rparr>)) (\<lambda>_. ret row)))"

definition membersAmong :: "ident \<Rightarrow> ident list \<Rightarrow> database \<Rightarrow> ident list" where
  "membersAmong workspaceId userIds d =
     map m_userId (filter (\<lambda>m. m_workspaceId m = workspaceId \<and> m_userId m \<in> set userIds) (members d))"

definition mentionInput :: "ident \<Rightarrow> ident \<Rightarrow> ident \<Rightarrow> ident \<Rightarrow> mail_input" where
  "mentionInput workspaceId actorId taskId recipientId =
     \<lparr>mi_workspaceId = workspaceId, mi_userId = recipientId, mi_actorId = Some actorId,
      mi_type = Mention, mi_taskId = taskId\<rparr>"

definition comment_create :: "ident \<Rightarrow> ident \<Rightarrow> ident \<Rightarrow> string \<Rightarrow> comment_dto request" where
  "comment_create workspaceId taskId userId body =
     andThen (commentTask workspaceId taskId) (\<lambda>task.
       let mentionIds = filter (\<lambda>i. i \<noteq> userId) (parseMentions body) in
     andThen (transaction
       (andThen (insertComment taskId userId body) (\<lambda>created.
        andThen (readDb (\<lambda>d. if mentionIds \<noteq> [] then membersAmong workspaceId mentionIds d else [])) (\<lambda>memberIds.
        andThen (recordActivity workspaceId (Some taskId) userId CommentCreated
          (JObj [(''commentId'', JStr (cm_id created)), (''title'', JStr (t_title task)),
                 (''mentionedUserIds'', JArr (map JStr memberIds))])) (\<lambda>activity.
        andThen (whenever (memberIds \<noteq> [])
          (andThen (createMentionBatch workspaceId userId taskId (Some (ac_id activity)) memberIds
             (JObj [(''commentId'', JStr (cm_id created)), (''taskId'', JStr taskId),
                    (''title'', JStr (t_title task)), (''actorId'', JStr userId)])) (\<lambda>_. ret ()))) (\<lambda>_.
        andThen (readDb (\<lambda>d. toCommentDto d created)) (\<lambda>dto.
          ret (dto, memberIds)))))))) (\<lambda>(comment, mentionRecipients).
     andThen (whenever (mentionRecipients \<noteq> [])
       (andThen (emitUnreadChanged workspaceId mentionRecipients) (\<lambda>_.
          sendForCreated (map (mentionInput workspaceId userId taskId) mentionRecipients)))) (\<lambda>_.
     andThen (emitToBoard (t_boardId task) COMMENT_ADDED workspaceId userId
       [(''taskId'', JStr taskId), (''commentId'', JStr (cm_id (cmd_row comment)))]) (\<lambda>_.
       ret comment))))"

text \<open>\<open>where: { id, task: { board: { workspaceId } } }\<close>.\<close>

definition commentKey :: "database \<Rightarrow> ident \<Rightarrow> ident \<Rightarrow> comment_row \<Rightarrow> bool" where
  "commentKey d workspaceId commentId c \<longleftrightarrow> cm_id c = commentId \<and> taskIn d workspaceId (cm_taskId c)"

definition comment_remove :: "ident \<Rightarrow> ident \<Rightarrow> ident \<Rightarrow> member_role \<Rightarrow> unit request" where
  "comment_remove workspaceId commentId actorId actorRole =
     transaction
       (andThen (readDb (\<lambda>d. find (commentKey d workspaceId commentId) (comments d))) (\<lambda>found.
        andThen (orThrow (NotFound ''Comment not found'') found) (\<lambda>comment.
        andThen (check (cm_userId comment = actorId \<or> actorRole = OWNER \<or> actorRole = ADMIN)
          (Forbidden ''Only the author or an admin can delete this comment'')) (\<lambda>_.
        andThen (readDb (\<lambda>d. length (filter (commentKey d workspaceId commentId) (comments d)))) (\<lambda>count.
        andThen (writeDb (\<lambda>d. d\<lparr>comments := filter (\<lambda>c. \<not> commentKey d workspaceId commentId c) (comments d)\<rparr>)) (\<lambda>_.
          check (count \<noteq> 0) (NotFound ''Comment not found'')))))))"

interpretation oldest_first: cursor_walk cm_id "\<lambda>c i. c < i"
  by unfold_locales auto


section \<open>Mentions of a written body\<close>

text \<open>
  A body as the picker writes it: pieces of text, each followed by a mention, then a tail.
\<close>

fun written :: "(string \<times> string \<times> ident) list \<Rightarrow> string \<Rightarrow> string" where
  "written [] tail = tail"
| "written ((piece, name, i) # ps) tail =
     piece @ ''@['' @ name @ ''](''  @ i @ '')'' @ written ps tail"

definition picked :: "(string \<times> string \<times> ident) list \<Rightarrow> string \<Rightarrow> bool" where
  "picked ps tail \<longleftrightarrow> CHR ''@'' \<notin> set tail \<and>
     (\<forall>(piece, name, i) \<in> set ps. CHR ''@'' \<notin> set piece \<and> CHR '']'' \<notin> set name \<and>
        length name \<le> MAX_MENTION_NAME \<and> isUuidV7 i)"

lemma uuid_length: "isUuidV7 i \<Longrightarrow> length i = 36"
  by (auto simp: isUuidV7_def uuid_v7_shape_def dest!: list_all2_lengthD)

lemma uuid_chars:
  assumes "isUuidV7 i" and "c \<in> set i"
  shows "is_hex c \<or> c = CHR ''-'' \<or> c = CHR ''7'' \<or> lower_char c \<in> set ''89ab''"
proof -
  have "list_all2 (\<lambda>p c. p c) uuid_v7_shape i" using assms(1) by (simp add: isUuidV7_def)
  then obtain p where "p \<in> set uuid_v7_shape" "p c"
    using assms(2) by (metis in_set_conv_nth list_all2_conv_all_nth)
  then show ?thesis by (auto simp: uuid_v7_shape_def)
qed

lemma uuid_plain:
  assumes "isUuidV7 i"
  shows "CHR ''@'' \<notin> set i" "CHR '']'' \<notin> set i" "CHR '')'' \<notin> set i" "CHR ''$'' \<notin> set i"
proof -
  have "\<not> (is_hex c \<or> c = CHR ''-'' \<or> c = CHR ''7'' \<or> lower_char c \<in> set ''89ab'')"
    if "c \<in> {CHR ''@'', CHR '']'', CHR '')'', CHR ''$''}" for c
    using that by (auto simp: is_hex_def is_digit_def lower_char_def)
  then show "CHR ''@'' \<notin> set i" "CHR '']'' \<notin> set i" "CHR '')'' \<notin> set i" "CHR ''$'' \<notin> set i"
    using uuid_chars [OF assms] by blast+
qed

lemma mentionMatch_no_at: "c \<noteq> CHR ''@'' \<Longrightarrow> mentionMatch n ok (c # cs) = None"
  by (simp add: mentionMatch_def Let_def)

lemma takeWhile_name: "CHR '']'' \<notin> set name \<Longrightarrow> takeWhile (\<lambda>c. c \<noteq> CHR '']'') (name @ CHR '']'' # r) = name"
  by (simp add: takeWhile_append)

lemma mentionMatch_written:
  assumes "CHR '']'' \<notin> set name" and "length name \<le> MAX_MENTION_NAME" and "length i = n" and "ok i"
  shows "mentionMatch n ok (CHR ''@'' # CHR ''['' # name @ CHR '']'' # CHR ''('' # i @ CHR '')'' # rest) =
     Some (name, i, rest)"
proof -
  have "drop (3 + n) (CHR '']'' # CHR ''('' # i @ CHR '')'' # rest) = rest"
    using assms(3) by (simp add: numeral_3_eq_3)
  then show ?thesis using assms by (simp add: mentionMatch_def Let_def takeWhile_name)
qed

text \<open>A mention of somebody else: no suffix of its name starts a match.\<close>

lemma mentionMatch_other:
  assumes "CHR '']'' \<notin> set name" and "length i = n" and "\<not> ok i"
  shows "mentionMatch n ok (c # name @ CHR '']'' # CHR ''('' # i @ CHR '')'' # rest) = None"
proof (cases name)
  case Nil
  then show ?thesis by (simp add: mentionMatch_def Let_def)
next
  case (Cons e cs)
  then show ?thesis
    using assms by (simp add: mentionMatch_def Let_def takeWhile_name)
qed

lemma scan_text: "CHR ''@'' \<notin> set piece \<Longrightarrow> scanMentions (piece @ s) = scanMentions s"
  by (induction piece) (auto simp: mentionMatch_no_at)

lemma scan_written: "picked ps tail \<Longrightarrow> scanMentions (written ps tail) = map (\<lambda>(piece, name, i). i) ps"
proof (induction ps)
  case Nil
  then show ?case using scan_text [of tail "[]"] by (simp add: picked_def)
next
  case (Cons p ps)
  obtain piece name i where p: "p = (piece, name, i)" by (cases p)
  have "picked ps tail" using Cons.prems by (simp add: picked_def)
  moreover have "CHR ''@'' \<notin> set piece" and "CHR '']'' \<notin> set name" and "length name \<le> MAX_MENTION_NAME"
    and "isUuidV7 i"
    using Cons.prems p by (auto simp: picked_def)
  ultimately show ?case
    using Cons.IH by (simp add: p scan_text mentionMatch_written uuid_length del: scanMentions.simps(1))
qed

section \<open>Redaction of a written body\<close>

text \<open>A stretch without a match is copied.\<close>

lemma redact_copy:
  assumes "\<And>xs y ys. piece = xs @ y # ys \<Longrightarrow>
     mentionMatch (length u) (\<lambda>i. js_lower i = js_lower u) (y # ys @ s) = None"
  shows "redactFrom u r b (piece @ s) = piece @ redactFrom u r (b @ piece) s"
  using assms
proof (induction piece arbitrary: b)
  case Nil
  then show ?case by simp
next
  case (Cons c cs)
  have "mentionMatch (length u) (\<lambda>i. js_lower i = js_lower u) (c # cs @ s) = None"
    using Cons.prems [of "[]"] by simp
  moreover have "redactFrom u r (b @ [c]) (cs @ s) = cs @ redactFrom u r ((b @ [c]) @ cs) s"
    by (rule Cons.IH) (use Cons.prems in \<open>metis append_Cons\<close>)
  ultimately show ?case by simp
qed

lemma substitution_plain: "CHR ''$'' \<notin> set t \<Longrightarrow> substitution b m a t = t"
  by (induction b m a t rule: substitution.induct) auto

definition redacted :: "ident \<Rightarrow> string \<Rightarrow> string \<times> string \<times> ident \<Rightarrow> string \<times> string \<times> ident" where
  "redacted u r = (\<lambda>(piece, name, i). if js_lower i = js_lower u then (piece, r, u) else (piece, name, i))"


lemma redact_none: "CHR ''@'' \<notin> set piece \<Longrightarrow> redactFrom u r b (piece @ s) = piece @ redactFrom u r (b @ piece) s"
  by (rule redact_copy) (auto intro!: mentionMatch_no_at)

lemma redact_other:
  assumes "CHR '']'' \<notin> set name" and "length i = length u" and "js_lower i \<noteq> js_lower u" and "CHR ''@'' \<notin> set i"
  shows "\<exists>b'. redactFrom u r b (''@['' @ name @ ''](''  @ i @ '')'' @ s) =
           ''@['' @ name @ ''](''  @ i @ '')'' @ redactFrom u r b' s"
proof -
  let ?A = "''@['' @ name" and ?B = "''](''  @ i @ '')''"
  have "redactFrom u r b (?A @ ?B @ s) = ?A @ redactFrom u r (b @ ?A) (?B @ s)"
  proof (rule redact_copy)
    fix xs y ys assume A: "?A = xs @ y # ys"
    have "set ys \<subseteq> set ?A" unfolding A by auto
    then have "CHR '']'' \<notin> set ys" using assms(1) by auto
    from mentionMatch_other [OF this assms(2), of "\<lambda>i. js_lower i = js_lower u" y s] assms(3)
    show "mentionMatch (length u) (\<lambda>i. js_lower i = js_lower u) (y # ys @ ?B @ s) = None" by simp
  qed
  moreover have "redactFrom u r (b @ ?A) (?B @ s) = ?B @ redactFrom u r (b @ ?A @ ?B) s"
    using redact_none [of ?B u r "b @ ?A" s] assms(4) by simp
  ultimately show ?thesis by (metis append.assoc)
qed

lemma redact_same:
  assumes "CHR '']'' \<notin> set name" and "length name \<le> MAX_MENTION_NAME" and "length i = length u"
    and "js_lower i = js_lower u" and "CHR ''$'' \<notin> set r" and "CHR ''$'' \<notin> set u"
  shows "\<exists>b'. redactFrom u r b (''@['' @ name @ ''](''  @ i @ '')'' @ s) =
           ''@['' @ r @ ''](''  @ u @ '')'' @ redactFrom u r b' s"
  using assms mentionMatch_written [of name i "length u" "\<lambda>i. js_lower i = js_lower u" s]
  by (simp add: Let_def substitution_plain del: redactFrom.simps(1)) blast

text \<open>
  Redaction rewrites the mentions of the user, whatever the case of the id, to the
  replacement name and the id as given, and keeps every other character of the body.
\<close>

lemma redact_written:
  assumes "picked ps tail" and "isUuidV7 u" and "CHR ''$'' \<notin> set r"
  shows "redactFrom u r b (written ps tail) = written (map (redacted u r) ps) tail"
  using assms(1)
proof (induction ps arbitrary: b)
  case Nil
  then show ?case using redact_none [of tail u r b "[]"] by (simp add: picked_def)
next
  case (Cons p ps)
  obtain piece name i where p: "p = (piece, name, i)" by (cases p)
  have ps: "picked ps tail" using Cons.prems by (simp add: picked_def)
  have head: "CHR ''@'' \<notin> set piece" "CHR '']'' \<notin> set name" "length name \<le> MAX_MENTION_NAME" "isUuidV7 i"
    using Cons.prems p by (auto simp: picked_def)
  let ?rest = "''@['' @ name @ ''](''  @ i @ '')'' @ written ps tail"
  have pre: "redactFrom u r b (written (p # ps) tail) = piece @ redactFrom u r (b @ piece) ?rest"
    using redact_none [OF head(1)] by (simp add: p)
  have len: "length i = length u" using head(4) assms(2) by (simp add: uuid_length)
  show ?case
  proof (cases "js_lower i = js_lower u")
    case True
    from redact_same [OF head(2,3) len True assms(3) uuid_plain(4) [OF assms(2)]]
    obtain b' where "redactFrom u r (b @ piece) ?rest =
        ''@['' @ r @ ''](''  @ u @ '')'' @ redactFrom u r b' (written ps tail)" by blast
    with True pre Cons.IH [OF ps] show ?thesis by (simp add: p redacted_def)
  next
    case False
    from redact_other [OF head(2) len False uuid_plain(1) [OF head(4)]]
    obtain b' where "redactFrom u r (b @ piece) ?rest =
        ''@['' @ name @ ''](''  @ i @ '')'' @ redactFrom u r b' (written ps tail)" by blast
    with False pre Cons.IH [OF ps] show ?thesis by (simp add: p redacted_def)
  qed
qed

section \<open>What the operations do\<close>

lemma andThen_insertComment [run]:
  "andThen (insertComment t u body) f s =
     (let row = \<lparr>cm_id = uuids s (drawn s), cm_taskId = t, cm_userId = u, cm_body = body, cm_createdAt = clock s\<rparr>
      in f row (s\<lparr>drawn := Suc (drawn s), db := (db s)\<lparr>comments := comments (db s) @ [row]\<rparr>\<rparr>))"
  by (simp add: insertComment_def run Let_def)

lemma commentThread_ascending:
  assumes "distinct (map cm_id (comments d))"
  shows "sorted_wrt (\<lambda>a b. cm_id a < cm_id b) (commentThread t d)"
  unfolding commentThread_def by (rule strict_sort_key) (rule distinct_map_filter [OF assms])

text \<open>The members a body addresses: mentioned, in the workspace, and not the author.\<close>

definition addressed :: "database \<Rightarrow> ident \<Rightarrow> ident \<Rightarrow> string \<Rightarrow> ident list" where
  "addressed d workspaceId userId body =
     (let mentionIds = filter (\<lambda>i. i \<noteq> userId) (parseMentions body)
      in if mentionIds \<noteq> [] then membersAmong workspaceId mentionIds d else [])"

lemma membersAmong_comments [simp]: "membersAmong w us (d\<lparr>comments := X\<rparr>) = membersAmong w us d"
  by (simp add: membersAmong_def)

lemma addressed_set:
  "set (addressed d w u body) =
     {m_userId m | m. m \<in> set (members d) \<and> m_workspaceId m = w \<and> m_userId m \<in> set (scanMentions body) \<and> m_userId m \<noteq> u}"
  by (auto simp: addressed_def membersAmong_def parseMentions_def Let_def filter_empty_conv)

lemma comment_remove_cases:
  "comment_remove w k a role s =
     (case find (commentKey (db s) w k) (comments (db s)) of
        None \<Rightarrow> (Inl (NotFound ''Comment not found''), s)
      | Some c \<Rightarrow>
          if cm_userId c = a \<or> role = OWNER \<or> role = ADMIN
          then (Inr (), s\<lparr>db := (db s)\<lparr>comments := filter (\<lambda>c. \<not> commentKey (db s) w k c) (comments (db s))\<rparr>\<rparr>)
          else (Inl (Forbidden ''Only the author or an admin can delete this comment''), s))"
  by (auto simp: comment_remove_def transaction_def run filter_empty_iff split: option.splits)

lemma membersAmong_none [simp]: "(if us \<noteq> [] then membersAmong w us d else []) = membersAmong w us d"
  by (cases us) (simp_all add: membersAmong_def)

lemma mentionRows_facts:
  "map n_userId (mentionRows s w t act us p) = us"
  "n \<in> set (mentionRows s w t act us p) \<Longrightarrow>
     n_workspaceId n = w \<and> n_type n = Mention \<and> n_taskId n = Some t \<and> n_activityId n = act \<and> n_readAt n = None"
  by (auto simp: mentionRows_def storedNotification_def comp_def map_nth)

text \<open>What a comment that was accepted left behind.\<close>

lemma comment_create_ok:
  assumes "comment_create w t u body s = (Inr out, s')"
  defines "rs \<equiv> addressed (db s) w u body"
  shows "\<exists>task. find (\<lambda>x. t_id x = t \<and> boardIn (db s) w (t_boardId x)) (tasks (db s)) = Some task \<and>
      outbox s' = outbox s @ map (\<lambda>r. ToUser w r NOTIFICATION_UNREAD_CHANGED) (unique rs) @
        [ToBoard (t_boardId task) COMMENT_ADDED w u
           [(''taskId'', JStr t), (''commentId'', JStr (cm_id (cmd_row out)))]]"
    and "cm_taskId (cmd_row out) = t \<and> cm_userId (cmd_row out) = u \<and> cm_body (cmd_row out) = body"
    and "comments (db s') = comments (db s) @ [cmd_row out]"
    and "\<exists>N. notifications (db s') = notifications (db s) @ N \<and> map n_userId N = unique rs \<and>
           (\<forall>n \<in> set N. n_workspaceId n = w \<and> n_type n = Mention \<and> n_taskId n = Some t \<and> n_readAt n = None)"
    and "db s' = (db s)\<lparr>comments := comments (db s'), activities := activities (db s'),
                       notifications := notifications (db s')\<rparr>"
proof -
  obtain task where task: "find (\<lambda>x. t_id x = t \<and> boardIn (db s) w (t_boardId x)) (tasks (db s)) = Some task"
    using assms(1) by (auto simp: comment_create_def commentTask_def run split: option.splits)
  have rs: "membersAmong w (filter (\<lambda>i. i \<noteq> u) (parseMentions body)) (db s) = rs"
    by (simp add: rs_def addressed_def Let_def)
  have notme: "mentionRecipients u rs = unique rs"
    using addressed_set [of "db s" w u body] by (auto simp: mentionRecipients_def rs_def intro!: filter_True)
  have run': "comment_create w t u body s = (Inr out, s')" by (fact assms(1))
  show "\<exists>task. find (\<lambda>x. t_id x = t \<and> boardIn (db s) w (t_boardId x)) (tasks (db s)) = Some task \<and>
      outbox s' = outbox s @ map (\<lambda>r. ToUser w r NOTIFICATION_UNREAD_CHANGED) (unique rs) @
        [ToBoard (t_boardId task) COMMENT_ADDED w u
           [(''taskId'', JStr t), (''commentId'', JStr (cm_id (cmd_row out)))]]"
    using run' task notme by (cases "rs = []")
      (auto simp: comment_create_def commentTask_def run andThen_transaction Let_def rs toCommentDto_def
        unique_def split: sum.splits)
  show "cm_taskId (cmd_row out) = t \<and> cm_userId (cmd_row out) = u \<and> cm_body (cmd_row out) = body"
    using run' task notme by (cases "rs = []")
      (auto simp: comment_create_def commentTask_def run andThen_transaction Let_def rs toCommentDto_def
        split: sum.splits)
  show "comments (db s') = comments (db s) @ [cmd_row out]"
    using run' task notme by (cases "rs = []")
      (auto simp: comment_create_def commentTask_def run andThen_transaction Let_def rs toCommentDto_def
        split: sum.splits)
  show "\<exists>N. notifications (db s') = notifications (db s) @ N \<and> map n_userId N = unique rs \<and>
           (\<forall>n \<in> set N. n_workspaceId n = w \<and> n_type n = Mention \<and> n_taskId n = Some t \<and> n_readAt n = None)"
    using run' task notme by (cases "rs = []")
      (auto simp: comment_create_def commentTask_def run andThen_transaction Let_def rs toCommentDto_def
        mentionRows_facts unique_def split: sum.splits)
  show "db s' = (db s)\<lparr>comments := comments (db s'), activities := activities (db s'),
                       notifications := notifications (db s')\<rparr>"
    using run' task notme by (cases "rs = []")
      (auto simp: comment_create_def commentTask_def run andThen_transaction Let_def rs toCommentDto_def
        split: sum.splits)
qed

end
