(* ===== verification/Consistency.thy ===== *)
theory Consistency
  imports Labels Checklists Comments
begin

text \<open>
  Every operation of the board keeps the foreign keys of the tables (\<open>ref_integrity\<close>), whether it
  succeeds or is refused, provided its actor is a user of the database.
\<close>

section \<open>Reading the references\<close>

definition actor :: "ident \<Rightarrow> database \<Rightarrow> bool" where
  "actor a d \<longleftrightarrow> (\<exists>u \<in> set (users d). u_id u = a)"

lemma boardIn_workspace:
  assumes "ref_integrity d" and "boardIn d w b"
  shows "\<exists>x \<in> set (workspaces d). w_id x = w"
  using assms by (auto simp: ref_integrity_def boardIn_def refs_def list_ex_iff)

lemma boardIn_board: "boardIn d w b \<Longrightarrow> \<exists>x \<in> set (boards d). b_id x = b"
  by (auto simp: boardIn_def list_ex_iff)

lemma taskIn_task: "taskIn d w t \<Longrightarrow> \<exists>x \<in> set (tasks d). t_id x = t \<and> boardIn d w (t_boardId x)"
  by (auto simp: taskIn_def list_ex_iff)

lemmas integrity_facts = ref_integrity_def actor_def

section \<open>Boards, columns, labels\<close>

lemma board_update_integrity:
  assumes "ref_integrity (db s)" and "actor a (db s)"
  shows "ref_integrity (db (snd (board_update w b a dto s)))"
proof (cases "find (boardKey w b) (boards (db s))")
  case None
  then show ?thesis using assms by (simp add: board_update_def run transaction_def)
next
  case (Some row)
  then have "boardIn (db s) w b"
    using find_Some_iff_mem [OF Some] by (auto simp: boardKey_def boardIn_def list_ex_iff)
  then have "\<exists>x \<in> set (workspaces (db s)). w_id x = w"
    using assms(1) by (rule boardIn_workspace [rotated])
  with Some assms show ?thesis
    by (simp add: board_update_def run transaction_def integrity_facts Let_def)
qed

lemma column_update_integrity:
  assumes "ref_integrity (db s)" and "actor a (db s)"
  shows "ref_integrity (db (snd (column_update w k a dto s)))"
proof (cases "find (columnIn (db s) w k) (columns (db s))")
  case None
  then show ?thesis using assms by (simp add: column_update_def run andThen_transaction)
next
  case (Some row)
  then have "boardIn (db s) w (c_boardId row)"
    using find_Some_iff_mem [OF Some] by (simp add: columnIn_def)
  then have "\<exists>x \<in> set (workspaces (db s)). w_id x = w"
    using assms(1) by (rule boardIn_workspace [rotated])
  with Some assms show ?thesis
    by (simp add: column_update_def run andThen_transaction integrity_facts Let_def column_key_def emitColumnChanged_def)
qed

lemma label_create_integrity:
  assumes "ref_integrity (db s)" and "actor a (db s)"
  shows "ref_integrity (db (snd (label_create w b a name color s)))"
proof (cases "find (\<lambda>x. b_id x = b \<and> b_workspaceId x = w) (boards (db s))")
  case None
  then show ?thesis using assms by (simp add: label_create_def run)
next
  case (Some row)
  then have "boardIn (db s) w b" by (simp add: boardIn_find)
  then have "\<exists>x \<in> set (workspaces (db s)). w_id x = w" "\<exists>x \<in> set (boards (db s)). b_id x = b"
    using assms(1) by (blast intro: boardIn_workspace boardIn_board)+
  with Some assms show ?thesis
    by (simp add: label_create_def createLabel_def run integrity_facts Let_def refs_append_target)
qed

lemma label_update_integrity:
  assumes "ref_integrity (db s)" and "actor a (db s)"
  shows "ref_integrity (db (snd (label_update w k a dto s)))"
proof (cases "find (labelKey (db s) w k) (labels (db s))")
  case None
  then show ?thesis using assms by (simp add: label_update_def run andThen_transaction)
next
  case (Some row)
  then have "boardIn (db s) w (l_boardId row)"
    using find_Some_iff_mem [OF Some] by (simp add: labelKey_def)
  then have "\<exists>x \<in> set (workspaces (db s)). w_id x = w"
    using assms(1) by (rule boardIn_workspace [rotated])
  with Some assms show ?thesis
    by (simp add: label_update_def run andThen_transaction integrity_facts Let_def)
qed

lemma column_remove_integrity:
  assumes "ref_integrity (db s)" and "actor a (db s)"
  shows "ref_integrity (db (snd (column_remove w k a s)))"
proof (cases "find (columnIn (db s) w k) (columns (db s))")
  case None
  then show ?thesis using assms by (simp add: column_remove_def run andThen_transaction)
next
  case (Some row)
  then have "boardIn (db s) w (c_boardId row)"
    using find_Some_iff_mem [OF Some] by (simp add: columnIn_def)
  then have "\<exists>x \<in> set (workspaces (db s)). w_id x = w"
    using assms(1) by (rule boardIn_workspace [rotated])
  with assms have "ref_integrity ((db s)\<lparr>activities := activities (db s) @ [activityFor s w None a ColumnDeleted p]\<rparr>)" for p
    unfolding actor_def by (intro log_integrity) simp_all
  with Some assms show ?thesis
    by (simp add: column_remove_def run andThen_transaction Let_def emitColumnChanged_def delete_columns_integrity)
qed

lemma column_create_integrity:
  assumes "ref_integrity (db s)" and "actor a (db s)"
  shows "ref_integrity (db (snd (column_create w b a dto s)))"
proof (cases "find (\<lambda>x. b_id x = b \<and> b_workspaceId x = w) (boards (db s))")
  case None
  then show ?thesis using assms by (simp add: column_create_def run)
next
  case (Some row)
  then have "boardIn (db s) w b" by (simp add: boardIn_find)
  then have w: "\<exists>x \<in> set (workspaces (db s)). w_id x = w" "\<exists>x \<in> set (boards (db s)). b_id x = b"
    using assms(1) by (blast intro: boardIn_workspace boardIn_board)+
  show ?thesis
  proof (cases "resolveCreateNeighbors (columnSiblings b (columns (db s))) (ccd_afterColumnId dto) ''Column not found''")
    case (Inl e)
    with Some assms show ?thesis by (simp add: column_create_def run andThen_transaction)
  next
    case (Inr slot)
    with Some assms w show ?thesis
      by (simp add: column_create_def run andThen_transaction integrity_facts Let_def emitColumnChanged_def
          toColumnDto_def refs_append_target column_key_def)
  qed
qed

lemma column_move_integrity:
  assumes "ref_integrity (db s)"
  shows "ref_integrity (db (snd (column_move w k a dto s)))"
proof (cases "find (columnIn (db s) w k) (columns (db s))")
  case None
  then show ?thesis using assms by (simp add: column_move_def run andThen_transaction)
next
  case (Some row)
  show ?thesis
  proof (cases "resolveMoveNeighbors (filter (\<lambda>item. fst item \<noteq> k) (columnSiblings (c_boardId row) (columns (db s))))
      (mcd_beforeColumnId dto) (mcd_afterColumnId dto)")
    case (Inl e)
    with Some assms show ?thesis by (simp add: column_move_def run andThen_transaction Let_def)
  next
    case (Inr slot)
    with Some assms show ?thesis
      by (simp add: column_move_def run andThen_transaction Let_def emitColumnChanged_def ref_integrity_def
          column_key_def split: option.splits)
  qed
qed

lemma seeded_columns_integrity:
  "ref_integrity d \<Longrightarrow> \<exists>x \<in> set (boards d). b_id x = b \<Longrightarrow> \<forall>c \<in> set C. c_boardId c = b \<Longrightarrow>
     ref_integrity (d\<lparr>columns := columns d @ C\<rparr>)"
  by (auto simp: ref_integrity_def refs_append_target refs_def [of C])

lemma logs_integrity:
  assumes "ref_integrity d" and "\<exists>x \<in> set (workspaces d). w_id x = w" and "\<exists>x \<in> set (users d). u_id x = a"
    and "\<forall>x \<in> set A. ac_workspaceId x = w \<and> ac_userId x = a \<and> ac_taskId x = None"
  shows "ref_integrity (d\<lparr>activities := activities d @ A\<rparr>)"
  using assms by (simp add: ref_integrity_def refs_def [of A] opt_refs_def [of A])

text \<open>The audit rows of the seeded columns, one per column.\<close>

definition auditSeeded :: "ident \<Rightarrow> ident \<Rightarrow> ident \<Rightarrow> column_row \<Rightarrow> unit request" where
  "auditSeeded w b a c = andThen (recordActivity w None a ColumnCreated
     (JObj [(''columnId'', JStr (c_id c)), (''boardId'', JStr b), (''name'', JStr (c_name c)),
            (''category'', JStr (category_name (c_category c))), (''seeded'', JBool True)])) (\<lambda>_. ret ())"

lemma andThen_auditSeeded:
  "\<exists>x. ac_workspaceId x = w \<and> ac_userId x = a \<and> ac_taskId x = None \<and>
     andThen (auditSeeded w b a c) f s =
       f () (s\<lparr>drawn := Suc (drawn s), db := (db s)\<lparr>activities := activities (db s) @ [x]\<rparr>\<rparr>)"
  unfolding auditSeeded_def by (simp add: andThen_assoc andThen_recordActivity andThen_ret logged_def)
    (metis activityFor_simps(1-3))

lemma forEach_auditSeeded:
  "\<exists>A s'. forEach rs (auditSeeded w b a) s = (Inr (), s') \<and>
     db s' = (db s)\<lparr>activities := activities (db s) @ A\<rparr> \<and>
     (\<forall>x \<in> set A. ac_workspaceId x = w \<and> ac_userId x = a \<and> ac_taskId x = None)"
proof (induction rs arbitrary: s)
  case Nil
  then show ?case by (auto simp: ret_run intro!: exI [of _ "[]"])
next
  case (Cons r rs)
  obtain x where x: "ac_workspaceId x = w" "ac_userId x = a" "ac_taskId x = None"
    and step: "forEach (r # rs) (auditSeeded w b a) s = forEach rs (auditSeeded w b a)
        (s\<lparr>drawn := Suc (drawn s), db := (db s)\<lparr>activities := activities (db s) @ [x]\<rparr>\<rparr>)"
    using andThen_auditSeeded [of w a b r "\<lambda>_. forEach rs (auditSeeded w b a)" s] by auto
  obtain A s' where "forEach rs (auditSeeded w b a)
        (s\<lparr>drawn := Suc (drawn s), db := (db s)\<lparr>activities := activities (db s) @ [x]\<rparr>\<rparr>) = (Inr (), s')"
    "db s' = (db s)\<lparr>activities := (activities (db s) @ [x]) @ A\<rparr>"
    "\<forall>x \<in> set A. ac_workspaceId x = w \<and> ac_userId x = a \<and> ac_taskId x = None"
    using Cons.IH [of "s\<lparr>drawn := Suc (drawn s), db := (db s)\<lparr>activities := activities (db s) @ [x]\<rparr>\<rparr>"] by auto
  with x step show ?case by (auto intro!: exI [of _ "x # A"])
qed

lemma forEach_emits:
  "forEach rs (\<lambda>c. emitColumnChanged w a b (f c)) s =
     (Inr (), s\<lparr>outbox := outbox s @ map (\<lambda>c. ToBoard b COLUMN_CHANGED w a [(''columnId'', JStr (f c))]) rs\<rparr>)"
  by (induction rs arbitrary: s) (simp_all add: run emitColumnChanged_def)

lemma andThen_emits:
  "andThen (forEach rs (\<lambda>c. emitColumnChanged w a b (f c))) g s =
     g () (s\<lparr>outbox := outbox s @ map (\<lambda>c. ToBoard b COLUMN_CHANGED w a [(''columnId'', JStr (f c))]) rs\<rparr>)"
  by (simp add: andThen_def forEach_emits)

lemma column_createDefaults_run:
  "column_createDefaults w b a h s =
     (case find (\<lambda>x. b_id x = b \<and> b_workspaceId x = w) (boards (db s)) of
        None \<Rightarrow> (Inl (NotFound ''Board not found''), s)
      | Some _ \<Rightarrow>
          (let cols = defaultColumnsFor (localeFor (db s) a h);
               t = s\<lparr>drawn := drawn s + length cols, db := (db s)\<lparr>columns := columns (db s) @ seededColumns s b cols\<rparr>\<rparr>;
               rows = columnsOf b (columns (db t))
           in if filter (\<lambda>c. c_boardId c = b) (columns (db s)) \<noteq> []
              then (Inl (Conflict ''Board already has columns''), s)
              else (case forEach rows (auditSeeded w b a) t of
                      (Inl e, u) \<Rightarrow> (Inl e, u\<lparr>db := db s\<rparr>)
                    | (Inr _, u) \<Rightarrow> (Inr (map (toColumnDto (db u)) rows),
                        u\<lparr>outbox := outbox u @ map (\<lambda>c. ToBoard b COLUMN_CHANGED w a [(''columnId'', JStr (c_id c))]) rows\<rparr>))))"
  unfolding column_createDefaults_def auditSeeded_def [symmetric]
  by (auto simp: andThen_assertBoard andThen_locale_resolve andThen_transaction andThen_readDb andThen_check
      andThen_seedColumns andThen_def [of "forEach _ (auditSeeded w b a)"] ret_run andThen_emits readDb_run Let_def
      split: option.splits sum.splits prod.splits)

lemma column_createDefaults_integrity:
  assumes "ref_integrity (db s)" and "actor a (db s)"
  shows "ref_integrity (db (snd (column_createDefaults w b a h s)))"
proof (cases "find (\<lambda>x. b_id x = b \<and> b_workspaceId x = w) (boards (db s)) = None \<or>
    filter (\<lambda>c. c_boardId c = b) (columns (db s)) \<noteq> []")
  case True
  then show ?thesis using assms by (auto simp: column_createDefaults_run Let_def split: option.splits)
next
  case False
  then obtain row where Some: "find (\<lambda>x. b_id x = b \<and> b_workspaceId x = w) (boards (db s)) = Some row" by auto
  then have "boardIn (db s) w b" by (simp add: boardIn_find)
  then have w: "\<exists>x \<in> set (workspaces (db s)). w_id x = w" "\<exists>x \<in> set (boards (db s)). b_id x = b"
    using assms(1) by (blast intro: boardIn_workspace boardIn_board)+
  let ?cols = "defaultColumnsFor (localeFor (db s) a h)"
  let ?t = "s\<lparr>drawn := drawn s + length ?cols, db := (db s)\<lparr>columns := columns (db s) @ seededColumns s b ?cols\<rparr>\<rparr>"
  obtain A s' where logs: "forEach (columnsOf b (columns (db ?t))) (auditSeeded w b a) ?t = (Inr (), s')"
    and s': "db s' = (db ?t)\<lparr>activities := activities (db ?t) @ A\<rparr>"
    and A: "\<forall>x \<in> set A. ac_workspaceId x = w \<and> ac_userId x = a \<and> ac_taskId x = None"
    using forEach_auditSeeded by metis
  have "ref_integrity (db ?t)"
    using assms(1) w(2) by (simp add: seeded_columns_integrity seededColumns_facts)
  then have "ref_integrity (db s')"
    unfolding s' using assms(2) w(1) A by (intro logs_integrity) (simp_all add: actor_def, blast)
  with False Some logs show ?thesis
    by (simp add: column_createDefaults_run Let_def)
qed

section \<open>Tasks and their links\<close>

lemma taskKey_workspace:
  assumes "find (taskKey d w k) (tasks d) = Some row" and "ref_integrity d"
  shows "\<exists>x \<in> set (workspaces d). w_id x = w" and "\<exists>x \<in> set (tasks d). t_id x = k"
    and "t_id row = k" and "row \<in> set (tasks d)"
  using find_Some_iff_mem [OF assms(1)] boardIn_workspace [OF assms(2)] by (auto simp: taskKey_def)

lemma applyPatch_keeps [simp]:
  "t_id (applyPatch p t) = t_id t" "t_boardId (applyPatch p t) = t_boardId t"
  "t_columnId (applyPatch p t) = t_columnId t" "t_createdById (applyPatch p t) = t_createdById t"
  by (simp_all add: applyPatch_def)

lemma kept_row:
  assumes "row \<in> set T" and "\<And>x. g (m x) = g x"
  shows "\<exists>y \<in> m ` set T. g y = g row"
  using assms by auto

lemma task_update_integrity:
  assumes "ref_integrity (db s)" and "actor a (db s)"
  shows "ref_integrity (db (snd (task_update pd w k a dto s)))"
proof (cases "find (taskKey (db s) w k) (tasks (db s))")
  case None
  then show ?thesis using assms by (simp add: task_update_def run)
next
  case (Some row)
  note ws = taskKey_workspace [OF Some assms(1)]
  show ?thesis
  proof (cases "planTaskUpdate pd row dto")
    case (Inl e)
    with Some assms show ?thesis by (simp add: task_update_def run)
  next
    case (Inr pc)
    obtain patch changes where pc: "pc = (patch, changes)" by (cases pc)
    let ?m = "\<lambda>x. if taskKey (db s) w k x then (applyPatch patch x)\<lparr>t_updatedAt := clock s\<rparr> else x"
    let ?d = "\<lambda>v p. (db s)\<lparr>tasks := map ?m (tasks (db s)),
      activities := activities (db s) @ [activityFor v w (Some k) a TaskUpdated p]\<rparr>"
    have "\<exists>y \<in> ?m ` set (tasks (db s)). t_id y = t_id row"
      by (rule kept_row [OF ws(4)]) simp
    with assms ws have "ref_integrity (?d v p)" for v p
      by (simp add: integrity_facts task_column_def del: if_image_distrib)
    with Some Inr pc assms show ?thesis
      by (simp add: task_update_def run andThen_transaction Let_def split: option.split)
  qed
qed

lemma removeAssignee_integrity:
  assumes "ref_integrity (db s)" and "actor a (db s)"
  shows "ref_integrity (db (snd (removeAssignee w k a u s)))"
proof (cases "find (taskKey (db s) w k) (tasks (db s))")
  case None
  then show ?thesis using assms by (simp add: removeAssignee_def run)
next
  case (Some row)
  note ws = taskKey_workspace [OF Some assms(1)]
  from Some assms ws show ?thesis
    by (auto simp: removeAssignee_def run andThen_transaction integrity_facts Let_def)
qed

lemma removeLabel_integrity:
  assumes "ref_integrity (db s)" and "actor a (db s)"
  shows "ref_integrity (db (snd (removeLabel w k a u s)))"
proof (cases "find (taskKey (db s) w k) (tasks (db s))")
  case None
  then show ?thesis using assms by (simp add: removeLabel_def run)
next
  case (Some row)
  note ws = taskKey_workspace [OF Some assms(1)]
  from Some assms ws show ?thesis
    by (auto simp: removeLabel_def run andThen_transaction integrity_facts Let_def split: option.splits)
qed

lemma addLabel_integrity:
  assumes "ref_integrity (db s)" and "actor a (db s)"
  shows "ref_integrity (db (snd (addLabel w k a lab s)))"
proof (cases "find (taskKey (db s) w k) (tasks (db s))")
  case None
  then show ?thesis using assms by (simp add: addLabel_def run)
next
  case (Some row)
  note ws = taskKey_workspace [OF Some assms(1)]
  from Some assms ws show ?thesis
    by (auto simp: addLabel_def insertTaskLabel_def run transaction_def integrity_facts Let_def split: option.splits dest!: find_Some_iff_mem)
qed

lemma addAssignee_integrity:
  assumes "ref_integrity (db s)" and "actor a (db s)"
  shows "ref_integrity (db (snd (addAssignee w k a u s)))"
proof (cases "find (taskKey (db s) w k) (tasks (db s)) = None \<or> \<not> isMember (db s) w u")
  case True
  then show ?thesis using assms by (auto simp: addAssignee_def run isMember_def split: option.splits)
next
  case False
  then obtain row where Some: "find (taskKey (db s) w k) (tasks (db s)) = Some row" by auto
  note ws = taskKey_workspace [OF Some assms(1)]
  have u: "\<exists>x \<in> set (users (db s)). u_id x = u"
    using False assms(1) by (auto simp: isMember_def list_ex_iff ref_integrity_def refs_def)
  from Some assms ws u show ?thesis
    by (auto simp: addAssignee_def insertAssignee_def run transaction_def integrity_facts Let_def storedNotification_def
        split: option.splits sum.splits)
qed

section \<open>Checklists and items\<close>

lemma emitUpdated_db [simp]: "db (snd (emitUpdated w k a s)) = db s"
  by (simp add: emitUpdated_run split: option.splits)

lemma findTask_db [simp]: "snd (findTask w k s) = s"
  by (simp add: findTask_def findTaskRow_def run split: option.splits)

lemma checklistKey_task:
  "checklistKey d w t k c \<Longrightarrow> \<exists>x \<in> set (tasks d). t_id x = t"
  by (auto simp: checklistKey_def taskIn_def list_ex_iff)

lemma checklist_create_integrity:
  assumes "ref_integrity (db s)"
  shows "ref_integrity (db (snd (checklist_create w t a title s)))"
proof (cases "find (taskKey (db s) w t) (tasks (db s))")
  case None
  then show ?thesis using assms by (simp add: checklist_create_def run)
next
  case (Some row)
  with assms taskKey_workspace [OF Some assms] show ?thesis
    by (auto simp: checklist_create_def run andThen_transaction ref_integrity_def refs_append_target)
qed

lemma checklist_update_integrity:
  assumes "ref_integrity (db s)"
  shows "ref_integrity (db (snd (checklist_update w t a k title s)))"
  using assms by (simp add: checklist_update_def run ref_integrity_def split: option.split)

lemma checklist_remove_integrity:
  assumes "ref_integrity (db s)"
  shows "ref_integrity (db (snd (checklist_remove w t a k s)))"
  using delete_checklists_integrity [OF assms] assms
  by (simp add: checklist_remove_def run split: option.split)

lemma checklist_move_integrity:
  assumes "ref_integrity (db s)"
  shows "ref_integrity (db (snd (checklist_move w t a k after s)))"
  using assms by (simp add: checklist_move_def run ref_integrity_def split: option.split sum.split)

lemma item_create_integrity:
  assumes "ref_integrity (db s)"
  shows "ref_integrity (db (snd (item_create w t a c content s)))"
  using assms
  by (auto simp: item_create_def run andThen_transaction ref_integrity_def checklistKey_def split: option.split
      dest!: find_Some_iff_mem)

lemma item_update_integrity:
  assumes "ref_integrity (db s)"
  shows "ref_integrity (db (snd (item_update w t a k dto s)))"
  using assms by (simp add: item_update_def run ref_integrity_def split: option.split)

lemma item_remove_integrity:
  assumes "ref_integrity (db s)"
  shows "ref_integrity (db (snd (item_remove w t a k s)))"
  using assms by (simp add: item_remove_def run ref_integrity_def refs_filter split: option.split)

lemma item_move_integrity:
  assumes "ref_integrity (db s)"
  shows "ref_integrity (db (snd (item_move w t a k after s)))"
  using assms by (simp add: item_move_def run ref_integrity_def split: option.split sum.split)

section \<open>Comments and notifications\<close>

lemma comment_remove_integrity:
  assumes "ref_integrity (db s)"
  shows "ref_integrity (db (snd (comment_remove w k a role s)))"
  using assms by (simp add: comment_remove_cases ref_integrity_def refs_filter split: option.split)

lemma markRead_integrity:
  assumes "ref_integrity (db s)"
  shows "ref_integrity (db (snd (markRead w u k s)))"
  using assms by (simp add: markRead_def run andThen_transaction ref_integrity_def split: option.split)

lemma markAllRead_integrity:
  assumes "ref_integrity (db s)"
  shows "ref_integrity (db (snd (markAllRead w u s)))"
  using assms by (simp add: markAllRead_def run ref_integrity_def)

lemma membersAmong_users:
  assumes "ref_integrity d" and "u \<in> set (membersAmong w us d)"
  shows "\<exists>x \<in> set (users d). u_id x = u"
  using assms by (auto simp: membersAmong_def ref_integrity_def refs_def)

lemma mentionRows_refs:
  assumes "ref_integrity d" and "\<exists>x \<in> set (workspaces d). w_id x = w" and "\<exists>x \<in> set (tasks d). t_id x = t"
    and "set us \<subseteq> set (membersAmong w vs d)"
  shows "refs (mentionRows s w t act us p) n_workspaceId (workspaces d) w_id"
    and "refs (mentionRows s w t act us p) n_userId (users d) u_id"
    and "opt_refs (mentionRows s w t act us p) n_taskId (tasks d) t_id"
    and "(\<exists>x \<in> set xs. Some (ac_id x) = act) \<Longrightarrow> opt_refs (mentionRows s w t act us p) n_activityId xs ac_id"
proof -
  let ?M = "mentionRows s w t act us p"
  have "n_userId ` set ?M = set us"
    by (metis list.set_map mentionRows_facts(1))
  then show "refs ?M n_userId (users d) u_id"
    using membersAmong_users [OF assms(1)] assms(4) unfolding refs_def by (metis image_eqI subsetD)
  show "refs ?M n_workspaceId (workspaces d) w_id" "opt_refs ?M n_taskId (tasks d) t_id"
    using assms(2,3) mentionRows_facts(2) [of _ s w t act us p] unfolding refs_def opt_refs_def by metis+
  show "(\<exists>x \<in> set xs. Some (ac_id x) = act) \<Longrightarrow> opt_refs ?M n_activityId xs ac_id"
    using mentionRows_facts(2) [of _ s w t act us p] unfolding opt_refs_def by metis
qed

lemma commented_integrity:
  assumes "ref_integrity d" and "\<exists>x \<in> set (workspaces d). w_id x = w" and "\<exists>x \<in> set (tasks d). t_id x = t"
    and "actor a d" and "set us \<subseteq> set (membersAmong w vs d)"
    and "cm_taskId c = t" and "cm_userId c = a" and "ac_workspaceId x = w" and "ac_userId x = a" and "ac_taskId x = Some t"
    and "act = Some (ac_id x)"
  shows "ref_integrity (d\<lparr>comments := comments d @ [c], activities := activities d @ [x],
     notifications := notifications d @ mentionRows v w t act us p\<rparr>)"
  using assms(1-4,6-) mentionRows_refs(1-3) [OF assms(1,2,3,5)] mentionRows_refs(4) [OF assms(1,2,3,5), of "activities d @ [x]"]
  by (simp add: integrity_facts)

lemma comment_create_integrity:
  assumes "ref_integrity (db s)" and "actor a (db s)"
  shows "ref_integrity (db (snd (comment_create w t a body s)))"
proof (cases "find (\<lambda>x. t_id x = t \<and> boardIn (db s) w (t_boardId x)) (tasks (db s))")
  case None
  then show ?thesis using assms by (simp add: comment_create_def commentTask_def run)
next
  case (Some task)
  have t: "\<exists>x \<in> set (tasks (db s)). t_id x = t" "\<exists>x \<in> set (workspaces (db s)). w_id x = w"
    using find_Some_iff_mem [OF Some] boardIn_workspace [OF assms(1)] by auto
  let ?us = "membersAmong w (filter (\<lambda>i. i \<noteq> a) (parseMentions body)) (db s)"
  have sub: "set (mentionRecipients a ?us) \<subseteq> set ?us" by (auto simp: mentionRecipients_facts)
  show ?thesis
  proof (cases "?us = []")
    case True
    with Some assms t show ?thesis
      by (auto simp: comment_create_def commentTask_def run andThen_transaction Let_def toCommentDto_def integrity_facts)
  next
    case False
    note kept = commented_integrity [OF assms(1) t(2,1) assms(2) sub]
    from False Some assms show ?thesis
      by (simp add: comment_create_def commentTask_def run andThen_transaction Let_def toCommentDto_def kept
          split: sum.split)
  qed
qed

section \<open>Operations that roll back\<close>

lemma refused_or_done:
  assumes "\<And>e s'. m s = (Inl e, s') \<Longrightarrow> db s' = db s" and "\<And>x s'. m s = (Inr x, s') \<Longrightarrow> ref_integrity (db s')"
    and "ref_integrity (db s)"
  shows "ref_integrity (db (snd (m s)))"
proof (cases "m s")
  case (Pair r s')
  show ?thesis
  proof (cases r)
    case (Inl e)
    with Pair assms(1) [of e s'] assms(3) show ?thesis by simp
  next
    case (Inr x)
    with Pair assms(2) [of x s'] show ?thesis by simp
  qed
qed

lemma task_create_keeps:
  assumes "ref_integrity (db s)" and "actor a (db s)"
  shows "ref_integrity (db (snd (task_create pd w b a dto s)))"
  by (rule refused_or_done [OF _ _ assms(1)])
    (use assms task_create_integrity task_create_refused in \<open>unfold actor_def untouched_def, blast+\<close>)

lemma task_remove_keeps:
  assumes "ref_integrity (db s)" and "actor a (db s)"
  shows "ref_integrity (db (snd (task_remove w k a s)))"
proof (rule refused_or_done [OF _ _ assms(1)])
  show "db s' = db s" if "task_remove w k a s = (Inl e, s')" for e s'
    using task_remove_refused [OF that] by (simp add: untouched_def)
  show "ref_integrity (db s')" if "task_remove w k a s = (Inr u, s')" for u s'
    using task_remove_integrity [of w k a s s'] that assms by (simp add: actor_def)
qed

lemma task_move_keeps:
  assumes "ref_integrity (db s)" and "actor a (db s)" and "distinct (map t_id (tasks (db s)))"
  shows "ref_integrity (db (snd (task_move w k a dto s)))"
  by (rule refused_or_done [OF _ _ assms(1)])
    (use assms task_move_integrity task_move_refused in \<open>unfold actor_def untouched_def, blast+\<close>)

lemma label_remove_refused: "label_remove w k a s = (Inl e, s') \<Longrightarrow> db s' = db s"
  by (auto simp: label_remove_def transaction_error)

lemma label_remove_keeps:
  assumes "ref_integrity (db s)" and "actor a (db s)"
  shows "ref_integrity (db (snd (label_remove w k a s)))"
  by (rule refused_or_done [OF _ _ assms(1)])
    (use assms label_remove_integrity label_remove_refused in \<open>unfold actor_def, force+\<close>)

lemma board_remove_refused: "board_remove w b a s = (Inl e, s') \<Longrightarrow> db s' = db s"
  by (auto simp: board_remove_def transaction_error)

lemma board_remove_keeps:
  assumes "ref_integrity (db s)" and "actor a (db s)"
  shows "ref_integrity (db (snd (board_remove w b a s)))"
  by (rule refused_or_done [OF _ _ assms(1)])
    (use assms board_remove_integrity board_remove_refused in \<open>unfold actor_def, force+\<close>)

lemma board_create_refused: "board_create w a dto h s = (Inl e, s') \<Longrightarrow> db s' = db s"
  by (auto simp: board_create_def andThen_locale_resolve Let_def transaction_error)

lemma board_create_keeps:
  assumes "ref_integrity (db s)" and "actor a (db s)" and "\<exists>x \<in> set (workspaces (db s)). w_id x = w"
  shows "ref_integrity (db (snd (board_create w a dto h s)))"
  by (rule refused_or_done [OF _ _ assms(1)])
    (use assms board_create_integrity board_create_refused in \<open>unfold actor_def, blast+\<close>)

end
