(* ===== verification/Utf16.thy ===== *)
theory Utf16
  imports Environment
begin

text \<open>
  JavaScript strings where their characters matter: a string is a list of UTF-16 code units. The
  tables and the wire hold UTF-8, so this theory has the code points of a string, their encoding and
  decoding (\<open>TextDecoder\<close> with \<open>fatal\<close>), \<open>encodeURIComponent\<close>, and trimming over the white
  space of the language. Encoding and decoding are inverse on well-formed strings.
\<close>

section \<open>Code units and code points\<close>

type_synonym utf16 = "nat list"

definition ascii :: "string \<Rightarrow> utf16" where
  "ascii s = map of_char s"

definition high_surrogate :: "nat \<Rightarrow> bool" where
  "high_surrogate c \<longleftrightarrow> 0xD800 \<le> c \<and> c \<le> 0xDBFF"

definition low_surrogate :: "nat \<Rightarrow> bool" where
  "low_surrogate c \<longleftrightarrow> 0xDC00 \<le> c \<and> c \<le> 0xDFFF"

definition surrogate :: "nat \<Rightarrow> bool" where
  "surrogate c \<longleftrightarrow> 0xD800 \<le> c \<and> c \<le> 0xDFFF"

text \<open>Iterating a string: a pair of surrogates is one code point, a lone one stands for itself.\<close>

fun codePoints :: "utf16 \<Rightarrow> nat list" where
  "codePoints [] = []"
| "codePoints [c] = [c]"
| "codePoints (c # e # cs) =
     (if high_surrogate c \<and> low_surrogate e
      then (0x10000 + (c - 0xD800) * 0x400 + (e - 0xDC00)) # codePoints cs
      else c # codePoints (e # cs))"

definition codeUnits :: "nat \<Rightarrow> utf16" where
  "codeUnits p = (if p < 0x10000 then [p]
                  else [0xD800 + (p - 0x10000) div 0x400, 0xDC00 + (p - 0x10000) mod 0x400])"

definition scalar :: "nat \<Rightarrow> bool" where
  "scalar p \<longleftrightarrow> p < 0x110000 \<and> \<not> surrogate p"

text \<open>\<open>isWellFormed\<close>: no lone surrogate.\<close>

definition well_formed :: "utf16 \<Rightarrow> bool" where
  "well_formed s \<longleftrightarrow> (\<forall>p \<in> set (codePoints s). \<not> surrogate p)"

text \<open>White space and line terminators of the language, which \<open>trim\<close> removes.\<close>

definition white_space :: "nat \<Rightarrow> bool" where
  "white_space c \<longleftrightarrow> 9 \<le> c \<and> c \<le> 13 \<or> c = 0x20 \<or> c = 0xA0 \<or> c = 0x1680 \<or> 0x2000 \<le> c \<and> c \<le> 0x200A \<or>
     c = 0x2028 \<or> c = 0x2029 \<or> c = 0x202F \<or> c = 0x205F \<or> c = 0x3000 \<or> c = 0xFEFF"

definition trim16 :: "utf16 \<Rightarrow> utf16" where
  "trim16 s = rev (dropWhile white_space (rev (dropWhile white_space s)))"

section \<open>UTF-8\<close>

definition utf8Point :: "nat \<Rightarrow> nat list" where
  "utf8Point p =
     (if p < 0x80 then [p]
      else if p < 0x800 then [0xC0 + p div 64, 0x80 + p mod 64]
      else if p < 0x10000 then [0xE0 + p div 4096, 0x80 + p div 64 mod 64, 0x80 + p mod 64]
      else [0xF0 + p div 262144, 0x80 + p div 4096 mod 64, 0x80 + p div 64 mod 64, 0x80 + p mod 64])"

text \<open>A lone surrogate is written as the replacement character.\<close>

definition toUtf8 :: "utf16 \<Rightarrow> string" where
  "toUtf8 s = map char_of (concat (map (\<lambda>p. utf8Point (if surrogate p then 0xFFFD else p)) (codePoints s)))"

definition continuation :: "nat \<Rightarrow> bool" where
  "continuation b \<longleftrightarrow> 0x80 \<le> b \<and> b \<le> 0xBF"

text \<open>The first code point of a byte sequence, unless the sequence is malformed there.\<close>

fun utf8Head :: "nat list \<Rightarrow> (nat \<times> nat list) option" where
  "utf8Head [] = None"
| "utf8Head (b # bs) =
     (if b < 0x80 then Some (b, bs)
      else if 0xC2 \<le> b \<and> b \<le> 0xDF then
        (case bs of
           x # r \<Rightarrow> if continuation x then Some ((b - 0xC0) * 64 + (x - 0x80), r) else None
         | _ \<Rightarrow> None)
      else if 0xE0 \<le> b \<and> b \<le> 0xEF then
        (case bs of
           x # y # r \<Rightarrow>
             (let p = (b - 0xE0) * 4096 + (x - 0x80) * 64 + (y - 0x80)
              in if continuation x \<and> continuation y \<and> 0x800 \<le> p \<and> \<not> surrogate p then Some (p, r) else None)
         | _ \<Rightarrow> None)
      else if 0xF0 \<le> b \<and> b \<le> 0xF4 then
        (case bs of
           x # y # z # r \<Rightarrow>
             (let p = (b - 0xF0) * 262144 + (x - 0x80) * 4096 + (y - 0x80) * 64 + (z - 0x80)
              in if continuation x \<and> continuation y \<and> continuation z \<and> 0x10000 \<le> p \<and> p < 0x110000
                 then Some (p, r) else None)
         | _ \<Rightarrow> None)
      else None)"

lemma utf8Head_shorter: "utf8Head bs = Some (p, r) \<Longrightarrow> length r < length bs"
  by (cases bs) (auto simp: Let_def split: if_splits list.splits)

function decodePoints :: "nat list \<Rightarrow> nat list option" where
  "decodePoints bs =
     (if bs = [] then Some []
      else (case utf8Head bs of None \<Rightarrow> None | Some (p, r) \<Rightarrow> map_option ((#) p) (decodePoints r)))"
  by auto
termination
  by (relation "measure length") (auto dest: utf8Head_shorter)

declare decodePoints.simps [simp del]

text \<open>The code points of a UTF-8 column or body.\<close>

definition utf8Points :: "string \<Rightarrow> nat list option" where
  "utf8Points bytes = decodePoints (map of_char bytes)"

definition fromUtf8 :: "string \<Rightarrow> utf16 option" where
  "fromUtf8 bytes = map_option (\<lambda>ps. concat (map codeUnits ps)) (utf8Points bytes)"

text \<open>\<open>new TextDecoder('utf-8', { fatal: true }).decode\<close>: a leading byte order mark is dropped.\<close>

definition decodeFatal :: "string \<Rightarrow> nat list option" where
  "decodeFatal bytes =
     map_option (\<lambda>ps. case ps of [] \<Rightarrow> [] | p # r \<Rightarrow> if p = 0xFEFF then r else ps) (utf8Points bytes)"

section \<open>encodeURIComponent\<close>

definition hex_digit :: "nat \<Rightarrow> char" where
  "hex_digit n = (if n < 10 then char_of (48 + n) else char_of (55 + n))"

definition percent :: "nat \<Rightarrow> string" where
  "percent b = [CHR ''%'', hex_digit (b div 16), hex_digit (b mod 16)]"

definition unreserved :: "nat \<Rightarrow> bool" where
  "unreserved p \<longleftrightarrow> 48 \<le> p \<and> p \<le> 57 \<or> 65 \<le> p \<and> p \<le> 90 \<or> 97 \<le> p \<and> p \<le> 122 \<or> p \<in> set (map of_char ''-_.!~*()'') \<or> p = 39"

text \<open>\<open>None\<close> is the \<open>URIError\<close> of a lone surrogate.\<close>

definition encodeURIComponent :: "utf16 \<Rightarrow> string option" where
  "encodeURIComponent s =
     (if well_formed s
      then Some (concat (map (\<lambda>p. if unreserved p then [char_of p] else concat (map percent (utf8Point p))) (codePoints s)))
      else None)"

section \<open>Round trips\<close>

lemma head2:
  "a < 32 \<Longrightarrow> 2 \<le> a \<Longrightarrow> b < 64 \<Longrightarrow> utf8Head ((0xC0 + a) # (0x80 + b) # r) = Some (a * 64 + b, r)"
  by (simp add: continuation_def)

lemma head3:
  assumes "a < 16" "b < 64" "c < 64" "a * 4096 + b * 64 + c = p" "0x800 \<le> p" "\<not> surrogate p"
  shows "utf8Head ((0xE0 + a) # (0x80 + b) # (0x80 + c) # r) = Some (p, r)"
  using assms by (simp add: continuation_def Let_def)

lemma head4:
  assumes "a < 5" "b < 64" "c < 64" "d < 64" "a * 262144 + b * 4096 + c * 64 + d = p" "0x10000 \<le> p" "p < 0x110000"
  shows "utf8Head ((0xF0 + a) # (0x80 + b) # (0x80 + c) # (0x80 + d) # r) = Some (p, r)"
  using assms by (simp add: continuation_def Let_def)

lemma base64_digits:
  fixes p :: nat
  shows "p div 4096 * 4096 + p div 64 mod 64 * 64 + p mod 64 = p"
    and "p div 262144 * 262144 + p div 4096 mod 64 * 4096 + p div 64 mod 64 * 64 + p mod 64 = p"
proof -
  have d: "p div 4096 = p div 64 div 64" "p div 262144 = p div 4096 div 64"
    by (simp_all add: div_mult2_eq [symmetric])
  show s: "p div 4096 * 4096 + p div 64 mod 64 * 64 + p mod 64 = p"
    using div_mult_mod_eq [of p 64] div_mult_mod_eq [of "p div 64" 64] unfolding d(1) by linarith
  show "p div 262144 * 262144 + p div 4096 mod 64 * 4096 + p div 64 mod 64 * 64 + p mod 64 = p"
    using s div_mult_mod_eq [of "p div 4096" 64] unfolding d(2) by linarith
qed

lemma utf8Head_point:
  assumes "scalar p"
  shows "utf8Head (utf8Point p @ r) = Some (p, r)"
proof -
  have m: "x mod 64 < (64::nat)" for x by simp
  consider "p < 0x80" | "0x80 \<le> p" "p < 0x800" | "0x800 \<le> p" "p < 0x10000" | "0x10000 \<le> p" "p < 0x110000"
    using assms by (fastforce simp: scalar_def)
  then show ?thesis
  proof cases
    case 1
    then show ?thesis by (simp add: utf8Point_def)
  next
    case 2
    then have d: "2 \<le> p div 64" "p div 64 < 32"
      by (simp_all add: div_less_iff_less_mult less_eq_div_iff_mult_less_eq)
    have "p div 64 * 64 + p mod 64 = p" by (rule div_mult_mod_eq)
    then have "utf8Head ((0xC0 + p div 64) # (0x80 + p mod 64) # r) = Some (p, r)"
      using head2 [OF d(2,1) m] by metis
    moreover have "utf8Point p = [0xC0 + p div 64, 0x80 + p mod 64]" using 2 by (simp add: utf8Point_def)
    ultimately show ?thesis by (simp only: append.simps)
  next
    case 3
    then have d: "p div 4096 < 16" by (simp add: div_less_iff_less_mult)
    from head3 [OF d m m base64_digits(1) 3(1)] assms
    have "utf8Head ((0xE0 + p div 4096) # (0x80 + p div 64 mod 64) # (0x80 + p mod 64) # r) = Some (p, r)"
      by (simp only: scalar_def simp_thms)
    moreover have "utf8Point p = [0xE0 + p div 4096, 0x80 + p div 64 mod 64, 0x80 + p mod 64]"
      using 3 by (simp add: utf8Point_def)
    ultimately show ?thesis by (simp only: append.simps)
  next
    case 4
    then have d: "p div 262144 < 5" by (simp add: div_less_iff_less_mult)
    note head4 [OF d m m m base64_digits(2) 4]
    moreover have "utf8Point p = [0xF0 + p div 262144, 0x80 + p div 4096 mod 64, 0x80 + p div 64 mod 64, 0x80 + p mod 64]"
      using 4 by (simp add: utf8Point_def)
    ultimately show ?thesis by (simp only: append.simps)
  qed
qed

lemma utf8Point_nonempty: "utf8Point p \<noteq> []"
  by (simp add: utf8Point_def)

lemma decodePoints_encoded: "\<forall>p \<in> set ps. scalar p \<Longrightarrow> decodePoints (concat (map utf8Point ps)) = Some ps"
proof (induction ps)
  case Nil
  then show ?case by (simp add: decodePoints.simps)
next
  case (Cons p ps)
  then have "utf8Head (utf8Point p @ concat (map utf8Point ps)) = Some (p, concat (map utf8Point ps))"
    by (simp add: utf8Head_point)
  with Cons show ?case by (subst decodePoints.simps) (simp add: utf8Point_nonempty)
qed

lemma scalar_units:
  assumes "scalar p"
  obtains "p < 0x10000" "codeUnits p = [p]" "\<not> high_surrogate p" "\<not> low_surrogate p"
  | h l where "codeUnits p = [h, l]" "high_surrogate h" "low_surrogate l" "0x10000 + (h - 0xD800) * 0x400 + (l - 0xDC00) = p"
proof (cases "p < 0x10000")
  case True
  moreover from assms have "\<not> high_surrogate p" "\<not> low_surrogate p"
    by (auto simp: scalar_def surrogate_def high_surrogate_def low_surrogate_def)
  ultimately show ?thesis using that(1) by (simp add: codeUnits_def)
next
  case False
  have "p - 0x10000 < 0x400 * 0x400" using False assms unfolding scalar_def by linarith
  then have "(p - 0x10000) div 0x400 < 0x400" by (rule less_mult_imp_div_less)
  then have "high_surrogate (0xD800 + (p - 0x10000) div 0x400)" "low_surrogate (0xDC00 + (p - 0x10000) mod 0x400)"
    using mod_less_divisor [of "0x400" "p - 0x10000"] by (auto simp: high_surrogate_def low_surrogate_def)
  moreover have "0x10000 + ((p - 0x10000) div 0x400 * 0x400 + (p - 0x10000) mod 0x400) = p"
    using False by (simp only: div_mult_mod_eq)
  ultimately show ?thesis using that(2) False by (simp add: codeUnits_def)
qed

lemma codePoints_BMP: "\<not> high_surrogate c \<Longrightarrow> codePoints (c # s) = c # codePoints s"
  by (cases s) simp_all

lemma codePoints_units: "\<forall>p \<in> set ps. scalar p \<Longrightarrow> codePoints (concat (map codeUnits ps)) = ps"
proof (induction ps)
  case (Cons p ps)
  then have "scalar p" by simp
  then show ?case
    by (cases rule: scalar_units) (use Cons in \<open>simp_all add: codePoints_BMP\<close>)
qed simp

text \<open>Every unit of a string is below \<open>2 ^ 16\<close>; a well-formed string is the units of its code points.\<close>

definition units :: "utf16 \<Rightarrow> bool" where
  "units s \<longleftrightarrow> (\<forall>c \<in> set s. c < 0x10000)"

lemma pair_scalar:
  assumes "high_surrogate c" and "low_surrogate e"
  shows "scalar (0x10000 + (c - 0xD800) * 0x400 + (e - 0xDC00))"
proof -
  have "c - 0xD800 \<le> 0x3FF" "e - 0xDC00 \<le> 0x3FF"
    using assms by (auto simp: high_surrogate_def low_surrogate_def)
  then show ?thesis unfolding scalar_def surrogate_def by linarith
qed

lemma codePoints_bound: "units s \<Longrightarrow> p \<in> set (codePoints s) \<Longrightarrow> p < 0x110000"
proof (induction s rule: codePoints.induct)
  case (3 c e cs)
  show ?case
  proof (cases "high_surrogate c \<and> low_surrogate e")
    case True
    with 3(1,3,4) pair_scalar [of c e] show ?thesis by (auto simp: units_def scalar_def)
  next
    case False
    then have "codePoints (c # e # cs) = c # codePoints (e # cs)" by auto
    with 3(2) [OF False] 3(3,4) show ?thesis by (auto simp: units_def)
  qed
qed (simp_all add: units_def)

lemma codePoints_scalar: "units s \<Longrightarrow> well_formed s \<Longrightarrow> p \<in> set (codePoints s) \<Longrightarrow> scalar p"
  by (simp add: scalar_def codePoints_bound well_formed_def)

lemma pair_units:
  assumes "high_surrogate c" and "low_surrogate e"
  shows "codeUnits (0x10000 + (c - 0xD800) * 0x400 + (e - 0xDC00)) = [c, e]"
proof -
  have e: "e - 0xDC00 < 0x400" and le: "0xD800 + (c - 0xD800) = c" "0xDC00 + (e - 0xDC00) = e"
    using assms by (auto simp: high_surrogate_def low_surrogate_def)
  have "codeUnits (0x10000 + a * 0x400 + b) = [0xD800 + a, 0xDC00 + b]" if "b < 0x400" for a b :: nat
  proof -
    have "0x10000 + a * 0x400 + b - 0x10000 = b + 0x400 * a" "\<not> 0x10000 + a * 0x400 + b < 0x10000" by linarith+
    moreover have "(b + 0x400 * a) div 0x400 = a" "(b + 0x400 * a) mod 0x400 = b" using that by simp_all
    ultimately show ?thesis unfolding codeUnits_def by (simp only: if_False)
  qed
  from this [OF e, of "c - 0xD800"] show ?thesis unfolding le .
qed

lemma units_codePoints: "units s \<Longrightarrow> well_formed s \<Longrightarrow> concat (map codeUnits (codePoints s)) = s"
proof (induction s rule: codePoints.induct)
  case (2 c)
  then show ?case by (simp add: units_def codeUnits_def)
next
  case (3 c e cs)
  show ?case
  proof (cases "high_surrogate c \<and> low_surrogate e")
    case True
    with 3 show ?thesis by (simp add: units_def well_formed_def pair_units)
  next
    case False
    then have "codePoints (c # e # cs) = c # codePoints (e # cs)" by auto
    with 3(2) [OF False] 3(3,4) show ?thesis by (simp add: units_def well_formed_def codeUnits_def)
  qed
qed simp

text \<open>
  What a column gives back for a string written to it: the string with each lone surrogate replaced,
  which is well formed, and the string itself where it was.
\<close>

definition stored_text :: "utf16 \<Rightarrow> utf16" where
  "stored_text s = concat (map codeUnits (map (\<lambda>p. if surrogate p then 0xFFFD else p) (codePoints s)))"

lemma repaired_scalar: "units s \<Longrightarrow> \<forall>p \<in> set (map (\<lambda>p. if surrogate p then 0xFFFD else p) (codePoints s)). scalar p"
  by (auto simp: scalar_def surrogate_def codePoints_bound)

lemma of_char_small: "p < 256 \<Longrightarrow> of_char (char_of p :: char) = (p :: nat)"
  by (simp add: take_bit_eq_mod)

lemma utf8Point_bytes: "scalar p \<Longrightarrow> \<forall>b \<in> set (utf8Point p). b < 256"
  by (auto simp: utf8Point_def scalar_def)

lemma set_concat_map: "c \<in> set (concat (map f xs)) \<Longrightarrow> \<exists>x \<in> set xs. c \<in> set (f x)"
  by auto

lemma utf8Points_written:
  assumes "units s"
  shows "utf8Points (toUtf8 s) = Some (map (\<lambda>p. if surrogate p then 0xFFFD else p) (codePoints s))"
proof -
  let ?ps = "map (\<lambda>p. if surrogate p then 0xFFFD else p) (codePoints s)"
  have bytes: "map of_char (map char_of bs :: string) = bs" if "\<forall>b \<in> set bs. b < (256::nat)" for bs
    using that by (induction bs) simp_all
  have "\<forall>b \<in> set (concat (map utf8Point ?ps)). b < 256"
    using repaired_scalar [OF assms] utf8Point_bytes set_concat_map by meson
  moreover have "toUtf8 s = map char_of (concat (map utf8Point ?ps))"
    by (simp add: toUtf8_def comp_def)
  ultimately show ?thesis
    unfolding utf8Points_def by (simp only: bytes decodePoints_encoded [OF repaired_scalar [OF assms]])
qed

lemma fromUtf8_written: "units s \<Longrightarrow> fromUtf8 (toUtf8 s) = Some (stored_text s)"
  by (simp add: fromUtf8_def utf8Points_written stored_text_def)

lemma codeUnits_units: "scalar p \<Longrightarrow> units (codeUnits p)"
  by (rule scalar_units, assumption) (auto simp: units_def high_surrogate_def low_surrogate_def)

lemma stored_text_facts:
  assumes "units s"
  shows "units (stored_text s)" and "well_formed (stored_text s)" and "well_formed s \<Longrightarrow> stored_text s = s"
proof -
  note sc = repaired_scalar [OF assms]
  show "units (stored_text s)"
    unfolding units_def
  proof
    fix c
    assume "c \<in> set (stored_text s)"
    then have "\<exists>p \<in> set (map (\<lambda>p. if surrogate p then 0xFFFD else p) (codePoints s)). c \<in> set (codeUnits p)"
      unfolding stored_text_def by (rule set_concat_map)
    then obtain p where p: "p \<in> set (map (\<lambda>p. if surrogate p then 0xFFFD else p) (codePoints s))" "c \<in> set (codeUnits p)"
      by (rule bexE)
    have "units (codeUnits p)" by (rule codeUnits_units [OF bspec [OF sc p(1)]])
    then show "c < 0x10000" using p(2) unfolding units_def by (rule bspec)
  qed
  show "well_formed (stored_text s)"
    unfolding well_formed_def
  proof
    fix p
    assume "p \<in> set (codePoints (stored_text s))"
    then have "p \<in> set (map (\<lambda>p. if surrogate p then 0xFFFD else p) (codePoints s))"
      by (simp only: stored_text_def codePoints_units [OF sc])
    then have "scalar p" by (rule bspec [OF sc])
    then show "\<not> surrogate p" unfolding scalar_def by (rule conjunct2)
  qed
  assume w: "well_formed s"
  then have "map (\<lambda>p. if surrogate p then 0xFFFD else p) (codePoints s) = codePoints s"
    by (simp add: well_formed_def map_idI)
  then show "stored_text s = s" unfolding stored_text_def using units_codePoints [OF assms w] by simp
qed

lemma fromUtf8_toUtf8: "units s \<Longrightarrow> well_formed s \<Longrightarrow> fromUtf8 (toUtf8 s) = Some s"
  by (simp add: fromUtf8_written stored_text_facts)

section \<open>Reading an encoded component back\<close>

text \<open>Percent decoding, to state what a reader of the component gets.\<close>

definition hex_value :: "char \<Rightarrow> nat" where
  "hex_value c = (if of_char c < (58 :: nat) then of_char c - 48 else of_char c - 55)"

fun percentDecode :: "string \<Rightarrow> nat list" where
  "percentDecode [] = []"
| "percentDecode [c] = [of_char c]"
| "percentDecode [c, h] = [of_char c, of_char h]"
| "percentDecode (c # h # l # r) =
     (if c = CHR ''%'' then (hex_value h * 16 + hex_value l) # percentDecode r
      else of_char c # percentDecode (h # l # r))"

lemma percentDecode_plain: "c \<noteq> CHR ''%'' \<Longrightarrow> percentDecode (c # r) = of_char c # percentDecode r"
  by (cases "c # r" rule: percentDecode.cases) simp_all

lemma hex_value_digit: "n < 16 \<Longrightarrow> hex_value (hex_digit n) = n"
  by (auto simp: hex_value_def hex_digit_def)

lemma percentDecode_percent: "b < 256 \<Longrightarrow> percentDecode (percent b @ r) = b # percentDecode r"
  by (simp add: percent_def hex_value_digit div_less_iff_less_mult)

lemma percentDecode_bytes:
  "\<forall>b \<in> set bs. b < 256 \<Longrightarrow> percentDecode (concat (map percent bs) @ r) = bs @ percentDecode r"
  by (induction bs) (simp_all add: percentDecode_percent)

lemma unreserved_bounds: "unreserved p \<Longrightarrow> p < 0x80 \<and> p \<noteq> 37 \<and> 32 < p \<and> p \<noteq> 34 \<and> p \<noteq> 92"
  by (auto simp: unreserved_def)

lemma percentDecode_points:
  "\<forall>p \<in> set ps. scalar p \<Longrightarrow>
     percentDecode (concat (map (\<lambda>p. if unreserved p then [char_of p] else concat (map percent (utf8Point p))) ps)) =
     concat (map utf8Point ps)"
proof (induction ps)
  case (Cons p ps)
  show ?case
  proof (cases "unreserved p")
    case True
    then have p: "p < 0x80" "p \<noteq> 37" using unreserved_bounds by blast+
    then have of: "of_char (char_of p :: char) = p" by (simp add: of_char_small)
    then have "char_of p \<noteq> CHR ''%''" using p(2) by (auto dest: arg_cong [of _ _ "of_char :: char \<Rightarrow> nat"])
    with True Cons p(1) show ?thesis by (simp add: percentDecode_plain of utf8Point_def del: of_char_of)
  next
    case False
    with Cons show ?thesis by (simp add: percentDecode_bytes [OF utf8Point_bytes])
  qed
qed simp

lemma encodeURIComponent_roundtrip:
  assumes "encodeURIComponent s = Some e" and "units s"
  shows "map_option (\<lambda>ps. concat (map codeUnits ps)) (decodePoints (percentDecode e)) = Some s"
proof -
  have w: "well_formed s" and e: "e = concat (map (\<lambda>p. if unreserved p then [char_of p]
      else concat (map percent (utf8Point p))) (codePoints s))"
    using assms(1) by (auto simp: encodeURIComponent_def split: if_splits)
  have sc: "\<forall>p \<in> set (codePoints s). scalar p" using codePoints_scalar [OF assms(2) w] by blast
  then show ?thesis unfolding e percentDecode_points [OF sc]
    by (simp add: decodePoints_encoded units_codePoints w assms(2))
qed

text \<open>The alphabet of an encoded component.\<close>

definition component_char :: "char \<Rightarrow> bool" where
  "component_char c \<longleftrightarrow> unreserved (of_char c) \<or> c = CHR ''%''"

lemma hex_digit_char: "n < 16 \<Longrightarrow> component_char (hex_digit n)"
  by (auto simp: component_char_def hex_digit_def unreserved_def)

lemma encodeURIComponent_chars:
  assumes "encodeURIComponent s = Some e" and "units s" and "c \<in> set e"
  shows "component_char c"
proof -
  have w: "well_formed s" using assms(1) by (auto simp: encodeURIComponent_def split: if_splits)
  have "component_char c" if "c \<in> set (concat (map percent bs))" "\<forall>b \<in> set bs. b < 256" for bs
    using that
    by (induction bs) (auto simp: percent_def div_less_iff_less_mult hex_digit_char, simp add: component_char_def)
  moreover have "component_char (char_of p)" if "unreserved p" for p
    using that unreserved_bounds [OF that] by (simp add: component_char_def of_char_small del: of_char_of)
  ultimately show ?thesis
    using assms(1,3) codePoints_scalar [OF assms(2) w] utf8Point_bytes
    by (fastforce simp: encodeURIComponent_def w split: if_splits)
qed

end
