(* ===== verification/AttachmentNames.thy ===== *)
theory AttachmentNames
  imports Utf16
begin

text \<open>
  \<open>apps/api/src/attachment/\<close>, the pure part: the display name of an attachment
  (\<open>attachment-display-name.ts\<close>), the \<open>Content-Disposition\<close> header
  (\<open>attachment-disposition.ts\<close>), the accepted media types (\<open>attachment-mime.ts\<close>) and the storage key
  (\<open>attachment-storage-key.ts\<close>). The library that reads magic bytes is a parameter.
\<close>

section \<open>Display names\<close>

definition UNSAFE_DISPLAY_CHARACTERS :: "nat \<Rightarrow> bool" where
  "UNSAFE_DISPLAY_CHARACTERS c \<longleftrightarrow>
     c = 0x22 \<or> c = 0x5C \<or> c \<le> 0x1F \<or> 0x7F \<le> c \<and> c \<le> 0x9F \<or> c = 0x061C \<or> c = 0x200E \<or> c = 0x200F \<or>
     0x202A \<le> c \<and> c \<le> 0x202E \<or> 0x2066 \<le> c \<and> c \<le> 0x2069"

definition safeDisplayName :: "utf16 \<Rightarrow> utf16" where
  "safeDisplayName value = take 255 (trim16 (filter (\<lambda>c. \<not> UNSAFE_DISPLAY_CHARACTERS c) value))"

text \<open>\<open>original.split(/[/\\]/).pop()\<close>: what follows the last separator.\<close>

definition displayFilename :: "utf16 \<Rightarrow> utf16" where
  "displayFilename original =
     (let base = rev (takeWhile (\<lambda>c. c \<noteq> 0x2F \<and> c \<noteq> 0x5C) (rev original));
          cleaned = safeDisplayName base
      in if cleaned = [] then ascii ''attachment'' else cleaned)"

section \<open>Media types\<close>

definition ALLOWED_MIME_TYPES :: "string list" where
  "ALLOWED_MIME_TYPES =
     [''image/png'', ''image/jpeg'', ''image/gif'', ''image/webp'', ''application/pdf'',
      ''application/vnd.openxmlformats-officedocument.wordprocessingml.document'',
      ''application/vnd.openxmlformats-officedocument.spreadsheetml.sheet'',
      ''application/vnd.openxmlformats-officedocument.presentationml.presentation'',
      ''application/vnd.oasis.opendocument.text'',
      ''application/vnd.oasis.opendocument.spreadsheet'',
      ''application/vnd.oasis.opendocument.presentation'',
      ''application/zip'', ''text/plain'', ''text/csv'']"

definition INLINE_MIME_TYPES :: "string list" where
  "INLINE_MIME_TYPES = [''image/png'', ''image/jpeg'', ''image/gif'', ''image/webp'']"

definition TEXT_MEDIA_TYPES :: "string list" where
  "TEXT_MEDIA_TYPES = [''text/plain'', ''text/csv'']"

definition TEXT_DECLARATIONS :: "string list" where
  "TEXT_DECLARATIONS = [''text/plain'', ''text/csv'']"

definition plainTextType :: "string \<Rightarrow> string \<Rightarrow> string option" where
  "plainTextType bytes declared =
     (let label = js_lower (js_trim (hd (splitOn (CHR '';'') declared)))
      in case find (\<lambda>candidate. candidate = label) TEXT_DECLARATIONS of
           None \<Rightarrow> None
         | Some m \<Rightarrow>
             if CHR 0x00 \<in> set bytes then None
             else (case decodeFatal bytes of
                     None \<Rightarrow> None
                   | Some text \<Rightarrow>
                       if take 1 (dropWhile white_space text) = [0x3C] then None else Some m))"

text \<open>\<open>sniff\<close> stands for \<open>fileTypeFromBuffer\<close> of the library.\<close>

definition assertAllowedMimeType :: "(string \<Rightarrow> string option) \<Rightarrow> string \<Rightarrow> string \<Rightarrow> http_error + string" where
  "assertAllowedMimeType sniff bytes declared =
     (case sniff bytes of
        Some sniffed \<Rightarrow>
          if sniffed \<in> set ALLOWED_MIME_TYPES then Inr sniffed
          else Inl (UnsupportedMediaType ''This file type is not accepted'')
      | None \<Rightarrow>
          (case plainTextType bytes declared of
             Some m \<Rightarrow> Inr m
           | None \<Rightarrow> Inl (UnsupportedMediaType ''This file type is not accepted'')))"

section \<open>Serving a file\<close>

definition UNSAFE_HEADER_CHARACTERS :: "nat \<Rightarrow> bool" where
  "UNSAFE_HEADER_CHARACTERS c \<longleftrightarrow>
     c = 0x22 \<or> c = 0x5C \<or> c \<le> 0x1F \<or> 0x7F \<le> c \<and> c \<le> 0x9F \<or> c = 0x061C \<or> c = 0x200E \<or> c = 0x200F \<or>
     0x202A \<le> c \<and> c \<le> 0x202E \<or> 0x2066 \<le> c \<and> c \<le> 0x2069"

definition headerSafe :: "utf16 \<Rightarrow> utf16" where
  "headerSafe filename = filter (\<lambda>c. \<not> UNSAFE_HEADER_CHARACTERS c) filename"

definition asciiChar :: "nat \<Rightarrow> char" where
  "asciiChar c = (if 0x20 \<le> c \<and> c \<le> 0x7E then char_of c else CHR ''_'')"

definition asciiName :: "utf16 \<Rightarrow> string" where
  "asciiName safe =
     (let a = map asciiChar safe
      in if a = [] then ''attachment'' else a)"

text \<open>\<open>None\<close> is the \<open>URIError\<close> of \<open>encodeURIComponent\<close>.\<close>

definition contentDisposition :: "string \<Rightarrow> utf16 \<Rightarrow> string option" where
  "contentDisposition mimeType filename =
     (let kind = (if mimeType \<in> set INLINE_MIME_TYPES then ''inline'' else ''attachment'');
          safe = headerSafe filename
      in map_option (\<lambda>encoded. kind @ ''; filename='' @ [CHR 0x22] @ asciiName safe @ [CHR 0x22] @
                       ''; filename*=UTF-8'' @ [CHR 0x27, CHR 0x27] @ encoded)
           (encodeURIComponent safe))"

definition storageKeyFor :: "ident \<Rightarrow> string" where
  "storageKeyFor attachmentId =
     (let hex = filter (\<lambda>c. c \<noteq> CHR ''-'') attachmentId
      in take 2 hex @ ''/'' @ take 2 (drop 2 hex) @ ''/'' @ attachmentId)"

section \<open>Names\<close>

lemma trim16_subset: "set (trim16 s) \<subseteq> set s"
  by (auto simp: trim16_def dest!: set_dropWhileD)

lemma safeDisplayName_facts:
  "length (safeDisplayName v) \<le> 255"
  "c \<in> set (safeDisplayName v) \<Longrightarrow> c \<in> set v \<and> \<not> UNSAFE_DISPLAY_CHARACTERS c"
proof -
  show "length (safeDisplayName v) \<le> 255" by (simp add: safeDisplayName_def)
  assume "c \<in> set (safeDisplayName v)"
  then have "c \<in> set (filter (\<lambda>c. \<not> UNSAFE_DISPLAY_CHARACTERS c) v)"
    unfolding safeDisplayName_def using trim16_subset by (meson in_set_takeD subsetD)
  then show "c \<in> set v \<and> \<not> UNSAFE_DISPLAY_CHARACTERS c" by simp
qed

lemma displayFilename_facts:
  "displayFilename v \<noteq> []" "length (displayFilename v) \<le> 255"
  "c \<in> set (displayFilename v) \<Longrightarrow> \<not> UNSAFE_DISPLAY_CHARACTERS c \<and> c \<noteq> 0x2F"
proof -
  let ?base = "rev (takeWhile (\<lambda>c. c \<noteq> 0x2F \<and> c \<noteq> 0x5C) (rev v))"
  show "displayFilename v \<noteq> []" by (simp add: displayFilename_def Let_def ascii_def)
  show "length (displayFilename v) \<le> 255"
    using safeDisplayName_facts(1) [of ?base] by (simp add: displayFilename_def Let_def ascii_def)
  assume c: "c \<in> set (displayFilename v)"
  show "\<not> UNSAFE_DISPLAY_CHARACTERS c \<and> c \<noteq> 0x2F"
  proof (cases "safeDisplayName ?base = []")
    case True
    with c show ?thesis by (auto simp: displayFilename_def Let_def ascii_def UNSAFE_DISPLAY_CHARACTERS_def)
  next
    case False
    with c have "c \<in> set (safeDisplayName ?base)" by (simp add: displayFilename_def Let_def)
    from safeDisplayName_facts(2) [OF this] show ?thesis by (auto dest: set_takeWhileD)
  qed
qed

section \<open>Types\<close>

lemma plainTextType_ok:
  assumes "plainTextType bytes declared = Some m"
  shows "m \<in> set TEXT_MEDIA_TYPES" and "CHR 0x00 \<notin> set bytes"
    and "\<exists>text. decodeFatal bytes = Some text \<and> take 1 (dropWhile white_space text) \<noteq> [0x3C]"
proof -
  obtain body where t: "find (\<lambda>c. c = js_lower (js_trim (hd (splitOn (CHR '';'') declared)))) TEXT_DECLARATIONS = Some m"
    "CHR 0x00 \<notin> set bytes" "decodeFatal bytes = Some body" "take 1 (dropWhile white_space body) \<noteq> [0x3C]"
    using assms by (auto simp: plainTextType_def Let_def split: option.splits if_splits)
  show "m \<in> set TEXT_MEDIA_TYPES"
    using find_Some_iff_mem [OF t(1)] unfolding TEXT_DECLARATIONS_def TEXT_MEDIA_TYPES_def by blast
  show "CHR 0x00 \<notin> set bytes" by (rule t(2))
  show "\<exists>text. decodeFatal bytes = Some text \<and> take 1 (dropWhile white_space text) \<noteq> [0x3C]"
    using t(3,4) by blast
qed

lemma accepted_type:
  assumes "assertAllowedMimeType sniff bytes declared = Inr m"
  shows "m \<in> set ALLOWED_MIME_TYPES"
    and "sniff bytes = Some m \<or> sniff bytes = None \<and> plainTextType bytes declared = Some m"
  using assms plainTextType_ok(1) [of bytes declared m]
  by (auto simp: assertAllowedMimeType_def TEXT_MEDIA_TYPES_def ALLOWED_MIME_TYPES_def split: option.splits if_splits)

section \<open>The header\<close>

lemma headerSafe_facts: "c \<in> set (headerSafe f) \<Longrightarrow> c \<in> set f \<and> \<not> UNSAFE_HEADER_CHARACTERS c"
  by (simp add: headerSafe_def)

lemma asciiChar_facts:
  assumes "\<not> UNSAFE_HEADER_CHARACTERS n"
  shows "32 \<le> (of_char (asciiChar n) :: nat)" and "of_char (asciiChar n) \<le> (126 :: nat)"
    and "asciiChar n \<noteq> CHR 0x22" and "asciiChar n \<noteq> CHR 0x5C"
proof -
  have n: "n \<noteq> 0x22" "n \<noteq> 0x5C" using assms by (auto simp: UNSAFE_HEADER_CHARACTERS_def)
  have code: "of_char (asciiChar n) = (if 32 \<le> n \<and> n \<le> 126 then n else 95)"
    using of_char_small [of n] by (simp add: asciiChar_def del: of_char_of)
  show "32 \<le> (of_char (asciiChar n) :: nat)" "of_char (asciiChar n) \<le> (126 :: nat)" unfolding code by simp_all
  have "of_char (asciiChar n) \<noteq> (of_char (CHR 0x22) :: nat)" "of_char (asciiChar n) \<noteq> (of_char (CHR 0x5C) :: nat)"
    unfolding code using n by simp_all
  then show "asciiChar n \<noteq> CHR 0x22" "asciiChar n \<noteq> CHR 0x5C" by metis+
qed

definition quotable :: "char \<Rightarrow> bool" where
  "quotable c \<longleftrightarrow> 32 \<le> (of_char c :: nat) \<and> of_char c \<le> (126 :: nat) \<and> c \<noteq> CHR 0x22 \<and> c \<noteq> CHR 0x5C"

lemma asciiName_facts:
  shows "asciiName safe \<noteq> []" and "\<forall>c \<in> set safe. \<not> UNSAFE_HEADER_CHARACTERS c \<Longrightarrow> list_all quotable (asciiName safe)"
  by (auto simp: asciiName_def Let_def quotable_def list_all_iff asciiChar_facts)

lemma headerSafe_keeps_surrogates: "surrogate c \<or> 0x10000 \<le> c \<Longrightarrow> \<not> UNSAFE_HEADER_CHARACTERS c"
  by (auto simp: UNSAFE_HEADER_CHARACTERS_def surrogate_def)

text \<open>Dropping the unsafe characters, none of which is a surrogate, leaves no surrogate alone.\<close>

lemma headerSafe_well_formed: "units f \<Longrightarrow> well_formed f \<Longrightarrow> well_formed (headerSafe f)"
proof -
  have "well_formed f \<Longrightarrow> codePoints (headerSafe f) = filter (\<lambda>c. \<not> UNSAFE_HEADER_CHARACTERS c) (codePoints f)" for f
  proof (induction f rule: codePoints.induct)
    case (2 c)
    then show ?case by (simp add: headerSafe_def)
  next
    case (3 c e cs)
    show ?case
    proof (cases "high_surrogate c \<and> low_surrogate e")
      case True
      then have "\<not> UNSAFE_HEADER_CHARACTERS c" "\<not> UNSAFE_HEADER_CHARACTERS e"
        by (auto intro!: headerSafe_keeps_surrogates simp: surrogate_def high_surrogate_def low_surrogate_def)
      with True 3 show ?thesis by (simp add: headerSafe_def well_formed_def headerSafe_keeps_surrogates)
    next
      case False
      then have step: "codePoints (c # e # cs) = c # codePoints (e # cs)" by auto
      have "\<not> high_surrogate c"
        using 3(3) step by (auto simp: well_formed_def surrogate_def high_surrogate_def)
      with 3(2) [OF False] 3(3) step show ?thesis
        by (simp add: headerSafe_def well_formed_def codePoints_BMP)
    qed
  qed (simp add: headerSafe_def)
  then show "units f \<Longrightarrow> well_formed f \<Longrightarrow> well_formed (headerSafe f)" by (simp add: well_formed_def)
qed

text \<open>The header of any name: its shape, its alphabet, and what its encoded half stands for.\<close>

lemma contentDisposition_shape:
  assumes "contentDisposition mime f = Some h" and "units f"
  obtains e where
    "h = (if mime \<in> set INLINE_MIME_TYPES then ''inline'' else ''attachment'') @ ''; filename='' @ [CHR 0x22] @
       asciiName (headerSafe f) @ [CHR 0x22] @ ''; filename*=UTF-8'' @ [CHR 0x27, CHR 0x27] @ e"
    "\<forall>c \<in> set e. component_char c"
    "map_option (\<lambda>ps. concat (map codeUnits ps)) (decodePoints (percentDecode e)) = Some (headerSafe f)"
proof -
  from assms(1) obtain e where e: "encodeURIComponent (headerSafe f) = Some e"
    and h: "h = (if mime \<in> set INLINE_MIME_TYPES then ''inline'' else ''attachment'') @ ''; filename='' @ [CHR 0x22] @
       asciiName (headerSafe f) @ [CHR 0x22] @ ''; filename*=UTF-8'' @ [CHR 0x27, CHR 0x27] @ e"
    by (auto simp: contentDisposition_def Let_def)
  have u: "units (headerSafe f)" using assms(2) by (auto simp: units_def headerSafe_def)
  show ?thesis
    using that h encodeURIComponent_chars [OF e u] encodeURIComponent_roundtrip [OF e u] by blast
qed

section \<open>Storage keys\<close>

text \<open>The key ends with the id, which has no slash: two attachments never share a file.\<close>

lemma storageKeyFor_end:
  assumes "CHR ''/'' \<notin> set a"
  shows "rev (takeWhile (\<lambda>c. c \<noteq> CHR ''/'') (rev (storageKeyFor a))) = a"
proof -
  have "storageKeyFor a = take 2 (filter (\<lambda>c. c \<noteq> CHR ''-'') a) @ ''/'' @ take 2 (drop 2 (filter (\<lambda>c. c \<noteq> CHR ''-'') a)) @ ''/'' @ a"
    by (simp add: storageKeyFor_def Let_def)
  then obtain p where "storageKeyFor a = p @ CHR ''/'' # a" by (metis append_Cons append_Nil append_assoc)
  with assms show ?thesis by (simp add: takeWhile_append)
qed

lemma storageKeyFor_inj:
  assumes "CHR ''/'' \<notin> set a" and "CHR ''/'' \<notin> set b" and "storageKeyFor a = storageKeyFor b"
  shows "a = b"
  using assms storageKeyFor_end by metis

end
