(* ===== verification/Attachments.thy ===== *)
theory Attachments
  imports AttachmentNames PlanLimits Integrity
begin

text \<open>
  \<open>apps/api/src/attachment/attachment.service.ts\<close>, \<open>attachment-download.service.ts\<close>,
  \<open>attachment.mapper.ts\<close> and \<open>storage/storage.service.ts\<close>: links and files attached to tasks, the
  storage quotas, the download with its headers. The disk backend keeps one file per key. Parsing a
  URL and reading magic bytes are parameters; the storage configuration is read at each call, which
  the program does once per process.
\<close>

section \<open>Storage\<close>

definition persistsFiles :: "bool request" where
  "persistsFiles = andThen storageConfig (\<lambda>c. ret (sc_disk c \<noteq> None))"

definition storageRequire :: "unit request" where
  "storageRequire =
     andThen storageConfig (\<lambda>c.
       check (sc_disk c \<noteq> None) (ServiceUnavailable ''Attachment storage is not configured''))"

definition putFile :: "string \<Rightarrow> string \<Rightarrow> millis \<Rightarrow> stored_file list \<Rightarrow> stored_file list" where
  "putFile key bytes t fs =
     filter (\<lambda>f. sf_key f \<noteq> key) fs @ [\<lparr>sf_key = key, sf_bytes = bytes, sf_modifiedAt = t\<rparr>]"

definition storage_write :: "string \<Rightarrow> string \<Rightarrow> unit request" where
  "storage_write key bytes =
     andThen storageRequire (\<lambda>_. andThen now (\<lambda>t. modify (\<lambda>s. s\<lparr>files := putFile key bytes t (files s)\<rparr>)))"

definition storage_createReadStream :: "string \<Rightarrow> string request" where
  "storage_createReadStream key =
     andThen storageRequire (\<lambda>_.
     andThen (query (\<lambda>s. find (\<lambda>f. sf_key f = key) (files s))) (\<lambda>found.
     andThen (orThrow (ServerFault ''ENOENT'') found) (\<lambda>f. ret (sf_bytes f))))"

definition storage_remove :: "string \<Rightarrow> unit request" where
  "storage_remove key =
     andThen storageRequire (\<lambda>_. modify (\<lambda>s. s\<lparr>files := filter (\<lambda>f. sf_key f \<noteq> key) (files s)\<rparr>))"

section \<open>Rows and requests\<close>

record attachment_dto =
  atd_id :: ident
  atd_taskId :: ident
  atd_kind :: attachment_kind
  atd_filename :: string
  atd_mimeType :: "string option"
  atd_size :: "int option"
  atd_url :: "string option"
  atd_uploadedById :: ident
  atd_createdAt :: millis

definition toAttachmentDto :: "attachment_row \<Rightarrow> attachment_dto" where
  "toAttachmentDto row =
     \<lparr>atd_id = a_id row, atd_taskId = a_taskId row, atd_kind = a_kind row, atd_filename = a_filename row,
      atd_mimeType = a_mimeType row, atd_size = a_size row, atd_url = a_url row,
      atd_uploadedById = a_uploadedById row, atd_createdAt = a_createdAt row\<rparr>"

record create_attachment_dto =
  cad_url :: "string option"
  cad_filename :: "utf16 option"

record uploaded_file =
  uf_originalname :: utf16
  uf_mimetype :: string
  uf_buffer :: string

definition kind_name :: "attachment_kind \<Rightarrow> string" where
  "kind_name k = (case k of FILE \<Rightarrow> ''FILE'' | LINK \<Rightarrow> ''LINK'')"

section \<open>Scoped reads\<close>

definition attachmentTask :: "ident \<Rightarrow> ident \<Rightarrow> task_row request" where
  "attachmentTask workspaceId taskId =
     andThen (readDb (\<lambda>d. find (\<lambda>t. t_id t = taskId \<and> boardIn d workspaceId (t_boardId t)) (tasks d)))
       (orThrow (NotFound ''Task not found''))"

text \<open>The row, and the board of its task.\<close>

definition requireAttachment :: "ident \<Rightarrow> ident \<Rightarrow> (attachment_row \<times> ident) request" where
  "requireAttachment workspaceId attachmentId =
     andThen (readDb (\<lambda>d. map_option
         (\<lambda>a. (a, case find (\<lambda>t. t_id t = a_taskId a) (tasks d) of None \<Rightarrow> [] | Some t \<Rightarrow> t_boardId t))
         (find (\<lambda>a. a_id a = attachmentId \<and> taskIn d workspaceId (a_taskId a)) (attachments d))))
       (orThrow (NotFound ''Attachment not found''))"

definition announce :: "ident \<Rightarrow> ident \<Rightarrow> ident \<Rightarrow> ident \<Rightarrow> unit request" where
  "announce workspaceId boardId taskId actorId =
     emitToBoard boardId TASK_UPDATED workspaceId actorId [(''taskId'', JStr taskId)]"

section \<open>Quotas\<close>

definition ATTACHMENT_QUOTA_ERROR :: string where
  "ATTACHMENT_QUOTA_ERROR = ''Attachment Quota Exceeded''"

text \<open>The sum of the sizes of the FILE rows in a scope.\<close>

definition storedFileBytes :: "(attachment_row \<Rightarrow> bool) \<Rightarrow> database \<Rightarrow> int" where
  "storedFileBytes scope d =
     sum_list (map (\<lambda>a. case a_size a of None \<Rightarrow> 0 | Some n \<Rightarrow> n)
       (filter (\<lambda>a. a_kind a = FILE \<and> scope a) (attachments d)))"

definition assertWithinQuota :: "ident \<Rightarrow> int \<Rightarrow> unit request" where
  "assertWithinQuota workspaceId incomingBytes =
     andThen (workspaceStorageQuotaBytes workspaceId) (\<lambda>workspaceQuota.
     andThen storageConfig (\<lambda>c.
       let instanceQuota = sc_instanceQuotaBytes c
       in andThen (if 0 < workspaceQuota
             then andThen (readDb (\<lambda>d. storedFileBytes (\<lambda>a. taskIn d workspaceId (a_taskId a)) d)) (\<lambda>used.
                  check (\<not> int workspaceQuota < used + incomingBytes)
                    (PayloadTooLarge ''This file does not fit in the workspace attachment storage quota'' ATTACHMENT_QUOTA_ERROR))
             else ret ()) (\<lambda>_.
          if 0 < instanceQuota
          then andThen (readDb (storedFileBytes (\<lambda>a. True))) (\<lambda>used.
               check (\<not> instanceQuota < used + incomingBytes)
                 (PayloadTooLarge ''This file does not fit in the instance's attachment storage quota'' ATTACHMENT_QUOTA_ERROR))
          else ret ())))"

section \<open>Operations\<close>

definition attachment_list :: "ident \<Rightarrow> ident \<Rightarrow> attachment_dto list request" where
  "attachment_list workspaceId taskId =
     andThen (attachmentTask workspaceId taskId) (\<lambda>_.
     readDb (\<lambda>d. map toAttachmentDto (rev (sort_key a_id
       (filter (\<lambda>a. a_taskId a = taskId \<and> taskIn d workspaceId (a_taskId a)) (attachments d))))))"

definition attachment_findOne :: "ident \<Rightarrow> ident \<Rightarrow> attachment_dto request" where
  "attachment_findOne workspaceId attachmentId =
     andThen (requireAttachment workspaceId attachmentId) (\<lambda>(row, _). ret (toAttachmentDto row))"

definition attachment_findRow :: "ident \<Rightarrow> ident \<Rightarrow> attachment_row request" where
  "attachment_findRow workspaceId attachmentId =
     andThen (requireAttachment workspaceId attachmentId) (\<lambda>(row, _). ret row)"

text \<open>
  \<open>parseUrl\<close> stands for \<open>new URL(value)\<close>: the protocol and the serialised address, or \<open>None\<close> where the
  constructor throws.
\<close>

definition requireStorableUrl :: "(string \<Rightarrow> (string \<times> string) option) \<Rightarrow> string option \<Rightarrow> http_error + string" where
  "requireStorableUrl parseUrl value =
     (case parseUrl (js_trim (case value of None \<Rightarrow> [] | Some v \<Rightarrow> v)) of
        None \<Rightarrow> Inl (BadRequest ''A link attachment needs an http or https URL'')
      | Some (protocol, href) \<Rightarrow>
          if protocol \<notin> {''http:'', ''https:''}
          then Inl (BadRequest ''A link attachment needs an http or https URL'')
          else Inr href)"

text \<open>The rows \<open>tx.attachment.create\<close> writes, with the audit entry behind them.\<close>

definition insertAttachment :: "ident \<Rightarrow> ident \<Rightarrow> attachment_row \<Rightarrow> attachment_row request" where
  "insertAttachment workspaceId actorId row =
     andThen (writeDb (\<lambda>d. d\<lparr>attachments := attachments d @ [row]\<rparr>)) (\<lambda>_.
     andThen (recordActivity workspaceId (Some (a_taskId row)) actorId AttachmentCreated
       (JObj [(''attachmentId'', JStr (a_id row)), (''kind'', JStr (kind_name (a_kind row))),
              (''filename'', JStr (a_filename row))])) (\<lambda>_.
       ret row))"

definition createLink ::
    "(string \<Rightarrow> (string \<times> string) option) \<Rightarrow> ident \<Rightarrow> ident \<Rightarrow> ident \<Rightarrow> create_attachment_dto \<Rightarrow> attachment_dto request" where
  "createLink parseUrl workspaceId taskId actorId dto =
     andThen (attachmentTask workspaceId taskId) (\<lambda>task.
     andThen (lift_result (requireStorableUrl parseUrl (cad_url dto))) (\<lambda>url.
     andThen (transaction (andThen freshId (\<lambda>newId. andThen now (\<lambda>t.
       let label = safeDisplayName (case cad_filename dto of None \<Rightarrow> [] | Some f \<Rightarrow> f)
       in insertAttachment workspaceId actorId
            \<lparr>a_id = newId, a_taskId = t_id task, a_uploadedById = actorId, a_kind = LINK,
             a_filename = (if label = [] then url else toUtf8 label), a_storageKey = None, a_mimeType = None,
             a_size = None, a_url = Some url, a_createdAt = t\<rparr>)))) (\<lambda>created.
     andThen (announce workspaceId (t_boardId task) (t_id task) actorId) (\<lambda>_.
       ret (toAttachmentDto created)))))"

text \<open>\<open>try { m } catch (error) { await cleanup.catch(() => undefined); throw error }\<close>.\<close>

definition orCleanup :: "'a request \<Rightarrow> unit request \<Rightarrow> 'a request" where
  "orCleanup m cleanup s =
     (case m s of (Inl e, s') \<Rightarrow> (Inl e, snd (cleanup s')) | (Inr x, s') \<Rightarrow> (Inr x, s'))"

definition createFile ::
    "(string \<Rightarrow> string option) \<Rightarrow> ident \<Rightarrow> ident \<Rightarrow> ident \<Rightarrow> uploaded_file \<Rightarrow> attachment_dto request" where
  "createFile sniff workspaceId taskId actorId file =
     andThen (attachmentTask workspaceId taskId) (\<lambda>task.
     andThen (lift_result (assertAllowedMimeType sniff (uf_buffer file) (uf_mimetype file))) (\<lambda>mimeType.
     andThen (assertWithinQuota workspaceId (int (length (uf_buffer file)))) (\<lambda>_.
     andThen freshId (\<lambda>newId.
       let storageKey = storageKeyFor newId
       in andThen (storage_write storageKey (uf_buffer file)) (\<lambda>_.
          orCleanup
            (andThen (transaction (andThen now (\<lambda>t.
               insertAttachment workspaceId actorId
                 \<lparr>a_id = newId, a_taskId = t_id task, a_uploadedById = actorId, a_kind = FILE,
                  a_filename = toUtf8 (displayFilename (uf_originalname file)), a_storageKey = Some storageKey,
                  a_mimeType = Some mimeType, a_size = Some (int (length (uf_buffer file))),
                  a_url = None, a_createdAt = t\<rparr>))) (\<lambda>created.
             andThen (announce workspaceId (t_boardId task) (t_id task) actorId) (\<lambda>_.
               ret (toAttachmentDto created))))
            (storage_remove storageKey))))))"

definition attachment_remove :: "ident \<Rightarrow> ident \<Rightarrow> ident \<Rightarrow> unit request" where
  "attachment_remove workspaceId attachmentId actorId =
     andThen (requireAttachment workspaceId attachmentId) (\<lambda>(attachment, boardId).
     andThen (transaction
       (andThen (readDb (\<lambda>d. length (filter (\<lambda>a. a_id a = attachmentId \<and> taskIn d workspaceId (a_taskId a)) (attachments d)))) (\<lambda>count.
        andThen (writeDb (\<lambda>d. d\<lparr>attachments := filter (\<lambda>a. \<not> (a_id a = attachmentId \<and> taskIn d workspaceId (a_taskId a)))
                                  (attachments d)\<rparr>)) (\<lambda>_.
        andThen (check (count \<noteq> 0) (NotFound ''Attachment not found'')) (\<lambda>_.
        andThen (recordActivity workspaceId (Some (a_taskId attachment)) actorId AttachmentDeleted
          (JObj [(''attachmentId'', JStr attachmentId), (''kind'', JStr (kind_name (a_kind attachment))),
                 (''filename'', JStr (a_filename attachment))])) (\<lambda>_.
          ret ())))))) (\<lambda>_.
     announce workspaceId boardId (a_taskId attachment) actorId))"

section \<open>Download\<close>

record download =
  dl_bytes :: string
  dl_contentType :: string
  dl_contentLength :: int
  dl_disposition :: string
  dl_options :: string
  dl_resourcePolicy :: string
  dl_cacheControl :: string

text \<open>
  A column holds valid UTF-8, and so a name without a lone surrogate: the two faults on the way to the
  header cannot occur on a row that was stored.
\<close>

definition download_open :: "ident \<Rightarrow> ident \<Rightarrow> download request" where
  "download_open workspaceId attachmentId =
     andThen (attachment_findRow workspaceId attachmentId) (\<lambda>attachment.
     andThen (check (a_kind attachment = FILE) (NotFound ''Attachment not found'')) (\<lambda>_.
     andThen (orThrow (NotFound ''Attachment not found'') (a_storageKey attachment)) (\<lambda>key.
       let mimeType = (case a_mimeType attachment of None \<Rightarrow> ''application/octet-stream'' | Some m \<Rightarrow> m)
       in andThen (storage_createReadStream key) (\<lambda>stream.
          andThen (orThrow (ServerFault ''invalid byte sequence'') (fromUtf8 (a_filename attachment))) (\<lambda>filename.
          andThen (orThrow (ServerFault ''URI malformed'') (contentDisposition mimeType filename)) (\<lambda>disposition.
            ret \<lparr>dl_bytes = stream,
                 dl_contentType = (if mimeType \<in> set TEXT_MEDIA_TYPES then mimeType @ ''; charset=utf-8'' else mimeType),
                 dl_contentLength = (case a_size attachment of None \<Rightarrow> 0 | Some n \<Rightarrow> n),
                 dl_disposition = disposition, dl_options = ''nosniff'', dl_resourcePolicy = ''same-origin'',
                 dl_cacheControl = ''private, max-age=0, must-revalidate''\<rparr>))))))"

section \<open>Running them\<close>

lemma andThen_storageRequire [run]:
  "andThen storageRequire f s =
     (case readStorageConfig (environ s) of
        Inl e \<Rightarrow> (Inl e, s)
      | Inr c \<Rightarrow> if sc_disk c = None then (Inl (ServiceUnavailable ''Attachment storage is not configured''), s) else f () s)"
  by (simp add: storageRequire_def run split: sum.split)

lemma andThen_workspaceStorageQuotaBytes [run]:
  "andThen (workspaceStorageQuotaBytes w) f s =
     (case limitsFor w s of
        Inl e \<Rightarrow> (Inl e, s)
      | Inr limits \<Rightarrow> f (case wl_storageBytes limits of None \<Rightarrow> 0 | Some n \<Rightarrow> n) s)"
  by (simp add: workspaceStorageQuotaBytes_def run split: sum.split)

lemma andThen_attachmentTask [run]:
  "andThen (attachmentTask w t) f s =
     (case find (\<lambda>x. t_id x = t \<and> boardIn (db s) w (t_boardId x)) (tasks (db s)) of
        None \<Rightarrow> (Inl (NotFound ''Task not found''), s) | Some x \<Rightarrow> f x s)"
  by (simp add: attachmentTask_def run)

text \<open>The two quotas as one condition on what is stored and what comes in.\<close>

definition workspaceBytes :: "ident \<Rightarrow> database \<Rightarrow> int" where
  "workspaceBytes w d = storedFileBytes (\<lambda>a. taskIn d w (a_taskId a)) d"

definition instanceBytes :: "database \<Rightarrow> int" where
  "instanceBytes d = storedFileBytes (\<lambda>a. True) d"

definition withinQuota :: "ident \<Rightarrow> int \<Rightarrow> world \<Rightarrow> bool" where
  "withinQuota w n s \<longleftrightarrow>
     (\<exists>limits c. limitsFor w s = Inr limits \<and> readStorageConfig (environ s) = Inr c \<and>
        (\<forall>q. wl_storageBytes limits = Some q \<longrightarrow> 0 < q \<longrightarrow> workspaceBytes w (db s) + n \<le> int q) \<and>
        (0 < sc_instanceQuotaBytes c \<longrightarrow> instanceBytes (db s) + n \<le> sc_instanceQuotaBytes c))"

lemma andThen_assertWithinQuota:
  "andThen (assertWithinQuota w n) f s = (Inr x, s') \<longleftrightarrow> withinQuota w n s \<and> f () s = (Inr x, s')"
  by (auto simp: assertWithinQuota_def withinQuota_def run Let_def workspaceBytes_def instanceBytes_def
      split: sum.splits option.splits if_splits)

lemma assertWithinQuota_state: "snd (assertWithinQuota w n s) = s"
  unfolding assertWithinQuota_def Let_def by (simp add: run split: sum.split option.split)

lemma withinQuota_accepts:
  assumes "withinQuota w n s"
  shows "assertWithinQuota w n s = (Inr (), s)"
proof -
  have "andThen (assertWithinQuota w n) ret s = (Inr (), s)"
    using assms by (simp add: andThen_assertWithinQuota ret_def)
  then show ?thesis
    using assertWithinQuota_state [of w n s]
    by (auto simp: andThen_def ret_def split: prod.splits sum.splits)
qed

text \<open>The row of an accepted upload, and the world behind it.\<close>

definition uploadedRow :: "world \<Rightarrow> task_row \<Rightarrow> ident \<Rightarrow> string \<Rightarrow> uploaded_file \<Rightarrow> attachment_row" where
  "uploadedRow s task actorId mimeType file =
     \<lparr>a_id = uuids s (drawn s), a_taskId = t_id task, a_uploadedById = actorId, a_kind = FILE,
      a_filename = toUtf8 (displayFilename (uf_originalname file)), a_storageKey = Some (storageKeyFor (uuids s (drawn s))),
      a_mimeType = Some mimeType, a_size = Some (int (length (uf_buffer file))), a_url = None, a_createdAt = clock s\<rparr>"

lemma insertAttachment_run [run]:
  "insertAttachment w a row s =
     (Inr row, logged (s\<lparr>db := (db s)\<lparr>attachments := attachments (db s) @ [row]\<rparr>\<rparr>) w (Some (a_taskId row)) a AttachmentCreated
        (JObj [(''attachmentId'', JStr (a_id row)), (''kind'', JStr (kind_name (a_kind row))),
               (''filename'', JStr (a_filename row))]))"
  by (simp add: insertAttachment_def run)

lemma createFile_ok:
  assumes "createFile sniff w t u file s = (Inr dto, s')"
  obtains task mimeType entry c where
    "find (\<lambda>x. t_id x = t \<and> boardIn (db s) w (t_boardId x)) (tasks (db s)) = Some task"
    "assertAllowedMimeType sniff (uf_buffer file) (uf_mimetype file) = Inr mimeType"
    "withinQuota w (int (length (uf_buffer file))) s"
    "readStorageConfig (environ s) = Inr c" "sc_disk c \<noteq> None"
    "dto = toAttachmentDto (uploadedRow s task u mimeType file)"
    "db s' = (db s)\<lparr>attachments := attachments (db s) @ [uploadedRow s task u mimeType file],
                    activities := activities (db s) @ [entry]\<rparr>"
    "files s' = putFile (storageKeyFor (uuids s (drawn s))) (uf_buffer file) (clock s) (files s)"
    "environ s' = environ s" "clock s' = clock s" "drawn s' = Suc (Suc (drawn s))" "uuids s' = uuids s"
    "ac_workspaceId entry = w" "ac_userId entry = u" "ac_taskId entry = Some (t_id task)"
    "outbox s' = outbox s @ [ToBoard (t_boardId task) TASK_UPDATED w u [(''taskId'', JStr (t_id task))]]"
    "mails s' = mails s" "logs s' = logs s"
proof -
  from assms obtain task mimeType where
    task: "find (\<lambda>x. t_id x = t \<and> boardIn (db s) w (t_boardId x)) (tasks (db s)) = Some task"
    and mime: "assertAllowedMimeType sniff (uf_buffer file) (uf_mimetype file) = Inr mimeType"
    by (auto simp: createFile_def run split: option.splits sum.splits)
  from assms have q: "withinQuota w (int (length (uf_buffer file))) s"
    by (simp add: createFile_def run task mime andThen_assertWithinQuota)
  then obtain c where c: "readStorageConfig (environ s) = Inr c" by (auto simp: withinQuota_def)
  from assms have disk: "sc_disk c \<noteq> None"
    by (simp add: createFile_def run task mime andThen_assertWithinQuota storage_write_def Let_def c split: if_splits)
  note rest = assms [unfolded createFile_def andThen_attachmentTask task option.case andThen_lift_result mime sum.case
      andThen_assertWithinQuota Let_def storage_write_def, simplified run c disk sum.case if_False]
  show ?thesis
    by (rule that [OF task mime q c disk])
      (use rest in \<open>auto simp: run disk c uploadedRow_def orCleanup_def transaction_def announce_def andThen_transaction
          activityFor_def\<close>)
qed

text \<open>An upload to a task of the workspace, of an accepted type and within the quotas, is accepted.\<close>

lemma createFile_accepts:
  assumes "find (\<lambda>x. t_id x = t \<and> boardIn (db s) w (t_boardId x)) (tasks (db s)) = Some task"
    and "assertAllowedMimeType sniff (uf_buffer file) (uf_mimetype file) = Inr mimeType"
    and "withinQuota w (int (length (uf_buffer file))) s"
    and "readStorageConfig (environ s) = Inr c" and "sc_disk c \<noteq> None"
  shows "\<exists>dto s'. createFile sniff w t u file s = (Inr dto, s')"
  using assms
  by (simp add: createFile_def run andThen_def [of "assertWithinQuota w (int (length (uf_buffer file)))"] withinQuota_accepts
      Let_def storage_write_def) (simp add: orCleanup_def andThen_transaction announce_def run)

text \<open>A refused upload leaves tables, files and everything sent alone.\<close>

lemma assertWithinQuota_cases: "\<exists>r. assertWithinQuota w n s = (r, s)"
  using assertWithinQuota_state [of w n s] by (metis prod.collapse)

lemma createFile_refused:
  assumes "createFile sniff w t u file s = (Inl e, s')"
  shows "s' = s \<or> s' = s\<lparr>drawn := Suc (drawn s)\<rparr>"
proof (cases "find (\<lambda>x. t_id x = t \<and> boardIn (db s) w (t_boardId x)) (tasks (db s))")
  case None
  with assms show ?thesis by (simp add: createFile_def run)
next
  case (Some task)
  show ?thesis
  proof (cases "assertAllowedMimeType sniff (uf_buffer file) (uf_mimetype file)")
    case (Inl e1)
    with Some assms show ?thesis by (simp add: createFile_def run)
  next
    case (Inr mimeType)
    obtain r where q: "assertWithinQuota w (int (length (uf_buffer file))) s = (r, s)"
      using assertWithinQuota_cases by blast
    from assms show ?thesis
      by (cases r)
        (simp_all add: createFile_def run Some Inr andThen_def [of "assertWithinQuota w (int (length (uf_buffer file)))"] q
          Let_def storage_write_def orCleanup_def announce_def andThen_transaction split: sum.splits if_splits)
  qed
qed

lemma appended_attachment_integrity:
  assumes "ref_integrity d" and "\<exists>x \<in> set (workspaces d). w_id x = w" and "\<exists>x \<in> set (users d). u_id x = u"
    and "\<exists>x \<in> set (tasks d). t_id x = a_taskId a" and "a_uploadedById a = u"
    and "ac_workspaceId e = w" and "ac_userId e = u" and "ac_taskId e = Some (a_taskId a)"
  shows "ref_integrity (d\<lparr>attachments := attachments d @ [a], activities := activities d @ [e]\<rparr>)"
  using assms by (auto simp: ref_integrity_def)

lemma taskIn_refs:
  assumes "ref_integrity d" and "find (\<lambda>x. t_id x = t \<and> boardIn d w (t_boardId x)) (tasks d) = Some task"
  shows "\<exists>x \<in> set (workspaces d). w_id x = w" and "\<exists>x \<in> set (tasks d). t_id x = t_id task" and "t_id task = t"
proof -
  have "task \<in> set (tasks d)" "boardIn d w (t_boardId task)" "t_id task = t"
    using find_Some_iff_mem [OF assms(2)] by auto
  with assms(1) show "\<exists>x \<in> set (workspaces d). w_id x = w" "\<exists>x \<in> set (tasks d). t_id x = t_id task" "t_id task = t"
    by (auto simp: ref_integrity_def boardIn_def refs_def list_ex_iff)
qed

lemma createFile_integrity:
  assumes "ref_integrity (db s)" and "\<exists>x \<in> set (users (db s)). u_id x = u"
  shows "ref_integrity (db (snd (createFile sniff w t u file s)))"
proof (cases "createFile sniff w t u file s")
  case (Pair r s')
  show ?thesis
  proof (cases r)
    case (Inl e)
    with createFile_refused [OF Pair [unfolded Inl]] Pair assms(1) show ?thesis by auto
  next
    case (Inr dto)
    obtain task mimeType entry where
      task: "find (\<lambda>x. t_id x = t \<and> boardIn (db s) w (t_boardId x)) (tasks (db s)) = Some task" and d: "db s' = (db s)\<lparr>attachments := attachments (db s) @ [uploadedRow s task u mimeType file],
                      activities := activities (db s) @ [entry]\<rparr>"
      and e: "ac_workspaceId entry = w" "ac_userId entry = u" "ac_taskId entry = Some (t_id task)"
      by (rule createFile_ok [OF Pair [unfolded Inr]])
    have "ref_integrity (db s')"
      unfolding d using taskIn_refs [OF assms(1) task] e
      by (intro appended_attachment_integrity [OF assms(1) _ assms(2)]) (simp_all add: uploadedRow_def)
    with Pair show ?thesis by simp
  qed
qed

lemma createLink_integrity:
  assumes "ref_integrity (db s)" and "\<exists>x \<in> set (users (db s)). u_id x = u"
  shows "ref_integrity (db (snd (createLink parse w t u dto s)))"
proof (cases "find (\<lambda>x. t_id x = t \<and> boardIn (db s) w (t_boardId x)) (tasks (db s))")
  case None
  with assms show ?thesis by (simp add: createLink_def run)
next
  case (Some task)
  with taskIn_refs [OF assms(1) Some] assms show ?thesis
    by (simp add: createLink_def run Let_def andThen_transaction announce_def appended_attachment_integrity split: sum.split)
qed

lemma attachment_remove_integrity:
  assumes "ref_integrity (db s)" and "\<exists>x \<in> set (users (db s)). u_id x = u"
  shows "ref_integrity (db (snd (attachment_remove w k u s)))"
proof (cases "find (\<lambda>a. a_id a = k \<and> taskIn (db s) w (a_taskId a)) (attachments (db s))")
  case None
  with assms show ?thesis by (simp add: attachment_remove_def requireAttachment_def run)
next
  case (Some a)
  then have a: "a \<in> set (attachments (db s))" "taskIn (db s) w (a_taskId a)"
    using find_Some_iff_mem by fastforce+
  then have "\<exists>x \<in> set (workspaces (db s)). w_id x = w" "\<exists>x \<in> set (tasks (db s)). t_id x = a_taskId a"
    using assms(1) by (auto simp: taskIn_def boardIn_def list_ex_iff ref_integrity_def refs_def)
  with Some assms show ?thesis
    by (auto simp: attachment_remove_def requireAttachment_def run andThen_transaction announce_def ref_integrity_def)
qed

end
