(* ===== verification/History.thy ===== *)
theory History
  imports Consistency Attachments "HOL-Library.Sublist"
begin

text \<open>
  What every operation does to the world, refused or not: the clock, the environment and the
  supply of identifiers are read only, events, mails and log lines are appended and never
  withdrawn, and the primary keys and unique constraints of the tables hold if they held before
  and the identifiers still to be drawn are new. The relation is a preorder, so it composes along the
  sequencing of a handler: the interface \<open>frame_rel\<close> is interpreted on it.
\<close>

section \<open>The relation\<close>

text \<open>The identifiers in use, and a world whose keys are unique and whose supply is fresh.\<close>

definition used_ids :: "database \<Rightarrow> ident set" where
  "used_ids d = u_id ` set (users d) \<union> w_id ` set (workspaces d) \<union> m_id ` set (members d) \<union>
     i_id ` set (invitations d) \<union> b_id ` set (boards d) \<union> c_id ` set (columns d) \<union>
     t_id ` set (tasks d) \<union> l_id ` set (labels d) \<union> cl_id ` set (checklists d) \<union> ci_id ` set (items d)"

definition keyed :: "world \<Rightarrow> bool" where
  "keyed s \<longleftrightarrow> unique_ids (db s) \<and> inj (uuids s) \<and> (\<forall>n \<ge> drawn s. uuids s n \<notin> used_ids (db s))"

text \<open>
  Every FILE row has its file, with as many bytes as the row says, and the storage keys still to be
  derived are new.
\<close>

definition backed :: "stored_file list \<Rightarrow> attachment_row \<Rightarrow> bool" where
  "backed fs a \<longleftrightarrow> a_kind a = FILE \<longrightarrow>
     (\<exists>f \<in> set fs. a_storageKey a = Some (sf_key f) \<and> a_size a = Some (int (length (sf_bytes f))))"

definition stored :: "world \<Rightarrow> bool" where
  "stored s \<longleftrightarrow> (\<forall>a \<in> set (attachments (db s)). backed (files s) a) \<and> inj (\<lambda>n. storageKeyFor (uuids s n)) \<and>
     (\<forall>n \<ge> drawn s. storageKeyFor (uuids s n) \<notin> sf_key ` set (files s))"

definition evolves :: "world \<Rightarrow> world \<Rightarrow> bool" where
  "evolves s s' \<longleftrightarrow> clock s' = clock s \<and> environ s' = environ s \<and> uuids s' = uuids s \<and> drawn s \<le> drawn s' \<and>
     prefix (outbox s) (outbox s') \<and> prefix (mails s) (mails s') \<and> prefix (logs s) (logs s') \<and>
     (keyed s \<longrightarrow> keyed s') \<and> (stored s \<longrightarrow> stored s' \<and> set (files s) \<subseteq> set (files s'))"

lemma evolves_refl: "evolves s s"
  by (simp add: evolves_def)

lemma evolves_trans: "evolves s t \<Longrightarrow> evolves t u \<Longrightarrow> evolves s u"
  by (auto simp: evolves_def intro: prefix_order.trans)

interpretation history: frame_rel evolves
  by unfold_locales (auto intro: evolves_refl evolves_trans)

section \<open>Primitive steps\<close>

text \<open>A write that adds no key.\<close>

text \<open>Attachments that were there before, or links.\<close>

definition no_new_file :: "database \<Rightarrow> database \<Rightarrow> bool" where
  "no_new_file d d' \<longleftrightarrow> (\<forall>a \<in> set (attachments d'). a \<in> set (attachments d) \<or> a_kind a = LINK)"

definition adds_no_key :: "(database \<Rightarrow> database) \<Rightarrow> bool" where
  "adds_no_key f \<longleftrightarrow> (\<forall>d. (unique_ids d \<longrightarrow> unique_ids (f d)) \<and> used_ids (f d) \<subseteq> used_ids d \<and> no_new_file d (f d))"

lemma stored_write: "stored s \<Longrightarrow> no_new_file (db s) d \<Longrightarrow> stored (s\<lparr>db := d\<rparr>)"
  by (auto simp: stored_def no_new_file_def backed_def)

lemma keyed_write:
  assumes "keyed s" and "unique_ids (db s) \<Longrightarrow> unique_ids d" and "used_ids d \<subseteq> used_ids (db s)"
  shows "keyed (s\<lparr>db := d\<rparr>)"
  using assms by (auto simp: keyed_def)

lemma frames_readDb: "frames evolves (readDb f)"
  by (rule history.frames_still) (simp add: run)

lemma frames_now: "frames evolves now"
  by (rule history.frames_still) (simp add: run)

lemma frames_freshId: "frames evolves freshId"
  by (simp add: frames_def run evolves_def keyed_def stored_def)

lemma frames_emitToBoard: "frames evolves (emitToBoard b e w a p)"
  by (simp add: frames_def run evolves_def keyed_def stored_def)

lemma frames_emitToUser: "frames evolves (emitToUser w u e)"
  by (simp add: frames_def run evolves_def keyed_def stored_def)

lemma frames_sendMail: "frames evolves (sendMail m)"
  by (simp add: frames_def run evolves_def keyed_def stored_def)

lemma frames_writeDb: "adds_no_key f \<Longrightarrow> frames evolves (writeDb f)"
  by (simp add: frames_def run evolves_def adds_no_key_def keyed_write stored_write)

lemma stored_rolled_back:
  "stored s \<Longrightarrow> stored t \<Longrightarrow> set (files s) \<subseteq> set (files t) \<Longrightarrow> stored (t\<lparr>db := db s\<rparr>)"
  unfolding stored_def backed_def by simp blast

lemma frames_transaction:
  assumes "frames evolves m"
  shows "frames evolves (transaction m)"
  unfolding frames_def
proof
  fix s
  have step: "evolves s (snd (m s))" using assms by (simp add: frames_def)
  show "evolves s (snd (transaction m s))"
  proof (cases "m s")
    case (Pair r t)
    with step show ?thesis
      by (cases r) (auto simp: transaction_def evolves_def keyed_def stored_rolled_back)
  qed
qed

text \<open>A row with a key just drawn.\<close>

definition adds_key :: "(ident \<Rightarrow> database \<Rightarrow> database) \<Rightarrow> bool" where
  "adds_key f \<longleftrightarrow> (\<forall>i d. i \<notin> used_ids d \<longrightarrow> unique_ids d \<longrightarrow> unique_ids (f i d)) \<and>
     (\<forall>i d. used_ids (f i d) \<subseteq> insert i (used_ids d)) \<and> (\<forall>i d. no_new_file d (f i d))"

lemma stored_insert:
  assumes "stored s" and "adds_key f"
  shows "stored (s\<lparr>drawn := Suc (drawn s), db := f (uuids s (drawn s)) (db s)\<rparr>)"
proof -
  have "stored (s\<lparr>db := f (uuids s (drawn s)) (db s)\<rparr>)"
    using assms by (simp add: stored_write adds_key_def)
  then show ?thesis by (simp add: stored_def)
qed

lemma keyed_insert:
  assumes "keyed s" and "adds_key f"
  shows "keyed (s\<lparr>drawn := Suc (drawn s), db := f (uuids s (drawn s)) (db s)\<rparr>)"
proof -
  have "uuids s n \<notin> used_ids (f (uuids s (drawn s)) (db s))" if "Suc (drawn s) \<le> n" for n
  proof -
    have "uuids s n \<noteq> uuids s (drawn s)" and "uuids s n \<notin> used_ids (db s)"
      using assms(1) that by (auto simp: keyed_def inj_eq)
    then show ?thesis using assms(2) unfolding adds_key_def by blast
  qed
  with assms show ?thesis by (simp add: keyed_def adds_key_def)
qed

lemma frames_insert:
  assumes "adds_key f" and "\<And>i. frames evolves (g i)"
  shows "frames evolves (andThen freshId (\<lambda>i. andThen (writeDb (f i)) (\<lambda>_. g i)))"
  unfolding frames_def
proof
  fix s :: world
  let ?t = "s\<lparr>drawn := Suc (drawn s), db := f (uuids s (drawn s)) (db s)\<rparr>"
  have "evolves s ?t" using keyed_insert [OF _ assms(1)] stored_insert [OF _ assms(1)] by (simp add: evolves_def)
  moreover have "evolves ?t (snd (g (uuids s (drawn s)) ?t))" using assms(2) by (simp add: frames_def)
  ultimately show "evolves s (snd (andThen freshId (\<lambda>i. andThen (writeDb (f i)) (\<lambda>_. g i)) s))"
    by (simp add: run evolves_trans)
qed

lemma frames_insert_now:
  assumes "\<And>t. adds_key (f t)" and "\<And>i t. frames evolves (g i t)"
  shows "frames evolves (andThen freshId (\<lambda>i. andThen now (\<lambda>t. andThen (writeDb (f t i)) (\<lambda>_. g i t))))"
proof -
  have "frames evolves (andThen freshId (\<lambda>i. andThen (writeDb (f t i)) (\<lambda>_. g i t)))" for t
    by (rule frames_insert [OF assms])
  then show ?thesis by (simp add: frames_def run)
qed

lemma frames_insert_last:
  assumes "adds_key f"
  shows "frames evolves (andThen freshId (\<lambda>i. writeDb (f i)))"
  using keyed_insert [OF _ assms] stored_insert [OF _ assms] by (simp add: frames_def run evolves_def)

lemma frames_case_option:
  "frames evolves a \<Longrightarrow> (\<And>x. frames evolves (b x)) \<Longrightarrow> frames evolves (case r of None \<Rightarrow> a | Some x \<Rightarrow> b x)"
  by (cases r) simp_all

lemma frames_case_prod: "(\<And>x y. frames evolves (f x y)) \<Longrightarrow> frames evolves (case p of (x, y) \<Rightarrow> f x y)"
  by (cases p) simp

section \<open>Writes\<close>

text \<open>A table rewritten to rows with the same keys in the same order, or to some of them.\<close>

definition keeps_keys :: "('r \<Rightarrow> 'k) \<Rightarrow> (database \<Rightarrow> 'r list) \<Rightarrow> (database \<Rightarrow> 'r list) \<Rightarrow> bool" where
  "keeps_keys key T F \<longleftrightarrow> (\<forall>d. subseq (map key (F d)) (map key (T d)))"

lemma keeps_map: "(\<And>d x. key (m d x) = key x) \<Longrightarrow> keeps_keys key T (\<lambda>d. map (m d) (T d))"
  by (simp add: keeps_keys_def comp_def)

lemma keeps_map_if:
  "(\<And>d x. key (g d x) = key x) \<Longrightarrow> keeps_keys key T (\<lambda>d. map (\<lambda>x. if P d x then g d x else x) (T d))"
  by (rule keeps_map) simp

lemma keeps_filter: "keeps_keys key T (\<lambda>d. filter (P d) (T d))"
  unfolding keeps_keys_def by (simp add: subseq_map)

lemma keeps_batch:
  "(\<And>p r. key (sp p r) = key r) \<Longrightarrow> keeps_keys key T (\<lambda>d. batchUpdatePositions rid sp S u (T d))"
  unfolding batchUpdatePositions_def by (rule keeps_map) (simp split: option.split)

lemma keeps_keysD:
  assumes "keeps_keys key T F"
  shows "distinct (map key (T d)) \<Longrightarrow> distinct (map key (F d))" and "key ` set (F d) \<subseteq> key ` set (T d)"
proof -
  have sub: "subseq (map key (F d)) (map key (T d))" using assms by (simp add: keeps_keys_def)
  then obtain N where N: "map key (F d) = nths (map key (T d)) N"
    unfolding subseq_conv_nths by blast
  show "distinct (map key (T d)) \<Longrightarrow> distinct (map key (F d))"
    unfolding N by (rule distinct_nthsI)
  show "key ` set (F d) \<subseteq> key ` set (T d)"
    using set_nths_subset [of "map key (T d)" N] unfolding N [symmetric] by simp
qed

lemma no_key_write:
  "keeps_keys b_id boards B \<Longrightarrow> adds_no_key (\<lambda>d. d\<lparr>boards := B d\<rparr>)"
  "keeps_keys c_id columns C \<Longrightarrow> adds_no_key (\<lambda>d. d\<lparr>columns := C d\<rparr>)"
  "keeps_keys t_id tasks T \<Longrightarrow> adds_no_key (\<lambda>d. d\<lparr>tasks := T d\<rparr>)"
  "keeps_keys l_id labels L \<Longrightarrow> adds_no_key (\<lambda>d. d\<lparr>labels := L d\<rparr>)"
  "keeps_keys cl_id checklists K \<Longrightarrow> adds_no_key (\<lambda>d. d\<lparr>checklists := K d\<rparr>)"
  "keeps_keys ci_id items I \<Longrightarrow> adds_no_key (\<lambda>d. d\<lparr>items := I d\<rparr>)"
  "keeps_keys (\<lambda>x. (ta_taskId x, ta_userId x)) assignees A \<Longrightarrow> adds_no_key (\<lambda>d. d\<lparr>assignees := A d\<rparr>)"
  "keeps_keys (\<lambda>x. (tl_taskId x, tl_labelId x)) task_labels X \<Longrightarrow> adds_no_key (\<lambda>d. d\<lparr>task_labels := X d\<rparr>)"
  by (auto simp: adds_no_key_def unique_ids_def used_ids_def no_new_file_def keeps_keysD(1) dest: set_mp [OF keeps_keysD(2)])

lemma keyless_write:
  "adds_no_key (\<lambda>d. d\<lparr>comments := M d\<rparr>)" "adds_no_key (\<lambda>d. d\<lparr>activities := V d\<rparr>)"
  "adds_no_key (\<lambda>d. d\<lparr>notifications := N d\<rparr>)" "adds_no_key (\<lambda>d. d\<lparr>tokens := K d\<rparr>)"
  "adds_no_key (\<lambda>d. d\<lparr>attachments := filter (F d) (attachments d)\<rparr>)"
  "(\<And>d. a_kind (L d) = LINK) \<Longrightarrow> adds_no_key (\<lambda>d. d\<lparr>attachments := attachments d @ [L d]\<rparr>)"
  by (auto simp: adds_no_key_def unique_ids_def used_ids_def no_new_file_def)

lemma no_new_file_simps [simp]:
  "no_new_file d (delete_tasks T d)" "no_new_file d (delete_labels L d)" "no_new_file d (delete_columns C d)"
  "no_new_file d (delete_boards B d)" "no_new_file d (delete_checklists K d)"
  by (auto simp: no_new_file_def delete_tasks_def delete_labels_def delete_columns_def delete_boards_def
      delete_checklists_def Let_def)

lemma no_key_delete_tasks: "unique_ids d \<Longrightarrow> unique_ids (delete_tasks T d)" "used_ids (delete_tasks T d) \<subseteq> used_ids d"
  by (simp add: unique_ids_def delete_tasks_def Let_def distinct_map_filter)
    (auto simp: used_ids_def delete_tasks_def Let_def)

lemma no_key_delete_labels:
  "unique_ids d \<Longrightarrow> unique_ids (delete_labels L d)" "used_ids (delete_labels L d) \<subseteq> used_ids d"
  by (simp add: unique_ids_def delete_labels_def Let_def distinct_map_filter)
    (auto simp: used_ids_def delete_labels_def Let_def)

lemma no_key_filter:
  "unique_ids d \<Longrightarrow> unique_ids (d\<lparr>columns := filter C (columns d)\<rparr>)" "used_ids (d\<lparr>columns := filter C (columns d)\<rparr>) \<subseteq> used_ids d"
  "unique_ids d \<Longrightarrow> unique_ids (d\<lparr>boards := filter B (boards d)\<rparr>)" "used_ids (d\<lparr>boards := filter B (boards d)\<rparr>) \<subseteq> used_ids d"
  by (auto simp: unique_ids_def used_ids_def distinct_map_filter)

lemma no_key_delete_columns:
  "unique_ids d \<Longrightarrow> unique_ids (delete_columns C d)" "used_ids (delete_columns C d) \<subseteq> used_ids d"
  unfolding delete_columns_def Let_def
  by (blast intro: no_key_delete_tasks no_key_filter) (rule order_trans [OF no_key_delete_tasks(2) no_key_filter(2)])

lemma no_key_delete_boards:
  "unique_ids d \<Longrightarrow> unique_ids (delete_boards B d)" "used_ids (delete_boards B d) \<subseteq> used_ids d"
  unfolding delete_boards_def Let_def
  by (blast intro: no_key_delete_labels no_key_delete_columns no_key_delete_tasks no_key_filter)
    (rule order_trans [OF no_key_delete_labels(2) order_trans [OF no_key_delete_tasks(2)
        order_trans [OF no_key_delete_columns(2) no_key_filter(4)]]])

lemma no_key_delete_checklists:
  "unique_ids d \<Longrightarrow> unique_ids (delete_checklists L d)" "used_ids (delete_checklists L d) \<subseteq> used_ids d"
  by (simp add: unique_ids_def delete_checklists_def Let_def distinct_map_filter)
    (auto simp: used_ids_def delete_checklists_def Let_def)

lemma no_key_delete:
  "adds_no_key (\<lambda>d. delete_boards (B d) d)" "adds_no_key (\<lambda>d. delete_columns (C d) d)"
  "adds_no_key (\<lambda>d. delete_tasks (T d) d)" "adds_no_key (\<lambda>d. delete_labels (L d) d)"
  "adds_no_key (\<lambda>d. delete_checklists (K d) d)"
  by (simp_all add: adds_no_key_def no_key_delete_tasks no_key_delete_labels no_key_delete_columns
      no_key_delete_boards no_key_delete_checklists)

lemma adds_key_append:
  "(\<And>i. b_id (B i) = i) \<Longrightarrow> adds_key (\<lambda>i d. d\<lparr>boards := boards d @ [B i]\<rparr>)"
  "(\<And>i. c_id (C i) = i) \<Longrightarrow> adds_key (\<lambda>i d. d\<lparr>columns := columns d @ [C i]\<rparr>)"
  "(\<And>i. t_id (T i) = i) \<Longrightarrow> adds_key (\<lambda>i d. d\<lparr>tasks := tasks d @ [T i]\<rparr>)"
  "(\<And>i. l_id (L i) = i) \<Longrightarrow> adds_key (\<lambda>i d. d\<lparr>labels := labels d @ [L i]\<rparr>)"
  "(\<And>i. cl_id (K i) = i) \<Longrightarrow> adds_key (\<lambda>i d. d\<lparr>checklists := checklists d @ [K i]\<rparr>)"
  "(\<And>i. ci_id (I i) = i) \<Longrightarrow> adds_key (\<lambda>i d. d\<lparr>items := items d @ [I i]\<rparr>)"
  by (auto simp: adds_key_def unique_ids_def used_ids_def no_new_file_def)

section \<open>The operations\<close>

named_theorems evolving "what evolves step by step"

lemmas [evolving] = history.frame_rules frames_readDb frames_now frames_freshId frames_emitToBoard
  frames_emitToUser frames_sendMail frames_transaction frames_case_option frames_case_prod
  frames_writeDb no_key_write keyless_write no_key_delete

lemma frames_let [evolving]: "frames evolves (f x) \<Longrightarrow> frames evolves (let y = x in f y)"
  by simp

lemma assertBoard_evolves [evolving]: "frames evolves (assertBoard w b)"
  unfolding assertBoard_def Let_def by (intro evolving)

lemma recordActivity_evolves [evolving]: "frames evolves (recordActivity w t u typ p)"
  unfolding recordActivity_def Let_def by (intro evolving)

lemma locale_read_evolves [evolving]: "frames evolves (locale_read u)"
  unfolding locale_read_def Let_def by (intro evolving)

lemma locale_resolve_evolves [evolving]: "frames evolves (locale_resolve l h)"
  unfolding locale_resolve_def Let_def by (intro evolving)

lemma instanceLimits_evolves [evolving]: "frames evolves (instanceLimits)"
  unfolding instanceLimits_def Let_def by (intro evolving)

lemma storageConfig_evolves [evolving]: "frames evolves (storageConfig)"
  unfolding storageConfig_def Let_def by (intro evolving)

lemma forWorkspace_evolves [evolving]: "frames evolves (forWorkspace w)"
  unfolding forWorkspace_def Let_def by (intro evolving)

lemma assertBoardAvailable_evolves [evolving]: "frames evolves (assertBoardAvailable w)"
  unfolding assertBoardAvailable_def Let_def by (intro evolving)

lemma findColumn_evolves [evolving]: "frames evolves (findColumn w k)"
  unfolding findColumn_def Let_def by (intro evolving)

lemma findTaskRow_evolves [evolving]: "frames evolves (findTaskRow w k)"
  unfolding findTaskRow_def Let_def by (intro evolving)

lemma findTaskBasic_evolves [evolving]: "frames evolves (findTaskBasic w k)"
  unfolding findTaskBasic_def Let_def by (intro evolving)

lemma findTask_evolves [evolving]: "frames evolves (findTask w k)"
  unfolding findTask_def Let_def by (intro evolving)

lemma findColumnOnBoard_evolves [evolving]: "frames evolves (findColumnOnBoard w b k)"
  unfolding findColumnOnBoard_def Let_def by (intro evolving)

lemma emitTask_evolves [evolving]: "frames evolves (emitTask w a e r x)"
  unfolding emitTask_def Let_def by (intro evolving)

lemma emitUpdated_evolves [evolving]: "frames evolves (emitUpdated w k a)"
  unfolding emitUpdated_def Let_def by (intro evolving)

lemma emitColumnChanged_evolves [evolving]: "frames evolves (emitColumnChanged w a b k)"
  unfolding emitColumnChanged_def Let_def by (intro evolving)

lemma emitUnreadChanged_evolves [evolving]: "frames evolves (emitUnreadChanged w us)"
  unfolding emitUnreadChanged_def Let_def by (intro evolving)

lemma insertNotification_evolves [evolving]: "frames evolves (insertNotification w u typ t act p)"
  unfolding insertNotification_def Let_def by (intro evolving)

lemma notification_create_evolves [evolving]: "frames evolves (notification_create w u a typ t act p)"
  unfolding notification_create_def Let_def by (intro evolving)

lemma createAssignment_evolves [evolving]: "frames evolves (createAssignment w u a t act p)"
  unfolding createAssignment_def Let_def by (intro evolving)

lemma storeMention_evolves [evolving]: "frames evolves (storeMention w t act p u)"
  unfolding storeMention_def Let_def by (intro evolving)

lemma createMentionBatch_evolves [evolving]: "frames evolves (createMentionBatch w a t act us p)"
  unfolding createMentionBatch_def Let_def by (intro evolving)

lemma sendFor_evolves [evolving]: "frames evolves (sendFor env item)"
  unfolding sendFor_def Let_def by (intro evolving)

lemma sendForCreated_evolves [evolving]: "frames evolves (sendForCreated its)"
  unfolding sendForCreated_def Let_def by (intro evolving)

lemma commentTask_evolves [evolving]: "frames evolves (commentTask w t)"
  unfolding commentTask_def Let_def by (intro evolving)

lemma insertComment_evolves [evolving]: "frames evolves (insertComment t u body)"
  unfolding insertComment_def Let_def by (intro evolving)

text \<open>Rows that get a new key, and rewrites of keyed rows.\<close>

lemma createColumn_evolves [evolving]: "frames evolves (createColumn b name color cat p)"
  unfolding createColumn_def Let_def by (intro frames_insert adds_key_append evolving) simp

lemma seedColumn_evolves [evolving]: "frames evolves (seedColumn b col)"
  unfolding seedColumn_def by (intro evolving)

lemma createLabel_evolves [evolving]: "frames evolves (createLabel b name color)"
  unfolding createLabel_def Let_def by (intro frames_insert adds_key_append evolving) simp

lemma seedLabel_evolves [evolving]: "frames evolves (seedLabel b lab)"
  unfolding seedLabel_def by (intro evolving)

lemma createBoardRow_evolves [evolving]: "frames evolves (createBoardRow w dto)"
  unfolding createBoardRow_def Let_def by (intro frames_insert_now adds_key_append evolving) simp

lemma insertTask_evolves [evolving]: "frames evolves (insertTask b c u attrs p)"
  unfolding insertTask_def Let_def by (intro frames_insert_now adds_key_append evolving) simp

lemma updateColumn_evolves: "(\<And>c. c_id (f c) = c_id c) \<Longrightarrow> frames evolves (updateColumn w k f)"
  unfolding updateColumn_def by (intro evolving keeps_map_if) simp

lemma updateTask_evolves: "(\<And>x. t_id (f x) = t_id x) \<Longrightarrow> frames evolves (updateTask w k f)"
  unfolding updateTask_def Let_def by (intro evolving keeps_map_if) simp

lemma batchUpdateColumnPositions_evolves [evolving]: "frames evolves (batchUpdateColumnPositions b u)"
  unfolding batchUpdateColumnPositions_def by (intro evolving keeps_batch) simp

lemma batchUpdateTaskPositions_evolves [evolving]: "frames evolves (batchUpdateTaskPositions c u)"
  unfolding batchUpdateTaskPositions_def by (intro evolving keeps_batch) simp

lemmas rewriting = keeps_map_if keeps_filter frames_insert_last adds_key_append updateColumn_evolves updateTask_evolves

lemma column_create_evolves [evolving]: "frames evolves (column_create w b a dto)"
  unfolding column_create_def Let_def
  by (intro evolving rewriting; simp)

lemma column_createDefaults_evolves [evolving]: "frames evolves (column_createDefaults w b a h)"
  unfolding column_createDefaults_def Let_def
  by (intro evolving rewriting; simp)

lemma column_remove_evolves [evolving]: "frames evolves (column_remove w k a)"
  unfolding column_remove_def Let_def
  by (intro evolving rewriting; simp)

lemma board_create_evolves [evolving]: "frames evolves (board_create w a dto h)"
  unfolding board_create_def Let_def
  by (intro evolving rewriting; simp)

lemma board_remove_evolves [evolving]: "frames evolves (board_remove w b a)"
  unfolding board_remove_def Let_def
  by (intro evolving rewriting; simp)

lemma board_update_evolves [evolving]: "frames evolves (board_update w b a dto)"
  unfolding board_update_def Let_def
  by (intro evolving rewriting; simp)

lemma label_create_evolves [evolving]: "frames evolves (label_create w b a n c)"
  unfolding label_create_def Let_def
  by (intro evolving rewriting; simp)

lemma label_update_evolves [evolving]: "frames evolves (label_update w k a dto)"
  unfolding label_update_def Let_def
  by (intro evolving rewriting; simp)

lemma label_remove_evolves [evolving]: "frames evolves (label_remove w k a)"
  unfolding label_remove_def Let_def
  by (intro evolving rewriting; simp)

lemma column_update_evolves [evolving]: "frames evolves (column_update w k a dto)"
  unfolding column_update_def Let_def
  by (intro evolving rewriting; simp)

lemma column_move_evolves [evolving]: "frames evolves (column_move w k a dto)"
  unfolding column_move_def Let_def
  by (intro evolving rewriting; simp)

lemma task_create_evolves [evolving]: "frames evolves (task_create pd w b u dto)"
  unfolding task_create_def Let_def
  by (intro evolving rewriting; simp)

lemma task_remove_evolves [evolving]: "frames evolves (task_remove w k u)"
  unfolding task_remove_def Let_def
  by (intro evolving rewriting; simp)

lemma task_update_evolves [evolving]: "frames evolves (task_update pd w k u dto)"
  unfolding task_update_def Let_def
  by (intro evolving rewriting; simp)

lemma task_move_evolves [evolving]: "frames evolves (task_move w k u dto)"
  unfolding task_move_def Let_def
  by (intro evolving rewriting; simp)

lemma removeAssignee_evolves [evolving]: "frames evolves (removeAssignee w t a u)"
  unfolding removeAssignee_def Let_def
  by (intro evolving rewriting; simp)

lemma removeLabel_evolves [evolving]: "frames evolves (removeLabel w t a l)"
  unfolding removeLabel_def Let_def
  by (intro evolving rewriting; simp)

lemma checklist_create_evolves [evolving]: "frames evolves (checklist_create w t a title)"
  unfolding checklist_create_def Let_def
  by (intro evolving rewriting; simp)

lemma checklist_update_evolves [evolving]: "frames evolves (checklist_update w t a k title)"
  unfolding checklist_update_def Let_def
  by (intro evolving rewriting; simp)

lemma checklist_remove_evolves [evolving]: "frames evolves (checklist_remove w t a k)"
  unfolding checklist_remove_def Let_def
  by (intro evolving rewriting; simp)

lemma checklist_move_evolves [evolving]: "frames evolves (checklist_move w t a k after)"
  unfolding checklist_move_def Let_def
  by (intro evolving rewriting; simp)

lemma item_create_evolves [evolving]: "frames evolves (item_create w t a c content)"
  unfolding item_create_def Let_def
  by (intro evolving rewriting; simp)

lemma item_update_evolves [evolving]: "frames evolves (item_update w t a k dto)"
  unfolding item_update_def Let_def
  by (intro evolving rewriting; simp)

lemma item_remove_evolves [evolving]: "frames evolves (item_remove w t a k)"
  unfolding item_remove_def Let_def
  by (intro evolving rewriting; simp)

lemma item_move_evolves [evolving]: "frames evolves (item_move w t a k after)"
  unfolding item_move_def Let_def
  by (intro evolving rewriting; simp)

lemma comment_create_evolves [evolving]: "frames evolves (comment_create w t u body)"
  unfolding comment_create_def Let_def
  by (intro evolving rewriting; simp)

lemma comment_remove_evolves [evolving]: "frames evolves (comment_remove w k a role)"
  unfolding comment_remove_def Let_def
  by (intro evolving rewriting; simp)

lemma markRead_evolves [evolving]: "frames evolves (markRead w u k)"
  unfolding markRead_def Let_def
  by (intro evolving rewriting; simp)

lemma markAllRead_evolves [evolving]: "frames evolves (markAllRead w u)"
  unfolding markAllRead_def Let_def
  by (intro evolving rewriting; simp)

text \<open>A pair is inserted only when it is not there yet.\<close>

lemma frames_conflict [evolving]: "frames evolves m \<Longrightarrow> frames evolves (conflictOnUniqueViolation m msg)"
  unfolding frames_def conflict_run by (auto split: prod.split sum.split) (metis snd_conv)+

lemma insertAssignee_evolves [evolving]: "frames evolves (insertAssignee t u)"
  by (auto simp: insertAssignee_def frames_def run evolves_def keyed_def stored_def unique_ids_def used_ids_def list_ex_iff)

lemma insertTaskLabel_evolves [evolving]: "frames evolves (insertTaskLabel t l)"
  by (auto simp: insertTaskLabel_def frames_def run evolves_def keyed_def stored_def unique_ids_def used_ids_def list_ex_iff)

lemma addAssignee_evolves [evolving]: "frames evolves (addAssignee w t a u)"
  unfolding addAssignee_def by (intro evolving)

lemma addLabel_evolves [evolving]: "frames evolves (addLabel w t a l)"
  unfolding addLabel_def by (intro evolving)

text \<open>Attachments: a link is no file; an upload writes its file under a key that is new.\<close>

lemma andThen_attachmentTask_evolves [evolving]: "frames evolves (attachmentTask w t)"
  unfolding attachmentTask_def by (intro evolving)

lemma requireAttachment_evolves [evolving]: "frames evolves (requireAttachment w k)"
  unfolding requireAttachment_def by (intro evolving)

lemma announce_evolves [evolving]: "frames evolves (announce w b t a)"
  unfolding announce_def by (intro evolving)

lemma attachment_remove_evolves [evolving]: "frames evolves (attachment_remove w k a)"
  unfolding attachment_remove_def by (intro evolving)

lemma insertAttachment_evolves: "a_kind row = LINK \<Longrightarrow> frames evolves (insertAttachment w a row)"
  unfolding insertAttachment_def by (intro evolving)

lemma createLink_evolves [evolving]: "frames evolves (createLink parse w t u dto)"
  unfolding createLink_def Let_def by (intro evolving insertAttachment_evolves) simp

lemma putFile_new: "key \<notin> sf_key ` set fs \<Longrightarrow> putFile key bytes t fs = fs @ [\<lparr>sf_key = key, sf_bytes = bytes, sf_modifiedAt = t\<rparr>]"
  by (auto simp: putFile_def intro!: filter_True)

lemma stored_upload:
  assumes s: "stored s" and s': "files s' = putFile (storageKeyFor (uuids s (drawn s))) (uf_buffer f) t (files s)"
    "uuids s' = uuids s" "Suc (drawn s) \<le> drawn s'"
    "attachments (db s') = attachments (db s) @ [uploadedRow s task u mimeType f]"
  shows "stored s' \<and> set (files s) \<subseteq> set (files s')"
proof -
  have fs: "files s' = files s @ [\<lparr>sf_key = storageKeyFor (uuids s (drawn s)), sf_bytes = uf_buffer f, sf_modifiedAt = t\<rparr>]"
    using s unfolding s'(1) stored_def by (intro putFile_new) simp
  have "storageKeyFor (uuids s n) \<noteq> storageKeyFor (uuids s (drawn s))" if "drawn s' \<le> n" for n
  proof
    assume "storageKeyFor (uuids s n) = storageKeyFor (uuids s (drawn s))"
    moreover have "inj (\<lambda>n. storageKeyFor (uuids s n))" using s by (simp add: stored_def)
    ultimately have "n = drawn s" by (rule injD [rotated])
    with that s'(3) show False by simp
  qed
  moreover have "storageKeyFor (uuids s n) \<notin> sf_key ` set (files s)" if "drawn s' \<le> n" for n
    using s s'(3) that by (simp add: stored_def)
  ultimately have "\<forall>n \<ge> drawn s'. storageKeyFor (uuids s' n) \<notin> sf_key ` set (files s')"
    by (simp add: fs s'(2))
  moreover have "\<forall>a \<in> set (attachments (db s')). backed (files s') a"
    using s by (auto simp: stored_def s'(4) fs backed_def uploadedRow_def)
  ultimately show ?thesis using s by (simp add: stored_def s'(2) fs subset_insertI)
qed

lemma createFile_evolves [evolving]: "frames evolves (createFile sniff w t u file)"
  unfolding frames_def
proof
  fix s
  show "evolves s (snd (createFile sniff w t u file s))"
  proof (cases "createFile sniff w t u file s")
    case (Pair r s')
    show ?thesis
    proof (cases r)
      case (Inl e)
      have "evolves s (s\<lparr>drawn := Suc (drawn s)\<rparr>)" using frames_freshId by (simp add: frames_def run)
      with createFile_refused [OF Pair [unfolded Inl]] Pair show ?thesis by (auto intro: evolves_refl)
    next
      case (Inr dto)
      obtain task mimeType entry where d: "db s' = (db s)\<lparr>attachments := attachments (db s) @ [uploadedRow s task u mimeType file],
                      activities := activities (db s) @ [entry]\<rparr>"
        and fs: "files s' = putFile (storageKeyFor (uuids s (drawn s))) (uf_buffer file) (clock s) (files s)"
        and k: "environ s' = environ s" "clock s' = clock s" "drawn s' = Suc (Suc (drawn s))" "uuids s' = uuids s"
        and out: "outbox s' = outbox s @ [ToBoard (t_boardId task) TASK_UPDATED w u [(''taskId'', JStr (t_id task))]]"
          "mails s' = mails s" "logs s' = logs s"
        by (rule createFile_ok [OF Pair [unfolded Inr]])
      have "stored s \<Longrightarrow> stored s' \<and> set (files s) \<subseteq> set (files s')"
        by (rule stored_upload [OF _ fs]) (simp_all add: k d)
      moreover have "keyed s \<Longrightarrow> keyed s'"
        by (simp add: keyed_def d k unique_ids_def used_ids_def)
      ultimately show ?thesis using Pair k out by (simp add: evolves_def)
    qed
  qed
qed

end
