(* ===== verification/Access.thy ===== *)
theory Access
  imports Activities Environment
begin

text \<open>
  Who may call: personal access tokens (\<open>token/personal-access-token.ts\<close>,
  \<open>token/token.service.ts\<close>) and the guards in front of every route
  (\<open>common/guards/\<close> with \<open>common/decorators/workspace-roles.decorator.ts\<close>). Two things come from
  elsewhere and are parameters: \<open>hash\<close>, the SHA-256 of a text, and the text of the random
  bytes a token is minted from. What Better Auth answers for the request's cookies is a field
  of the request.
\<close>

section \<open>Personal access tokens\<close>

definition PERSONAL_ACCESS_TOKEN_PREFIX :: string where
  "PERSONAL_ACCESS_TOKEN_PREFIX = ''kurul_pat_''"

definition DISPLAY_PREFIX_LENGTH :: nat where
  "DISPLAY_PREFIX_LENGTH = 8"

definition displayPrefixOf :: "string \<Rightarrow> string" where
  "displayPrefixOf plaintext = take (length PERSONAL_ACCESS_TOKEN_PREFIX + DISPLAY_PREFIX_LENGTH) plaintext"

record minted_token =
  mt_plaintext :: string
  mt_hash :: string
  mt_prefix :: string

text \<open>\<open>secret\<close> is the base64url text of the random bytes.\<close>

definition mintToken :: "(string \<Rightarrow> string) \<Rightarrow> string \<Rightarrow> minted_token" where
  "mintToken hash secret =
     (let plaintext = PERSONAL_ACCESS_TOKEN_PREFIX @ secret
      in \<lparr>mt_plaintext = plaintext, mt_hash = hash plaintext, mt_prefix = displayPrefixOf plaintext\<rparr>)"

datatype auth_header = NoHeader | Repeated "string list" | Single string

datatype bearer_parse = BearerAbsent | BearerInvalid | BearerToken string

text \<open>\<open>/^Bearer\s+(\S+)\s*$/i\<close>: the scheme in any case, white space, the token, white space.\<close>

definition matchBearer :: "string \<Rightarrow> string option" where
  "matchBearer header =
     (let scheme = take 6 header; gap = takeWhile is_space (drop 6 header);
          rest = dropWhile is_space (drop 6 header);
          tok = takeWhile (\<lambda>c. \<not> is_space c) rest; tail = dropWhile (\<lambda>c. \<not> is_space c) rest
      in if js_lower scheme = ''bearer'' \<and> gap \<noteq> [] \<and> tok \<noteq> [] \<and> list_all is_space tail
         then Some tok else None)"

definition parseBearerHeader :: "auth_header \<Rightarrow> bearer_parse" where
  "parseBearerHeader header =
     (case header of
        NoHeader \<Rightarrow> BearerAbsent
      | Repeated _ \<Rightarrow> BearerInvalid
      | Single text \<Rightarrow>
          (case matchBearer text of
             None \<Rightarrow> BearerInvalid
           | Some plaintext \<Rightarrow>
               if \<not> starts_with PERSONAL_ACCESS_TOKEN_PREFIX plaintext then BearerInvalid
               else if length plaintext \<le> length PERSONAL_ACCESS_TOKEN_PREFIX then BearerInvalid
               else BearerToken plaintext))"

section \<open>The token service\<close>

definition LAST_USED_WRITE_INTERVAL_MS :: millis where
  "LAST_USED_WRITE_INTERVAL_MS = 60000"

text \<open>The caller's own row: everything but the hash.\<close>

record token_dto =
  tkd_id :: ident
  tkd_workspaceId :: ident
  tkd_userId :: ident
  tkd_name :: string
  tkd_prefix :: string
  tkd_lastUsedAt :: "millis option"
  tkd_expiresAt :: "millis option"
  tkd_createdAt :: millis

definition toTokenDto :: "token_row \<Rightarrow> token_dto" where
  "toTokenDto row =
     \<lparr>tkd_id = tk_id row, tkd_workspaceId = tk_workspaceId row, tkd_userId = tk_userId row,
      tkd_name = tk_name row, tkd_prefix = tk_prefix row, tkd_lastUsedAt = tk_lastUsedAt row,
      tkd_expiresAt = tk_expiresAt row, tkd_createdAt = tk_createdAt row\<rparr>"

definition insertToken ::
    "ident \<Rightarrow> ident \<Rightarrow> string \<Rightarrow> minted_token \<Rightarrow> millis option \<Rightarrow> token_row request" where
  "insertToken workspaceId userId name minted expiresAt =
     andThen freshId (\<lambda>newId. andThen now (\<lambda>t.
     andThen (readDb (\<lambda>d. list_ex (\<lambda>x. tk_tokenHash x = mt_hash minted) (tokens d))) (\<lambda>dup.
     andThen (check (\<not> dup) UniqueViolation) (\<lambda>_.
       let row = \<lparr>tk_id = newId, tk_workspaceId = workspaceId, tk_userId = userId, tk_name = name,
                  tk_prefix = mt_prefix minted, tk_tokenHash = mt_hash minted, tk_lastUsedAt = None,
                  tk_expiresAt = expiresAt, tk_revokedAt = None, tk_createdAt = t\<rparr>
       in andThen (writeDb (\<lambda>d. d\<lparr>tokens := tokens d @ [row]\<rparr>)) (\<lambda>_. ret row)))))"

text \<open>\<open>expiresAt\<close> arrives validated as an instant; \<open>None\<close> is never.\<close>

definition token_create ::
    "(string \<Rightarrow> string) \<Rightarrow> string \<Rightarrow> ident \<Rightarrow> ident \<Rightarrow> string \<Rightarrow> millis option \<Rightarrow> (token_dto \<times> string) request" where
  "token_create hash secret workspaceId userId name expiresAt =
     andThen now (\<lambda>t.
     andThen (check (case expiresAt of None \<Rightarrow> True | Some e \<Rightarrow> t < e)
       (BadRequest ''expiresAt must be in the future'')) (\<lambda>_.
       let minted = mintToken hash secret in
     andThen (insertToken workspaceId userId (js_trim name) minted expiresAt) (\<lambda>row.
     andThen (recordActivity workspaceId None userId TokenCreated
       (JObj [(''tokenId'', JStr (tk_id row)), (''name'', JStr (tk_name row)), (''prefix'', JStr (tk_prefix row)),
              (''expiresAt'', case tk_expiresAt row of None \<Rightarrow> JNull | Some e \<Rightarrow> JNum (of_int e))])) (\<lambda>_.
       ret (toTokenDto row, mt_plaintext minted)))))"

definition liveTokenOf :: "ident \<Rightarrow> ident \<Rightarrow> token_row \<Rightarrow> bool" where
  "liveTokenOf workspaceId userId x \<longleftrightarrow>
     tk_workspaceId x = workspaceId \<and> tk_userId x = userId \<and> tk_revokedAt x = None"

definition listForOwner :: "ident \<Rightarrow> ident \<Rightarrow> token_dto list request" where
  "listForOwner workspaceId userId =
     readDb (\<lambda>d. map toTokenDto (rev (sort_key tk_id (filter (liveTokenOf workspaceId userId) (tokens d)))))"

definition token_revoke :: "ident \<Rightarrow> ident \<Rightarrow> ident \<Rightarrow> unit request" where
  "token_revoke workspaceId userId tokenId =
     (let hit = (\<lambda>x. tk_id x = tokenId \<and> liveTokenOf workspaceId userId x) in
      andThen now (\<lambda>t.
      andThen (readDb (\<lambda>d. length (filter hit (tokens d)))) (\<lambda>count.
      andThen (writeDb (\<lambda>d. d\<lparr>tokens := map (\<lambda>x. if hit x then x\<lparr>tk_revokedAt := Some t\<rparr> else x) (tokens d)\<rparr>)) (\<lambda>_.
      andThen (check (count \<noteq> 0) (NotFound ''Token not found'')) (\<lambda>_.
      andThen (readDb (\<lambda>d. find (\<lambda>x. tk_id x = tokenId) (tokens d))) (\<lambda>found.
      andThen (orThrow RecordNotFound found) (\<lambda>row.
      andThen (recordActivity workspaceId None userId TokenRevoked
        (JObj [(''tokenId'', JStr tokenId), (''name'', JStr (tk_name row)), (''prefix'', JStr (tk_prefix row))])) (\<lambda>_.
        ret ()))))))))"

definition revokeAllForMember :: "ident \<Rightarrow> ident \<Rightarrow> unit request" where
  "revokeAllForMember workspaceId userId =
     andThen now (\<lambda>t. writeDb (\<lambda>d. d\<lparr>tokens :=
       map (\<lambda>x. if liveTokenOf workspaceId userId x then x\<lparr>tk_revokedAt := Some t\<rparr> else x) (tokens d)\<rparr>))"

text \<open>The user as the guards know it.\<close>

record principal =
  pr_id :: ident
  pr_email :: string
  pr_name :: string
  pr_avatarUrl :: "string option"
  pr_emailVerified :: bool

record resolved_token =
  rt_id :: ident
  rt_workspaceId :: ident
  rt_user :: principal

definition principalOf :: "user_row \<Rightarrow> principal" where
  "principalOf u = \<lparr>pr_id = u_id u, pr_email = u_email u, pr_name = u_name u,
                    pr_avatarUrl = u_avatarUrl u, pr_emailVerified = u_emailVerified u\<rparr>"

definition token_resolve :: "(string \<Rightarrow> string) \<Rightarrow> string \<Rightarrow> resolved_token option request" where
  "token_resolve hash plaintext =
     andThen now (\<lambda>t.
     andThen (readDb (\<lambda>d. case find (\<lambda>x. tk_tokenHash x = hash plaintext) (tokens d) of
         None \<Rightarrow> None
       | Some x \<Rightarrow> map_option (\<lambda>u. (x, u)) (find (\<lambda>u. u_id u = tk_userId x) (users d)))) (\<lambda>found.
       case found of
         None \<Rightarrow> ret None
       | Some (x, u) \<Rightarrow>
           if tk_revokedAt x \<noteq> None \<or> u_deletedAt u \<noteq> None then ret None
           else if (case tk_expiresAt x of None \<Rightarrow> False | Some e \<Rightarrow> e \<le> t) then ret None
           else andThen (whenever (case tk_lastUsedAt x of None \<Rightarrow> True
                                   | Some l \<Rightarrow> LAST_USED_WRITE_INTERVAL_MS \<le> t - l)
                  (writeDb (\<lambda>d. d\<lparr>tokens := map (\<lambda>y. if tk_id y = tk_id x
                     then y\<lparr>tk_lastUsedAt := Some t\<rparr> else y) (tokens d)\<rparr>))) (\<lambda>_.
                ret (Some \<lparr>rt_id = tk_id x, rt_workspaceId = tk_workspaceId x, rt_user = principalOf u\<rparr>))))"

section \<open>The guards\<close>

record http_request =
  rq_authorization :: auth_header
  rq_session :: "principal option"
  rq_workspaceId :: "string option"

record authed =
  ad_user :: principal
  ad_accessToken :: "(ident \<times> ident) option"

definition authenticateToken :: "(string \<Rightarrow> string) \<Rightarrow> http_request \<Rightarrow> bearer_parse \<Rightarrow> authed request" where
  "authenticateToken hash rq bearer =
     (case bearer of
        BearerToken plaintext \<Rightarrow>
          andThen (token_resolve hash plaintext) (\<lambda>found.
          andThen (orThrow (Unauthorized ''Authentication required'') found) (\<lambda>resolved.
          andThen (check (truthy (rq_workspaceId rq))
            (Forbidden ''An access token is bound to one workspace and cannot call this route'')) (\<lambda>_.
          andThen (check (rq_workspaceId rq = Some (rt_workspaceId resolved))
            (NotFound ''Workspace not found'')) (\<lambda>_.
            ret \<lparr>ad_user = rt_user resolved, ad_accessToken = Some (rt_id resolved, rt_workspaceId resolved)\<rparr>))))
      | _ \<Rightarrow> raise (Unauthorized ''Authentication required''))"

text \<open>A route that is not public: the Bearer credential decides alone when there is one.\<close>

definition sessionAuthGuard :: "(string \<Rightarrow> string) \<Rightarrow> http_request \<Rightarrow> authed request" where
  "sessionAuthGuard hash rq =
     (let bearer = parseBearerHeader (rq_authorization rq)
      in if bearer \<noteq> BearerAbsent then authenticateToken hash rq bearer
         else andThen (orThrow (Unauthorized ''Authentication required'') (rq_session rq)) (\<lambda>user.
              ret \<lparr>ad_user = user, ad_accessToken = None\<rparr>))"

definition workspaceGuard :: "http_request \<Rightarrow> authed \<Rightarrow> member_row request" where
  "workspaceGuard rq who =
     andThen (check (truthy (rq_workspaceId rq)) (NotFound ''Workspace not found'')) (\<lambda>_.
       let workspaceId = the (rq_workspaceId rq) in
     andThen (check (case ad_accessToken who of None \<Rightarrow> True | Some (_, w) \<Rightarrow> w = workspaceId)
       (NotFound ''Workspace not found'')) (\<lambda>_.
     andThen (readDb (\<lambda>d. find (\<lambda>m. m_workspaceId m = workspaceId \<and> m_userId m = pr_id (ad_user who)) (members d)))
       (orThrow (NotFound ''Workspace not found''))))"

definition rolesGuard :: "member_role list \<Rightarrow> member_row \<Rightarrow> unit request" where
  "rolesGuard required membership =
     check (required = [] \<or> m_role membership \<in> set required) (Forbidden ''Insufficient role for this action'')"

definition sessionOnlyGuard :: "authed \<Rightarrow> unit request" where
  "sessionOnlyGuard who =
     check (ad_accessToken who = None) (Forbidden ''This route requires a session, not an access token'')"

definition CONTENT_ROLES :: "member_role list" where
  "CONTENT_ROLES = [OWNER, ADMIN, MEMBER]"

definition ADMIN_ROLES :: "member_role list" where
  "ADMIN_ROLES = [OWNER, ADMIN]"

text \<open>
  The chain in front of a workspace route: \<open>@WorkspaceScoped()\<close> is the chain with no required
  role, \<open>@WorkspaceRoles(...)\<close> the chain with some.
\<close>

definition workspaceRoles :: "(string \<Rightarrow> string) \<Rightarrow> member_role list \<Rightarrow> http_request \<Rightarrow> member_row request" where
  "workspaceRoles hash required rq =
     andThen (sessionAuthGuard hash rq) (\<lambda>who.
     andThen (workspaceGuard rq who) (\<lambda>membership.
     andThen (rolesGuard required membership) (\<lambda>_.
       ret membership)))"

definition instanceAdminEmails :: "environment \<Rightarrow> string set" where
  "instanceAdminEmails env =
     set (filter (\<lambda>e. e \<noteq> []) (map (\<lambda>e. js_lower (js_trim e))
       (splitOn (CHR '','') (envString env ''INSTANCE_ADMIN_EMAILS'' []))))"

definition isInstanceAdmin :: "environment \<Rightarrow> string option \<Rightarrow> bool" where
  "isInstanceAdmin env email = (truthy email \<and> js_lower (js_trim (the email)) \<in> instanceAdminEmails env)"

definition instanceAdminGuard :: "principal option \<Rightarrow> unit request" where
  "instanceAdminGuard user =
     andThen (query environ) (\<lambda>env.
       check (isInstanceAdmin env (map_option pr_email user) \<and>
              (case user of None \<Rightarrow> False | Some u \<Rightarrow> pr_emailVerified u))
         (Forbidden ''Instance administration is restricted''))"

section \<open>Minting and presenting\<close>

lemma matchBearer_credential:
  assumes "sep \<noteq> []" and "list_all is_space sep" and "tok \<noteq> []" and "list_all (\<lambda>c. \<not> is_space c) tok"
  shows "matchBearer (''Bearer'' @ sep @ tok) = Some tok"
proof -
  have gap: "takeWhile is_space (sep @ tok) = sep" "dropWhile is_space (sep @ tok) = tok"
    using assms by (cases tok; simp add: takeWhile_append2 dropWhile_append2 list_all_iff)+
  have tok: "takeWhile (\<lambda>c. \<not> is_space c) tok = tok" "dropWhile (\<lambda>c. \<not> is_space c) tok = []"
    using assms(4) by (simp_all add: takeWhile_eq_all_conv dropWhile_eq_Nil_conv list_all_iff)
  have "js_lower ''Bearer'' = ''bearer''" by code_simp
  then show ?thesis using assms(1,3) by (simp add: matchBearer_def Let_def gap tok)
qed

lemma minted_parses:
  assumes "secret \<noteq> []" and "list_all (\<lambda>c. \<not> is_space c) secret"
  shows "parseBearerHeader (Single (''Bearer '' @ mt_plaintext (mintToken hash secret))) =
         BearerToken (mt_plaintext (mintToken hash secret))"
proof -
  have "list_all (\<lambda>c. \<not> is_space c) PERSONAL_ACCESS_TOKEN_PREFIX"
    by (simp add: PERSONAL_ACCESS_TOKEN_PREFIX_def is_space_def)
  with assms matchBearer_credential [of "'' ''" "PERSONAL_ACCESS_TOKEN_PREFIX @ secret"]
  show ?thesis
    by (simp add: parseBearerHeader_def mintToken_def Let_def starts_with_def is_space_def)
qed

section \<open>What a token stands for\<close>

text \<open>A token row that authenticates at an instant.\<close>

definition usable :: "database \<Rightarrow> millis \<Rightarrow> token_row \<Rightarrow> user_row \<Rightarrow> bool" where
  "usable d t x u \<longleftrightarrow> x \<in> set (tokens d) \<and> u \<in> set (users d) \<and> u_id u = tk_userId x \<and>
     tk_revokedAt x = None \<and> u_deletedAt u = None \<and>
     (case tk_expiresAt x of None \<Rightarrow> True | Some e \<Rightarrow> t < e)"

definition live_token :: "database \<Rightarrow> millis \<Rightarrow> string \<Rightarrow> (token_row \<times> user_row) option" where
  "live_token d t h =
     (case find (\<lambda>x. tk_tokenHash x = h) (tokens d) of
        None \<Rightarrow> None
      | Some x \<Rightarrow>
          (case find (\<lambda>u. u_id u = tk_userId x) (users d) of
             None \<Rightarrow> None
           | Some u \<Rightarrow> if usable d t x u then Some (x, u) else None))"

definition touched :: "millis \<Rightarrow> token_row \<Rightarrow> token_row list \<Rightarrow> token_row list" where
  "touched t x T =
     (if (case tk_lastUsedAt x of None \<Rightarrow> True | Some l \<Rightarrow> LAST_USED_WRITE_INTERVAL_MS \<le> t - l)
      then map (\<lambda>y. if tk_id y = tk_id x then y\<lparr>tk_lastUsedAt := Some t\<rparr> else y) T else T)"

lemma token_resolve_eq:
  "token_resolve hash p s =
     (case live_token (db s) (clock s) (hash p) of
        None \<Rightarrow> (Inr None, s)
      | Some (x, u) \<Rightarrow>
          (Inr (Some \<lparr>rt_id = tk_id x, rt_workspaceId = tk_workspaceId x, rt_user = principalOf u\<rparr>),
           s\<lparr>db := (db s)\<lparr>tokens := touched (clock s) x (tokens (db s))\<rparr>\<rparr>))"
proof (cases "find (\<lambda>x. tk_tokenHash x = hash p) (tokens (db s))")
  case None
  then show ?thesis by (simp add: token_resolve_def live_token_def run)
next
  case x: (Some x)
  show ?thesis
  proof (cases "find (\<lambda>u. u_id u = tk_userId x) (users (db s))")
    case None
    with x show ?thesis by (simp add: token_resolve_def live_token_def run)
  next
    case u: (Some u)
    have here: "x \<in> set (tokens (db s))" "u \<in> set (users (db s))" "u_id u = tk_userId x"
      using find_Some_iff_mem [OF x] find_Some_iff_mem [OF u] by simp_all
    show ?thesis
    proof (cases "usable (db s) (clock s) x u")
      case True
      then have "tk_revokedAt x = None" "u_deletedAt u = None"
        "\<not> (case tk_expiresAt x of None \<Rightarrow> False | Some e \<Rightarrow> e \<le> clock s)"
        by (auto simp: usable_def split: option.splits)
      with x u True show ?thesis
        by (cases "tk_lastUsedAt x") (simp_all add: token_resolve_def live_token_def touched_def run)
    next
      case False
      with here have "(tk_revokedAt x \<noteq> None \<or> u_deletedAt u \<noteq> None) \<or>
        (case tk_expiresAt x of None \<Rightarrow> False | Some e \<Rightarrow> e \<le> clock s)"
        by (auto simp: usable_def split: option.splits)
      with x u False show ?thesis
        by (elim disjE) (simp_all add: token_resolve_def live_token_def run)
    qed
  qed
qed

lemma live_token_some:
  assumes "live_token d t h = Some (x, u)"
  shows "usable d t x u" and "tk_tokenHash x = h"
  using assms by (auto simp: live_token_def split: option.splits if_splits dest!: find_Some_iff_mem)

text \<open>What resolving may write: the \<open>lastUsedAt\<close> of tokens.\<close>

definition unused :: "token_row \<Rightarrow> token_row" where
  "unused x = x\<lparr>tk_lastUsedAt := None\<rparr>"

lemma touched_unused [simp]: "map unused (touched t x T) = map unused T"
  by (simp add: touched_def unused_def)

section \<open>What passing the guards means\<close>

text \<open>The credential of a request, as the database at that instant supports it.\<close>

definition speaksFor :: "(string \<Rightarrow> string) \<Rightarrow> http_request \<Rightarrow> database \<Rightarrow> millis \<Rightarrow> ident \<Rightarrow> ident \<Rightarrow> bool" where
  "speaksFor hash rq d t w userId \<longleftrightarrow>
     (case parseBearerHeader (rq_authorization rq) of
        BearerAbsent \<Rightarrow> (case rq_session rq of None \<Rightarrow> False | Some p \<Rightarrow> pr_id p = userId)
      | BearerInvalid \<Rightarrow> False
      | BearerToken p \<Rightarrow> (\<exists>x u. usable d t x u \<and> tk_tokenHash x = hash p \<and> tk_workspaceId x = w \<and> u_id u = userId))"

lemma workspaceRoles_ok:
  assumes "workspaceRoles hash required rq s = (Inr m, s')"
  shows "m \<in> set (members (db s))" and "rq_workspaceId rq = Some (m_workspaceId m)"
    and "required = [] \<or> m_role m \<in> set required"
    and "speaksFor hash rq (db s) (clock s) (m_workspaceId m) (m_userId m)"
    and "\<exists>T. s' = s\<lparr>db := (db s)\<lparr>tokens := T\<rparr>\<rparr> \<and> map unused T = map unused (tokens (db s))"
proof -
  have still: "\<exists>T. s = s\<lparr>db := (db s)\<lparr>tokens := T\<rparr>\<rparr> \<and> map unused T = map unused (tokens (db s))"
    by (intro exI [of _ "tokens (db s)"]) simp
  obtain who s1 where who: "sessionAuthGuard hash rq s = (Inr who, s1)"
    and rest: "andThen (workspaceGuard rq who) (\<lambda>membership. andThen (rolesGuard required membership) (\<lambda>_. ret membership)) s1
      = (Inr m, s')"
    using assms unfolding workspaceRoles_def by (rule andThen_okD)
  have guard: "s' = s1" "rq_workspaceId rq = Some (m_workspaceId m)" "m \<in> set (members (db s1))"
    "m_userId m = pr_id (ad_user who)" "required = [] \<or> m_role m \<in> set required"
    using rest
    by (auto simp: workspaceGuard_def rolesGuard_def run truthy_def Let_def dest!: find_Some_iff_mem
        split: if_splits option.splits)
  have auth: "speaksFor hash rq (db s) (clock s) (m_workspaceId m) (pr_id (ad_user who))"
    "members (db s1) = members (db s)"
    "\<exists>T. s1 = s\<lparr>db := (db s)\<lparr>tokens := T\<rparr>\<rparr> \<and> map unused T = map unused (tokens (db s))"
  proof -
    have "speaksFor hash rq (db s) (clock s) (m_workspaceId m) (pr_id (ad_user who)) \<and>
      members (db s1) = members (db s) \<and>
      (\<exists>T. s1 = s\<lparr>db := (db s)\<lparr>tokens := T\<rparr>\<rparr> \<and> map unused T = map unused (tokens (db s)))"
    proof (cases "parseBearerHeader (rq_authorization rq)")
      case BearerAbsent
      with who still show ?thesis
        by (auto simp: sessionAuthGuard_def speaksFor_def run split: option.splits)
    next
      case BearerInvalid
      with who show ?thesis by (simp add: sessionAuthGuard_def authenticateToken_def run)
    next
      case (BearerToken p)
      obtain x u where live: "live_token (db s) (clock s) (hash p) = Some (x, u)"
        using who BearerToken
        by (auto simp: sessionAuthGuard_def authenticateToken_def andThen_def [of "token_resolve _ _"]
            token_resolve_eq run split: option.splits)
      have "s1 = s\<lparr>db := (db s)\<lparr>tokens := touched (clock s) x (tokens (db s))\<rparr>\<rparr>"
        "pr_id (ad_user who) = u_id u" "tk_workspaceId x = m_workspaceId m"
        using who BearerToken live guard(2)
        by (auto simp: sessionAuthGuard_def authenticateToken_def andThen_def [of "token_resolve _ _"]
            token_resolve_eq run principalOf_def split: if_splits)
      with BearerToken live_token_some [OF live] show ?thesis
        by (auto simp: speaksFor_def intro!: exI [of _ "touched (clock s) x (tokens (db s))"])
    qed
    then show "speaksFor hash rq (db s) (clock s) (m_workspaceId m) (pr_id (ad_user who))"
      "members (db s1) = members (db s)"
      "\<exists>T. s1 = s\<lparr>db := (db s)\<lparr>tokens := T\<rparr>\<rparr> \<and> map unused T = map unused (tokens (db s))" by blast+
  qed
  show "m \<in> set (members (db s))" using guard(3) auth(2) by simp
  show "rq_workspaceId rq = Some (m_workspaceId m)" "required = [] \<or> m_role m \<in> set required" by (fact guard)+
  show "speaksFor hash rq (db s) (clock s) (m_workspaceId m) (m_userId m)" using auth(1) guard(4) by simp
  show "\<exists>T. s' = s\<lparr>db := (db s)\<lparr>tokens := T\<rparr>\<rparr> \<and> map unused T = map unused (tokens (db s))"
    using auth(3) guard(1) by simp
qed

end
