(* ===== verification/Api.thy ===== *)
theory Api
  imports History Access
begin

text \<open>
  The writing routes of a workspace (\<open>board.controller.ts\<close>, \<open>column.controller.ts\<close>,
  \<open>label.controller.ts\<close>, \<open>task.controller.ts\<close>, \<open>comment.controller.ts\<close>,
  \<open>notification.controller.ts\<close>, \<open>attachment.controller.ts\<close>): what each requires of the caller's role, and the chain of guards in
  front of the service call. What a request can do to a consistent world is a step of the runs of
  theory \<open>Runs\<close>.
\<close>

section \<open>Routes\<close>

text \<open>The answer of a route does not concern the state; an action of which only the effect is kept.\<close>

definition ignore :: "'a request \<Rightarrow> unit request" where
  "ignore m = andThen m (\<lambda>_. ret ())"

text \<open>
  Per controller: its writing routes with their path parameters and body, the roles of
  \<open>@WorkspaceRoles(...)\<close> (none for \<open>@WorkspaceScoped()\<close>), and the service call of each, for the
  workspace \<open>w\<close> of the path, the caller \<open>u\<close> and the caller's role \<open>r\<close>.
\<close>

datatype board_call =
    BoardCreate create_board_dto "string option"
  | BoardUpdate ident update_board_dto
  | BoardRemove ident

fun board_roles :: "board_call \<Rightarrow> member_role list" where
  "board_roles (BoardCreate _ _) = CONTENT_ROLES"
| "board_roles (BoardUpdate _ _) = CONTENT_ROLES"
| "board_roles (BoardRemove _) = ADMIN_ROLES"

fun board_route :: "ident \<Rightarrow> ident \<Rightarrow> board_call \<Rightarrow> unit request" where
  "board_route w u (BoardCreate dto h) = ignore (board_create w u dto h)"
| "board_route w u (BoardUpdate b dto) = ignore (board_update w b u dto)"
| "board_route w u (BoardRemove b) = board_remove w b u"

datatype column_call =
    ColumnCreate ident create_column_dto
  | ColumnCreateDefaults ident "string option"
  | ColumnUpdate ident update_column_dto
  | ColumnRemove ident
  | ColumnMove ident move_column_dto

fun column_route :: "ident \<Rightarrow> ident \<Rightarrow> column_call \<Rightarrow> unit request" where
  "column_route w u (ColumnCreate b dto) = ignore (column_create w b u dto)"
| "column_route w u (ColumnCreateDefaults b h) = ignore (column_createDefaults w b u h)"
| "column_route w u (ColumnUpdate c dto) = ignore (column_update w c u dto)"
| "column_route w u (ColumnRemove c) = column_remove w c u"
| "column_route w u (ColumnMove c dto) = ignore (column_move w c u dto)"

datatype label_call =
    LabelCreate ident string string
  | LabelUpdate ident update_label_dto
  | LabelRemove ident

fun label_route :: "ident \<Rightarrow> ident \<Rightarrow> label_call \<Rightarrow> unit request" where
  "label_route w u (LabelCreate b name color) = ignore (label_create w b u name color)"
| "label_route w u (LabelUpdate l dto) = ignore (label_update w l u dto)"
| "label_route w u (LabelRemove l) = label_remove w l u"

datatype task_call =
    TaskCreate ident create_task_dto
  | TaskUpdate ident update_task_dto
  | TaskRemove ident
  | TaskMove ident move_task_dto
  | TaskAddAssignee ident ident
  | TaskRemoveAssignee ident ident
  | TaskAddLabel ident ident
  | TaskRemoveLabel ident ident
  | ChecklistCreate ident string
  | ChecklistUpdate ident ident string
  | ChecklistMove ident ident "ident option"
  | ChecklistRemove ident ident
  | ItemCreate ident ident string
  | ItemUpdate ident ident update_item_dto
  | ItemMove ident ident "ident option"
  | ItemRemove ident ident

fun task_route :: "(string \<Rightarrow> millis option) \<Rightarrow> ident \<Rightarrow> ident \<Rightarrow> task_call \<Rightarrow> unit request" where
  "task_route pd w u (TaskCreate b dto) = ignore (task_create pd w b u dto)"
| "task_route pd w u (TaskUpdate t dto) = ignore (task_update pd w t u dto)"
| "task_route pd w u (TaskRemove t) = task_remove w t u"
| "task_route pd w u (TaskMove t dto) = ignore (task_move w t u dto)"
| "task_route pd w u (TaskAddAssignee t v) = ignore (addAssignee w t u v)"
| "task_route pd w u (TaskRemoveAssignee t v) = ignore (removeAssignee w t u v)"
| "task_route pd w u (TaskAddLabel t l) = ignore (addLabel w t u l)"
| "task_route pd w u (TaskRemoveLabel t l) = ignore (removeLabel w t u l)"
| "task_route pd w u (ChecklistCreate t title) = ignore (checklist_create w t u title)"
| "task_route pd w u (ChecklistUpdate t c title) = ignore (checklist_update w t u c title)"
| "task_route pd w u (ChecklistMove t c after) = ignore (checklist_move w t u c after)"
| "task_route pd w u (ChecklistRemove t c) = ignore (checklist_remove w t u c)"
| "task_route pd w u (ItemCreate t c content) = ignore (item_create w t u c content)"
| "task_route pd w u (ItemUpdate t i dto) = ignore (item_update w t u i dto)"
| "task_route pd w u (ItemMove t i after) = ignore (item_move w t u i after)"
| "task_route pd w u (ItemRemove t i) = ignore (item_remove w t u i)"

datatype comment_call =
    CommentCreate ident string
  | CommentRemove ident

fun comment_route :: "ident \<Rightarrow> ident \<Rightarrow> member_role \<Rightarrow> comment_call \<Rightarrow> unit request" where
  "comment_route w u r (CommentCreate t body) = ignore (comment_create w t u body)"
| "comment_route w u r (CommentRemove c) = comment_remove w c u r"

datatype notification_call =
    NotificationRead ident
  | NotificationReadAll

fun notification_route :: "ident \<Rightarrow> ident \<Rightarrow> notification_call \<Rightarrow> unit request" where
  "notification_route w u (NotificationRead n) = ignore (markRead w u n)"
| "notification_route w u NotificationReadAll = ignore (markAllRead w u)"

text \<open>
  The libraries the handlers call: parsing a date, reading the type of bytes, parsing an address.
\<close>

record libraries =
  parseDate :: "string \<Rightarrow> millis option"
  sniffType :: "string \<Rightarrow> string option"
  parseUrl :: "string \<Rightarrow> (string \<times> string) option"

datatype attachment_call =
    AttachmentCreate ident attachment_kind create_attachment_dto "uploaded_file option"
  | AttachmentRemove ident

fun attachment_route :: "libraries \<Rightarrow> ident \<Rightarrow> ident \<Rightarrow> attachment_call \<Rightarrow> unit request" where
  "attachment_route lib w u (AttachmentCreate t kind dto file) =
     (if kind = LINK then ignore (createLink (parseUrl lib) w t u dto)
      else (case file of
              None \<Rightarrow> raise (BadRequest ''A file attachment needs a file part named \"file\"'')
            | Some f \<Rightarrow> ignore (createFile (sniffType lib) w t u f)))"
| "attachment_route lib w u (AttachmentRemove a) = attachment_remove w a u"

datatype api_call =
    BoardCall board_call
  | ColumnCall column_call
  | LabelCall label_call
  | TaskCall task_call
  | CommentCall comment_call
  | NotificationCall notification_call
  | AttachmentCall attachment_call

fun required :: "api_call \<Rightarrow> member_role list" where
  "required (BoardCall c) = board_roles c"
| "required (ColumnCall c) = ADMIN_ROLES"
| "required (LabelCall c) = ADMIN_ROLES"
| "required (TaskCall c) = CONTENT_ROLES"
| "required (CommentCall c) = CONTENT_ROLES"
| "required (NotificationCall c) = []"
| "required (AttachmentCall c) = CONTENT_ROLES"

fun perform :: "libraries \<Rightarrow> member_row \<Rightarrow> api_call \<Rightarrow> unit request" where
  "perform lib m (BoardCall c) = board_route (m_workspaceId m) (m_userId m) c"
| "perform lib m (ColumnCall c) = column_route (m_workspaceId m) (m_userId m) c"
| "perform lib m (LabelCall c) = label_route (m_workspaceId m) (m_userId m) c"
| "perform lib m (TaskCall c) = task_route (parseDate lib) (m_workspaceId m) (m_userId m) c"
| "perform lib m (CommentCall c) = comment_route (m_workspaceId m) (m_userId m) (m_role m) c"
| "perform lib m (NotificationCall c) = notification_route (m_workspaceId m) (m_userId m) c"
| "perform lib m (AttachmentCall c) = attachment_route lib (m_workspaceId m) (m_userId m) c"

definition serve ::
    "(string \<Rightarrow> string) \<Rightarrow> libraries \<Rightarrow> http_request \<Rightarrow> api_call \<Rightarrow> unit request" where
  "serve hash lib rq call =
     andThen (workspaceRoles hash (required call) rq) (\<lambda>membership. perform lib membership call)"

section \<open>The guards write nothing but \<open>lastUsedAt\<close>\<close>

definition touches :: "world \<Rightarrow> world \<Rightarrow> bool" where
  "touches s s' \<longleftrightarrow>
     (\<exists>T. s' = s\<lparr>db := (db s)\<lparr>tokens := T\<rparr>\<rparr> \<and> map unused T = map unused (tokens (db s)))"

lemma touches_refl: "touches s s"
  unfolding touches_def by (intro exI [of _ "tokens (db s)"]) simp

interpretation touching: frame_rel touches
proof
  show "touches s s" for s by (rule touches_refl)
  show "touches s u" if "touches s t" "touches t u" for s t u
    using that by (auto simp: touches_def)
qed

lemma frames_readDb_touches: "frames touches (readDb f)"
  by (rule touching.frames_still) (simp add: run)

lemma token_resolve_touches: "frames touches (token_resolve hash p)"
  unfolding frames_def token_resolve_eq
  by (auto simp: touches_refl split: option.split) (auto simp: touches_def intro!: exI [of _ "touched _ _ _"])

lemma authenticateToken_touches: "frames touches (authenticateToken hash rq bearer)"
  unfolding authenticateToken_def
  by (cases bearer) (auto intro!: touching.frame_rules token_resolve_touches)

lemma sessionAuthGuard_touches: "frames touches (sessionAuthGuard hash rq)"
  unfolding sessionAuthGuard_def Let_def by (intro touching.frame_rules authenticateToken_touches)

lemma workspaceRoles_touches: "frames touches (workspaceRoles hash roles rq)"
  unfolding workspaceRoles_def workspaceGuard_def rolesGuard_def Let_def
  by (intro touching.frame_rules sessionAuthGuard_touches frames_readDb_touches)

lemma touched_token:
  assumes "map unused T = map unused U" and "x \<in> set T"
  shows "\<exists>y \<in> set U. tk_workspaceId y = tk_workspaceId x \<and> tk_userId y = tk_userId x"
proof -
  have "unused x \<in> unused ` set U" using assms by (metis image_eqI list.set_map)
  then obtain y where "y \<in> set U" "unused y = unused x" by auto
  moreover have "tk_workspaceId (unused y) = tk_workspaceId y" "tk_userId (unused y) = tk_userId y" for y
    by (simp_all add: unused_def)
  ultimately show ?thesis by metis
qed

lemma touches_integrity:
  assumes "touches s s'" and "ref_integrity (db s)"
  shows "ref_integrity (db s')"
proof -
  obtain T where s': "s' = s\<lparr>db := (db s)\<lparr>tokens := T\<rparr>\<rparr>" and T: "map unused T = map unused (tokens (db s))"
    using assms(1) by (auto simp: touches_def)
  have "refs (tokens (db s)) tk_workspaceId (workspaces (db s)) w_id" "refs (tokens (db s)) tk_userId (users (db s)) u_id"
    using assms(2) by (simp_all add: ref_integrity_def)
  then have "refs T tk_workspaceId (workspaces (db s)) w_id" "refs T tk_userId (users (db s)) u_id"
    using touched_token [OF T] unfolding refs_def by metis+
  with assms(2) show ?thesis by (simp add: s' ref_integrity_def)
qed

lemma touches_evolves: "touches s s' \<Longrightarrow> evolves s s'"
  by (auto simp: touches_def evolves_def keyed_def stored_def unique_ids_def used_ids_def)

section \<open>Runs\<close>

definition sound :: "world \<Rightarrow> bool" where
  "sound s \<longleftrightarrow> keyed s \<and> ref_integrity (db s)"

lemma ignore_state [simp]: "snd (ignore m s) = snd (m s)"
  by (auto simp: ignore_def andThen_def ret_def split: sum.split prod.split)

lemma ignore_evolves [evolving]: "frames evolves m \<Longrightarrow> frames evolves (ignore m)"
  unfolding ignore_def by (intro evolving)

lemma board_route_evolves: "frames evolves (board_route w u c)"
  by (cases c) (simp_all add: evolving)

lemma column_route_evolves: "frames evolves (column_route w u c)"
  by (cases c) (simp_all add: evolving)

lemma label_route_evolves: "frames evolves (label_route w u c)"
  by (cases c) (simp_all add: evolving)

lemma task_route_evolves: "frames evolves (task_route lib w u c)"
  by (cases c) (simp_all add: evolving)

lemma comment_route_evolves: "frames evolves (comment_route w u r c)"
  by (cases c) (simp_all add: evolving)

lemma notification_route_evolves: "frames evolves (notification_route w u c)"
  by (cases c) (simp_all add: evolving)

lemma attachment_route_evolves: "frames evolves (attachment_route lib w u c)"
  by (cases c) (simp_all add: evolving split: option.split)

lemmas routes_evolve = board_route_evolves column_route_evolves label_route_evolves task_route_evolves
  comment_route_evolves notification_route_evolves attachment_route_evolves

lemma perform_evolves: "frames evolves (perform lib m call)"
  by (cases call) (simp_all add: routes_evolve)

lemmas operations_keep_references =
  board_create_keeps board_update_integrity board_remove_keeps column_create_integrity column_createDefaults_integrity
  column_update_integrity column_remove_integrity column_move_integrity label_create_integrity label_update_integrity
  label_remove_keeps task_create_keeps task_update_integrity task_remove_keeps task_move_keeps addAssignee_integrity
  removeAssignee_integrity addLabel_integrity removeLabel_integrity checklist_create_integrity checklist_update_integrity
  checklist_move_integrity checklist_remove_integrity item_create_integrity item_update_integrity item_move_integrity
  item_remove_integrity comment_create_integrity comment_remove_integrity markRead_integrity markAllRead_integrity
  createLink_integrity createFile_integrity attachment_remove_integrity

lemma board_route_integrity:
  assumes "ref_integrity (db s)" and "actor u (db s)" and "\<exists>x \<in> set (workspaces (db s)). w_id x = w"
  shows "ref_integrity (db (snd (board_route w u c s)))"
  using assms by (cases c) (simp_all add: operations_keep_references)

lemma column_route_integrity:
  assumes "ref_integrity (db s)" and "actor u (db s)"
  shows "ref_integrity (db (snd (column_route w u c s)))"
  using assms by (cases c) (simp_all add: operations_keep_references)

lemma label_route_integrity:
  assumes "ref_integrity (db s)" and "actor u (db s)"
  shows "ref_integrity (db (snd (label_route w u c s)))"
  using assms by (cases c) (simp_all add: operations_keep_references)

lemma task_route_integrity:
  assumes "ref_integrity (db s)" and "actor u (db s)" and "distinct (map t_id (tasks (db s)))"
  shows "ref_integrity (db (snd (task_route lib w u c s)))"
  using assms by (cases c) (simp_all add: operations_keep_references)

lemma comment_route_integrity:
  assumes "ref_integrity (db s)" and "actor u (db s)"
  shows "ref_integrity (db (snd (comment_route w u r c s)))"
  using assms by (cases c) (simp_all add: operations_keep_references)

lemma notification_route_integrity:
  assumes "ref_integrity (db s)" and "actor u (db s)"
  shows "ref_integrity (db (snd (notification_route w u c s)))"
  using assms by (cases c) (simp_all add: operations_keep_references)

lemma attachment_route_integrity:
  assumes "ref_integrity (db s)" and "actor u (db s)"
  shows "ref_integrity (db (snd (attachment_route lib w u c s)))"
  using assms unfolding actor_def
  by (cases c) (simp_all add: operations_keep_references raise_run split: option.split)

lemmas routes_keep_references = board_route_integrity column_route_integrity label_route_integrity
  task_route_integrity comment_route_integrity notification_route_integrity attachment_route_integrity

lemma perform_integrity:
  assumes "ref_integrity (db s)" and "keyed s" and "m \<in> set (members (db s))"
  shows "ref_integrity (db (snd (perform lib m call s)))"
proof -
  have a: "actor (m_userId m) (db s)" and w: "\<exists>x \<in> set (workspaces (db s)). w_id x = m_workspaceId m"
    using assms(1,3) by (auto simp: ref_integrity_def refs_def actor_def)
  have "distinct (map t_id (tasks (db s)))"
    using assms(2) by (simp add: keyed_def unique_ids_def)
  with assms(1) a w show ?thesis
    by (cases call) (simp_all add: routes_keep_references)
qed

lemma serve_cases:
  obtains (refused) e s' where "serve hash lib rq call s = (Inl e, s')" "touches s s'"
      "workspaceRoles hash (required call) rq s = (Inl e, s')"
    | (served) m s1 where "workspaceRoles hash (required call) rq s = (Inr m, s1)" "touches s s1"
      "serve hash lib rq call s = perform lib m call s1"
proof (cases "workspaceRoles hash (required call) rq s")
  case (Pair r s1)
  have "touches s s1"
    using workspaceRoles_touches Pair unfolding frames_def by (metis snd_conv)
  with Pair that show ?thesis by (cases r) (simp_all add: serve_def andThen_def)
qed

lemma serve_evolves: "evolves s (snd (serve hash lib rq call s))"
proof (cases rule: serve_cases [of hash lib rq call s])
  case (refused e s')
  then show ?thesis by (simp add: touches_evolves)
next
  case (served m s1)
  have "evolves s1 (snd (perform lib m call s1))"
    using perform_evolves by (simp add: frames_def)
  with served(2,3) show ?thesis by (metis touches_evolves evolves_trans)
qed

lemma serve_integrity:
  assumes "sound s"
  shows "ref_integrity (db (snd (serve hash lib rq call s)))"
proof (cases rule: serve_cases [of hash lib rq call s])
  case (refused e s')
  then show ?thesis using assms touches_integrity by (simp add: sound_def)
next
  case (served m s1)
  have "m \<in> set (members (db s))" by (rule workspaceRoles_ok(1) [OF served(1)])
  then have "m \<in> set (members (db s1))" using served(2) by (auto simp: touches_def)
  moreover have "ref_integrity (db s1)" "keyed s1"
    using assms served(2) touches_integrity touches_evolves by (auto simp: sound_def evolves_def)
  ultimately show ?thesis using served(3) perform_integrity by simp
qed

lemma serve_sound: "sound s \<Longrightarrow> sound (snd (serve hash lib rq call s))"
  using serve_evolves [of s hash lib rq call] serve_integrity [of s hash lib rq call]
  by (simp add: sound_def evolves_def)

end
