(* ===== verification/TokenRoutes.thy ===== *)
theory TokenRoutes
  imports Api
begin

text \<open>
  \<open>apps/api/src/token/token.controller.ts\<close>: the routes of a member's own access tokens. Their gate is the
  membership of the workspace and then a session, so no token reaches them.
\<close>

section \<open>Routes\<close>

text \<open>The plaintext of a new token comes from the library of random bytes.\<close>

datatype token_call =
    TokenCreate string string "millis option"
  | TokenRevoke ident

fun token_route :: "(string \<Rightarrow> string) \<Rightarrow> ident \<Rightarrow> ident \<Rightarrow> token_call \<Rightarrow> unit request" where
  "token_route hash w u (TokenCreate secret name expiresAt) = ignore (token_create hash secret w u name expiresAt)"
| "token_route hash w u (TokenRevoke k) = token_revoke w u k"

definition tokenGate :: "(string \<Rightarrow> string) \<Rightarrow> http_request \<Rightarrow> member_row request" where
  "tokenGate hash rq =
     andThen (sessionAuthGuard hash rq) (\<lambda>who.
     andThen (workspaceGuard rq who) (\<lambda>membership.
     andThen (sessionOnlyGuard who) (\<lambda>_.
       ret membership)))"

definition serveToken :: "(string \<Rightarrow> string) \<Rightarrow> http_request \<Rightarrow> token_call \<Rightarrow> unit request" where
  "serveToken hash rq call =
     andThen (tokenGate hash rq) (\<lambda>membership. token_route hash (m_workspaceId membership) (m_userId membership) call)"

section \<open>Keys and references\<close>

lemma insertToken_evolves [evolving]: "frames evolves (insertToken w u name minted e)"
proof -
  have "frames evolves (writeDb (\<lambda>d. d\<lparr>tokens := tokens d @ K\<rparr>))" for K
    by (intro frames_writeDb keyless_write)
  then show ?thesis unfolding insertToken_def Let_def by (intro evolving frames_freshId frames_now)
qed

lemma token_create_evolves [evolving]: "frames evolves (token_create hash secret w u name e)"
  unfolding token_create_def Let_def by (intro evolving frames_now) 

lemma token_revoke_evolves [evolving]: "frames evolves (token_revoke w u k)"
  unfolding token_revoke_def Let_def by (intro evolving frames_now frames_writeDb keyless_write)

lemma token_route_evolves: "frames evolves (token_route hash w u call)"
  by (cases call) (simp_all add: evolving)

lemma token_route_integrity:
  assumes "ref_integrity (db s)" "actor u (db s)" "\<exists>x \<in> set (workspaces (db s)). w_id x = w"
  shows "ref_integrity (db (snd (token_route hash w u call s)))"
proof (cases call)
  case (TokenCreate secret name e)
  then show ?thesis
    using assms by (simp add: token_create_def insertToken_def run Let_def integrity_facts)
next
  case (TokenRevoke k)
  then show ?thesis
    using assms by (simp add: token_revoke_def run Let_def integrity_facts split: option.split)
qed

lemma tokenGate_touches: "frames touches (tokenGate hash rq)"
  unfolding tokenGate_def workspaceGuard_def sessionOnlyGuard_def Let_def
  by (intro touching.frame_rules sessionAuthGuard_touches frames_readDb_touches)

text \<open>Who passes the gate: a member with a session.\<close>

lemma authenticateToken_token: "authenticateToken hash rq bearer s = (Inr who, s') \<Longrightarrow> ad_accessToken who \<noteq> None"
  by (cases bearer) (auto simp: authenticateToken_def run andThen_def raise_def ret_def orThrow_def
      split: sum.splits prod.splits option.splits if_splits)

lemma tokenGate_ok:
  assumes "tokenGate hash rq s = (Inr m, s')"
  shows "m \<in> set (members (db s))" "rq_workspaceId rq = Some (m_workspaceId m)"
    "\<exists>p. rq_session rq = Some p \<and> pr_id p = m_userId m" "parseBearerHeader (rq_authorization rq) = BearerAbsent" "s' = s"
proof -
  obtain who s1 where who: "sessionAuthGuard hash rq s = (Inr who, s1)"
    and rest: "andThen (workspaceGuard rq who) (\<lambda>m. andThen (sessionOnlyGuard who) (\<lambda>_. ret m)) s1 = (Inr m, s')"
    using assms unfolding tokenGate_def by (rule andThen_okD)
  have guard: "s' = s1" "rq_workspaceId rq = Some (m_workspaceId m)" "m \<in> set (members (db s1))"
    "m_userId m = pr_id (ad_user who)" "ad_accessToken who = None"
    using rest
    by (auto simp: workspaceGuard_def sessionOnlyGuard_def run truthy_def Let_def dest!: find_Some_iff_mem
        split: if_splits option.splits)
  have absent: "parseBearerHeader (rq_authorization rq) = BearerAbsent"
    using who authenticateToken_token[of hash rq _ s who s1] guard(5)
    by (auto simp del: not_None_eq simp: sessionAuthGuard_def Let_def split: if_splits)
  have "rq_session rq = Some (ad_user who)" "s1 = s"
    using who absent by (auto simp: sessionAuthGuard_def run Let_def split: option.splits)
  with guard absent show "m \<in> set (members (db s))" "rq_workspaceId rq = Some (m_workspaceId m)"
    "\<exists>p. rq_session rq = Some p \<and> pr_id p = m_userId m" "parseBearerHeader (rq_authorization rq) = BearerAbsent" "s' = s"
    by simp_all
qed

lemma serveToken_cases:
  obtains (refused) e s' where "serveToken hash rq call s = (Inl e, s')" "touches s s'"
    | (served) m where "m \<in> set (members (db s))"
      "serveToken hash rq call s = token_route hash (m_workspaceId m) (m_userId m) call s"
proof (cases "tokenGate hash rq s")
  case (Pair r s1)
  have t: "touches s s1" using tokenGate_touches Pair unfolding frames_def by (metis snd_conv)
  show ?thesis
  proof (cases r)
    case (Inl e)
    then show ?thesis using Pair t that(1) by (simp add: serveToken_def andThen_def)
  next
    case (Inr m)
    then show ?thesis using Pair tokenGate_ok[of hash rq s m s1] that(2) by (simp add: serveToken_def andThen_def)
  qed
qed

lemma serveToken_evolves: "evolves s (snd (serveToken hash rq call s))"
  by (cases rule: serveToken_cases[of hash rq call s])
    (use touches_evolves token_route_evolves in \<open>auto simp: frames_def\<close>)

lemma serveToken_sound:
  assumes "sound s" shows "sound (snd (serveToken hash rq call s))"
proof -
  have "ref_integrity (db (snd (serveToken hash rq call s)))"
  proof (cases rule: serveToken_cases[of hash rq call s])
    case (refused e s')
    then show ?thesis using assms touches_integrity by (simp add: sound_def)
  next
    case (served m)
    then have "actor (m_userId m) (db s)" "\<exists>x \<in> set (workspaces (db s)). w_id x = m_workspaceId m"
      using assms by (auto simp: sound_def ref_integrity_def refs_def actor_def)
    then show ?thesis using assms served(2) token_route_integrity by (simp add: sound_def)
  qed
  then show ?thesis using assms serveToken_evolves[of s hash rq call] by (simp add: sound_def evolves_def)
qed

end
