(* ===== verification/Workspaces.thy ===== *)
theory Workspaces
  imports Access PlanLimits
begin

text \<open>
  \<open>apps/api/src/workspace/\<close>: workspaces, their members and their invitations
  (\<open>workspace.service.ts\<close>, \<open>workspace-member.service.ts\<close>, \<open>workspace-invitation.service.ts\<close>,
  \<open>workspace-member.mapper.ts\<close>) with the translation of library failures
  (\<open>auth/better-auth-error.ts\<close>) and the deleted-account check (\<open>common/deleted-account.ts\<close>).
  The rows are written by the organization plugin of Better Auth: its server API is the
  record \<open>auth_api\<close> of actions, a parameter of the operations, in which the session of a call
  is the user it belongs to. What the code relies on of it is \<open>keeps_contract\<close> below.
\<close>

section \<open>The plugin\<close>

text \<open>An \<open>APIError\<close> with its code and status, or anything else it may throw.\<close>

datatype plugin_error = ApiError "string option" nat | OtherError string

type_synonym 'a plugin_call = "world \<Rightarrow> (plugin_error + 'a) \<times> world"

record created_workspace =
  cw_id :: ident
  cw_name :: string
  cw_slug :: string

record created_invitation =
  cv_id :: "ident option"
  cv_email :: "string option"
  cv_role :: "string option"
  cv_status :: "string option"
  cv_expiresAt :: "millis option"

record accepted_member =
  am_id :: ident
  am_organizationId :: "ident option"
  am_userId :: ident
  am_role :: member_role

record auth_api =
  api_createOrganization :: "ident \<Rightarrow> string \<Rightarrow> string \<Rightarrow> created_workspace option plugin_call"
  api_updateOrganization :: "ident \<Rightarrow> ident \<Rightarrow> string option \<Rightarrow> string option \<Rightarrow> created_workspace option plugin_call"
  api_deleteOrganization :: "ident \<Rightarrow> ident \<Rightarrow> unit plugin_call"
  api_removeMember :: "ident \<Rightarrow> ident \<Rightarrow> ident \<Rightarrow> unit plugin_call"
  api_updateMemberRole :: "ident \<Rightarrow> ident \<Rightarrow> member_role \<Rightarrow> ident \<Rightarrow> unit plugin_call"
  api_leaveOrganization :: "ident \<Rightarrow> ident \<Rightarrow> unit plugin_call"
  api_createInvitation :: "ident \<Rightarrow> string \<Rightarrow> member_role \<Rightarrow> ident \<Rightarrow> (created_invitation option \<times> string option) plugin_call"
  api_cancelInvitation :: "ident \<Rightarrow> ident \<Rightarrow> unit plugin_call"
  api_acceptInvitation :: "ident \<Rightarrow> ident \<Rightarrow> accepted_member option plugin_call"

text \<open>\<open>try { await call } catch (error) { handler(error) }\<close>, the handler always throwing.\<close>

definition callPlugin :: "'a plugin_call \<Rightarrow> (plugin_error \<Rightarrow> http_error) \<Rightarrow> 'a request" where
  "callPlugin call handler s =
     (case call s of (Inl e, s') \<Rightarrow> (Inl (handler e), s') | (Inr x, s') \<Rightarrow> (Inr x, s'))"

definition betterAuthErrorCode :: "plugin_error \<Rightarrow> string option" where
  "betterAuthErrorCode e = (case e of ApiError code _ \<Rightarrow> code | OtherError _ \<Rightarrow> None)"

definition toHttpException :: "nat \<Rightarrow> string \<Rightarrow> http_error option" where
  "toHttpException status message =
     (if status = 401 then Some (Unauthorized message)
      else if status = 403 then Some (Forbidden message)
      else if status = 404 then Some (NotFound message)
      else if status = 409 then Some (Conflict message)
      else if status = 422 then Some (Unprocessable message)
      else if 400 \<le> status \<and> status < 500 then Some (BadRequest message) else None)"

text \<open>What is re-thrown untouched ends in the global filter's 500.\<close>

definition rethrowBetterAuthError ::
    "plugin_error \<Rightarrow> string \<Rightarrow> (nat \<rightharpoonup> string) \<Rightarrow> http_error" where
  "rethrowBetterAuthError e message statusMessages =
     (case e of
        OtherError text \<Rightarrow> ServerFault text
      | ApiError _ status \<Rightarrow>
          (case toHttpException status (case statusMessages status of Some m \<Rightarrow> m | None \<Rightarrow> message) of
             None \<Rightarrow> ServerFault ''Internal server error''
           | Some x \<Rightarrow> x))"

section \<open>Members\<close>

record member_dto =
  mbd_id :: ident
  mbd_workspaceId :: ident
  mbd_userId :: ident
  mbd_role :: member_role
  mbd_name :: string
  mbd_avatarUrl :: "string option"

definition toMemberDto :: "member_row \<Rightarrow> user_row \<Rightarrow> member_dto" where
  "toMemberDto row user =
     \<lparr>mbd_id = m_id row, mbd_workspaceId = m_workspaceId row, mbd_userId = m_userId row,
      mbd_role = m_role row, mbd_name = u_name user, mbd_avatarUrl = u_avatarUrl user\<rparr>"

text \<open>A membership with the user it includes, by its unique pair.\<close>

definition memberWithUser :: "ident \<Rightarrow> ident \<Rightarrow> database \<Rightarrow> (member_row \<times> user_row) option" where
  "memberWithUser workspaceId userId d =
     Option.bind (find (\<lambda>m. m_workspaceId m = workspaceId \<and> m_userId m = userId) (members d))
       (\<lambda>m. map_option (\<lambda>u. (m, u)) (find (\<lambda>u. u_id u = m_userId m) (users d)))"

definition LAST_OWNER_CODES :: "string list" where
  "LAST_OWNER_CODES =
     [''YOU_CANNOT_LEAVE_THE_ORGANIZATION_AS_THE_ONLY_OWNER'',
      ''YOU_CANNOT_LEAVE_THE_ORGANIZATION_WITHOUT_AN_OWNER'']"

definition MEMBER_WRITE_FORBIDDEN_CODES :: "string list" where
  "MEMBER_WRITE_FORBIDDEN_CODES =
     [''YOU_ARE_NOT_ALLOWED_TO_DELETE_THIS_MEMBER'', ''YOU_ARE_NOT_ALLOWED_TO_UPDATE_THIS_MEMBER'']"

definition requireMember :: "ident \<Rightarrow> ident \<Rightarrow> (member_row \<times> user_row) request" where
  "requireMember workspaceId userId =
     andThen (readDb (memberWithUser workspaceId userId)) (orThrow (NotFound ''Workspace member not found''))"

definition ownersOf :: "ident \<Rightarrow> database \<Rightarrow> member_row list" where
  "ownersOf workspaceId d = filter (\<lambda>m. m_workspaceId m = workspaceId \<and> m_role m = OWNER) (members d)"

definition isLastOwner :: "ident \<Rightarrow> bool request" where
  "isLastOwner workspaceId = readDb (\<lambda>d. length (ownersOf workspaceId d) \<le> 1)"

definition rethrowMemberWriteError :: "string \<Rightarrow> string \<Rightarrow> plugin_error \<Rightarrow> http_error" where
  "rethrowMemberWriteError message lastOwnerMessage e =
     (let code = betterAuthErrorCode e
      in if code \<in> Some ` set LAST_OWNER_CODES then Conflict lastOwnerMessage
         else if code \<in> Some ` set MEMBER_WRITE_FORBIDDEN_CODES then Forbidden message
         else if code = Some ''MEMBER_NOT_FOUND'' then NotFound ''Workspace member not found''
         else rethrowBetterAuthError e message [404 \<mapsto> ''Workspace member not found''])"

definition removeMember :: "auth_api \<Rightarrow> ident \<Rightarrow> ident \<Rightarrow> member_row \<Rightarrow> unit request" where
  "removeMember api workspaceId targetUserId actor =
     andThen (check (targetUserId \<noteq> m_userId actor)
       (BadRequest ''Use POST /workspaces/:workspaceId/members/me/leave to remove yourself'')) (\<lambda>_.
     andThen (requireMember workspaceId targetUserId) (\<lambda>(target, user).
     andThen (if m_role target = OWNER
       then andThen (check (m_role actor = OWNER) (Forbidden ''Only an OWNER can remove another OWNER'')) (\<lambda>_.
            andThen (isLastOwner workspaceId) (\<lambda>alone.
              check (\<not> alone) (Conflict ''The last OWNER cannot be removed from the workspace'')))
       else ret ()) (\<lambda>_.
     andThen (callPlugin (api_removeMember api (m_userId actor) (m_id target) workspaceId)
       (rethrowMemberWriteError ''Failed to remove the member''
          ''The last OWNER cannot be removed from the workspace'')) (\<lambda>_.
     andThen (recordActivity workspaceId None (m_userId actor) MemberRemoved
       (JObj [(''targetUserId'', JStr targetUserId), (''targetName'', JStr (u_name user)),
              (''previousRole'', JStr (role_name (m_role target))),
              (''actorRole'', JStr (role_name (m_role actor)))])) (\<lambda>_.
       revokeAllForMember workspaceId targetUserId)))))"

definition updateMemberRole :: "auth_api \<Rightarrow> ident \<Rightarrow> ident \<Rightarrow> member_role \<Rightarrow> member_row \<Rightarrow> member_dto request" where
  "updateMemberRole api workspaceId targetUserId nextRole actor =
     andThen (requireMember workspaceId targetUserId) (\<lambda>(target, user).
       if m_role target = nextRole then ret (toMemberDto target user)
       else
         andThen (check (\<not> ((m_role target = OWNER \<or> nextRole = OWNER) \<and> m_role actor \<noteq> OWNER))
           (Forbidden ''Only an OWNER can change ownership'')) (\<lambda>_.
         andThen (if m_role target = OWNER
           then andThen (isLastOwner workspaceId) (\<lambda>alone.
                  check (\<not> alone) (Conflict ''The last OWNER cannot be demoted; promote another OWNER first''))
           else ret ()) (\<lambda>_.
         andThen (callPlugin (api_updateMemberRole api (m_userId actor) (m_id target) nextRole workspaceId)
           (rethrowMemberWriteError ''Failed to change the member role''
              ''The last OWNER cannot be demoted; promote another OWNER first'')) (\<lambda>_.
         andThen (recordActivity workspaceId None (m_userId actor) MemberRoleChanged
           (JObj [(''targetUserId'', JStr targetUserId), (''targetName'', JStr (u_name user)),
                  (''previousRole'', JStr (role_name (m_role target))), (''newRole'', JStr (role_name nextRole)),
                  (''actorRole'', JStr (role_name (m_role actor)))])) (\<lambda>_.
           ret (toMemberDto (target\<lparr>m_role := nextRole\<rparr>) user))))))"

definition leave :: "auth_api \<Rightarrow> ident \<Rightarrow> member_row \<Rightarrow> unit request" where
  "leave api workspaceId actor =
     andThen (requireMember workspaceId (m_userId actor)) (\<lambda>(membership, user).
     andThen (if m_role membership = OWNER
       then andThen (isLastOwner workspaceId) (\<lambda>alone.
              check (\<not> alone)
                (Conflict ''The last OWNER cannot leave the workspace; transfer ownership or delete the workspace''))
       else ret ()) (\<lambda>_.
     andThen (callPlugin (api_leaveOrganization api (m_userId actor) workspaceId)
       (rethrowMemberWriteError ''Failed to leave the workspace''
          ''The last OWNER cannot leave the workspace; transfer ownership or delete the workspace'')) (\<lambda>_.
     andThen (recordActivity workspaceId None (m_userId actor) MemberLeft
       (JObj [(''targetUserId'', JStr (m_userId actor)), (''targetName'', JStr (u_name user)),
              (''previousRole'', JStr (role_name (m_role membership)))])) (\<lambda>_.
     andThen (evictUser workspaceId (m_userId actor)) (\<lambda>_.
       revokeAllForMember workspaceId (m_userId actor))))))"

section \<open>Workspaces\<close>

definition toWorkspaceDto :: "workspace_row \<Rightarrow> created_workspace" where
  "toWorkspaceDto w = \<lparr>cw_id = w_id w, cw_name = w_name w, cw_slug = w_slug w\<rparr>"

definition SLUG_CONFLICT_CODES :: "string list" where
  "SLUG_CONFLICT_CODES = [''ORGANIZATION_ALREADY_EXISTS'', ''ORGANIZATION_SLUG_ALREADY_TAKEN'']"

definition isSlugConflict :: "plugin_error \<Rightarrow> bool" where
  "isSlugConflict e \<longleftrightarrow> betterAuthErrorCode e \<in> Some ` set SLUG_CONFLICT_CODES"

definition assertAccountNotDeleted :: "ident \<Rightarrow> unit request" where
  "assertAccountNotDeleted userId =
     andThen (readDb (\<lambda>d. find (\<lambda>u. u_id u = userId) (users d))) (\<lambda>user.
       check (case user of None \<Rightarrow> False | Some u \<Rightarrow> u_deletedAt u = None)
         (Unauthorized ''This account has been deleted''))"

definition workspace_create :: "auth_api \<Rightarrow> ident \<Rightarrow> string \<Rightarrow> string \<Rightarrow> created_workspace request" where
  "workspace_create api userId name slug =
     andThen (assertAccountNotDeleted userId) (\<lambda>_.
     andThen assertWorkspaceAvailable (\<lambda>_.
     andThen (readDb (\<lambda>d. list_ex (\<lambda>w. w_slug w = slug) (workspaces d))) (\<lambda>existing.
     andThen (check (\<not> existing) (Conflict ''Workspace slug already taken'')) (\<lambda>_.
     andThen (callPlugin (api_createOrganization api userId name slug)
       (\<lambda>e. if isSlugConflict e then Conflict ''Workspace slug already taken''
            else rethrowBetterAuthError e ''Failed to create workspace'' Map.empty)) (\<lambda>created.
       orThrow (BadRequest ''Failed to create workspace'') created)))))"

definition workspace_getById :: "ident \<Rightarrow> created_workspace request" where
  "workspace_getById workspaceId =
     andThen (readDb (\<lambda>d. find (\<lambda>w. w_id w = workspaceId) (workspaces d))) (\<lambda>found.
     andThen (orThrow (NotFound ''Workspace not found'') found) (\<lambda>w.
       ret (toWorkspaceDto w)))"

definition workspace_update ::
    "auth_api \<Rightarrow> ident \<Rightarrow> ident \<Rightarrow> string option \<Rightarrow> string option \<Rightarrow> created_workspace request" where
  "workspace_update api workspaceId actorId name slug =
     andThen (readDb (\<lambda>d. find (\<lambda>w. w_id w = workspaceId) (workspaces d))) (\<lambda>before.
     andThen (readDb (\<lambda>d. slug \<noteq> None \<and> list_ex (\<lambda>w. Some (w_slug w) = slug \<and> w_id w \<noteq> workspaceId) (workspaces d))) (\<lambda>clash.
     andThen (check (\<not> clash) (Conflict ''Workspace slug already taken'')) (\<lambda>_.
     andThen (callPlugin (api_updateOrganization api actorId workspaceId name slug)
       (\<lambda>e. if isSlugConflict e then Conflict ''Workspace slug already taken''
            else rethrowBetterAuthError e ''Failed to update workspace'' [404 \<mapsto> ''Workspace not found''])) (\<lambda>result.
     andThen (orThrow (NotFound ''Workspace not found'') result) (\<lambda>updated.
     andThen (recordActivity workspaceId None actorId WorkspaceUpdated
       (JObj [(''name'', JStr (cw_name updated)), (''slug'', JStr (cw_slug updated)),
              (''changes'', case before of None \<Rightarrow> JObj []
                 | Some b \<Rightarrow> fieldChanges [(''name'', JStr (w_name b), JStr (cw_name updated)),
                                         (''slug'', JStr (w_slug b), JStr (cw_slug updated))])])) (\<lambda>_.
       ret updated))))))"

definition json_of_option :: "('a \<Rightarrow> json) \<Rightarrow> 'a option \<Rightarrow> json" where
  "json_of_option f x = (case x of None \<Rightarrow> JNull | Some v \<Rightarrow> f v)"

definition workspace_remove :: "auth_api \<Rightarrow> ident \<Rightarrow> ident \<Rightarrow> unit request" where
  "workspace_remove api workspaceId actorId =
     andThen (readDb (\<lambda>d. map_option (\<lambda>w. (w, memberCount workspaceId d, boardCount workspaceId d))
                 (find (\<lambda>w. w_id w = workspaceId) (workspaces d)))) (\<lambda>doomed.
     andThen (callPlugin (api_deleteOrganization api actorId workspaceId)
       (\<lambda>e. rethrowBetterAuthError e ''Failed to delete workspace'' [404 \<mapsto> ''Workspace not found''])) (\<lambda>_.
     andThen now (\<lambda>t.
       logLine (JObj [(''ts'', JNum (of_int t)), (''level'', JStr ''warn''), (''event'', JStr ''workspace.deleted''),
         (''workspaceId'', JStr workspaceId), (''actorId'', JStr actorId),
         (''name'', json_of_option (\<lambda>(w, _, _). JStr (w_name w)) doomed),
         (''slug'', json_of_option (\<lambda>(w, _, _). JStr (w_slug w)) doomed),
         (''memberCount'', json_of_option (\<lambda>(_, m, _). JNum (of_nat m)) doomed),
         (''boardCount'', json_of_option (\<lambda>(_, _, b). JNum (of_nat b)) doomed)]))))"

text \<open>The roster: memberships with their users, in id order, after the cursor.\<close>

definition rosterOf :: "ident \<Rightarrow> database \<Rightarrow> member_row list" where
  "rosterOf workspaceId d = sort_key m_id (filter (\<lambda>m. m_workspaceId m = workspaceId) (members d))"

definition listMembers :: "ident \<Rightarrow> ident option \<Rightarrow> nat option \<Rightarrow> member_dto option cursor_page request" where
  "listMembers workspaceId cursor limit =
     (let lim = (case limit of None \<Rightarrow> nat MAX_PAGE_LIMIT | Some n \<Rightarrow> n);
          cur = (if truthy cursor then cursor else None)
      in readDb (\<lambda>d. toCursorPage m_id (cursorQuery m_id (\<lambda>c i. c < i) cur lim (rosterOf workspaceId d)) lim
           (\<lambda>m. map_option (toMemberDto m) (find (\<lambda>u. u_id u = m_userId m) (users d)))))"

definition getMembership :: "ident \<Rightarrow> ident \<Rightarrow> member_dto request" where
  "getMembership workspaceId userId =
     andThen (requireMember workspaceId userId) (\<lambda>(m, u). ret (toMemberDto m u))"

section \<open>Invitations\<close>

record invitation_dto =
  ivd_id :: ident
  ivd_workspaceId :: ident
  ivd_email :: string
  ivd_role :: string
  ivd_status :: string
  ivd_expiresAt :: millis
  ivd_acceptUrl :: string
  ivd_emailDelivery :: "string option"

definition toInvitationDto :: "environment \<Rightarrow> invitation_row \<Rightarrow> invitation_dto" where
  "toInvitationDto env row =
     \<lparr>ivd_id = i_id row, ivd_workspaceId = i_workspaceId row, ivd_email = i_email row,
      ivd_role = (case i_role row of Some r \<Rightarrow> r | None \<Rightarrow> role_name GUEST),
      ivd_status = i_status row, ivd_expiresAt = i_expiresAt row,
      ivd_acceptUrl = buildInviteAcceptUrl env (i_id row), ivd_emailDelivery = None\<rparr>"

definition findPendingInvitations :: "ident \<Rightarrow> string \<Rightarrow> invitation_row list request" where
  "findPendingInvitations workspaceId email =
     andThen now (\<lambda>t. readDb (\<lambda>d.
       filter (\<lambda>i. pendingInvitation workspaceId t i \<and> i_email i = email) (invitations d)))"

definition listPendingInvitations ::
    "ident \<Rightarrow> ident option \<Rightarrow> nat option \<Rightarrow> invitation_dto cursor_page request" where
  "listPendingInvitations workspaceId cursor limit =
     (let lim = (case limit of None \<Rightarrow> nat MAX_PAGE_LIMIT | Some n \<Rightarrow> n);
          cur = (if truthy cursor then cursor else None)
      in andThen now (\<lambda>t. andThen (query environ) (\<lambda>env. readDb (\<lambda>d.
           toCursorPage i_id
             (cursorQuery i_id (\<lambda>c i. c < i) cur lim
               (sort_key i_id (filter (pendingInvitation workspaceId t) (invitations d)))) lim
             (toInvitationDto env)))))"

definition present :: "created_invitation option \<Rightarrow> bool" where
  "present v = (case v of None \<Rightarrow> False
     | Some x \<Rightarrow> truthy (cv_id x) \<and> truthy (cv_email x) \<and> truthy (cv_status x) \<and> cv_expiresAt x \<noteq> None)"

definition cancelPending :: "auth_api \<Rightarrow> ident \<Rightarrow> invitation_row \<Rightarrow> unit request" where
  "cancelPending api actorId invitation =
     callPlugin (api_cancelInvitation api actorId (i_id invitation))
       (\<lambda>e. rethrowBetterAuthError e ''Failed to replace the pending invitation'' Map.empty)"

definition invitation_create ::
    "auth_api \<Rightarrow> ident \<Rightarrow> ident \<Rightarrow> string \<Rightarrow> member_role \<Rightarrow> invitation_dto request" where
  "invitation_create api workspaceId actorId dtoEmail role =
     andThen (check (role \<noteq> OWNER) (BadRequest ''Cannot invite someone as OWNER'')) (\<lambda>_.
       let email = js_lower dtoEmail in
     andThen (findPendingInvitations workspaceId email) (\<lambda>pending.
     andThen (whenever (pending = []) (assertSeatAvailable workspaceId True)) (\<lambda>_.
     andThen (whenever (list_ex (\<lambda>i. i_role i \<noteq> Some (role_name role)) pending)
       (forEach pending (cancelPending api actorId))) (\<lambda>_.
     andThen (callPlugin (api_createInvitation api actorId email role workspaceId)
       (\<lambda>e. rethrowBetterAuthError e ''Failed to create invitation''
              [403 \<mapsto> ''You are not allowed to send this invitation''])) (\<lambda>(created, delivery).
     andThen (check (present created) (BadRequest ''Failed to create invitation'')) (\<lambda>_.
       let invitation = the created; newId = the (cv_id invitation) in
     andThen (check (cv_role invitation = None \<or> cv_role invitation = Some (role_name role))
       (Conflict ''Invitation was changed concurrently, please try again'')) (\<lambda>_.
     andThen (recordActivity workspaceId None actorId InvitationCreated
       (JObj ([(''invitationId'', JStr newId), (''role'', JStr (role_name role))] @
              (case delivery of None \<Rightarrow> [] | Some st \<Rightarrow> [(''emailDelivery'', JStr st)])))) (\<lambda>_.
     andThen (query environ) (\<lambda>env.
       ret \<lparr>ivd_id = newId, ivd_workspaceId = workspaceId, ivd_email = the (cv_email invitation),
            ivd_role = role_name role, ivd_status = the (cv_status invitation),
            ivd_expiresAt = the (cv_expiresAt invitation),
            ivd_acceptUrl = buildInviteAcceptUrl env newId, ivd_emailDelivery = delivery\<rparr>)))))))))"

definition invitation_revoke :: "auth_api \<Rightarrow> ident \<Rightarrow> ident \<Rightarrow> ident \<Rightarrow> unit request" where
  "invitation_revoke api workspaceId actorId invitationId =
     andThen (readDb (\<lambda>d. find (\<lambda>i. i_id i = invitationId \<and> i_workspaceId i = workspaceId) (invitations d))) (\<lambda>found.
     andThen (orThrow (NotFound ''Invitation not found'') found) (\<lambda>invitation.
     andThen (callPlugin (api_cancelInvitation api actorId invitationId)
       (\<lambda>e. rethrowBetterAuthError e ''Failed to revoke invitation'' [404 \<mapsto> ''Invitation not found''])) (\<lambda>_.
     andThen (recordActivity workspaceId None actorId InvitationRevoked
       (JObj [(''invitationId'', JStr invitationId), (''role'', json_opt_str (i_role invitation))])) (\<lambda>_.
       ret ()))))"

definition EMAIL_NOT_VERIFIED_CODE :: string where
  "EMAIL_NOT_VERIFIED_CODE = ''EMAIL_VERIFICATION_REQUIRED_BEFORE_ACCEPTING_OR_REJECTING_INVITATION''"

definition invitation_accept :: "auth_api \<Rightarrow> ident \<Rightarrow> ident \<Rightarrow> ident \<Rightarrow> member_dto request" where
  "invitation_accept api callerId workspaceId invitationId =
     andThen (readDb (\<lambda>d. find (\<lambda>i. i_id i = invitationId) (invitations d))) (\<lambda>found.
     andThen (check (case found of None \<Rightarrow> False
                     | Some i \<Rightarrow> i_status i = ''pending'' \<and> i_workspaceId i = workspaceId)
       (NotFound ''Invitation not found'')) (\<lambda>_.
     andThen (assertSeatAvailable workspaceId False) (\<lambda>_.
     andThen (callPlugin (api_acceptInvitation api callerId invitationId)
       (\<lambda>e. if betterAuthErrorCode e = Some EMAIL_NOT_VERIFIED_CODE
            then Forbidden ''Confirm your email address before accepting this invitation''
            else rethrowBetterAuthError e ''Failed to accept invitation'' [404 \<mapsto> ''Invitation not found''])) (\<lambda>result.
     andThen (orThrow (BadRequest ''Failed to accept invitation'') result) (\<lambda>member.
       let memberWorkspaceId = (case am_organizationId member of Some w \<Rightarrow> w | None \<Rightarrow> workspaceId) in
     andThen (readDb (\<lambda>d. find (\<lambda>u. u_id u = am_userId member) (users d))) (\<lambda>found.
     andThen (orThrow RecordNotFound found) (\<lambda>user.
     andThen (recordActivity memberWorkspaceId None (am_userId member) InvitationAccepted
       (JObj [(''invitationId'', JStr invitationId), (''role'', JStr (role_name (am_role member)))])) (\<lambda>_.
       ret \<lparr>mbd_id = am_id member, mbd_workspaceId = memberWorkspaceId, mbd_userId = am_userId member,
            mbd_role = am_role member, mbd_name = u_name user, mbd_avatarUrl = u_avatarUrl user\<rparr>))))))))"

section \<open>What is relied on of the plugin\<close>

text \<open>
  A call that answers with an error has not touched the tables; one that succeeds has done to
  the memberships what its documentation says, and nothing else to the tables.
\<close>

definition writesMembers :: "'a plugin_call \<Rightarrow> (member_row list \<Rightarrow> member_row list) \<Rightarrow> bool" where
  "writesMembers call f \<longleftrightarrow> (\<forall>s. case call s of
       (Inl _, s') \<Rightarrow> db s' = db s
     | (Inr _, s') \<Rightarrow> db s' = (db s)\<lparr>members := f (members (db s))\<rparr>)"

definition keeps_contract :: "auth_api \<Rightarrow> bool" where
  "keeps_contract api \<longleftrightarrow>
     (\<forall>caller k w. writesMembers (api_removeMember api caller k w)
        (filter (\<lambda>m. \<not> (m_id m = k \<and> m_workspaceId m = w)))) \<and>
     (\<forall>caller k r w. writesMembers (api_updateMemberRole api caller k r w)
        (map (\<lambda>m. if m_id m = k \<and> m_workspaceId m = w then m\<lparr>m_role := r\<rparr> else m))) \<and>
     (\<forall>caller w. writesMembers (api_leaveOrganization api caller w)
        (filter (\<lambda>m. \<not> (m_workspaceId m = w \<and> m_userId m = caller))))"

lemma callPlugin_members:
  assumes "writesMembers call f"
  shows "callPlugin call h s = (Inl e, s') \<Longrightarrow> members (db s') = members (db s)"
    and "callPlugin call h s = (Inr x, s') \<Longrightarrow> members (db s') = f (members (db s))"
  using spec [OF assms [unfolded writesMembers_def], of s]
  by (auto simp: callPlugin_def split: prod.splits sum.splits)

section \<open>A workspace keeps an owner\<close>

lemma drop_one:
  "distinct (map f M) \<Longrightarrow> length (filter P M) \<le> Suc (length (filter P (filter (\<lambda>m. f m \<noteq> k) M)))"
proof (induction M)
  case Nil
  then show ?case by simp
next
  case (Cons a M)
  show ?case
  proof (cases "f a = k")
    case True
    then have "filter (\<lambda>m. f m \<noteq> k) M = M"
      using Cons.prems unfolding filter_id_conv by (metis distinct.simps(2) image_eqI list.set_map list.simps(9))
    with True show ?thesis by simp
  next
    case False
    with Cons show ?thesis by simp
  qed
qed

text \<open>Dropping or demoting one member that is no owner, or one of several owners.\<close>

lemma owners_survive:
  assumes "distinct (map f M)" and "\<And>m. f m = k \<Longrightarrow> m \<in> set M \<Longrightarrow> m = a" and "a \<in> set M" and "f a = k"
    and "m_role a = OWNER \<Longrightarrow> 1 < length (filter (\<lambda>m. m_workspaceId m = w \<and> m_role m = OWNER) M)"
    and "filter (\<lambda>m. m_workspaceId m = v \<and> m_role m = OWNER) M \<noteq> []" and "m_workspaceId a = w"
  shows "filter (\<lambda>m. m_workspaceId m = v \<and> m_role m = OWNER) (filter (\<lambda>m. f m \<noteq> k) M) \<noteq> []"
proof (cases "m_role a = OWNER \<and> v = w")
  case True
  with assms(5) drop_one [OF assms(1), of "\<lambda>m. m_workspaceId m = w \<and> m_role m = OWNER" k]
  show ?thesis by (metis length_0_conv not_less_eq_eq le_zero_eq One_nat_def not_less True)
next
  case False
  obtain m where m: "m \<in> set M" "m_workspaceId m = v" "m_role m = OWNER"
    using assms(6) by (auto simp: filter_empty_conv)
  with False assms(2,7) have "f m \<noteq> k" by auto
  with m show ?thesis by (auto simp: filter_empty_conv)
qed

lemma memberWithUser_some:
  assumes "memberWithUser w u d = Some (m, x)"
  shows "m \<in> set (members d)" and "m_workspaceId m = w" and "m_userId m = u" and "x \<in> set (users d)"
  using assms by (auto simp: memberWithUser_def bind_eq_Some_conv dest!: find_Some_iff_mem)

lemma revokeAllForMember_members [simp]: "members (db (snd (revokeAllForMember w u s))) = members (db s)"
  by (simp add: revokeAllForMember_def run)

text \<open>Each operation either leaves the memberships alone or does the plugin's write after its checks.\<close>

lemma removeMember_members:
  fixes w t :: ident and actor :: member_row and s :: world
  assumes "keeps_contract api"
  defines "M' \<equiv> members (db (snd (removeMember api w t actor s)))"
  shows "M' = members (db s) \<or>
    (\<exists>a x. memberWithUser w t (db s) = Some (a, x) \<and>
       (m_role a = OWNER \<longrightarrow> m_role actor = OWNER \<and> 1 < length (ownersOf w (db s))) \<and> t \<noteq> m_userId actor \<and>
       M' = filter (\<lambda>m. \<not> (m_id m = m_id a \<and> m_workspaceId m = w)) (members (db s)))"
proof (cases "memberWithUser w t (db s)")
  case None
  then show ?thesis by (simp add: M'_def removeMember_def requireMember_def run)
next
  case (Some p)
  obtain a x where p: "p = (a, x)" by (cases p)
  let ?call = "callPlugin (api_removeMember api (m_userId actor) (m_id a) w)
       (rethrowMemberWriteError ''Failed to remove the member'' ''The last OWNER cannot be removed from the workspace'')"
  have c: "writesMembers (api_removeMember api (m_userId actor) (m_id a) w)
      (filter (\<lambda>m. \<not> (m_id m = m_id a \<and> m_workspaceId m = w)))"
    using assms(1) by (simp add: keeps_contract_def)
  show ?thesis
  proof (cases "t \<noteq> m_userId actor \<and> (m_role a = OWNER \<longrightarrow> m_role actor = OWNER \<and> 1 < length (ownersOf w (db s)))")
    case True
    obtain r s1 where r: "?call s = (r, s1)" by (cases "?call s")
    with True Some p callPlugin_members [OF c, of _ s] show ?thesis
      by (cases r) (auto simp: M'_def removeMember_def requireMember_def isLastOwner_def run andThen_def [of ?call])
  next
    case False
    with Some p show ?thesis
      by (auto simp: M'_def removeMember_def requireMember_def isLastOwner_def run)
  qed
qed

lemma leave_members:
  fixes w t :: ident and actor :: member_row and s :: world
  assumes "keeps_contract api"
  defines "M' \<equiv> members (db (snd (leave api w actor s)))"
  shows "M' = members (db s) \<or>
    (\<exists>a x. memberWithUser w (m_userId actor) (db s) = Some (a, x) \<and>
       (m_role a = OWNER \<longrightarrow> 1 < length (ownersOf w (db s))) \<and>
       M' = filter (\<lambda>m. \<not> (m_workspaceId m = w \<and> m_userId m = m_userId actor)) (members (db s)))"
proof (cases "memberWithUser w (m_userId actor) (db s)")
  case None
  then show ?thesis by (simp add: M'_def leave_def requireMember_def run)
next
  case (Some p)
  obtain a x where p: "p = (a, x)" by (cases p)
  let ?call = "callPlugin (api_leaveOrganization api (m_userId actor) w)
       (rethrowMemberWriteError ''Failed to leave the workspace''
          ''The last OWNER cannot leave the workspace; transfer ownership or delete the workspace'')"
  have c: "writesMembers (api_leaveOrganization api (m_userId actor) w)
      (filter (\<lambda>m. \<not> (m_workspaceId m = w \<and> m_userId m = m_userId actor)))"
    using assms(1) by (simp add: keeps_contract_def)
  show ?thesis
  proof (cases "m_role a = OWNER \<longrightarrow> 1 < length (ownersOf w (db s))")
    case True
    obtain r s1 where r: "?call s = (r, s1)" by (cases "?call s")
    with True Some p callPlugin_members [OF c, of _ s] show ?thesis
      by (cases r) (auto simp: M'_def leave_def requireMember_def isLastOwner_def run andThen_def [of ?call])
  next
    case False
    with Some p show ?thesis
      by (auto simp: M'_def leave_def requireMember_def isLastOwner_def run)
  qed
qed

lemma updateMemberRole_members:
  fixes w t :: ident and r :: member_role and actor :: member_row and s :: world
  assumes "keeps_contract api"
  defines "M' \<equiv> members (db (snd (updateMemberRole api w t r actor s)))"
  shows "M' = members (db s) \<or>
    (\<exists>a x. memberWithUser w t (db s) = Some (a, x) \<and> m_role a \<noteq> r \<and>
       (m_role a = OWNER \<or> r = OWNER \<longrightarrow> m_role actor = OWNER) \<and>
       (m_role a = OWNER \<longrightarrow> 1 < length (ownersOf w (db s))) \<and>
       M' = map (\<lambda>m. if m_id m = m_id a \<and> m_workspaceId m = w then m\<lparr>m_role := r\<rparr> else m) (members (db s)))"
proof (cases "memberWithUser w t (db s)")
  case None
  then show ?thesis by (simp add: M'_def updateMemberRole_def requireMember_def run)
next
  case (Some p)
  obtain a x where p: "p = (a, x)" by (cases p)
  let ?call = "callPlugin (api_updateMemberRole api (m_userId actor) (m_id a) r w)
       (rethrowMemberWriteError ''Failed to change the member role''
              ''The last OWNER cannot be demoted; promote another OWNER first'')"
  have c: "writesMembers (api_updateMemberRole api (m_userId actor) (m_id a) r w)
      (map (\<lambda>m. if m_id m = m_id a \<and> m_workspaceId m = w then m\<lparr>m_role := r\<rparr> else m))"
    using assms(1) by (simp add: keeps_contract_def)
  show ?thesis
  proof (cases "m_role a \<noteq> r \<and> (m_role a = OWNER \<or> r = OWNER \<longrightarrow> m_role actor = OWNER) \<and>
      (m_role a = OWNER \<longrightarrow> 1 < length (ownersOf w (db s)))")
    case True
    obtain q s1 where q: "?call s = (q, s1)" by (cases "?call s")
    with True Some p callPlugin_members [OF c, of _ s] show ?thesis
      by (cases q) (auto simp: M'_def updateMemberRole_def requireMember_def isLastOwner_def run andThen_def [of ?call])
  next
    case False
    with Some p show ?thesis
      by (auto simp: M'_def updateMemberRole_def requireMember_def isLastOwner_def run)
  qed
qed

lemma owner_remains:
  assumes api: "keeps_contract api" and ids: "distinct (map m_id (members (db s)))"
    and pairs: "distinct (map (\<lambda>x. (m_workspaceId x, m_userId x)) (members (db s)))"
    and own: "ownersOf v (db s) \<noteq> []"
  shows "ownersOf v (db (snd (removeMember api w t actor s))) \<noteq> []"
    and "ownersOf v (db (snd (leave api w actor s))) \<noteq> []"
    and "ownersOf v (db (snd (updateMemberRole api w t r actor s))) \<noteq> []"
proof -
  let ?M = "members (db s)"
  let ?own = "\<lambda>v m. m_workspaceId m = v \<and> m_role m = OWNER"
  have own': "filter (?own v) ?M \<noteq> []" using own by (simp add: ownersOf_def)
  have same: "m = a" if "m_id m = m_id a" "m \<in> set ?M" "a \<in> set ?M" for a m
    using ids that by (simp add: distinct_map inj_on_def)
  have same_pair: "m = a" if "(m_workspaceId m, m_userId m) = (m_workspaceId a, m_userId a)" "m \<in> set ?M" "a \<in> set ?M" for a m
    using pairs that unfolding distinct_map inj_on_def by blast
  have survive: "filter (?own v) (filter (\<lambda>m. m_id m \<noteq> m_id a) ?M) \<noteq> []"
    if "a \<in> set ?M" "m_workspaceId a = w" "m_role a = OWNER \<longrightarrow> 1 < length (ownersOf w (db s))" for a
    by (rule owners_survive [OF ids, of _ a w])
      (use that same own' in \<open>auto simp: ownersOf_def\<close>)
  show "ownersOf v (db (snd (removeMember api w t actor s))) \<noteq> []"
    using removeMember_members [OF api, of w t actor s]
  proof (elim disjE exE conjE)
    assume "members (db (snd (removeMember api w t actor s))) = ?M"
    with own show ?thesis by (simp add: ownersOf_def)
  next
    fix a x
    assume a: "memberWithUser w t (db s) = Some (a, x)"
      "m_role a = OWNER \<longrightarrow> m_role actor = OWNER \<and> 1 < length (ownersOf w (db s))"
      "members (db (snd (removeMember api w t actor s))) = filter (\<lambda>m. \<not> (m_id m = m_id a \<and> m_workspaceId m = w)) ?M"
    note m = memberWithUser_some [OF a(1)]
    have "filter (\<lambda>m. \<not> (m_id m = m_id a \<and> m_workspaceId m = w)) ?M = filter (\<lambda>m. m_id m \<noteq> m_id a) ?M"
      using same m by (intro filter_cong) auto
    with survive [of a] a m show ?thesis by (simp add: ownersOf_def)
  qed
  show "ownersOf v (db (snd (leave api w actor s))) \<noteq> []"
    using leave_members [OF api, of w actor s]
  proof (elim disjE exE conjE)
    assume "members (db (snd (leave api w actor s))) = ?M"
    with own show ?thesis by (simp add: ownersOf_def)
  next
    fix a x
    assume a: "memberWithUser w (m_userId actor) (db s) = Some (a, x)"
      "m_role a = OWNER \<longrightarrow> 1 < length (ownersOf w (db s))"
      "members (db (snd (leave api w actor s))) =
         filter (\<lambda>m. \<not> (m_workspaceId m = w \<and> m_userId m = m_userId actor)) ?M"
    note m = memberWithUser_some [OF a(1)]
    have "filter (\<lambda>m. \<not> (m_workspaceId m = w \<and> m_userId m = m_userId actor)) ?M =
        filter (\<lambda>m. m_id m \<noteq> m_id a) ?M"
    proof (rule filter_cong [OF HOL.refl])
      fix y assume y: "y \<in> set ?M"
      show "(\<not> (m_workspaceId y = w \<and> m_userId y = m_userId actor)) = (m_id y \<noteq> m_id a)"
        using same_pair [OF _ y m(1)] same [OF _ y m(1)] m by auto
    qed
    with survive [of a] a m show ?thesis by (simp add: ownersOf_def)
  qed
  show "ownersOf v (db (snd (updateMemberRole api w t r actor s))) \<noteq> []"
    using updateMemberRole_members [OF api, of w t r actor s]
  proof (elim disjE exE conjE)
    assume "members (db (snd (updateMemberRole api w t r actor s))) = ?M"
    with own show ?thesis by (simp add: ownersOf_def)
  next
    fix a x
    assume a: "memberWithUser w t (db s) = Some (a, x)" "m_role a = OWNER \<longrightarrow> 1 < length (ownersOf w (db s))"
      "members (db (snd (updateMemberRole api w t r actor s))) =
         map (\<lambda>m. if m_id m = m_id a \<and> m_workspaceId m = w then m\<lparr>m_role := r\<rparr> else m) ?M"
    note m = memberWithUser_some [OF a(1)]
    from survive [of a] a m obtain y where y: "y \<in> set ?M" "m_id y \<noteq> m_id a" "?own v y"
      by (auto simp: filter_empty_conv)
    then have "y \<in> set (map (\<lambda>m. if m_id m = m_id a \<and> m_workspaceId m = w then m\<lparr>m_role := r\<rparr> else m) ?M)"
      by force
    with y(3) a(3) show ?thesis by (auto simp: ownersOf_def filter_empty_conv)
  qed
qed

text \<open>A role that nobody but an owner hands out or takes away.\<close>

lemma filter_map_same:
  "(\<And>x. x \<in> set M \<Longrightarrow> P (g x) = P x) \<Longrightarrow> (\<And>x. x \<in> set M \<Longrightarrow> P x \<Longrightarrow> g x = x) \<Longrightarrow>
     filter P (map g M) = filter P M"
  by (induction M) auto

lemma ownership_by_owner:
  assumes api: "keeps_contract api" and actor: "m_role actor \<noteq> OWNER" and ids: "distinct (map m_id (members (db s)))"
  shows "ownersOf v (db (snd (removeMember api w t actor s))) = ownersOf v (db s)"
    and "ownersOf v (db (snd (updateMemberRole api w t r actor s))) = ownersOf v (db s)"
proof -
  let ?M = "members (db s)"
  have same: "m = a" if "m_id m = m_id a" "m \<in> set ?M" "a \<in> set ?M" for a m
    using ids that by (simp add: distinct_map inj_on_def)
  show "ownersOf v (db (snd (removeMember api w t actor s))) = ownersOf v (db s)"
    using removeMember_members [OF api, of w t actor s]
  proof (elim disjE exE conjE)
    fix a x
    assume a: "memberWithUser w t (db s) = Some (a, x)"
      "m_role a = OWNER \<longrightarrow> m_role actor = OWNER \<and> 1 < length (ownersOf w (db s))"
      "members (db (snd (removeMember api w t actor s))) = filter (\<lambda>m. \<not> (m_id m = m_id a \<and> m_workspaceId m = w)) ?M"
    have "m_role m \<noteq> OWNER" if "m \<in> set ?M" "m_id m = m_id a" for m
      using same [OF that(2,1) memberWithUser_some(1) [OF a(1)]] a(2) actor by simp
    then show ?thesis by (auto simp: ownersOf_def a(3) intro!: filter_cong)
  qed (simp add: ownersOf_def)
  show "ownersOf v (db (snd (updateMemberRole api w t r actor s))) = ownersOf v (db s)"
    using updateMemberRole_members [OF api, of w t r actor s]
  proof (elim disjE exE conjE)
    fix a x
    assume a: "memberWithUser w t (db s) = Some (a, x)" "m_role a = OWNER \<or> r = OWNER \<longrightarrow> m_role actor = OWNER"
      "members (db (snd (updateMemberRole api w t r actor s))) =
         map (\<lambda>m. if m_id m = m_id a \<and> m_workspaceId m = w then m\<lparr>m_role := r\<rparr> else m) ?M"
    have none: "m_role m \<noteq> OWNER" if "m \<in> set ?M" "m_id m = m_id a" for m
      using same [OF that(2,1) memberWithUser_some(1) [OF a(1)]] a(2) actor by simp
    show ?thesis
      unfolding ownersOf_def a(3) by (rule filter_map_same) (use none a(2) actor in auto)
  qed (simp add: ownersOf_def)
qed

text \<open>Ending a membership ends the tokens that rested on it.\<close>

lemma revokeAllForMember_live:
  assumes "live_token (db (snd (revokeAllForMember w u s))) t h = Some (x, v)"
  shows "\<not> (tk_workspaceId x = w \<and> tk_userId x = u)"
proof
  assume own: "tk_workspaceId x = w \<and> tk_userId x = u"
  let ?f = "\<lambda>x. if liveTokenOf w u x then x\<lparr>tk_revokedAt := Some (clock s)\<rparr> else x"
  have "x \<in> set (map ?f (tokens (db s)))" and live: "tk_revokedAt x = None"
    using live_token_some(1) [OF assms] by (simp_all add: usable_def revokeAllForMember_def run)
  then obtain y where y: "x = ?f y" unfolding set_map by blast
  show False
  proof (cases "liveTokenOf w u y")
    case True
    with y live show False by simp
  next
    case False
    then have "x = y" using y by (simp only: if_False)
    with False own live show False by (simp add: liveTokenOf_def)
  qed
qed

lemma removeMember_ok:
  assumes "removeMember api w t actor s = (Inr (), s')"
  shows "\<exists>s1. s' = snd (revokeAllForMember w t s1)"
    and "\<exists>a x. memberWithUser w t (db s) = Some (a, x)"
proof -
  obtain a x where ax: "memberWithUser w t (db s) = Some (a, x)"
    using assms by (auto simp: removeMember_def requireMember_def run split: if_splits option.splits)
  then show "\<exists>a x. memberWithUser w t (db s) = Some (a, x)" by blast
  have "\<exists>s1. revokeAllForMember w t s1 = (Inr (), s')"
    using assms ax
    by (auto simp: removeMember_def requireMember_def isLastOwner_def run andThen_def [of "callPlugin _ _"]
        split: if_splits prod.splits sum.splits)
  then show "\<exists>s1. s' = snd (revokeAllForMember w t s1)" by (metis snd_conv)
qed

lemma leave_ok:
  assumes "leave api w actor s = (Inr (), s')"
  shows "\<exists>s1. s' = snd (revokeAllForMember w (m_userId actor) s1)"
    and "EvictUser w (m_userId actor) \<in> set (outbox s')"
proof -
  obtain a x where ax: "memberWithUser w (m_userId actor) (db s) = Some (a, x)"
    using assms by (auto simp: leave_def requireMember_def run split: option.splits)
  obtain s0 where s0: "revokeAllForMember w (m_userId actor) s0 = (Inr (), s')"
    "EvictUser w (m_userId actor) \<in> set (outbox s0)"
    using assms ax
    by (auto simp: leave_def requireMember_def isLastOwner_def run andThen_def [of "callPlugin _ _"]
        split: if_splits prod.splits sum.splits)
  then show "\<exists>s1. s' = snd (revokeAllForMember w (m_userId actor) s1)" by (metis snd_conv)
  show "EvictUser w (m_userId actor) \<in> set (outbox s')"
    using s0 by (auto simp: revokeAllForMember_def run)
qed

section \<open>Invitations\<close>

lemma andThen_assertSeat:
  "andThen (assertSeatAvailable w c) f s =
     (case fst (assertSeatAvailable w c s) of Inl e \<Rightarrow> (Inl e, s) | Inr _ \<Rightarrow> f () s)"
  by (auto simp: assertSeatAvailable_def andThen_def [of "assertSeatAvailable _ _"] run split: sum.splits option.splits)

text \<open>An invitation is never for an owner, and a new seat is offered only while there is room.\<close>

lemma invitation_create_ok:
  assumes "invitation_create api w a email role s = (Inr out, s')"
  shows "role \<noteq> OWNER" and "ivd_role out = role_name role" and "ivd_workspaceId out = w"
    and "filter (\<lambda>i. pendingInvitation w (clock s) i \<and> i_email i = js_lower email) (invitations (db s)) = [] \<Longrightarrow>
      fst (assertSeatAvailable w True s) = Inr ()"
proof -
  show owner: "role \<noteq> OWNER" using assms by (auto simp: invitation_create_def run split: if_splits)
  show "ivd_role out = role_name role" "ivd_workspaceId out = w"
    using assms owner
    by (auto simp: invitation_create_def run andThen_def findPendingInvitations_def Let_def
        split: prod.splits sum.splits if_splits)
  assume "filter (\<lambda>i. pendingInvitation w (clock s) i \<and> i_email i = js_lower email) (invitations (db s)) = []"
  with assms owner show "fst (assertSeatAvailable w True s) = Inr ()"
    by (auto simp: invitation_create_def run findPendingInvitations_def Let_def andThen_assertSeat
        split: sum.splits)
qed

end
