(* ===== verification/Accounts.thy ===== *)
theory Accounts
  imports Workspaces Comments Integrity
begin

text \<open>
  \<open>apps/api/src/account/account-deletion.service.ts\<close> and \<open>anonymised-user.ts\<close>: what an erasure
  request finds, the decisions it needs, and the transaction that carries it out. The pattern match of
  the database is a parameter \<open>like\<close>, as in the task filters. The clock does not advance inside a
  request, so the duration of the log line is zero.
\<close>

section \<open>What is left of an account\<close>

definition ANONYMOUS_USER_NAME :: string where
  "ANONYMOUS_USER_NAME = ''Deleted user''"

definition ANONYMOUS_EMAIL_DOMAIN :: string where
  "ANONYMOUS_EMAIL_DOMAIN = ''deleted.invalid''"

definition anonymisedEmailFor :: "ident \<Rightarrow> string" where
  "anonymisedEmailFor userId = ''deleted-'' @ userId @ ''@'' @ ANONYMOUS_EMAIL_DOMAIN"

definition anonymisedUserFields :: "ident \<Rightarrow> millis \<Rightarrow> user_row \<Rightarrow> user_row" where
  "anonymisedUserFields userId deletedAt u =
     u\<lparr>u_email := anonymisedEmailFor userId, u_name := ANONYMOUS_USER_NAME, u_emailVerified := False,
       u_avatarUrl := None, u_locale := None, u_deletedAt := Some deletedAt\<rparr>"

section \<open>Requests and answers\<close>

datatype disposition_action = Transfer | DeleteIt

record disposition =
  dp_workspaceId :: ident
  dp_action :: disposition_action
  dp_newOwnerUserId :: "ident option"

record delete_account_dto =
  da_confirmEmail :: string
  da_dispositions :: "disposition list option"

text \<open>Who asked for the deletion.\<close>

datatype deletion_initiator = Self | InstanceAdmin

fun initiator_name :: "deletion_initiator \<Rightarrow> string" where
  "initiator_name Self = ''self''"
| "initiator_name InstanceAdmin = ''instance_admin''"

record deletion_counts =
  dc_workspacesTransferred :: nat
  dc_workspacesDeleted :: nat
  dc_membershipsRemoved :: nat
  dc_assignmentsRemoved :: nat
  dc_invitationsRevoked :: nat
  dc_invitationsReceivedDeleted :: nat
  dc_commentsRedacted :: nat
  dc_activitiesRedacted :: nat
  dc_sessionsDeleted :: nat
  dc_accessTokensDeleted :: nat
  dc_accountsDeleted :: nat
  dc_verificationsDeleted :: nat
  dc_notificationsDeleted :: nat
  dc_usagePingsDeleted :: nat

record transfer_candidate =
  tc_userId :: ident
  tc_name :: string
  tc_role :: member_role

record sole_owned_dto =
  so_workspaceId :: ident
  so_name :: string
  so_slug :: string
  so_memberCount :: nat
  so_boardCount :: nat
  so_transferCandidates :: "transfer_candidate list"

record departing_dto =
  dm_workspaceId :: ident
  dm_name :: string
  dm_role :: member_role

record retained_content =
  rc_comments :: nat
  rc_tasksCreated :: nat
  rc_attachments :: nat
  rc_activities :: nat

record preview_dto =
  pv_userId :: ident
  pv_soleOwnedWorkspaces :: "sole_owned_dto list"
  pv_otherWorkspaces :: "departing_dto list"
  pv_retainedContent :: retained_content

section \<open>What the deletion finds\<close>

definition requireLiveUser :: "ident \<Rightarrow> user_row request" where
  "requireLiveUser userId =
     andThen (readDb (\<lambda>d. find (\<lambda>u. u_id u = userId) (users d))) (\<lambda>found.
     andThen (orThrow (NotFound ''Account not found'') found) (\<lambda>u.
     andThen (check (u_deletedAt u = None) (NotFound ''Account not found'')) (\<lambda>_.
       ret u)))"

text \<open>The memberships of a user in workspace order, and those in which nobody else is an owner.\<close>

definition membershipsOf :: "ident \<Rightarrow> database \<Rightarrow> member_row list" where
  "membershipsOf userId d = sort_key m_workspaceId (filter (\<lambda>m. m_userId m = userId) (members d))"

definition isSoleOwner :: "database \<Rightarrow> member_row \<Rightarrow> bool" where
  "isSoleOwner d m \<longleftrightarrow> m_role m = OWNER \<and> length (ownersOf (m_workspaceId m) d) \<le> 1"

definition partitionMemberships :: "ident \<Rightarrow> database \<Rightarrow> member_row list \<times> member_row list" where
  "partitionMemberships userId d = partition (isSoleOwner d) (membershipsOf userId d)"

definition nameOfWorkspace :: "database \<Rightarrow> ident \<Rightarrow> string" where
  "nameOfWorkspace d k = (case find (\<lambda>w. w_id w = k) (workspaces d) of None \<Rightarrow> [] | Some w \<Rightarrow> w_name w)"

definition slugOfWorkspace :: "database \<Rightarrow> ident \<Rightarrow> string" where
  "slugOfWorkspace d k = (case find (\<lambda>w. w_id w = k) (workspaces d) of None \<Rightarrow> [] | Some w \<Rightarrow> w_slug w)"

definition candidatesFor :: "database \<Rightarrow> ident \<Rightarrow> ident \<Rightarrow> transfer_candidate list" where
  "candidatesFor d workspaceId userId =
     concat (map (\<lambda>m. case find (\<lambda>u. u_id u = m_userId m) (users d) of
          None \<Rightarrow> []
        | Some u \<Rightarrow> if u_deletedAt u = None then [\<lparr>tc_userId = m_userId m, tc_name = u_name u, tc_role = m_role m\<rparr>] else [])
       (sort_key m_id (filter (\<lambda>m. m_workspaceId m = workspaceId \<and> m_userId m \<noteq> userId) (members d))))"

definition preview :: "ident \<Rightarrow> preview_dto request" where
  "preview userId =
     andThen (requireLiveUser userId) (\<lambda>_.
     readDb (\<lambda>d.
       let (soleOwned, other) = partitionMemberships userId d
       in \<lparr>pv_userId = userId,
           pv_soleOwnedWorkspaces = map (\<lambda>m.
             \<lparr>so_workspaceId = m_workspaceId m, so_name = nameOfWorkspace d (m_workspaceId m),
              so_slug = slugOfWorkspace d (m_workspaceId m), so_memberCount = memberCount (m_workspaceId m) d,
              so_boardCount = boardCount (m_workspaceId m) d,
              so_transferCandidates = candidatesFor d (m_workspaceId m) userId\<rparr>) soleOwned,
           pv_otherWorkspaces = map (\<lambda>m.
             \<lparr>dm_workspaceId = m_workspaceId m, dm_name = nameOfWorkspace d (m_workspaceId m), dm_role = m_role m\<rparr>) other,
           pv_retainedContent =
             \<lparr>rc_comments = length (filter (\<lambda>c. cm_userId c = userId) (comments d)),
              rc_tasksCreated = length (filter (\<lambda>t. t_createdById t = userId) (tasks d)),
              rc_attachments = length (filter (\<lambda>a. a_uploadedById a = userId) (attachments d)),
              rc_activities = length (filter (\<lambda>x. ac_userId x = userId) (activities d))\<rparr>\<rparr>))"

section \<open>The decisions\<close>

text \<open>\<open>ids.join(', ')\<close>.\<close>

fun join_comma :: "string list \<Rightarrow> string" where
  "join_comma [] = []"
| "join_comma [x] = x"
| "join_comma (x # xs) = x @ '', '' @ join_comma xs"

fun gatherDispositions ::
    "ident list \<Rightarrow> disposition list \<Rightarrow> (ident \<times> disposition) list \<Rightarrow> http_error + (ident \<times> disposition) list" where
  "gatherDispositions required [] byWorkspace = Inr byWorkspace"
| "gatherDispositions required (x # xs) byWorkspace =
     (if dp_workspaceId x \<in> fst ` set byWorkspace
      then Inl (Conflict (''Two decisions were sent for the same workspace: '' @ dp_workspaceId x))
      else if dp_workspaceId x \<notin> set required
      then Inl (Conflict (''This account is not the only owner of workspace '' @ dp_workspaceId x @
                  ''; no decision is needed for it''))
      else gatherDispositions required xs (byWorkspace @ [(dp_workspaceId x, x)]))"

definition matchDispositions :: "member_row list \<Rightarrow> disposition list \<Rightarrow> http_error + (ident \<times> disposition) list" where
  "matchDispositions soleOwned dispositions =
     (let required = remdups (map m_workspaceId soleOwned)
      in case gatherDispositions required dispositions [] of
           Inl e \<Rightarrow> Inl e
         | Inr byWorkspace \<Rightarrow>
             let undecided = filter (\<lambda>k. k \<notin> fst ` set byWorkspace) required
             in if undecided \<noteq> []
                then Inl (Conflict (''Decide what happens to each workspace this account solely owns before it can be deleted: '' @
                            join_comma undecided))
                else Inr byWorkspace)"

section \<open>Carrying them out\<close>

definition transferOwnership :: "member_row \<Rightarrow> ident \<Rightarrow> ident \<Rightarrow> unit request" where
  "transferOwnership membership newOwnerUserId departingUserId =
     andThen (readDb (memberWithUser (m_workspaceId membership) newOwnerUserId)) (\<lambda>found.
     andThen (orThrow (NotFound ''Workspace member not found'') found) (\<lambda>(target, user).
     andThen (check (newOwnerUserId \<noteq> departingUserId) (NotFound ''Workspace member not found'')) (\<lambda>_.
     andThen (check (u_deletedAt user = None) (Conflict ''That member has been deleted and cannot become an owner'')) (\<lambda>_.
     andThen (writeDb (\<lambda>d. d\<lparr>members := map (\<lambda>m.
         if m_workspaceId m = m_workspaceId membership \<and> m_userId m = newOwnerUserId then m\<lparr>m_role := OWNER\<rparr> else m) (members d)\<rparr>)) (\<lambda>_.
     andThen (recordActivity (m_workspaceId membership) None departingUserId MemberRoleChanged
       (JObj [(''targetUserId'', JStr newOwnerUserId), (''targetName'', JStr (u_name user)),
              (''previousRole'', JStr (role_name (m_role target))), (''newRole'', JStr (role_name OWNER)),
              (''actorRole'', JStr (role_name (m_role membership))), (''reason'', JStr ''account.deleted'')])) (\<lambda>_.
       ret ()))))))"

definition deleteWorkspace :: "ident \<Rightarrow> ident \<Rightarrow> ident \<Rightarrow> json request" where
  "deleteWorkspace workspaceId departingUserId actorId =
     andThen (readDb (\<lambda>d. map_option (\<lambda>w. (w, memberCount workspaceId d, boardCount workspaceId d))
                 (find (\<lambda>w. w_id w = workspaceId) (workspaces d)))) (\<lambda>doomed.
     andThen (check (doomed \<noteq> None) RecordNotFound) (\<lambda>_.
     andThen (writeDb (delete_workspaces (\<lambda>w. w_id w = workspaceId))) (\<lambda>_.
     andThen now (\<lambda>t.
       ret (JObj [(''ts'', JNum (of_int t)), (''level'', JStr ''warn''), (''event'', JStr ''workspace.deleted''),
         (''workspaceId'', JStr workspaceId), (''actorId'', JStr actorId),
         (''name'', json_of_option (\<lambda>(w, _, _). JStr (w_name w)) doomed),
         (''slug'', json_of_option (\<lambda>(w, _, _). JStr (w_slug w)) doomed),
         (''memberCount'', json_of_option (\<lambda>(_, m, _). JNum (of_nat m)) doomed),
         (''boardCount'', json_of_option (\<lambda>(_, _, b). JNum (of_nat b)) doomed),
         (''deletedWithAccount'', JStr departingUserId)])))))"

text \<open>One sole-owned workspace: the log line of its deletion, or none when it is handed over.\<close>

definition settleWorkspace ::
    "(ident \<times> disposition) list \<Rightarrow> ident \<Rightarrow> ident option \<Rightarrow> member_row \<Rightarrow> json option request" where
  "settleWorkspace dispositions userId actorId membership =
     (case map_of dispositions (m_workspaceId membership) of
        None \<Rightarrow> raise (Conflict (''Decide what happens to workspace '' @ m_workspaceId membership @
                                '' before this account can be deleted''))
      | Some x \<Rightarrow>
          (case dp_action x of
             Transfer \<Rightarrow>
               (case dp_newOwnerUserId x of
                  Some newOwner \<Rightarrow> andThen (transferOwnership membership newOwner userId) (\<lambda>_. ret None)
                | None \<Rightarrow> raise (Conflict (''A transfer needs a new owner for workspace '' @ m_workspaceId membership)))
           | DeleteIt \<Rightarrow>
               andThen (deleteWorkspace (m_workspaceId membership) userId
                         (case actorId of None \<Rightarrow> userId | Some a \<Rightarrow> a)) (\<lambda>line. ret (Some line))))"

text \<open>The entry each workspace that stays gets.\<close>

definition recordDeparture :: "ident \<Rightarrow> deletion_initiator \<Rightarrow> member_row \<Rightarrow> unit request" where
  "recordDeparture userId initiatedBy membership =
     andThen (recordActivity (m_workspaceId membership) None userId AccountDeleted
       (JObj [(''targetUserId'', JStr userId), (''previousRole'', JStr (role_name (m_role membership))),
              (''initiatedBy'', JStr (initiator_name initiatedBy))])) (\<lambda>_.
       ret ())"

section \<open>Names written into text\<close>

definition COMMENT_REDACTION_PAGE :: nat where
  "COMMENT_REDACTION_PAGE = 500"

text \<open>Whether a text contains another: \<open>contains\<close> with an operand that has no wildcards.\<close>

definition holds :: "string \<Rightarrow> string \<Rightarrow> bool" where
  "holds part whole = list_ex (\<lambda>n. take (length part) (drop n whole) = part) [0..<Suc (length whole)]"

definition redactedComment :: "ident \<Rightarrow> comment_row \<Rightarrow> comment_row" where
  "redactedComment userId c = c\<lparr>cm_body := redactMentionsOf (cm_body c) userId ANONYMOUS_USER_NAME\<rparr>"

definition redactionPage :: "ident \<Rightarrow> ident option \<Rightarrow> comment_row list \<Rightarrow> comment_row list" where
  "redactionPage userId cursor cs =
     take COMMENT_REDACTION_PAGE (sort_key cm_id
       (filter (\<lambda>c. holds userId (cm_body c) \<and> (case cursor of None \<Rightarrow> True | Some k \<Rightarrow> k < cm_id c)) cs))"

text \<open>The rows of a page rewritten in the table, and how many changed.\<close>

definition redactPage :: "ident \<Rightarrow> comment_row list \<Rightarrow> comment_row list \<Rightarrow> comment_row list" where
  "redactPage userId page cs =
     map (\<lambda>c. if cm_id c \<in> cm_id ` set page then redactedComment userId c else c) cs"

definition rewrittenIn :: "ident \<Rightarrow> comment_row list \<Rightarrow> nat" where
  "rewrittenIn userId page = length (filter (\<lambda>c. redactedComment userId c \<noteq> c) page)"

definition pending :: "ident option \<Rightarrow> comment_row list \<Rightarrow> comment_row list" where
  "pending cursor cs = filter (\<lambda>c. case cursor of None \<Rightarrow> True | Some k \<Rightarrow> k < cm_id c) cs"

lemma page_pending: "set (redactionPage userId cursor cs) \<subseteq> set (pending cursor cs)"
proof
  fix c assume "c \<in> set (redactionPage userId cursor cs)"
  then show "c \<in> set (pending cursor cs)"
    by (auto simp: redactionPage_def pending_def dest!: in_set_takeD)
qed

lemma pending_redactPage: "length (pending k (redactPage userId page cs)) = length (pending k cs)"
proof -
  let ?f = "\<lambda>c. if cm_id c \<in> cm_id ` set page then redactedComment userId c else c"
  have "cm_id (?f c) = cm_id c" for c by (simp add: redactedComment_def)
  then show ?thesis unfolding pending_def redactPage_def filter_map comp_def length_map by (simp only:)
qed

lemma pending_shrinks:
  assumes "c \<in> set (pending cursor cs)"
  shows "length (pending (Some (cm_id c)) cs) < length (pending cursor cs)"
proof -
  have later: "x \<in> set (pending cursor cs)" if "cm_id c < cm_id x" "x \<in> set cs" for x
    using assms that by (auto simp: pending_def split: option.splits)
  then have eq: "pending (Some (cm_id c)) cs = filter (\<lambda>x. cm_id c < cm_id x) (pending cursor cs)"
    by (auto simp: pending_def intro!: filter_cong)
  show ?thesis unfolding eq using assms by (intro length_filter_less[of c]) auto
qed

function redactComments :: "ident \<Rightarrow> ident option \<Rightarrow> comment_row list \<Rightarrow> nat \<times> comment_row list" where
  "redactComments userId cursor cs =
     (let page = redactionPage userId cursor cs
      in if page = [] then (0, cs)
         else let cs' = redactPage userId page cs; n = rewrittenIn userId page
              in if length page < COMMENT_REDACTION_PAGE then (n, cs')
                 else let (m, cs'') = redactComments userId (Some (cm_id (last page))) cs' in (n + m, cs''))"
  by pat_completeness auto
termination
proof (relation "measure (\<lambda>(u, cursor, cs). length (pending cursor cs))")
  fix userId cursor cs page cs' and n :: nat
  assume "page = redactionPage userId cursor cs" "page \<noteq> []" "cs' = redactPage userId page cs"
  then have "last page \<in> set (pending cursor cs)" using page_pending[of userId cursor cs] by (metis last_in_set subsetD)
  then show "((userId, Some (cm_id (last page)), cs'), userId, cursor, cs) \<in> measure (\<lambda>(u, cursor, cs). length (pending cursor cs))"
    using pending_shrinks \<open>cs' = _\<close> by (simp add: pending_redactPage)
qed simp

declare redactComments.simps [simp del]

definition redactCommentMentions :: "ident \<Rightarrow> nat request" where
  "redactCommentMentions userId =
     andThen (readDb (\<lambda>d. redactComments userId None (comments d))) (\<lambda>(rewritten, cs).
     andThen (writeDb (\<lambda>d. d\<lparr>comments := cs\<rparr>)) (\<lambda>_.
       ret rewritten))"

text \<open>\<open>payload->>'key'\<close> is null without the key and where its value is null.\<close>

definition payload_field :: "json \<Rightarrow> string \<Rightarrow> json" where
  "payload_field payload key =
     (case payload of
        JObj kvs \<Rightarrow> (case map_of kvs key of Some v \<Rightarrow> v | None \<Rightarrow> JNull)
      | _ \<Rightarrow> JNull)"

text \<open>\<open>jsonb_set(.., false)\<close> on one key.\<close>

definition setField :: "string \<Rightarrow> json \<Rightarrow> json \<Rightarrow> json" where
  "setField key v payload =
     (case payload of JObj kvs \<Rightarrow> JObj (map (\<lambda>(k, x). if k = key then (k, v) else (k, x)) kvs) | _ \<Rightarrow> payload)"

definition namesDeparted :: "ident \<Rightarrow> activity_row \<Rightarrow> bool" where
  "namesDeparted userId x \<longleftrightarrow>
     payload_field (ac_payload x) ''targetUserId'' = JStr userId \<and> payload_field (ac_payload x) ''targetName'' \<noteq> JNull"

definition redactedActivity :: "ident \<Rightarrow> activity_row \<Rightarrow> activity_row" where
  "redactedActivity userId x =
     (if namesDeparted userId x
      then x\<lparr>ac_payload := setField ''targetName'' (JStr ANONYMOUS_USER_NAME) (ac_payload x)\<rparr> else x)"

definition redactActivityPayloads :: "ident \<Rightarrow> nat request" where
  "redactActivityPayloads userId =
     andThen (readDb (\<lambda>d. length (filter (namesDeparted userId) (activities d)))) (\<lambda>n.
     andThen (writeDb (\<lambda>d. d\<lparr>activities := map (redactedActivity userId) (activities d)\<rparr>)) (\<lambda>_.
       ret n))"

section \<open>The deletion\<close>

text \<open>The rows of a person, table by table, in the order of the transaction.\<close>

definition eraseRows ::
    "(string \<Rightarrow> string \<Rightarrow> bool) \<Rightarrow> ident \<Rightarrow> string \<Rightarrow> nat \<Rightarrow> nat \<Rightarrow> deletion_counts request" where
  "eraseRows like userId email transferred deleted =
     andThen (deleteMany assignees assignees_update (\<lambda>x. ta_userId x = userId)) (\<lambda>assignmentsRemoved.
     andThen (deleteMany invitations invitations_update (\<lambda>i. i_inviterId i = userId \<and> i_status i = ''pending'')) (\<lambda>invitationsRevoked.
     andThen (deleteMany invitations invitations_update (\<lambda>i. i_email i = js_lower email)) (\<lambda>invitationsReceived.
     andThen (redactCommentMentions userId) (\<lambda>commentsRedacted.
     andThen (redactActivityPayloads userId) (\<lambda>activitiesRedacted.
     andThen (deleteMany notifications notifications_update (\<lambda>n. n_userId n = userId)) (\<lambda>notificationsDeleted.
     andThen (deleteMany pings pings_update (\<lambda>p. up_userId p = userId)) (\<lambda>usagePingsDeleted.
     andThen (deleteMany sessions sessions_update (\<lambda>x. ss_userId x = userId)) (\<lambda>sessionsDeleted.
     andThen (deleteMany tokens tokens_update (\<lambda>k. tk_userId k = userId)) (\<lambda>accessTokensDeleted.
     andThen (deleteMany accounts accounts_update (\<lambda>x. acc_userId x = userId)) (\<lambda>accountsDeleted.
     andThen (deleteMany verifications verifications_update
         (\<lambda>v. vf_value v = userId \<or> like (''%'' @ escapeLikePattern email @ ''%'') (vf_identifier v))) (\<lambda>verificationsDeleted.
     andThen (deleteMany members members_update (\<lambda>m. m_userId m = userId)) (\<lambda>membershipsRemoved.
       ret \<lparr>dc_workspacesTransferred = transferred, dc_workspacesDeleted = deleted,
            dc_membershipsRemoved = membershipsRemoved, dc_assignmentsRemoved = assignmentsRemoved,
            dc_invitationsRevoked = invitationsRevoked, dc_invitationsReceivedDeleted = invitationsReceived,
            dc_commentsRedacted = commentsRedacted, dc_activitiesRedacted = activitiesRedacted,
            dc_sessionsDeleted = sessionsDeleted, dc_accessTokensDeleted = accessTokensDeleted,
            dc_accountsDeleted = accountsDeleted, dc_verificationsDeleted = verificationsDeleted,
            dc_notificationsDeleted = notificationsDeleted, dc_usagePingsDeleted = usagePingsDeleted\<rparr>))))))))))))"

text \<open>\<open>user.update\<close>: the anonymous address must be free, the column being unique.\<close>

definition anonymiseUser :: "ident \<Rightarrow> millis \<Rightarrow> unit request" where
  "anonymiseUser userId deletedAt =
     andThen (readDb (\<lambda>d. list_ex (\<lambda>u. u_email u = anonymisedEmailFor userId \<and> u_id u \<noteq> userId) (users d))) (\<lambda>taken.
     andThen (check (\<not> taken) UniqueViolation) (\<lambda>_.
       writeDb (\<lambda>d. d\<lparr>users := map (\<lambda>u. if u_id u = userId then anonymisedUserFields userId deletedAt u else u) (users d)\<rparr>)))"

text \<open>The workspaces that stay: handed over, or never in question.\<close>

definition departing :: "(ident \<times> disposition) list \<Rightarrow> member_row list \<Rightarrow> member_row list \<Rightarrow> member_row list" where
  "departing dispositions soleOwned other =
     filter (\<lambda>m. map_option dp_action (map_of dispositions (m_workspaceId m)) = Some Transfer) soleOwned @ other"

definition deletionTransaction ::
    "(string \<Rightarrow> string \<Rightarrow> bool) \<Rightarrow> ident \<Rightarrow> string \<Rightarrow> member_row list \<Rightarrow> member_row list \<Rightarrow> (ident \<times> disposition) list \<Rightarrow>
     deletion_initiator \<Rightarrow> ident option \<Rightarrow> millis \<Rightarrow> (deletion_counts \<times> json list \<times> ident list) request" where
  "deletionTransaction like userId email soleOwned other dispositions initiatedBy actorId deletedAt =
     andThen (mapEach soleOwned (settleWorkspace dispositions userId actorId)) (\<lambda>settled.
     let lines = concat (map (\<lambda>l. case l of None \<Rightarrow> [] | Some line \<Rightarrow> [line]) settled);
         surviving = departing dispositions soleOwned other
     in andThen (forEach surviving (recordDeparture userId initiatedBy)) (\<lambda>_.
        andThen (eraseRows like userId email (length (filter (\<lambda>l. l = None) settled)) (length lines)) (\<lambda>counts.
        andThen (anonymiseUser userId deletedAt) (\<lambda>_.
          ret (counts, lines, map m_workspaceId surviving)))))"

definition deletedLine :: "ident \<Rightarrow> deletion_initiator \<Rightarrow> ident option \<Rightarrow> millis \<Rightarrow> deletion_counts \<Rightarrow> json" where
  "deletedLine userId initiatedBy actorId t c =
     JObj [(''ts'', JNum (of_int t)), (''level'', JStr ''warn''), (''event'', JStr ''account.deleted''),
       (''userId'', JStr userId), (''initiatedBy'', JStr (initiator_name initiatedBy)),
       (''actorId'', json_opt_str actorId), (''durationMs'', JNum 0),
       (''workspacesTransferred'', JNum (of_nat (dc_workspacesTransferred c))),
       (''workspacesDeleted'', JNum (of_nat (dc_workspacesDeleted c))),
       (''membershipsRemoved'', JNum (of_nat (dc_membershipsRemoved c))),
       (''assignmentsRemoved'', JNum (of_nat (dc_assignmentsRemoved c))),
       (''invitationsRevoked'', JNum (of_nat (dc_invitationsRevoked c))),
       (''invitationsReceivedDeleted'', JNum (of_nat (dc_invitationsReceivedDeleted c))),
       (''commentsRedacted'', JNum (of_nat (dc_commentsRedacted c))),
       (''activitiesRedacted'', JNum (of_nat (dc_activitiesRedacted c))),
       (''sessionsDeleted'', JNum (of_nat (dc_sessionsDeleted c))),
       (''accessTokensDeleted'', JNum (of_nat (dc_accessTokensDeleted c))),
       (''accountsDeleted'', JNum (of_nat (dc_accountsDeleted c))),
       (''verificationsDeleted'', JNum (of_nat (dc_verificationsDeleted c))),
       (''notificationsDeleted'', JNum (of_nat (dc_notificationsDeleted c))),
       (''usagePingsDeleted'', JNum (of_nat (dc_usagePingsDeleted c)))]"

text \<open>What follows the commit: sockets are dropped and the lines are written.\<close>

definition afterCommit ::
    "ident \<Rightarrow> deletion_initiator \<Rightarrow> ident option \<Rightarrow> millis \<Rightarrow> deletion_counts \<times> json list \<times> ident list \<Rightarrow> deletion_counts request" where
  "afterCommit userId initiatedBy actorId deletedAt = (\<lambda>(counts, lines, evictions).
     andThen (forEach evictions (\<lambda>w. evictUser w userId)) (\<lambda>_.
     andThen (forEach lines logLine) (\<lambda>_.
     andThen (logLine (deletedLine userId initiatedBy actorId deletedAt counts)) (\<lambda>_.
       ret counts))))"

definition deleteAccount ::
    "(string \<Rightarrow> string \<Rightarrow> bool) \<Rightarrow> ident \<Rightarrow> delete_account_dto \<Rightarrow> deletion_initiator \<Rightarrow> ident option \<Rightarrow> deletion_counts request" where
  "deleteAccount like userId dto initiatedBy actorId =
     andThen (requireLiveUser userId) (\<lambda>user.
     andThen (check (js_lower (js_trim (da_confirmEmail dto)) = js_lower (js_trim (u_email user)))
       (Forbidden ''The confirmation address does not match this account'')) (\<lambda>_.
     andThen (readDb (partitionMemberships userId)) (\<lambda>(soleOwned, other).
     andThen (lift_result (matchDispositions soleOwned (case da_dispositions dto of None \<Rightarrow> [] | Some ds \<Rightarrow> ds))) (\<lambda>dispositions.
     andThen now (\<lambda>deletedAt.
     andThen (transaction (deletionTransaction like userId (u_email user) soleOwned other dispositions initiatedBy actorId deletedAt))
       (afterCommit userId initiatedBy actorId deletedAt))))))"

end
