(* ===== verification/AccountFacts.thy ===== *)
theory AccountFacts
  imports Accounts History
begin

text \<open>
  Facts on the erasure of an account: the paged rewriting of comments is one pass over the table, the
  transaction keeps keys and foreign keys, every workspace that stays keeps an owner, and what the
  rows of the person become.
\<close>

section \<open>The paged rewriting is one pass\<close>

lemma sorted_key_strict:
  "sorted (map f xs) \<Longrightarrow> distinct (map f xs) \<Longrightarrow> i < j \<Longrightarrow> j < length xs \<Longrightarrow> (f (xs ! i) :: 'k :: linorder) < f (xs ! j)"
  using sorted_nth_mono[of "map f xs" i j] nth_eq_iff_index_eq[of "map f xs" i j] by (simp add: order_le_less)

text \<open>The first page of a sorted list is what lies up to its last key.\<close>

lemma page_keys:
  fixes f :: "'a \<Rightarrow> 'k :: linorder"
  assumes "sorted (map f xs)" "distinct (map f xs)" "0 < n" "n \<le> length xs" "x \<in> set xs"
  shows "x \<in> set (take n xs) \<longleftrightarrow> f x \<le> f (last (take n xs))"
proof -
  obtain j where j: "j < length xs" "x = xs ! j" using assms(5) by (metis in_set_conv_nth)
  have last: "last (take n xs) = xs ! (n - 1)"
    using assms(3,4) by (subst last_conv_nth) (auto simp: min_def)
  have "x \<in> set (take n xs) \<longleftrightarrow> j < n"
  proof
    assume "x \<in> set (take n xs)"
    then obtain i where "i < n" "xs ! i = x" "i < length xs" by (auto simp: in_set_conv_nth)
    with j assms(2) show "j < n" by (metis distinct_map nth_eq_iff_index_eq)
  qed (use j in \<open>auto simp: in_set_conv_nth\<close>)
  also have "\<dots> \<longleftrightarrow> f x \<le> f (last (take n xs))"
    unfolding last j(2)
  proof
    assume "j < n"
    then show "f (xs ! j) \<le> f (xs ! (n - 1))"
      using assms(1,4) j by (auto intro!: sorted_nth_mono[of "map f xs" j "n - 1", simplified])
  next
    assume le: "f (xs ! j) \<le> f (xs ! (n - 1))"
    show "j < n"
    proof (rule ccontr)
      assume "\<not> j < n"
      then have "n - 1 < j" using assms(3) by simp
      from sorted_key_strict[OF assms(1,2) this j(1)] le show False by simp
    qed
  qed
  finally show ?thesis .
qed

definition after :: "ident option \<Rightarrow> comment_row \<Rightarrow> bool" where
  "after cursor c \<longleftrightarrow> (case cursor of None \<Rightarrow> True | Some k \<Rightarrow> k < cm_id c)"

definition mentioning :: "ident \<Rightarrow> ident option \<Rightarrow> comment_row \<Rightarrow> bool" where
  "mentioning userId cursor c \<longleftrightarrow> holds userId (cm_body c) \<and> after cursor c"

lemma redactionPage_alt:
  "redactionPage userId cursor cs = take COMMENT_REDACTION_PAGE (sort_key cm_id (filter (mentioning userId cursor) cs))"
  unfolding redactionPage_def mentioning_def after_def ..

lemma redactPage_at:
  assumes "distinct (map cm_id cs)" "set page \<subseteq> set cs"
  shows "redactPage userId page cs = map (\<lambda>c. if c \<in> set page then redactedComment userId c else c) cs"
  unfolding redactPage_def
proof (rule map_cong[OF refl])
  fix c assume "c \<in> set cs"
  then have "cm_id c \<in> cm_id ` set page \<longleftrightarrow> c \<in> set page"
    using assms by (auto simp: distinct_map dest: inj_onD)
  then show "(if cm_id c \<in> cm_id ` set page then redactedComment userId c else c) =
      (if c \<in> set page then redactedComment userId c else c)" by simp
qed

lemma redactPage_ids [simp]: "map cm_id (redactPage userId page cs) = map cm_id cs"
  by (simp add: redactPage_def redactedComment_def)

lemma length_filter_split:
  "(\<And>x. x \<in> set xs \<Longrightarrow> P x \<longleftrightarrow> Q x \<or> R x) \<Longrightarrow> (\<And>x. x \<in> set xs \<Longrightarrow> \<not> (Q x \<and> R x)) \<Longrightarrow>
   length (filter P xs) = length (filter Q xs) + length (filter R xs)"
  by (induction xs) auto

lemma redactComments_once:
  assumes "distinct (map cm_id cs)"
  shows "redactComments userId cursor cs =
    (length (filter (\<lambda>c. mentioning userId cursor c \<and> redactedComment userId c \<noteq> c) cs),
     map (\<lambda>c. if mentioning userId cursor c then redactedComment userId c else c) cs)"
  using assms
proof (induction userId cursor cs rule: redactComments.induct)
  case (1 userId cursor cs)
  define H where "H = sort_key cm_id (filter (mentioning userId cursor) cs)"
  define page where "page = take COMMENT_REDACTION_PAGE H"
  have H: "set H = {c \<in> set cs. mentioning userId cursor c}" "sorted (map cm_id H)" by (simp_all add: H_def)
  have dH: "distinct (map cm_id H)"
    using "1.prems" by (simp add: H_def distinct_map) (auto intro: inj_on_subset)
  have dcs: "distinct cs" using "1.prems" by (simp add: distinct_map)
  have page: "redactionPage userId cursor cs = page" by (simp add: redactionPage_alt page_def H_def)
  have sub: "set page \<subseteq> set cs" using H(1) set_take_subset[of COMMENT_REDACTION_PAGE H] by (auto simp: page_def)
  define cs' where "cs' = redactPage userId page cs"
  have cs': "cs' = map (\<lambda>c. if c \<in> set page then redactedComment userId c else c) cs"
    unfolding cs'_def by (rule redactPage_at[OF "1.prems" sub])
  have dpage: "distinct page" using dH by (simp add: page_def distinct_map)
  have n: "rewrittenIn userId page = length (filter (\<lambda>c. c \<in> set page \<and> redactedComment userId c \<noteq> c) cs)"
  proof -
    have "set (filter (\<lambda>c. redactedComment userId c \<noteq> c) page)
        = set (filter (\<lambda>c. c \<in> set page \<and> redactedComment userId c \<noteq> c) cs)" using sub by auto
    moreover have "card (set (filter (\<lambda>c. redactedComment userId c \<noteq> c) page)) = rewrittenIn userId page"
      unfolding rewrittenIn_def by (rule distinct_card) (rule distinct_filter[OF dpage])
    moreover have "card (set (filter (\<lambda>c. c \<in> set page \<and> redactedComment userId c \<noteq> c) cs))
        = length (filter (\<lambda>c. c \<in> set page \<and> redactedComment userId c \<noteq> c) cs)"
      by (rule distinct_card) (rule distinct_filter[OF dcs])
    ultimately show ?thesis by (simp only:)
  qed
  have step: "redactComments userId cursor cs =
      (if page = [] then (0, cs)
       else if length page < COMMENT_REDACTION_PAGE then (rewrittenIn userId page, cs')
       else let (m, cs'') = redactComments userId (Some (cm_id (last page))) cs' in (rewrittenIn userId page + m, cs''))"
    by (subst redactComments.simps) (simp only: page cs'_def Let_def)
  show ?case
  proof (cases "length page < COMMENT_REDACTION_PAGE")
    case True
    then have "page = H" by (auto simp: page_def)
    then have all: "c \<in> set page \<longleftrightarrow> mentioning userId cursor c" if "c \<in> set cs" for c using H(1) that by auto
    have "redactComments userId cursor cs = (rewrittenIn userId page, cs')"
    proof (cases "page = []")
      case nil: True
      then have "cs' = cs" "rewrittenIn userId page = 0" by (simp_all add: cs' rewrittenIn_def)
      with nil show ?thesis unfolding step by simp
    qed (use True step in simp)
    moreover have "rewrittenIn userId page = length (filter (\<lambda>c. mentioning userId cursor c \<and> redactedComment userId c \<noteq> c) cs)"
      unfolding n by (rule arg_cong[where f = length], rule filter_cong[OF refl]) (simp only: all)
    moreover have "cs' = map (\<lambda>c. if mentioning userId cursor c then redactedComment userId c else c) cs"
      unfolding cs' by (rule map_cong[OF refl]) (simp only: all)
    ultimately show ?thesis by (simp only:)
  next
    case False
    then have full: "length page = COMMENT_REDACTION_PAGE" by (simp add: page_def)
    then have ne: "page \<noteq> []" by (auto simp: COMMENT_REDACTION_PAGE_def)
    define k where "k = cm_id (last page)"
    have len: "COMMENT_REDACTION_PAGE \<le> length H" using full by (simp add: page_def)
    have pos: "0 < COMMENT_REDACTION_PAGE" by (simp add: COMMENT_REDACTION_PAGE_def)
    have last: "last page \<in> set H" using ne by (metis page_def in_set_takeD last_in_set)
    then have "after cursor (last page)" unfolding H(1) mentioning_def by blast
    then have beyond: "after cursor c" if "k < cm_id c" for c
      using that by (cases cursor) (simp_all add: after_def k_def)
    have split: "mentioning userId cursor c \<longleftrightarrow> c \<in> set page \<or> mentioning userId (Some k) c"
      and apart: "\<not> (c \<in> set page \<and> mentioning userId (Some k) c)" if "c \<in> set cs" for c
    proof -
      have inH: "c \<in> set H \<longleftrightarrow> mentioning userId cursor c" unfolding H(1) using \<open>c \<in> set cs\<close> by simp
      have pageH: "c \<in> set page \<longleftrightarrow> c \<in> set H \<and> cm_id c \<le> k"
        unfolding page_def k_def using page_keys[OF H(2) dH pos len, of c] in_set_takeD[of c] by blast
      have later: "mentioning userId (Some k) c \<longleftrightarrow> mentioning userId cursor c \<and> \<not> cm_id c \<le> k"
        using beyond[of c] by (simp add: mentioning_def after_def[of "Some k"] not_le) blast
      show "mentioning userId cursor c \<longleftrightarrow> c \<in> set page \<or> mentioning userId (Some k) c"
        and "\<not> (c \<in> set page \<and> mentioning userId (Some k) c)"
        unfolding pageH later inH by blast+
    qed
    have low: "cm_id c \<le> k" if "c \<in> set page" for c
      using that page_keys[OF H(2) dH pos len, of c] in_set_takeD[of c] unfolding page_def k_def by blast
    have ids: "distinct (map cm_id cs')" using "1.prems" by (simp add: cs'_def)
    have late: "mentioning userId (Some k) (if c \<in> set page then redactedComment userId c else c) \<longleftrightarrow> mentioning userId (Some k) c"
      if "c \<in> set cs" for c
      using low[of c] by (simp add: mentioning_def after_def redactedComment_def not_le[symmetric])
    have IH: "redactComments userId (Some k) cs' =
        (length (filter (\<lambda>c. mentioning userId (Some k) c \<and> redactedComment userId c \<noteq> c) cs'),
         map (\<lambda>c. if mentioning userId (Some k) c then redactedComment userId c else c) cs')"
      using "1.IH"[OF page[symmetric] ne cs'_def refl] full ids by (simp add: k_def)
    have "redactComments userId cursor cs =
        (rewrittenIn userId page + fst (redactComments userId (Some k) cs'), snd (redactComments userId (Some k) cs'))"
      using full ne step by (simp add: k_def split_beta)
    also have "snd (redactComments userId (Some k) cs') = map (\<lambda>c. if mentioning userId cursor c then redactedComment userId c else c) cs"
      unfolding IH snd_conv unfolding cs' map_map comp_def
      by (rule map_cong[OF refl]) (use split apart late in \<open>auto split: if_splits\<close>)
    also have "fst (redactComments userId (Some k) cs')
        = length (filter (\<lambda>c. mentioning userId (Some k) c \<and> redactedComment userId c \<noteq> c) cs)"
      unfolding IH fst_conv unfolding cs' filter_map length_map comp_def
      by (intro arg_cong[where f = length] filter_cong refl) (use apart late in \<open>auto split: if_splits\<close>)
    also have "rewrittenIn userId page + \<dots>
        = length (filter (\<lambda>c. mentioning userId cursor c \<and> redactedComment userId c \<noteq> c) cs)"
      unfolding n by (rule length_filter_split[symmetric]) (use split apart in auto)
    finally show ?thesis .
  qed
qed

section \<open>What the transaction does\<close>

definition erased :: "(string \<Rightarrow> string \<Rightarrow> bool) \<Rightarrow> ident \<Rightarrow> string \<Rightarrow> database \<Rightarrow> database" where
  "erased like userId email d =
     d\<lparr>members := filter (\<lambda>m. m_userId m \<noteq> userId) (members d),
       invitations := filter (\<lambda>i. i_email i \<noteq> js_lower email)
         (filter (\<lambda>i. \<not> (i_inviterId i = userId \<and> i_status i = ''pending'')) (invitations d)),
       assignees := filter (\<lambda>x. ta_userId x \<noteq> userId) (assignees d),
       comments := snd (redactComments userId None (comments d)),
       activities := map (redactedActivity userId) (activities d),
       notifications := filter (\<lambda>n. n_userId n \<noteq> userId) (notifications d),
       tokens := filter (\<lambda>k. tk_userId k \<noteq> userId) (tokens d),
       sessions := filter (\<lambda>x. ss_userId x \<noteq> userId) (sessions d),
       accounts := filter (\<lambda>x. acc_userId x \<noteq> userId) (accounts d),
       verifications := filter (\<lambda>v. \<not> (vf_value v = userId \<or> like (''%'' @ escapeLikePattern email @ ''%'') (vf_identifier v)))
         (verifications d),
       pings := filter (\<lambda>p. up_userId p \<noteq> userId) (pings d)\<rparr>"

definition anonymised :: "ident \<Rightarrow> millis \<Rightarrow> database \<Rightarrow> database" where
  "anonymised userId t d =
     d\<lparr>users := map (\<lambda>u. if u_id u = userId then anonymisedUserFields userId t u else u) (users d)\<rparr>"

lemma andThen_redactCommentMentions [run]:
  "andThen (redactCommentMentions userId) f s =
     f (fst (redactComments userId None (comments (db s))))
       (s\<lparr>db := (db s)\<lparr>comments := snd (redactComments userId None (comments (db s)))\<rparr>\<rparr>)"
  by (simp add: redactCommentMentions_def run split_beta)

lemma andThen_redactActivityPayloads [run]:
  "andThen (redactActivityPayloads userId) f s =
     f (length (filter (namesDeparted userId) (activities (db s))))
       (s\<lparr>db := (db s)\<lparr>activities := map (redactedActivity userId) (activities (db s))\<rparr>\<rparr>)"
  by (simp add: redactActivityPayloads_def run)

lemma eraseRows_run:
  "\<exists>c. eraseRows like userId email a b s = (Inr c, s\<lparr>db := erased like userId email (db s)\<rparr>)"
  unfolding eraseRows_def by (simp add: run erased_def)

lemma andThen_eraseRows:
  "\<exists>c. \<forall>f. andThen (eraseRows like userId email a b) f s = f c (s\<lparr>db := erased like userId email (db s)\<rparr>)"
  using eraseRows_run[of like userId email a b s] by (auto simp: andThen_def)

text \<open>A member made owner, with the entry on it.\<close>

definition promoted :: "ident \<Rightarrow> ident \<Rightarrow> activity_row \<Rightarrow> database \<Rightarrow> database" where
  "promoted w newOwner a d =
     d\<lparr>members := map (\<lambda>m. if m_workspaceId m = w \<and> m_userId m = newOwner then m\<lparr>m_role := OWNER\<rparr> else m) (members d),
       activities := activities d @ [a]\<rparr>"

lemma settleWorkspace_ok:
  assumes "settleWorkspace ds userId actorId m s = (Inr r, s')"
  obtains (transfer) x newOwner t u where "map_of ds (m_workspaceId m) = Some x" "dp_action x = Transfer" "r = None"
      "newOwner \<noteq> userId" "memberWithUser (m_workspaceId m) newOwner (db s) = Some (t, u)" "u_deletedAt u = None"
      "\<exists>a. ac_workspaceId a = m_workspaceId m \<and> ac_userId a = userId \<and> ac_taskId a = None \<and>
         db s' = promoted (m_workspaceId m) newOwner a (db s)"
    | (deleted) x line where "map_of ds (m_workspaceId m) = Some x" "dp_action x = DeleteIt" "r = Some line"
      "\<exists>w \<in> set (workspaces (db s)). w_id w = m_workspaceId m"
      "db s' = delete_workspaces (\<lambda>w. w_id w = m_workspaceId m) (db s)"
proof (cases "map_of ds (m_workspaceId m)")
  case None
  then show ?thesis using assms by (simp add: settleWorkspace_def run)
next
  case (Some x)
  show ?thesis
  proof (cases "dp_action x")
    case Transfer
    obtain newOwner t u p where u: "newOwner \<noteq> userId" "memberWithUser (m_workspaceId m) newOwner (db s) = Some (t, u)"
      "u_deletedAt u = None" "r = None"
      and s': "s' = logged (s\<lparr>db := (db s)\<lparr>members := map (\<lambda>y. if m_workspaceId y = m_workspaceId m \<and> m_userId y = newOwner
          then y\<lparr>m_role := OWNER\<rparr> else y) (members (db s))\<rparr>\<rparr>) (m_workspaceId m) None userId MemberRoleChanged p"
      using assms Some Transfer
      by (auto simp: settleWorkspace_def transferOwnership_def run split: option.splits if_splits)
    show ?thesis
      by (rule transfer[OF Some Transfer u(4,1-3)])
        (simp only: s' logged_simps promoted_def, rule exI, intro conjI, simp_all)
  next
    case DeleteIt
    obtain w line where w: "find (\<lambda>w. w_id w = m_workspaceId m) (workspaces (db s)) = Some w" "r = Some line"
      and s': "s' = s\<lparr>db := delete_workspaces (\<lambda>w. w_id w = m_workspaceId m) (db s)\<rparr>"
      using assms Some DeleteIt
      by (cases "find (\<lambda>w. w_id w = m_workspaceId m) (workspaces (db s))")
        (auto simp: settleWorkspace_def deleteWorkspace_def run split: option.splits)
    show ?thesis
      by (rule deleted[OF Some DeleteIt w(2)]) (use find_Some_iff_mem[OF w(1)] s' in auto)
  qed
qed

text \<open>A property that every step keeps, and one that every step establishes for its element.\<close>

lemma mapEach_keeps:
  assumes "mapEach xs f s = (Inr ys, s')" "P s"
    and "\<And>x s y s'. x \<in> set xs \<Longrightarrow> f x s = (Inr y, s') \<Longrightarrow> P s \<Longrightarrow> P s'"
  shows "P s'"
  using assms
proof (induction xs arbitrary: s ys)
  case Nil
  then show ?case by (simp add: ret_def)
next
  case (Cons x xs)
  from Cons.prems(1) obtain y t ys' where "f x s = (Inr y, t)" "mapEach xs f t = (Inr ys', s')"
    by (auto simp: andThen_def ret_def split: prod.splits sum.splits)
  with Cons show ?case by (meson list.set_intros)
qed

lemma mapEach_establishes:
  assumes "mapEach xs f s = (Inr ys, s')" "x \<in> set xs"
    and "\<And>x s y s'. x \<in> set xs \<Longrightarrow> f x s = (Inr y, s') \<Longrightarrow> Q x s'"
    and "\<And>x z s y s'. x \<in> set xs \<Longrightarrow> f x s = (Inr y, s') \<Longrightarrow> Q z s \<Longrightarrow> Q z s'"
  shows "Q x s'"
  using assms
proof (induction xs arbitrary: s ys)
  case Nil
  then show ?case by simp
next
  case (Cons z xs)
  from Cons.prems(1) obtain y t ys' where step: "f z s = (Inr y, t)" "mapEach xs f t = (Inr ys', s')"
    by (auto simp: andThen_def ret_def split: prod.splits sum.splits)
  show ?case
  proof (cases "x \<in> set xs")
    case True
    then show ?thesis using Cons.IH[OF step(2) True] Cons.prems(3,4) by (meson list.set_intros(2))
  next
    case False
    then have "x = z" using Cons.prems(2) by simp
    then have "Q x t" using Cons.prems(3) step(1) by simp
    with step(2) show ?thesis by (rule mapEach_keeps) (meson Cons.prems(4) list.set_intros(2))
  qed
qed

lemma forEach_recordDeparture:
  "\<exists>n acts. forEach ms (recordDeparture userId i) s = (Inr (), s\<lparr>drawn := n, db := (db s)\<lparr>activities := activities (db s) @ acts\<rparr>\<rparr>)
     \<and> list_all (\<lambda>x. ac_taskId x = None \<and> ac_userId x = userId \<and> ac_workspaceId x \<in> m_workspaceId ` set ms) acts"
proof (induction ms arbitrary: s)
  case Nil
  show ?case by (rule exI[of _ "drawn s"], rule exI[of _ "[]"]) (simp add: ret_def)
next
  case (Cons m ms)
  obtain a t where step: "recordDeparture userId i m s = (Inr (), t)" "t = s\<lparr>drawn := Suc (drawn s), db := (db s)\<lparr>activities := activities (db s) @ [a]\<rparr>\<rparr>"
      "ac_taskId a = None" "ac_userId a = userId" "ac_workspaceId a = m_workspaceId m"
    by (simp add: recordDeparture_def run logged_def)
  obtain n acts where "forEach ms (recordDeparture userId i) t = (Inr (), t\<lparr>drawn := n, db := (db t)\<lparr>activities := activities (db t) @ acts\<rparr>\<rparr>)"
      "list_all (\<lambda>x. ac_taskId x = None \<and> ac_userId x = userId \<and> ac_workspaceId x \<in> m_workspaceId ` set ms) acts"
    using Cons.IH[of t] by blast
  with step show ?case
    by (intro exI[of _ n] exI[of _ "a # acts"]) (auto simp: andThen_def list_all_iff)
qed

section \<open>A deletion that went through\<close>

text \<open>
  The parts of a deletion that succeeded: the account was live and confirmed, every sole ownership has
  its decision, and the tables are those the decisions leave, with the entries of the departure,
  without the rows of the person.
\<close>

lemma forEach_evict:
  "forEach ws (\<lambda>w. evictUser w u) s = (Inr (), s\<lparr>outbox := outbox s @ map (\<lambda>w. EvictUser w u) ws\<rparr>)"
  by (induction ws arbitrary: s) (simp_all add: run)

lemma forEach_log: "forEach lines logLine s = (Inr (), s\<lparr>logs := logs s @ lines\<rparr>)"
  by (induction lines arbitrary: s) (simp_all add: run)

lemma afterCommit_run:
  "afterCommit userId i actorId t (c, lines, evictions) s =
     (Inr c, s\<lparr>outbox := outbox s @ map (\<lambda>w. EvictUser w userId) evictions,
               logs := logs s @ lines @ [deletedLine userId i actorId t c]\<rparr>)"
  by (simp add: afterCommit_def andThen_def[of "forEach _ _"] forEach_evict forEach_log run)

definition liveUser :: "ident \<Rightarrow> database \<Rightarrow> user_row option" where
  "liveUser userId d = (case find (\<lambda>u. u_id u = userId) (users d) of
     None \<Rightarrow> None | Some u \<Rightarrow> if u_deletedAt u = None then Some u else None)"

lemma andThen_requireLiveUser:
  "andThen (requireLiveUser userId) f s =
     (case liveUser userId (db s) of None \<Rightarrow> (Inl (NotFound ''Account not found''), s) | Some u \<Rightarrow> f u s)"
  by (simp add: requireLiveUser_def liveUser_def run split: option.split)

definition sentDispositions :: "delete_account_dto \<Rightarrow> disposition list" where
  "sentDispositions dto = (case da_dispositions dto of None \<Rightarrow> [] | Some ds \<Rightarrow> ds)"

definition confirms :: "delete_account_dto \<Rightarrow> user_row \<Rightarrow> bool" where
  "confirms dto u \<longleftrightarrow> js_lower (js_trim (da_confirmEmail dto)) = js_lower (js_trim (u_email u))"

lemma deleteAccount_run:
  "deleteAccount like userId dto i actorId s =
     (case liveUser userId (db s) of
        None \<Rightarrow> (Inl (NotFound ''Account not found''), s)
      | Some u \<Rightarrow>
          if \<not> confirms dto u then (Inl (Forbidden ''The confirmation address does not match this account''), s)
          else (case matchDispositions (fst (partitionMemberships userId (db s))) (sentDispositions dto) of
                  Inl e \<Rightarrow> (Inl e, s)
                | Inr ds \<Rightarrow>
                    andThen (transaction (deletionTransaction like userId (u_email u) (fst (partitionMemberships userId (db s)))
                        (snd (partitionMemberships userId (db s))) ds i actorId (clock s)))
                      (afterCommit userId i actorId (clock s)) s))"
  unfolding deleteAccount_def andThen_requireLiveUser confirms_def sentDispositions_def
  by (simp add: run split_beta split: option.split sum.split)

text \<open>The body of the transaction, once the decisions have been carried out.\<close>

lemma deletionTransaction_run:
  assumes "mapEach soleOwned (settleWorkspace ds userId actorId) s = (Inr settled, s1)"
  shows "\<exists>acts n counts lines.
    list_all (\<lambda>x. ac_taskId x = None \<and> ac_userId x = userId \<and> ac_workspaceId x \<in> m_workspaceId ` set (departing ds soleOwned other)) acts \<and>
    deletionTransaction like userId email soleOwned other ds i actorId t s =
      (if list_ex (\<lambda>u. u_email u = anonymisedEmailFor userId \<and> u_id u \<noteq> userId) (users (db s1))
       then (Inl UniqueViolation, s1\<lparr>drawn := n, db := erased like userId email ((db s1)\<lparr>activities := activities (db s1) @ acts\<rparr>)\<rparr>)
       else (Inr (counts, lines, map m_workspaceId (departing ds soleOwned other)),
             s1\<lparr>drawn := n, db := anonymised userId t (erased like userId email ((db s1)\<lparr>activities := activities (db s1) @ acts\<rparr>))\<rparr>))"
proof -
  obtain n acts where acts: "forEach (departing ds soleOwned other) (recordDeparture userId i) s1 =
        (Inr (), s1\<lparr>drawn := n, db := (db s1)\<lparr>activities := activities (db s1) @ acts\<rparr>\<rparr>)"
      "list_all (\<lambda>x. ac_taskId x = None \<and> ac_userId x = userId \<and> ac_workspaceId x \<in> m_workspaceId ` set (departing ds soleOwned other)) acts"
    using forEach_recordDeparture by blast
  let ?s2 = "s1\<lparr>drawn := n, db := (db s1)\<lparr>activities := activities (db s1) @ acts\<rparr>\<rparr>"
  let ?lines = "concat (map (\<lambda>l. case l of None \<Rightarrow> [] | Some line \<Rightarrow> [line]) settled)"
  obtain counts where counts:
      "eraseRows like userId email (length (filter (\<lambda>l. l = None) settled)) (length ?lines) ?s2
       = (Inr counts, ?s2\<lparr>db := erased like userId email (db ?s2)\<rparr>)"
    using eraseRows_run by blast
  have us: "users (erased like userId email d) = users d" for d by (simp add: erased_def)
  have "deletionTransaction like userId email soleOwned other ds i actorId t s =
      andThen (anonymiseUser userId t) (\<lambda>_. ret (counts, ?lines, map m_workspaceId (departing ds soleOwned other)))
        (?s2\<lparr>db := erased like userId email (db ?s2)\<rparr>)"
    using assms acts(1) counts by (simp add: deletionTransaction_def andThen_def Let_def)
  also have "\<dots> = (if list_ex (\<lambda>u. u_email u = anonymisedEmailFor userId \<and> u_id u \<noteq> userId) (users (db s1))
       then (Inl UniqueViolation, ?s2\<lparr>db := erased like userId email (db ?s2)\<rparr>)
       else (Inr (counts, ?lines, map m_workspaceId (departing ds soleOwned other)),
             ?s2\<lparr>db := anonymised userId t (erased like userId email (db ?s2))\<rparr>))"
    by (simp add: anonymiseUser_def run us anonymised_def)
  finally show ?thesis using acts(2) by (intro exI[of _ acts] exI[of _ n] exI[of _ counts] exI[of _ ?lines]) simp
qed

lemma deleteAccount_ok:
  assumes "deleteAccount like userId dto i actorId s = (Inr c, s')"
  obtains user ds settled s1 acts where
    "liveUser userId (db s) = Some user" "confirms dto user"
    "matchDispositions (fst (partitionMemberships userId (db s))) (sentDispositions dto) = Inr ds"
    "mapEach (fst (partitionMemberships userId (db s))) (settleWorkspace ds userId actorId) s = (Inr settled, s1)"
    "list_all (\<lambda>x. ac_taskId x = None \<and> ac_userId x = userId \<and> ac_workspaceId x \<in> m_workspaceId `
       set (departing ds (fst (partitionMemberships userId (db s))) (snd (partitionMemberships userId (db s))))) acts"
    "\<not> list_ex (\<lambda>u. u_email u = anonymisedEmailFor userId \<and> u_id u \<noteq> userId) (users (db s1))"
    "db s' = anonymised userId (clock s) (erased like userId (u_email user)
       ((db s1)\<lparr>activities := activities (db s1) @ acts\<rparr>))"
proof -
  let ?part = "partitionMemberships userId (db s)"
  obtain user where user: "liveUser userId (db s) = Some user" "confirms dto user"
    using assms unfolding deleteAccount_run by (auto split: option.splits if_splits)
  obtain ds where ds: "matchDispositions (fst ?part) (sentDispositions dto) = Inr ds"
    using assms user unfolding deleteAccount_run by (auto split: sum.splits)
  let ?body = "deletionTransaction like userId (u_email user) (fst ?part) (snd ?part) ds i actorId (clock s)"
  have run: "andThen (transaction ?body) (afterCommit userId i actorId (clock s)) s = (Inr c, s')"
    using assms user ds unfolding deleteAccount_run by simp
  then obtain res t where body: "?body s = (Inr res, t)" and tail: "afterCommit userId i actorId (clock s) res t = (Inr c, s')"
    by (auto simp: andThen_transaction split: prod.splits sum.splits)
  obtain settled s1 where s1: "mapEach (fst ?part) (settleWorkspace ds userId actorId) s = (Inr settled, s1)"
    using body by (auto simp: deletionTransaction_def andThen_def split: prod.splits sum.splits)
  obtain counts lines evictions where res: "res = (counts, lines, evictions)" by (cases res)
  have "db s' = db t" using tail unfolding res afterCommit_run by auto
  obtain acts n counts' lines' where
    acts: "list_all (\<lambda>x. ac_taskId x = None \<and> ac_userId x = userId \<and> ac_workspaceId x \<in> m_workspaceId ` set (departing ds (fst ?part) (snd ?part))) acts"
    and step: "?body s =
      (if list_ex (\<lambda>u. u_email u = anonymisedEmailFor userId \<and> u_id u \<noteq> userId) (users (db s1))
       then (Inl UniqueViolation, s1\<lparr>drawn := n, db := erased like userId (u_email user) ((db s1)\<lparr>activities := activities (db s1) @ acts\<rparr>)\<rparr>)
       else (Inr (counts', lines', map m_workspaceId (departing ds (fst ?part) (snd ?part))),
             s1\<lparr>drawn := n, db := anonymised userId (clock s) (erased like userId (u_email user) ((db s1)\<lparr>activities := activities (db s1) @ acts\<rparr>))\<rparr>))"
    using deletionTransaction_run[OF s1, of "snd ?part" like "u_email user" i "clock s"] by blast
  have free: "\<not> list_ex (\<lambda>u. u_email u = anonymisedEmailFor userId \<and> u_id u \<noteq> userId) (users (db s1))"
    using body step by (metis Inl_Inr_False prod.inject)
  have "db t = anonymised userId (clock s) (erased like userId (u_email user) ((db s1)\<lparr>activities := activities (db s1) @ acts\<rparr>))"
    using body[unfolded step if_not_P[OF free]] by auto
  with \<open>db s' = db t\<close> show ?thesis by (intro that[OF user ds s1 acts free]) simp
qed

end
