(* ===== verification/AccountKeeping.thy ===== *)
theory AccountKeeping
  imports AccountFacts
begin

text \<open>
  What an account deletion keeps: the foreign keys and keys of the tables, an owner in every workspace that stays,
  everything on refusal; and when it succeeds.
\<close>

section \<open>Membership\<close>

lemma memberWithUser_SomeD:
  assumes "memberWithUser w k d = Some (t, u)"
  shows "t \<in> set (members d)" "m_workspaceId t = w" "m_userId t = k" "u \<in> set (users d)" "u_id u = k"
  using assms by (auto simp: memberWithUser_def bind_eq_Some_conv dest!: find_Some_iff_mem)

lemma partition_parts:
  "set (fst (partitionMemberships k d)) = {m \<in> set (members d). m_userId m = k \<and> isSoleOwner d m}"
  "set (snd (partitionMemberships k d)) = {m \<in> set (members d). m_userId m = k \<and> \<not> isSoleOwner d m}"
  by (auto simp: partitionMemberships_def membershipsOf_def)

definition paired :: "database \<Rightarrow> bool" where
  "paired d \<longleftrightarrow> distinct (map (\<lambda>x. (m_workspaceId x, m_userId x)) (members d))"

lemma paired_eq:
  "paired d \<Longrightarrow> m \<in> set (members d) \<Longrightarrow> m' \<in> set (members d) \<Longrightarrow>
   m_workspaceId m = m_workspaceId m' \<Longrightarrow> m_userId m = m_userId m' \<Longrightarrow> m = m'"
  by (auto simp: paired_def distinct_map dest: inj_onD)

section \<open>Heirs\<close>

definition heir :: "ident \<Rightarrow> ident \<Rightarrow> database \<Rightarrow> bool" where
  "heir k w d \<longleftrightarrow> (\<exists>m \<in> set (members d). m_workspaceId m = w \<and> m_role m = OWNER \<and> m_userId m \<noteq> k)"

definition settled_ws :: "ident \<Rightarrow> ident \<Rightarrow> database \<Rightarrow> bool" where
  "settled_ws k w d \<longleftrightarrow> heir k w d \<or> w \<notin> w_id ` set (workspaces d)"

lemma promoted_simps [simp]:
  "workspaces (promoted w n a d) = workspaces d" "users (promoted w n a d) = users d"
  "comments (promoted w n a d) = comments d"
  by (simp_all add: promoted_def)

lemma heir_promoted: "heir k w d \<Longrightarrow> heir k w (promoted w' n a d)"
proof -
  let ?f = "\<lambda>m. if m_workspaceId m = w' \<and> m_userId m = n then m\<lparr>m_role := OWNER\<rparr> else m"
  assume "heir k w d"
  then obtain m where "m \<in> set (members d)" "m_workspaceId m = w" "m_role m = OWNER" "m_userId m \<noteq> k"
    by (auto simp: heir_def)
  then show ?thesis unfolding heir_def by (intro bexI[of _ "?f m"]) (auto simp: promoted_def)
qed

lemma heir_new: "m \<in> set (members d) \<Longrightarrow> m_workspaceId m = w \<Longrightarrow> m_userId m = n \<Longrightarrow> n \<noteq> k \<Longrightarrow> heir k w (promoted w n a d)"
  unfolding heir_def promoted_def by (rule bexI[of _ "m\<lparr>m_role := OWNER\<rparr>"]) (auto intro: rev_image_eqI)

lemma settled_deleted: "settled_ws k w d \<Longrightarrow> settled_ws k w (delete_workspaces (\<lambda>x. w_id x = w') d)"
  unfolding settled_ws_def heir_def by (auto simp: delete_workspaces_tables)

lemma settle_keeps_settled:
  assumes "settleWorkspace ds k actorId m s = (Inr r, s')" "settled_ws k w (db s)"
  shows "settled_ws k w (db s')"
  using assms(1)
proof (cases rule: settleWorkspace_ok)
  case (transfer x n t u)
  then show ?thesis using assms(2) heir_promoted by (auto simp: settled_ws_def)
next
  case (deleted x line)
  then show ?thesis using assms(2) settled_deleted by simp
qed

lemma settle_settles:
  assumes "settleWorkspace ds k actorId m s = (Inr r, s')"
  shows "settled_ws k (m_workspaceId m) (db s')"
  using assms
proof (cases rule: settleWorkspace_ok)
  case (transfer x n t u)
  then show ?thesis
    using memberWithUser_SomeD[OF transfer(5)] heir_new[of t] by (auto simp: settled_ws_def)
next
  case (deleted x line)
  then show ?thesis by (auto simp: settled_ws_def delete_workspaces_tables)
qed

lemma at_most_one: "distinct xs \<Longrightarrow> (\<And>x. x \<in> set xs \<Longrightarrow> x = m) \<Longrightarrow> length xs \<le> 1"
  by (cases xs; cases "tl xs") auto

text \<open>Every workspace with an owner has an heir, or is gone, once the decisions are carried out.\<close>

lemma settled_all:
  assumes "mapEach (fst (partitionMemberships k (db s))) (settleWorkspace ds k actorId) s = (Inr rs, s1)"
    and "paired (db s)" and "\<exists>m \<in> set (members (db s)). m_workspaceId m = w \<and> m_role m = OWNER"
  shows "settled_ws k w (db s1)"
proof (cases "\<exists>m \<in> set (fst (partitionMemberships k (db s))). m_workspaceId m = w")
  case True
  then obtain m where m: "m \<in> set (fst (partitionMemberships k (db s)))" "m_workspaceId m = w" by blast
  have "settled_ws k (m_workspaceId m) (db s1)"
    by (rule mapEach_establishes[where Q = "\<lambda>m s. settled_ws k (m_workspaceId m) (db s)", OF assms(1) m(1)])
      (use settle_settles settle_keeps_settled in blast)+
  with m(2) show ?thesis by simp
next
  case False
  from assms(3) obtain m where m: "m \<in> set (members (db s))" "m_workspaceId m = w" "m_role m = OWNER" by blast
  have "heir k w (db s)"
  proof (cases "m_userId m = k")
    case True
    then have "\<not> isSoleOwner (db s) m" using False m by (auto simp: partition_parts)
    then have two: "2 \<le> length (ownersOf w (db s))" using m by (simp add: isSoleOwner_def)
    have "\<exists>m' \<in> set (ownersOf w (db s)). m' \<noteq> m"
    proof (rule ccontr)
      assume "\<not> ?thesis"
      moreover have "distinct (ownersOf w (db s))"
        using assms(2) by (simp add: ownersOf_def paired_def distinct_map)
      ultimately have "length (ownersOf w (db s)) \<le> 1"
        by (intro at_most_one[of _ m]) blast+
      with two show False by simp
    qed
    then obtain m' where m': "m' \<in> set (members (db s))" "m_workspaceId m' = w" "m_role m' = OWNER" "m' \<noteq> m"
      by (auto simp: ownersOf_def)
    then have "m_userId m' \<noteq> k" using paired_eq[OF assms(2) m'(1) m(1)] m(2) True by auto
    with m' show ?thesis by (auto simp: heir_def)
  qed (use m in \<open>auto simp: heir_def\<close>)
  then have "settled_ws k w (db s)" by (simp add: settled_ws_def)
  then show ?thesis
    by (rule mapEach_keeps[OF assms(1), of "\<lambda>s. settled_ws k w (db s)"]) (use settle_keeps_settled in blast)
qed

section \<open>Foreign keys\<close>

lemma promoted_integrity:
  assumes "ref_integrity d" "ac_taskId a = None" "\<exists>x \<in> set (workspaces d). w_id x = ac_workspaceId a"
    "\<exists>u \<in> set (users d). u_id u = ac_userId a"
  shows "ref_integrity (promoted w n a d)"
  using assms unfolding promoted_def ref_integrity_def by simp

lemma logged_entries_integrity:
  assumes "ref_integrity d"
    and "list_all (\<lambda>x. ac_taskId x = None \<and> (\<exists>w \<in> set (workspaces d). w_id w = ac_workspaceId x)
          \<and> (\<exists>u \<in> set (users d). u_id u = ac_userId x)) acts"
  shows "ref_integrity (d\<lparr>activities := activities d @ acts\<rparr>)"
  using assms by (auto simp: ref_integrity_def refs_def opt_refs_def list_all_iff)

lemma redactedActivity_simps [simp]:
  "ac_id (redactedActivity k x) = ac_id x" "ac_workspaceId (redactedActivity k x) = ac_workspaceId x"
  "ac_taskId (redactedActivity k x) = ac_taskId x" "ac_userId (redactedActivity k x) = ac_userId x"
  by (simp_all add: redactedActivity_def)

lemma redactedComment_simps [simp]:
  "cm_id (redactedComment k c) = cm_id c" "cm_taskId (redactedComment k c) = cm_taskId c"
  "cm_userId (redactedComment k c) = cm_userId c"
  by (simp_all add: redactedComment_def)

lemma redactComments_map: "\<exists>g. snd (redactComments k cursor cs) = map g cs
    \<and> (\<forall>c. g c = c \<or> (\<exists>b. g c = c\<lparr>cm_body := b\<rparr>))"
proof (induction k cursor cs rule: redactComments.induct)
  case (1 k cursor cs)
  define page where "page = redactionPage k cursor cs"
  define cs' where "cs' = redactPage k page cs"
  define f where "f = (\<lambda>c. if cm_id c \<in> cm_id ` set page then redactedComment k c else c)"
  have f: "cs' = map f cs" "\<And>c. f c = c \<or> (\<exists>b. f c = c\<lparr>cm_body := b\<rparr>)"
    by (auto simp: cs'_def redactPage_def redactedComment_def f_def)
  have step: "redactComments k cursor cs =
      (if page = [] then (0, cs)
       else if length page < COMMENT_REDACTION_PAGE then (rewrittenIn k page, cs')
       else let (m, cs'') = redactComments k (Some (cm_id (last page))) cs' in (rewrittenIn k page + m, cs''))"
    by (subst redactComments.simps) (simp only: page_def cs'_def Let_def)
  show ?case
  proof (cases "page \<noteq> [] \<and> \<not> length page < COMMENT_REDACTION_PAGE")
    case True
    then obtain g where g: "snd (redactComments k (Some (cm_id (last page))) cs') = map g cs'"
        "\<forall>c. g c = c \<or> (\<exists>b. g c = c\<lparr>cm_body := b\<rparr>)"
      using "1.IH"[OF page_def _ cs'_def refl] by blast
    have "g (f c) = c \<or> (\<exists>b. g (f c) = c\<lparr>cm_body := b\<rparr>)" for c
      using f(2)[of c] g(2)[rule_format, of "f c"] by (elim disjE exE) auto
    then show ?thesis using True g(1) by (intro exI[of _ "g \<circ> f"]) (simp add: step split_beta f(1))
  next
    case False
    then consider "page = []" | "page \<noteq> []" "length page < COMMENT_REDACTION_PAGE" by blast
    then show ?thesis
    proof cases
      case 1 then show ?thesis unfolding step by (intro exI[of _ id]) simp
    next
      case 2 then show ?thesis unfolding step using f by (intro exI[of _ f]) simp
    qed
  qed
qed

lemma refs_rewritten: "\<exists>g. xs' = map g xs \<and> (\<forall>x. f (g x) = f x) \<Longrightarrow> refs xs f ys h \<Longrightarrow> refs xs' f ys h"
  by (auto simp: refs_def)

lemma erased_integrity: "ref_integrity d \<Longrightarrow> ref_integrity (erased like k email d)"
proof -
  assume d: "ref_integrity d"
  obtain g where g: "snd (redactComments k None (comments d)) = map g (comments d)"
      "\<forall>c. g c = c \<or> (\<exists>b. g c = c\<lparr>cm_body := b\<rparr>)"
    using redactComments_map by blast
  have same: "cm_taskId (g c) = cm_taskId c" "cm_userId (g c) = cm_userId c" for c
    using g(2)[rule_format, of c] by (auto)
  show ?thesis using d unfolding ref_integrity_def erased_def g(1)
    by (intro conjI) (simp_all add: refs_filter opt_refs_filter same)
qed

lemma anonymised_integrity: "ref_integrity d \<Longrightarrow> ref_integrity (anonymised k t d)"
  by (simp add: anonymised_def ref_integrity_def anonymisedUserFields_def if_distrib cong: if_cong)

section \<open>The whole deletion\<close>

text \<open>Foreign keys and the user through the decisions; a workspace that no decision deletes stays.\<close>

definition has_user :: "ident \<Rightarrow> database \<Rightarrow> bool" where
  "has_user k d \<longleftrightarrow> (\<exists>u \<in> set (users d). u_id u = k)"

definition has_workspace :: "ident \<Rightarrow> database \<Rightarrow> bool" where
  "has_workspace w d \<longleftrightarrow> (\<exists>x \<in> set (workspaces d). w_id x = w)"

lemma member_workspace: "ref_integrity d \<Longrightarrow> m \<in> set (members d) \<Longrightarrow> has_workspace (m_workspaceId m) d"
  by (simp add: ref_integrity_def refs_def has_workspace_def)

lemma settle_integrity:
  assumes "settleWorkspace ds k actorId m s = (Inr r, s')" "ref_integrity (db s) \<and> has_user k (db s)"
  shows "ref_integrity (db s') \<and> has_user k (db s')"
  using assms(1)
proof (cases rule: settleWorkspace_ok)
  case (transfer x n t u)
  then obtain a where a: "ac_workspaceId a = m_workspaceId m" "ac_userId a = k" "ac_taskId a = None"
      "db s' = promoted (m_workspaceId m) n a (db s)" by blast
  have "has_workspace (m_workspaceId m) (db s)"
    using member_workspace[of "db s" t] memberWithUser_SomeD(1,2)[OF transfer(5)] assms(2) by simp
  then show ?thesis using assms(2) a promoted_integrity[of "db s" a] by (auto simp: has_user_def has_workspace_def)
next
  case (deleted x line)
  then show ?thesis using assms(2) delete_workspaces_integrity by (auto simp: has_user_def delete_workspaces_tables)
qed

lemma settle_keeps_workspace:
  assumes "settleWorkspace ds k actorId m s = (Inr r, s')" "has_workspace w (db s)"
    and "m_workspaceId m = w \<Longrightarrow> map_option dp_action (map_of ds w) = Some Transfer"
  shows "has_workspace w (db s')"
  using assms(1)
proof (cases rule: settleWorkspace_ok)
  case (transfer x n t u)
  then show ?thesis using assms(2) by (auto simp: has_workspace_def)
next
  case (deleted x line)
  then show ?thesis using assms(2,3) by (auto simp: has_workspace_def delete_workspaces_tables)
qed

lemma departing_workspaces:
  assumes "mapEach (fst (partitionMemberships k (db s))) (settleWorkspace ds k actorId) s = (Inr rs, s1)"
    and "ref_integrity (db s)" "paired (db s)"
    and "m \<in> set (departing ds (fst (partitionMemberships k (db s))) (snd (partitionMemberships k (db s))))"
  shows "has_workspace (m_workspaceId m) (db s1)"
proof (rule mapEach_keeps[OF assms(1), of "\<lambda>s. has_workspace (m_workspaceId m) (db s)"])
  have m: "m \<in> set (members (db s))" "m_userId m = k"
    using assms(4) by (auto simp: departing_def partition_parts)
  then show "has_workspace (m_workspaceId m) (db s)"
    using member_workspace[OF assms(2)] by blast
  fix x t y t'
  assume x: "x \<in> set (fst (partitionMemberships k (db s)))" and step: "settleWorkspace ds k actorId x t = (Inr y, t')"
    and has: "has_workspace (m_workspaceId m) (db t)"
  show "has_workspace (m_workspaceId m) (db t')"
  proof (rule settle_keeps_workspace[OF step has])
    assume "m_workspaceId x = m_workspaceId m"
    then have "x = m" using paired_eq[OF assms(3)] x m by (auto simp: partition_parts)
    with x assms(4) show "map_option dp_action (map_of ds (m_workspaceId m)) = Some Transfer"
      by (auto simp: departing_def partition_parts)
  qed
qed

lemma liveUser_SomeD: "liveUser k d = Some u \<Longrightarrow> u \<in> set (users d) \<and> u_id u = k \<and> u_deletedAt u = None"
  by (auto simp: liveUser_def split: option.splits if_splits dest!: find_Some_iff_mem)

lemma deleteAccount_integrity_ok:
  assumes "deleteAccount like k dto i actorId s = (Inr c, s')" "ref_integrity (db s)" "paired (db s)"
  shows "ref_integrity (db s')"
  using assms(1)
proof (cases rule: deleteAccount_ok)
  case (1 user ds settled s1 acts)
  let ?part = "partitionMemberships k (db s)"
  have "has_user k (db s)" using liveUser_SomeD[OF 1(1)] by (auto simp: has_user_def)
  then have s1: "ref_integrity (db s1) \<and> has_user k (db s1)"
    by (intro mapEach_keeps[OF 1(4), of "\<lambda>s. ref_integrity (db s) \<and> has_user k (db s)"])
      (use assms(2) settle_integrity in auto)
  have "list_all (\<lambda>x. ac_taskId x = None \<and> (\<exists>w \<in> set (workspaces (db s1)). w_id w = ac_workspaceId x)
          \<and> (\<exists>u \<in> set (users (db s1)). u_id u = ac_userId x)) acts"
    using 1(5) departing_workspaces[OF 1(4) assms(2,3)] s1
    by (auto simp: list_all_iff has_workspace_def has_user_def)
  then show ?thesis
    unfolding 1(7) using s1 by (intro anonymised_integrity erased_integrity logged_entries_integrity) auto
qed

text \<open>A refusal leaves the tables, the events and the log as they were.\<close>

lemma deleteAccount_refused:
  assumes "deleteAccount like k dto i actorId s = (Inl e, s')"
  shows "db s' = db s"
proof (cases "liveUser k (db s)")
  case None
  then show ?thesis using assms by (simp add: deleteAccount_run)
next
  case (Some u)
  show ?thesis
  proof (cases "\<not> confirms dto u \<or> isl (matchDispositions (fst (partitionMemberships k (db s))) (sentDispositions dto))")
    case True
    then show ?thesis using assms Some by (auto simp: deleteAccount_run split: if_splits sum.splits)
  next
    case False
    then obtain ds where ds: "matchDispositions (fst (partitionMemberships k (db s))) (sentDispositions dto) = Inr ds"
      by (auto simp: isl_def split: sum.splits) (metis sum.exhaust)
    let ?body = "deletionTransaction like k (u_email u) (fst (partitionMemberships k (db s))) (snd (partitionMemberships k (db s))) ds i actorId (clock s)"
    have run: "andThen (transaction ?body) (afterCommit k i actorId (clock s)) s = (Inl e, s')"
      using assms Some ds False unfolding deleteAccount_run by simp
    show ?thesis
    proof (cases "?body s")
      case (Pair r t)
      show ?thesis
      proof (cases r)
        case (Inl e')
        then show ?thesis using run Pair by (auto simp: andThen_transaction)
      next
        case (Inr res)
        obtain counts lines evictions where "res = (counts, lines, evictions)" by (cases res)
        then show ?thesis using run Pair Inr by (simp add: andThen_transaction afterCommit_run)
      qed
    qed
  qed
qed

lemma deleteAccount_keeps:
  assumes "ref_integrity (db s)" "paired (db s)"
  shows "ref_integrity (db (snd (deleteAccount like k dto i actorId s)))"
  by (rule refused_or_done[OF _ _ assms(1)])
    (use assms deleteAccount_refused deleteAccount_integrity_ok in blast)+

text \<open>Nobody in \<open>k\<close>'s place: the table of members after the deletion.\<close>

lemma erased_members: "members (anonymised k t (erased like k email d)) = filter (\<lambda>m. m_userId m \<noteq> k) (members d)"
  by (simp add: anonymised_def erased_def)

lemma deleteAccount_heirs:
  assumes "deleteAccount like k dto i actorId s = (Inr c, s')" "paired (db s)"
    and "\<exists>m \<in> set (members (db s)). m_workspaceId m = w \<and> m_role m = OWNER" and "has_workspace w (db s')"
  shows "\<exists>m \<in> set (members (db s')). m_workspaceId m = w \<and> m_role m = OWNER \<and> m_userId m \<noteq> k"
  using assms(1)
proof (cases rule: deleteAccount_ok)
  case (1 user ds settled s1 acts)
  have "settled_ws k w (db s1)" by (rule settled_all[OF 1(4) assms(2,3)])
  moreover have "has_workspace w (db s1)" using assms(4) by (simp add: 1(7) has_workspace_def anonymised_def erased_def)
  ultimately have "heir k w (db s1)" by (auto simp: settled_ws_def has_workspace_def)
  then show ?thesis unfolding 1(7) erased_members by (auto simp: heir_def)
qed

section \<open>History\<close>

lemma evictUser_evolves [evolving]: "frames evolves (evictUser w u)"
  by (simp add: frames_def run evolves_def keyed_def stored_def)

lemma logLine_evolves [evolving]: "frames evolves (logLine l)"
  by (simp add: frames_def run evolves_def keyed_def stored_def)

lemma deleteMany_evolves [evolving]:
  "adds_no_key (update (filter (\<lambda>x. \<not> P x))) \<Longrightarrow> frames evolves (deleteMany table update P)"
  unfolding deleteMany_def by (intro evolving) auto

lemma no_key_delete_many [evolving]:
  "adds_no_key (assignees_update (filter A))" "adds_no_key (invitations_update (filter I))"
  "adds_no_key (notifications_update (filter N))" "adds_no_key (pings_update (filter P))"
  "adds_no_key (sessions_update (filter S))" "adds_no_key (tokens_update (filter K))"
  "adds_no_key (accounts_update (filter C))" "adds_no_key (verifications_update (filter V))"
  "adds_no_key (members_update (filter M))"
  by (auto simp: adds_no_key_def unique_ids_def used_ids_def no_new_file_def distinct_map_filter)

lemma no_key_users [evolving]:
  "(\<And>u. u_id (f u) = u_id u) \<Longrightarrow> adds_no_key (\<lambda>d. d\<lparr>users := map f (users d)\<rparr>)"
  by (auto simp: adds_no_key_def unique_ids_def used_ids_def no_new_file_def comp_def)

lemma no_key_members [evolving]:
  assumes "\<And>m. m_id (f m) = m_id m" "\<And>m. m_workspaceId (f m) = m_workspaceId m" "\<And>m. m_userId (f m) = m_userId m"
  shows "adds_no_key (\<lambda>d. d\<lparr>members := map f (members d)\<rparr>)"
  using assms by (auto simp: adds_no_key_def unique_ids_def used_ids_def no_new_file_def comp_def)

lemma no_key_delete_workspaces [evolving]: "adds_no_key (delete_workspaces P)"
proof -
  have acts: "unique_ids d \<Longrightarrow> unique_ids (delete_activities Q d)" "used_ids (delete_activities Q d) = used_ids d"
    "no_new_file d (delete_activities Q d)" for Q d
    by (auto simp: unique_ids_def used_ids_def no_new_file_def delete_activities_def Let_def)
  have rest: "unique_ids e \<Longrightarrow> unique_ids (e\<lparr>workspaces := filter W (workspaces e), members := filter M (members e),
      invitations := filter I (invitations e), tokens := K, notifications := N, pings := R\<rparr>)"
    "used_ids (e\<lparr>workspaces := filter W (workspaces e), members := filter M (members e),
      invitations := filter I (invitations e), tokens := K, notifications := N, pings := R\<rparr>) \<subseteq> used_ids e" for e W M I K N R
    by (auto simp: unique_ids_def used_ids_def distinct_map_filter)
  have "no_new_file d (delete_workspaces P d)" for d
  proof -
    have "no_new_file (delete_activities Q d) (delete_boards B (delete_activities Q d))" for Q B by simp
    then show ?thesis unfolding no_new_file_def delete_workspaces_def Let_def by simp
  qed
  moreover have "unique_ids d \<Longrightarrow> unique_ids (delete_workspaces P d)" for d
    unfolding delete_workspaces_def Let_def by (intro rest(1) no_key_delete_boards(1) acts(1))
  moreover have "used_ids (delete_workspaces P d) \<subseteq> used_ids d" for d
    unfolding delete_workspaces_def Let_def
    by (rule order_trans[OF rest(2) order_trans[OF no_key_delete_boards(2)]]) (simp add: acts(2))
  ultimately show ?thesis by (simp add: adds_no_key_def)
qed

lemma requireLiveUser_evolves [evolving]: "frames evolves (requireLiveUser k)"
  unfolding requireLiveUser_def by (intro evolving)

lemma transferOwnership_evolves [evolving]: "frames evolves (transferOwnership m n k)"
  unfolding transferOwnership_def by (intro evolving) auto

lemma deleteWorkspace_evolves [evolving]: "frames evolves (deleteWorkspace w k a)"
  unfolding deleteWorkspace_def by (intro evolving)

lemma settleWorkspace_evolves [evolving]: "frames evolves (settleWorkspace ds k a m)"
  unfolding settleWorkspace_def
  by (rule frames_case_option, intro evolving, cases, auto intro!: evolving split: disposition_action.split option.split)

lemma recordDeparture_evolves [evolving]: "frames evolves (recordDeparture k i m)"
  unfolding recordDeparture_def by (intro evolving)

lemma redactCommentMentions_evolves [evolving]: "frames evolves (redactCommentMentions k)"
  unfolding redactCommentMentions_def by (intro evolving)

lemma redactActivityPayloads_evolves [evolving]: "frames evolves (redactActivityPayloads k)"
  unfolding redactActivityPayloads_def by (intro evolving)

lemma eraseRows_evolves [evolving]: "frames evolves (eraseRows like k e a b)"
  unfolding eraseRows_def by (intro evolving)

lemma anonymiseUser_evolves [evolving]: "frames evolves (anonymiseUser k t)"
  unfolding anonymiseUser_def by (intro evolving) (simp add: anonymisedUserFields_def)

lemma deletionTransaction_evolves [evolving]: "frames evolves (deletionTransaction like k e so ot ds i a t)"
  unfolding deletionTransaction_def Let_def by (intro evolving)

lemma afterCommit_evolves [evolving]: "frames evolves (afterCommit k i a t res)"
  unfolding afterCommit_def by (cases res) (auto intro!: evolving)

lemma deleteAccount_evolves: "frames evolves (deleteAccount like k dto i a)"
  unfolding deleteAccount_def by (intro evolving)

section \<open>A deletion that follows its preview\<close>

definition follows_preview :: "preview_dto \<Rightarrow> disposition list \<Rightarrow> bool" where
  "follows_preview pv ds \<longleftrightarrow>
     distinct (map dp_workspaceId ds) \<and>
     set (map dp_workspaceId ds) = set (map so_workspaceId (pv_soleOwnedWorkspaces pv)) \<and>
     list_all (\<lambda>x. dp_action x = Transfer \<longrightarrow>
       list_ex (\<lambda>so. so_workspaceId so = dp_workspaceId x \<and>
         list_ex (\<lambda>c. dp_newOwnerUserId x = Some (tc_userId c)) (so_transferCandidates so)) (pv_soleOwnedWorkspaces pv)) ds"

lemma gatherDispositions_ok:
  assumes "distinct (map dp_workspaceId ds)" "set (map dp_workspaceId ds) \<subseteq> set required"
    "fst ` set acc \<inter> set (map dp_workspaceId ds) = {}"
  shows "gatherDispositions required ds acc = Inr (acc @ map (\<lambda>x. (dp_workspaceId x, x)) ds)"
  using assms by (induction ds arbitrary: acc) auto

lemma matchDispositions_ok:
  assumes "distinct (map dp_workspaceId ds)" "set (map dp_workspaceId ds) = m_workspaceId ` set so"
  shows "matchDispositions so ds = Inr (map (\<lambda>x. (dp_workspaceId x, x)) ds)"
proof -
  have "gatherDispositions (remdups (map m_workspaceId so)) ds [] = Inr (map (\<lambda>x. (dp_workspaceId x, x)) ds)"
    using gatherDispositions_ok[of ds "remdups (map m_workspaceId so)" "[]"] assms by simp
  moreover have "filter (\<lambda>k. k \<notin> fst ` set (map (\<lambda>x. (dp_workspaceId x, x)) ds)) (remdups (map m_workspaceId so)) = []"
    using assms(2) by (auto simp: filter_empty_conv image_image)
  ultimately show ?thesis unfolding matchDispositions_def Let_def by simp
qed

text \<open>What a decision on a workspace needs to go through.\<close>

definition ready :: "(ident \<times> disposition) list \<Rightarrow> ident \<Rightarrow> member_row \<Rightarrow> world \<Rightarrow> bool" where
  "ready ds k m s \<longleftrightarrow> (\<exists>x. map_of ds (m_workspaceId m) = Some x \<and>
     (case dp_action x of
        DeleteIt \<Rightarrow> has_workspace (m_workspaceId m) (db s)
      | Transfer \<Rightarrow> \<exists>n t u. dp_newOwnerUserId x = Some n \<and> n \<noteq> k \<and>
          memberWithUser (m_workspaceId m) n (db s) = Some (t, u) \<and> u_deletedAt u = None))"

lemma settle_ready:
  assumes "ready ds k m s" shows "\<exists>r s'. settleWorkspace ds k a m s = (Inr r, s')"
proof -
  obtain x where x: "map_of ds (m_workspaceId m) = Some x"
    "case dp_action x of
        DeleteIt \<Rightarrow> has_workspace (m_workspaceId m) (db s)
      | Transfer \<Rightarrow> \<exists>n t u. dp_newOwnerUserId x = Some n \<and> n \<noteq> k \<and>
          memberWithUser (m_workspaceId m) n (db s) = Some (t, u) \<and> u_deletedAt u = None"
    using assms by (auto simp: ready_def)
  show ?thesis
  proof (cases "dp_action x")
    case Transfer
    with x show ?thesis by (auto simp: settleWorkspace_def transferOwnership_def run)
  next
    case DeleteIt
    with x have "find (\<lambda>w. w_id w = m_workspaceId m) (workspaces (db s)) \<noteq> None"
      by (auto simp: has_workspace_def find_None_iff)
    with x DeleteIt show ?thesis by (auto simp: settleWorkspace_def deleteWorkspace_def run)
  qed
qed

lemma find_filter_same: "(\<And>x. P x \<Longrightarrow> Q x) \<Longrightarrow> find P (filter Q xs) = find P xs"
  by (induction xs) auto

lemma find_map_same: "(\<And>x. P (f x) = P x) \<Longrightarrow> (\<And>x. P x \<Longrightarrow> f x = x) \<Longrightarrow> find P (map f xs) = find P xs"
  by (induction xs) auto

lemma memberWithUser_promoted: "w \<noteq> w' \<Longrightarrow> memberWithUser w n (promoted w' n' a d) = memberWithUser w n d"
  unfolding memberWithUser_def promoted_def by (simp, subst find_map_same) auto

lemma memberWithUser_deleted:
  "w \<noteq> w' \<Longrightarrow> memberWithUser w n (delete_workspaces (\<lambda>x. w_id x = w') d) = memberWithUser w n d"
  unfolding memberWithUser_def by (simp add: delete_workspaces_tables, subst find_filter_same) auto

lemma ready_cong:
  "(\<And>n. memberWithUser (m_workspaceId m) n (db s') = memberWithUser (m_workspaceId m) n (db s)) \<Longrightarrow>
   has_workspace (m_workspaceId m) (db s') = has_workspace (m_workspaceId m) (db s) \<Longrightarrow> ready ds k m s' = ready ds k m s"
  unfolding ready_def by (simp cong: disposition_action.case_cong)

lemma settle_keeps_ready:
  assumes "settleWorkspace ds k a m s = (Inr r, s')" "ready ds k m' s" "m_workspaceId m' \<noteq> m_workspaceId m"
  shows "ready ds k m' s'"
  using assms(1)
proof (cases rule: settleWorkspace_ok)
  case (transfer x n t u)
  then obtain e where "db s' = promoted (m_workspaceId m) n e (db s)" by blast
  then have "ready ds k m' s' = ready ds k m' s"
    using assms(3) by (intro ready_cong) (simp_all add: memberWithUser_promoted has_workspace_def)
  with assms(2) show ?thesis by simp
next
  case (deleted x line)
  have "has_workspace (m_workspaceId m') (delete_workspaces (\<lambda>w. w_id w = m_workspaceId m) d) = has_workspace (m_workspaceId m') d" for d
    using assms(3) by (auto simp: has_workspace_def delete_workspaces_tables)
  then have "ready ds k m' s' = ready ds k m' s"
    using assms(3) deleted(5) by (intro ready_cong) (simp_all add: memberWithUser_deleted)
  with assms(2) show ?thesis by simp
qed

lemma mapEach_settles:
  assumes "list_all (\<lambda>m. ready ds k m s) ms" "distinct (map m_workspaceId ms)"
  shows "\<exists>rs s'. mapEach ms (settleWorkspace ds k a) s = (Inr rs, s')"
  using assms
proof (induction ms arbitrary: s)
  case (Cons m ms)
  then obtain r t where step: "settleWorkspace ds k a m s = (Inr r, t)" using settle_ready by fastforce
  have "list_all (\<lambda>m. ready ds k m t) ms"
    unfolding list_all_iff
  proof
    fix m' assume "m' \<in> set ms"
    then have "m_workspaceId m' \<in> set (map m_workspaceId ms)" by simp
    then have "m_workspaceId m' \<noteq> m_workspaceId m" using Cons.prems(2) by auto
    with \<open>m' \<in> set ms\<close> Cons.prems(1) show "ready ds k m' t"
      by (intro settle_keeps_ready[OF step]) (simp_all add: list_all_iff)
  qed
  then obtain rs s' where "mapEach ms (settleWorkspace ds k a) t = (Inr rs, s')" using Cons by fastforce
  with step show ?case by (simp add: andThen_def ret_def)
qed (simp add: ret_def)

end
