(* ===== verification/Retention.thy ===== *)
theory Retention
  imports Attachments Integrity "HOL-Library.Multiset"
begin

text \<open>
  \<open>apps/api/src/retention/cleanup.worker.ts\<close>: the nightly sweep that deletes what the retention
  policy no longer allows to be kept, in batches of one statement each, and the stored files no row
  claims. The clock does not advance inside a run, so the duration of the log line is zero; the
  lines of the framework's logger are left out. Three things the code leaves to the platform are
  parameters: the order of a \<open>SELECT\<close> without \<open>ORDER BY\<close>, the order of a directory, and what
  the database driver does with an invalid \<open>Date\<close>.
\<close>

section \<open>Settings\<close>

definition MS_PER_DAY :: int where
  "MS_PER_DAY = 24 * 60 * 60 * 1000"

definition CLEANUP_BATCH_SIZE :: nat where
  "CLEANUP_BATCH_SIZE = 1000"

definition MAX_BATCHES_PER_TABLE :: nat where
  "MAX_BATCHES_PER_TABLE = 1000"

definition DEFAULT_NOTIFICATION_RETENTION_DAYS :: int where
  "DEFAULT_NOTIFICATION_RETENTION_DAYS = 90"

definition DEFAULT_ACTIVITY_RETENTION_DAYS :: int where
  "DEFAULT_ACTIVITY_RETENTION_DAYS = 365"

definition DEFAULT_INVITATION_RETENTION_DAYS :: int where
  "DEFAULT_INVITATION_RETENTION_DAYS = 90"

definition DEFAULT_BACKUP_INTERVAL_SECONDS :: int where
  "DEFAULT_BACKUP_INTERVAL_SECONDS = 86400"

definition DEFAULT_BACKUP_KEEP :: int where
  "DEFAULT_BACKUP_KEEP = 7"

definition MIN_ORPHAN_GRACE_MS :: int where
  "MIN_ORPHAN_GRACE_MS = MS_PER_DAY"

record cleanup_counts =
  cc_sessions :: nat
  cc_verifications :: nat
  cc_notifications :: nat
  cc_activities :: nat
  cc_usagePings :: nat
  cc_invitations :: nat
  cc_orphanedFiles :: nat

definition orphanGraceMs :: "environment \<Rightarrow> http_error + int" where
  "orphanGraceMs env =
     bind_result (envInt env ''BACKUP_INTERVAL'' DEFAULT_BACKUP_INTERVAL_SECONDS) (\<lambda>interval.
     bind_result (envInt env ''BACKUP_KEEP'' DEFAULT_BACKUP_KEEP) (\<lambda>keep.
       let configured = max interval 0 * max keep 1 * 1000
       in Inr (max configured MIN_ORPHAN_GRACE_MS)))"

record retention_settings =
  rs_enabled :: bool
  rs_notificationDays :: int
  rs_activityDays :: int
  rs_invitationDays :: int

definition retentionDays :: "environment \<Rightarrow> string \<Rightarrow> int \<Rightarrow> http_error + int" where
  "retentionDays env name fallback =
     bind_result (envInt env name fallback) (\<lambda>days.
       if days < 0
       then Inl (ServerFault (''Invalid '' @ name @ '': expected a non-negative number of days, received \"'' @
                   int_string days @ ''\"''))
       else Inr days)"

definition retentionSettings :: "environment \<Rightarrow> http_error + retention_settings" where
  "retentionSettings env =
     bind_result (envBool env ''CLEANUP_ENABLED'' True) (\<lambda>enabled.
     bind_result (retentionDays env ''NOTIFICATION_RETENTION_DAYS'' DEFAULT_NOTIFICATION_RETENTION_DAYS) (\<lambda>notificationDays.
     bind_result (retentionDays env ''ACTIVITY_RETENTION_DAYS'' DEFAULT_ACTIVITY_RETENTION_DAYS) (\<lambda>activityDays.
     bind_result (retentionDays env ''INVITATION_RETENTION_DAYS'' DEFAULT_INVITATION_RETENTION_DAYS) (\<lambda>invitationDays.
       Inr \<lparr>rs_enabled = enabled, rs_notificationDays = notificationDays, rs_activityDays = activityDays,
            rs_invitationDays = invitationDays\<rparr>))))"

text \<open>
  \<open>new Date(value)\<close>: \<open>None\<close> is an invalid date, the value being out of the range of dates. The
  doubles of the source are exact up to \<open>2 ^ 53\<close>, which is beyond that range, so the integers here
  decide as they do, for a clock before the year 13000.
\<close>

definition js_date :: "int \<Rightarrow> millis option" where
  "js_date value = (if \<bar>value\<bar> \<le> 8640000000000000 then Some value else None)"

definition cutoffFor :: "millis \<Rightarrow> int \<Rightarrow> millis option" where
  "cutoffFor t days = js_date (t - days * MS_PER_DAY)"

section \<open>What the platform decides\<close>

text \<open>
  The ids of a \<open>SELECT\<close> without \<open>ORDER BY\<close> come in some order, and so do the entries of a directory.
  An invalid date in a statement is refused with an error, or bound as a null, with which no
  comparison holds.
\<close>

record platform =
  pl_scan :: "database \<Rightarrow> ident list \<Rightarrow> ident list"
  pl_listing :: "stored_file list \<Rightarrow> stored_file list"
  pl_invalidDate :: "http_error option"

definition scans :: "(database \<Rightarrow> ident list \<Rightarrow> ident list) \<Rightarrow> bool" where
  "scans scan \<longleftrightarrow> (\<forall>d ks. mset (scan d ks) = mset ks)"

definition lists :: "(stored_file list \<Rightarrow> stored_file list) \<Rightarrow> bool" where
  "lists dir \<longleftrightarrow> (\<forall>fs. mset (dir fs) = mset fs)"

definition withCutoff :: "platform \<Rightarrow> millis option \<Rightarrow> (millis \<Rightarrow> nat request) \<Rightarrow> nat request" where
  "withCutoff pl cutoff sweep =
     (case cutoff of
        Some c \<Rightarrow> sweep c
      | None \<Rightarrow> (case pl_invalidDate pl of Some e \<Rightarrow> raise e | None \<Rightarrow> ret 0))"

section \<open>Rows\<close>

text \<open>One \<open>DELETE .. WHERE id IN (SELECT id .. LIMIT 1000)\<close>, with the number of rows it removed.\<close>

definition deleteBatch ::
    "platform \<Rightarrow> (database \<Rightarrow> 'r list) \<Rightarrow> ('r \<Rightarrow> ident) \<Rightarrow> (('r \<Rightarrow> bool) \<Rightarrow> database \<Rightarrow> database) \<Rightarrow>
     ('r \<Rightarrow> bool) \<Rightarrow> nat request" where
  "deleteBatch pl table key remove P =
     andThen (readDb (\<lambda>d. take CLEANUP_BATCH_SIZE (pl_scan pl d (map key (filter P (table d)))))) (\<lambda>chosen.
     andThen (readDb (\<lambda>d. length (filter (\<lambda>x. key x \<in> set chosen) (table d)))) (\<lambda>n.
     andThen (writeDb (remove (\<lambda>x. key x \<in> set chosen))) (\<lambda>_.
       ret n)))"

text \<open>The loop, for the passes that remain.\<close>

fun batches :: "nat \<Rightarrow> nat request \<Rightarrow> nat request" where
  "batches 0 runBatch = ret 0"
| "batches (Suc passes) runBatch =
     andThen runBatch (\<lambda>deleted.
       if deleted < CLEANUP_BATCH_SIZE then ret deleted
       else andThen (batches passes runBatch) (\<lambda>more. ret (deleted + more)))"

definition deleteInBatches :: "nat request \<Rightarrow> nat request" where
  "deleteInBatches runBatch = batches MAX_BATCHES_PER_TABLE runBatch"

definition purgeSessions :: "platform \<Rightarrow> millis \<Rightarrow> nat request" where
  "purgeSessions pl t =
     deleteInBatches (deleteBatch pl sessions ss_id (\<lambda>P. sessions_update (filter (\<lambda>x. \<not> P x))) (\<lambda>x. ss_expiresAt x < t))"

definition purgeVerifications :: "platform \<Rightarrow> millis \<Rightarrow> nat request" where
  "purgeVerifications pl t =
     deleteInBatches (deleteBatch pl verifications vf_id (\<lambda>P. verifications_update (filter (\<lambda>x. \<not> P x)))
       (\<lambda>v. vf_expiresAt v < t))"

text \<open>A notification that was read, and read before the cutoff.\<close>

definition readBefore :: "millis \<Rightarrow> notification_row \<Rightarrow> bool" where
  "readBefore cutoff n \<longleftrightarrow> (case n_readAt n of None \<Rightarrow> False | Some t \<Rightarrow> t < cutoff)"

definition purgeNotifications :: "platform \<Rightarrow> millis \<Rightarrow> int \<Rightarrow> nat request" where
  "purgeNotifications pl t days =
     (if days = 0 then ret 0
      else withCutoff pl (cutoffFor t days) (\<lambda>cutoff.
        deleteInBatches (deleteBatch pl notifications n_id (\<lambda>P. notifications_update (filter (\<lambda>x. \<not> P x)))
          (readBefore cutoff))))"

definition purgeActivities :: "platform \<Rightarrow> millis \<Rightarrow> int \<Rightarrow> nat request" where
  "purgeActivities pl t days =
     (if days = 0 then ret 0
      else withCutoff pl (cutoffFor t days) (\<lambda>cutoff.
        deleteInBatches (deleteBatch pl activities ac_id delete_activities (\<lambda>x. ac_createdAt x < cutoff))))"

definition purgePings :: "platform \<Rightarrow> millis \<Rightarrow> int \<Rightarrow> nat request" where
  "purgePings pl t days =
     (if days = 0 then ret 0
      else withCutoff pl (cutoffFor t days) (\<lambda>cutoff.
        deleteInBatches (deleteBatch pl pings up_id (\<lambda>P. pings_update (filter (\<lambda>x. \<not> P x)))
          (\<lambda>p. up_createdAt p < cutoff))))"

text \<open>An invitation that is finished: decided, or expired.\<close>

definition finishedBefore :: "millis \<Rightarrow> millis \<Rightarrow> invitation_row \<Rightarrow> bool" where
  "finishedBefore t cutoff i \<longleftrightarrow> i_createdAt i < cutoff \<and> (i_status i \<noteq> ''pending'' \<or> i_expiresAt i < t)"

definition purgeInvitations :: "platform \<Rightarrow> millis \<Rightarrow> int \<Rightarrow> nat request" where
  "purgeInvitations pl t days =
     (if days = 0 then ret 0
      else withCutoff pl (cutoffFor t days) (\<lambda>cutoff.
        deleteInBatches (deleteBatch pl invitations i_id (\<lambda>P. invitations_update (filter (\<lambda>x. \<not> P x)))
          (finishedBefore t cutoff))))"

section \<open>Files\<close>

text \<open>The keys of a batch that no attachment claims are removed; the count of removals goes on.\<close>

definition sweepFlush :: "string list \<Rightarrow> nat \<Rightarrow> nat request" where
  "sweepFlush batch removed =
     (if batch = [] then ret removed
      else andThen (readDb (\<lambda>d. filter (\<lambda>key. list_ex (\<lambda>a. a_storageKey a = Some key) (attachments d)) batch)) (\<lambda>keep.
           let gone = filter (\<lambda>key. key \<notin> set keep) batch
           in andThen (forEach gone storage_remove) (\<lambda>_. ret (removed + length gone))))"

definition SWEEP_CEILING :: nat where
  "SWEEP_CEILING = CLEANUP_BATCH_SIZE * MAX_BATCHES_PER_TABLE"

text \<open>\<open>entry.modifiedAt >= cutoff\<close>, which an invalid date makes false.\<close>

definition tooFresh :: "millis option \<Rightarrow> stored_file \<Rightarrow> bool" where
  "tooFresh cutoff entry \<longleftrightarrow> (case cutoff of None \<Rightarrow> False | Some c \<Rightarrow> c \<le> sf_modifiedAt entry)"

fun sweepEntries :: "millis option \<Rightarrow> stored_file list \<Rightarrow> nat \<Rightarrow> string list \<Rightarrow> nat request" where
  "sweepEntries cutoff [] removed batch = sweepFlush batch removed"
| "sweepEntries cutoff (entry # rest) removed batch =
     (if tooFresh cutoff entry then sweepEntries cutoff rest removed batch
      else let batch' = batch @ [sf_key entry]
           in if CLEANUP_BATCH_SIZE \<le> length batch'
              then andThen (sweepFlush batch' removed) (\<lambda>removed'.
                     if SWEEP_CEILING \<le> removed' then sweepFlush [] removed'
                     else sweepEntries cutoff rest removed' [])
              else if SWEEP_CEILING \<le> removed then sweepFlush batch' removed
              else sweepEntries cutoff rest removed batch')"

definition sweepOrphanFiles :: "platform \<Rightarrow> millis \<Rightarrow> nat request" where
  "sweepOrphanFiles pl t =
     andThen persistsFiles (\<lambda>persists.
       if \<not> persists then ret 0
       else andThen (query environ) (\<lambda>env.
            andThen (lift_result (orphanGraceMs env)) (\<lambda>grace.
            andThen storageRequire (\<lambda>_.
            andThen (query (\<lambda>s. pl_listing pl (files s))) (\<lambda>entries.
              sweepEntries (js_date (t - grace)) entries 0 [])))))"

section \<open>The run\<close>

definition cleanupLine :: "millis \<Rightarrow> cleanup_counts \<Rightarrow> json" where
  "cleanupLine t c =
     JObj [(''ts'', JNum (of_int t)), (''level'', JStr ''info''), (''event'', JStr ''retention.cleanup''),
       (''durationMs'', JNum 0), (''sessions'', JNum (of_nat (cc_sessions c))),
       (''verifications'', JNum (of_nat (cc_verifications c))),
       (''notifications'', JNum (of_nat (cc_notifications c))),
       (''activities'', JNum (of_nat (cc_activities c))), (''usagePings'', JNum (of_nat (cc_usagePings c))),
       (''invitations'', JNum (of_nat (cc_invitations c))),
       (''orphanedFiles'', JNum (of_nat (cc_orphanedFiles c)))]"

definition emptyCounts :: cleanup_counts where
  "emptyCounts = \<lparr>cc_sessions = 0, cc_verifications = 0, cc_notifications = 0, cc_activities = 0,
     cc_usagePings = 0, cc_invitations = 0, cc_orphanedFiles = 0\<rparr>"

text \<open>The sweeps of an enabled run, in their order.\<close>

definition cleanupTables :: "platform \<Rightarrow> millis \<Rightarrow> retention_settings \<Rightarrow> cleanup_counts request" where
  "cleanupTables pl t settings =
     andThen (purgeSessions pl t) (\<lambda>sessionsGone.
     andThen (purgeVerifications pl t) (\<lambda>verificationsGone.
     andThen (purgeNotifications pl t (rs_notificationDays settings)) (\<lambda>notificationsGone.
     andThen (purgeActivities pl t (rs_activityDays settings)) (\<lambda>activitiesGone.
     andThen (purgePings pl t (rs_activityDays settings)) (\<lambda>pingsGone.
     andThen (purgeInvitations pl t (rs_invitationDays settings)) (\<lambda>invitationsGone.
     andThen (sweepOrphanFiles pl t) (\<lambda>orphanedFiles.
       ret \<lparr>cc_sessions = sessionsGone, cc_verifications = verificationsGone,
            cc_notifications = notificationsGone, cc_activities = activitiesGone, cc_usagePings = pingsGone,
            cc_invitations = invitationsGone, cc_orphanedFiles = orphanedFiles\<rparr>)))))))"

definition runCleanup :: "platform \<Rightarrow> millis \<Rightarrow> cleanup_counts request" where
  "runCleanup pl t =
     andThen (query environ) (\<lambda>env.
     andThen (lift_result (retentionSettings env)) (\<lambda>settings.
       if \<not> rs_enabled settings then ret emptyCounts
       else
         andThen (cleanupTables pl t settings) (\<lambda>counts.
         andThen now (\<lambda>ts.
         andThen (logLine (cleanupLine ts counts)) (\<lambda>_.
           ret counts)))))"

text \<open>The job: a run at the time it starts.\<close>

definition cleanup_process :: "platform \<Rightarrow> unit request" where
  "cleanup_process pl = andThen now (\<lambda>t. andThen (runCleanup pl t) (\<lambda>_. ret ()))"

section \<open>Reports of a broken queue\<close>

definition REDIS_ERROR_REPORT_DAMPEN_MS :: int where
  "REDIS_ERROR_REPORT_DAMPEN_MS = 60 * 1000"

text \<open>Whether to report, and the time of the last report from then on.\<close>

definition shouldReportRedisError :: "millis \<Rightarrow> millis \<Rightarrow> bool \<times> millis" where
  "shouldReportRedisError t lastReportedAt =
     (if t - lastReportedAt < REDIS_ERROR_REPORT_DAMPEN_MS then (False, lastReportedAt) else (True, t))"

end
