(* ===== verification/RetentionFacts.thy ===== *)
theory RetentionFacts
  imports Retention
begin

text \<open>
  What the batches of the sweep come to. The six tables share one contract, the locale
  \<open>purgeable\<close>: deletions of rows compose, and remove from the table what they say. Inside it, the
  batches are one deletion, in full as long as the ceiling is not reached.
\<close>

section \<open>Batches\<close>

lemma scanned:
  assumes "scans scan"
  shows "set (scan d ks) = set ks" "length (scan d ks) = length ks" "distinct (scan d ks) = distinct ks"
  using assms unfolding scans_def
  by (metis mset_eq_setD, metis mset_eq_length, metis mset_eq_imp_distinct_iff)

lemma chosen_rows:
  assumes "distinct (map key xs)" "set ks \<subseteq> key ` set xs" "distinct ks"
  shows "length (filter (\<lambda>x. key x \<in> set ks) xs) = length ks"
proof -
  let ?ys = "filter (\<lambda>x. key x \<in> set ks) xs"
  have d: "distinct (map key ?ys)" using assms(1) by (rule distinct_map_filter)
  have "set (map key ?ys) = set ks" using assms(2) by auto
  then have "card (set (map key ?ys)) = length ks" using distinct_card[OF assms(3)] by simp
  then show ?thesis using distinct_card[OF d] by simp
qed

lemma filter_either:
  "length (filter (\<lambda>x. Q x \<or> R x) xs) = length (filter Q xs) + length (filter (\<lambda>x. \<not> Q x \<and> R x) xs)"
  by (induction xs) auto

locale purgeable =
  fixes table :: "database \<Rightarrow> 'r list"
    and key :: "'r \<Rightarrow> ident"
    and remove :: "('r \<Rightarrow> bool) \<Rightarrow> database \<Rightarrow> database"
  assumes table_remove: "table (remove Q d) = filter (\<lambda>x. \<not> Q x) (table d)"
    and remove_twice: "remove Q (remove R d) = remove (\<lambda>x. R x \<or> Q x) d"
    and remove_cong: "(\<And>x. x \<in> set (table d) \<Longrightarrow> Q x = R x) \<Longrightarrow> remove Q d = remove R d"
    and remove_none: "remove (\<lambda>_. False) d = d"
begin

lemma deleteBatch_run:
  assumes "scans (pl_scan pl)" "distinct (map key (table (db s)))"
  obtains Q where "deleteBatch pl table key remove P s =
      (Inr (length (filter Q (table (db s)))), s\<lparr>db := remove Q (db s)\<rparr>)"
    "\<And>x. x \<in> set (table (db s)) \<Longrightarrow> Q x \<Longrightarrow> P x"
    "length (filter Q (table (db s))) = min CLEANUP_BATCH_SIZE (length (filter P (table (db s))))"
proof -
  let ?T = "table (db s)"
  let ?ids = "pl_scan pl (db s) (map key (filter P ?T))"
  let ?Q = "\<lambda>x. key x \<in> set (take CLEANUP_BATCH_SIZE ?ids)"
  have ids: "set ?ids = key ` set (filter P ?T)" "length ?ids = length (filter P ?T)" "distinct ?ids"
    using scanned[OF assms(1)] assms(2) by (simp_all add: distinct_map_filter)
  have sub: "set (take CLEANUP_BATCH_SIZE ?ids) \<subseteq> key ` set (filter P ?T)"
    using ids(1) set_take_subset by metis
  show ?thesis
  proof (rule that[of ?Q])
    show "deleteBatch pl table key remove P s = (Inr (length (filter ?Q ?T)), s\<lparr>db := remove ?Q (db s)\<rparr>)"
      by (simp add: deleteBatch_def run)
  next
    fix x assume "x \<in> set ?T" "?Q x"
    then obtain y where "y \<in> set ?T" "P y" "key y = key x" using sub by auto
    then show "P x" using assms(2) \<open>x \<in> set ?T\<close> by (metis distinct_map inj_on_eq_iff)
  next
    have "length (filter ?Q ?T) = length (take CLEANUP_BATCH_SIZE ?ids)"
      by (rule chosen_rows[OF assms(2)]) (use sub ids(3) in auto)
    then show "length (filter ?Q ?T) = min CLEANUP_BATCH_SIZE (length (filter P ?T))" using ids(2) by simp
  qed
qed

lemma batches_run:
  assumes "scans (pl_scan pl)" "distinct (map key (table (db s)))"
  shows "\<exists>Q. batches n (deleteBatch pl table key remove P) s =
      (Inr (length (filter Q (table (db s)))), s\<lparr>db := remove Q (db s)\<rparr>) \<and>
    (\<forall>x \<in> set (table (db s)). Q x \<longrightarrow> P x) \<and>
    length (filter Q (table (db s))) = min (n * CLEANUP_BATCH_SIZE) (length (filter P (table (db s))))"
  using assms(2)
proof (induction n arbitrary: s)
  case 0
  show ?case by (rule exI[of _ "\<lambda>_. False"]) (simp add: run remove_none)
next
  case (Suc n)
  obtain Q where Q: "deleteBatch pl table key remove P s =
      (Inr (length (filter Q (table (db s)))), s\<lparr>db := remove Q (db s)\<rparr>)"
    "\<And>x. x \<in> set (table (db s)) \<Longrightarrow> Q x \<Longrightarrow> P x"
    "length (filter Q (table (db s))) = min CLEANUP_BATCH_SIZE (length (filter P (table (db s))))"
    using deleteBatch_run[OF assms(1) Suc.prems] by blast
  show ?case
  proof (cases "length (filter Q (table (db s))) < CLEANUP_BATCH_SIZE")
    case True
    then have "batches (Suc n) (deleteBatch pl table key remove P) s =
        (Inr (length (filter Q (table (db s)))), s\<lparr>db := remove Q (db s)\<rparr>)"
      by (simp add: Q(1) andThen_def ret_run)
    then show ?thesis using Q(2,3) True by (intro exI[of _ Q]) auto
  next
    case False
    let ?s = "s\<lparr>db := remove Q (db s)\<rparr>"
    have "distinct (map key (table (db ?s)))" using Suc.prems by (simp add: table_remove distinct_map_filter)
    then obtain R where R: "batches n (deleteBatch pl table key remove P) ?s =
        (Inr (length (filter R (table (db ?s)))), ?s\<lparr>db := remove R (db ?s)\<rparr>)"
      "\<forall>x \<in> set (table (db ?s)). R x \<longrightarrow> P x"
      "length (filter R (table (db ?s))) = min (n * CLEANUP_BATCH_SIZE) (length (filter P (table (db ?s))))"
      using Suc.IH by blast
    have "filter P (table (db s)) = filter (\<lambda>x. Q x \<or> P x) (table (db s))"
      using Q(2) by (intro filter_cong) auto
    then have rest: "length (filter P (table (db s))) =
        length (filter Q (table (db s))) + length (filter (\<lambda>x. \<not> Q x \<and> P x) (table (db s)))"
      by (simp only: filter_either)
    show ?thesis
    proof (intro exI[of _ "\<lambda>x. Q x \<or> R x"] conjI)
      show "batches (Suc n) (deleteBatch pl table key remove P) s =
          (Inr (length (filter (\<lambda>x. Q x \<or> R x) (table (db s)))), s\<lparr>db := remove (\<lambda>x. Q x \<or> R x) (db s)\<rparr>)"
        using False by (simp add: Q(1) R(1) andThen_def ret_run filter_either table_remove remove_twice conj_commute)
      show "\<forall>x \<in> set (table (db s)). Q x \<or> R x \<longrightarrow> P x"
        using Q(2) R(2) by (auto simp: table_remove)
      show "length (filter (\<lambda>x. Q x \<or> R x) (table (db s))) = min (Suc n * CLEANUP_BATCH_SIZE) (length (filter P (table (db s))))"
        using R(3) Q(3) False rest by (simp add: filter_either table_remove conj_commute)
    qed
  qed
qed

text \<open>The batches of one table: a deletion of rows that match, of all of them below the ceiling.\<close>

lemma deleteInBatches_run:
  assumes "scans (pl_scan pl)" "distinct (map key (table (db s)))"
  obtains Q where "deleteInBatches (deleteBatch pl table key remove P) s =
      (Inr (length (filter Q (table (db s)))), s\<lparr>db := remove Q (db s)\<rparr>)"
    "\<And>x. x \<in> set (table (db s)) \<Longrightarrow> Q x \<Longrightarrow> P x"
    "length (filter Q (table (db s))) =
      min (MAX_BATCHES_PER_TABLE * CLEANUP_BATCH_SIZE) (length (filter P (table (db s))))"
  using batches_run[OF assms] unfolding deleteInBatches_def by metis

lemma fewer_rows: "\<forall>x \<in> set xs. Q x \<longrightarrow> P x \<Longrightarrow> length (filter Q xs) \<le> length (filter P xs)"
  by (induction xs) auto

lemma same_rows:
  assumes "\<And>x. x \<in> set xs \<Longrightarrow> Q x \<Longrightarrow> P x" "length (filter Q xs) = length (filter P xs)" "x \<in> set xs"
  shows "Q x = P x"
  using assms
proof (induction xs)
  case (Cons y ys)
  have le: "length (filter Q ys) \<le> length (filter P ys)"
    using Cons.prems(1) by (intro fewer_rows) auto
  have "Q y = P y \<and> length (filter Q ys) = length (filter P ys)"
    using Cons.prems(1)[of y] Cons.prems(2) le by (auto split: if_splits)
  then show ?case using Cons by auto
qed simp

lemma deleteInBatches_all:
  assumes "scans (pl_scan pl)" "distinct (map key (table (db s)))"
    and "length (filter P (table (db s))) \<le> MAX_BATCHES_PER_TABLE * CLEANUP_BATCH_SIZE"
  shows "deleteInBatches (deleteBatch pl table key remove P) s =
    (Inr (length (filter P (table (db s)))), s\<lparr>db := remove P (db s)\<rparr>)"
proof -
  obtain Q where Q: "deleteInBatches (deleteBatch pl table key remove P) s =
      (Inr (length (filter Q (table (db s)))), s\<lparr>db := remove Q (db s)\<rparr>)"
    "\<And>x. x \<in> set (table (db s)) \<Longrightarrow> Q x \<Longrightarrow> P x"
    "length (filter Q (table (db s))) = length (filter P (table (db s)))"
    using deleteInBatches_run[OF assms(1,2)] assms(3) by (metis min.absorb2)
  then show ?thesis using remove_cong[OF same_rows[OF Q(2,3)]] by simp
qed

end

lemma activities_twice: "delete_activities Q (delete_activities R d) = delete_activities (\<lambda>x. R x \<or> Q x) d"
proof -
  have gone: "ac_id ` set (filter (\<lambda>x. R x \<or> Q x) (activities d)) =
      ac_id ` set (filter R (activities d)) \<union> ac_id ` set (filter Q (filter (\<lambda>x. \<not> R x) (activities d)))"
    by auto
  have once: "(if n_activityId n \<in> Some ` (A \<union> B) then n\<lparr>n_activityId := None\<rparr> else n) =
      (let m = if n_activityId n \<in> Some ` A then n\<lparr>n_activityId := None\<rparr> else n
       in if n_activityId m \<in> Some ` B then m\<lparr>n_activityId := None\<rparr> else m)" for n :: notification_row and A B
    by (auto simp: image_Un)
  show ?thesis
    unfolding delete_activities_def Let_def set_map gone once
    by (simp add: conj_commute comp_def Let_def)
qed

lemma activities_cong:
  assumes "\<And>x. x \<in> set (activities d) \<Longrightarrow> Q x = R x"
  shows "delete_activities Q d = delete_activities R d"
proof -
  have "filter Q (activities d) = filter R (activities d)" "filter (\<lambda>x. \<not> Q x) (activities d) = filter (\<lambda>x. \<not> R x) (activities d)"
    using assms by (simp_all cong: filter_cong)
  then show ?thesis by (simp add: delete_activities_def)
qed

interpretation sessions_purge: purgeable sessions ss_id "\<lambda>P. sessions_update (filter (\<lambda>x. \<not> P x))"
  by unfold_locales (auto intro!: database.fold_congs filter_cong simp: conj_commute)

interpretation verifications_purge: purgeable verifications vf_id "\<lambda>P. verifications_update (filter (\<lambda>x. \<not> P x))"
  by unfold_locales (auto intro!: database.fold_congs filter_cong simp: conj_commute)

interpretation notifications_purge: purgeable notifications n_id "\<lambda>P. notifications_update (filter (\<lambda>x. \<not> P x))"
  by unfold_locales (auto intro!: database.fold_congs filter_cong simp: conj_commute)

interpretation pings_purge: purgeable pings up_id "\<lambda>P. pings_update (filter (\<lambda>x. \<not> P x))"
  by unfold_locales (auto intro!: database.fold_congs filter_cong simp: conj_commute)

interpretation invitations_purge: purgeable invitations i_id "\<lambda>P. invitations_update (filter (\<lambda>x. \<not> P x))"
  by unfold_locales (auto intro!: database.fold_congs filter_cong simp: conj_commute)

interpretation activities_purge: purgeable activities ac_id delete_activities
  by unfold_locales (auto simp: activities_twice intro: activities_cong, simp_all add: delete_activities_def)

section \<open>Files\<close>

definition claimed :: "database \<Rightarrow> string \<Rightarrow> bool" where
  "claimed d key \<longleftrightarrow> list_ex (\<lambda>a. a_storageKey a = Some key) (attachments d)"

text \<open>The configuration with which files are kept on disk.\<close>

definition keeps_files :: "world \<Rightarrow> bool" where
  "keeps_files s \<longleftrightarrow> (\<exists>c. readStorageConfig (environ s) = Inr c \<and> sc_disk c \<noteq> None)"

lemma storage_remove_run:
  "keeps_files s \<Longrightarrow> storage_remove key s = (Inr (), s\<lparr>files := filter (\<lambda>f. sf_key f \<noteq> key) (files s)\<rparr>)"
  by (auto simp: keeps_files_def storage_remove_def run)

lemma remove_keys:
  assumes "keeps_files s"
  shows "forEach ks storage_remove s = (Inr (), s\<lparr>files := filter (\<lambda>f. sf_key f \<notin> set ks) (files s)\<rparr>)"
  using assms
proof (induction ks arbitrary: s)
  case (Cons k ks)
  let ?s = "s\<lparr>files := filter (\<lambda>f. sf_key f \<noteq> k) (files s)\<rparr>"
  have "keeps_files ?s" using Cons.prems by (simp add: keeps_files_def)
  then show ?case
    using Cons.IH[of ?s] Cons.prems by (simp add: andThen_def storage_remove_run conj_commute)
qed (simp add: ret_run)

lemma sweepFlush_run:
  assumes "keeps_files s"
  shows "sweepFlush batch n s =
    (Inr (n + length (filter (\<lambda>k. \<not> claimed (db s) k) batch)),
     s\<lparr>files := filter (\<lambda>f. \<not> (sf_key f \<in> set batch \<and> \<not> claimed (db s) (sf_key f))) (files s)\<rparr>)"
  unfolding sweepFlush_def claimed_def[symmetric]
  by (simp add: run Let_def andThen_def[of "forEach _ _"] remove_keys[OF assms] cong: filter_cong)

text \<open>The keys a pass over the entries looks at.\<close>

definition swept :: "millis option \<Rightarrow> stored_file list \<Rightarrow> string set" where
  "swept cutoff entries = sf_key ` {e \<in> set entries. \<not> tooFresh cutoff e}"

lemma swept_Cons:
  "swept cutoff (e # es) = (if tooFresh cutoff e then swept cutoff es else insert (sf_key e) (swept cutoff es))"
  by (auto simp: swept_def)

definition orphans :: "database \<Rightarrow> string set \<Rightarrow> string set" where
  "orphans d ks = {k \<in> ks. \<not> claimed d k}"

text \<open>A result of a sweep over some keys: orphans among them are gone, all of them below the ceiling.\<close>

definition sweeps :: "world \<Rightarrow> string set \<Rightarrow> (http_error + nat) \<times> world \<Rightarrow> bool" where
  "sweeps s ks result \<longleftrightarrow>
     (\<exists>n gone. result = (Inr n, s\<lparr>files := filter (\<lambda>f. sf_key f \<notin> gone) (files s)\<rparr>) \<and>
        gone \<subseteq> orphans (db s) ks \<and> (n < SWEEP_CEILING \<longrightarrow> gone = orphans (db s) ks))"

lemma sweeps_flush:
  assumes "keeps_files s" "set batch \<subseteq> ks" "n < SWEEP_CEILING \<Longrightarrow> ks \<subseteq> set batch"
  shows "sweeps s ks (sweepFlush batch n s)"
  unfolding sweeps_def sweepFlush_run[OF assms(1)]
  using assms(2,3)
  by (intro exI[of _ "n + length (filter (\<lambda>k. \<not> claimed (db s) k) batch)"] exI[of _ "orphans (db s) (set batch)"])
    (auto simp: orphans_def)

lemma sweeps_after:
  assumes "sweeps t js result" "t = s\<lparr>files := filter (\<lambda>f. sf_key f \<notin> orphans (db s) is) (files s)\<rparr>"
    and "ks = is \<union> js"
  shows "sweeps s ks result"
proof -
  obtain n gone where r: "result = (Inr n, t\<lparr>files := filter (\<lambda>f. sf_key f \<notin> gone) (files t)\<rparr>)"
    "gone \<subseteq> orphans (db s) js" "n < SWEEP_CEILING \<Longrightarrow> gone = orphans (db s) js"
    using assms(1) unfolding sweeps_def assms(2) by auto
  show ?thesis
    unfolding sweeps_def
  proof (intro exI conjI impI)
    show "result = (Inr n, s\<lparr>files := filter (\<lambda>f. sf_key f \<notin> orphans (db s) is \<union> gone) (files s)\<rparr>)"
      using r(1) by (simp add: assms(2) conj_commute)
  qed (use r(2,3) assms(3) in \<open>auto simp: orphans_def\<close>)
qed

lemma sweepEntries_sweeps:
  assumes "keeps_files s"
  shows "sweeps s (set batch \<union> swept cutoff entries) (sweepEntries cutoff entries removed batch s)"
  using assms
proof (induction entries arbitrary: removed batch s)
  case Nil
  then show ?case by (simp add: sweeps_flush swept_def)
next
  case (Cons e es)
  let ?b = "batch @ [sf_key e]"
  let ?t = "s\<lparr>files := filter (\<lambda>f. sf_key f \<notin> orphans (db s) (set ?b)) (files s)\<rparr>"
  let ?n = "removed + length (filter (\<lambda>k. \<not> claimed (db s) k) ?b)"
  have flush: "sweepFlush ?b removed s = (Inr ?n, ?t)"
    unfolding sweepFlush_run[OF Cons.prems] by (simp add: orphans_def)
  have t: "keeps_files ?t" using Cons.prems by (simp add: keeps_files_def)
  consider "tooFresh cutoff e" | "\<not> tooFresh cutoff e" "CLEANUP_BATCH_SIZE \<le> length ?b" "SWEEP_CEILING \<le> ?n"
    | "\<not> tooFresh cutoff e" "CLEANUP_BATCH_SIZE \<le> length ?b" "\<not> SWEEP_CEILING \<le> ?n"
    | "\<not> tooFresh cutoff e" "\<not> CLEANUP_BATCH_SIZE \<le> length ?b" "SWEEP_CEILING \<le> removed"
    | "\<not> tooFresh cutoff e" "\<not> CLEANUP_BATCH_SIZE \<le> length ?b" "\<not> SWEEP_CEILING \<le> removed"
    by blast
  then show ?case
  proof cases
    case 1
    then show ?thesis using Cons.IH[OF Cons.prems] by (simp add: swept_Cons)
  next
    case 2
    have "sweepEntries cutoff (e # es) removed batch s = sweepFlush [] ?n ?t"
      using 2 flush by (simp add: Let_def andThen_def)
    moreover have "sweeps ?t (swept cutoff es) (sweepFlush [] ?n ?t)"
      by (rule sweeps_flush[OF t]) (use 2 in auto)
    ultimately show ?thesis
      using sweeps_after[of ?t "swept cutoff es" _ s "set ?b" "set batch \<union> swept cutoff (e # es)"] 2(1)
      by (simp add: swept_Cons Un_commute)
  next
    case 3
    have "sweepEntries cutoff (e # es) removed batch s = sweepEntries cutoff es ?n [] ?t"
      using 3 flush by (simp add: Let_def andThen_def)
    moreover have "sweeps ?t (swept cutoff es) (sweepEntries cutoff es ?n [] ?t)"
      using Cons.IH[OF t, of "[]" ?n] by simp
    ultimately show ?thesis
      using sweeps_after[of ?t "swept cutoff es" _ s "set ?b" "set batch \<union> swept cutoff (e # es)"] 3(1)
      by (simp add: swept_Cons Un_commute)
  next
    case 4
    then have "sweepEntries cutoff (e # es) removed batch s = sweepFlush ?b removed s" by (simp add: Let_def)
    moreover have "sweeps s (set batch \<union> swept cutoff (e # es)) (sweepFlush ?b removed s)"
      by (rule sweeps_flush[OF Cons.prems]) (use 4 in \<open>auto simp: swept_Cons\<close>)
    ultimately show ?thesis by simp
  next
    case 5
    then show ?thesis using Cons.IH[OF Cons.prems, of ?b removed] by (simp add: Let_def swept_Cons)
  qed
qed

lemma sweepOrphanFiles_any:
  "(\<exists>e. sweepOrphanFiles pl t s = (Inl e, s)) \<or> (\<not> keeps_files s \<and> sweepOrphanFiles pl t s = (Inr 0, s)) \<or>
    (\<exists>g. keeps_files s \<and> orphanGraceMs (environ s) = Inr g \<and>
         sweeps s (swept (js_date (t - g)) (pl_listing pl (files s))) (sweepOrphanFiles pl t s))"
proof (cases "keeps_files s")
  case True
  then have "sweepOrphanFiles pl t s = (case orphanGraceMs (environ s) of Inl e \<Rightarrow> (Inl e, s)
      | Inr g \<Rightarrow> sweepEntries (js_date (t - g)) (pl_listing pl (files s)) 0 [] s)"
    by (auto simp: keeps_files_def sweepOrphanFiles_def persistsFiles_def run andThen_storageConfig storageConfig_def split: sum.split)
  moreover have "sweeps s (swept c (pl_listing pl (files s))) (sweepEntries c (pl_listing pl (files s)) 0 [] s)" for c
    using sweepEntries_sweeps[OF True, of "[]" c "pl_listing pl (files s)" 0] by simp
  ultimately show ?thesis using True by (cases "orphanGraceMs (environ s)") simp_all
next
  case False
  then show ?thesis
    by (auto simp: keeps_files_def sweepOrphanFiles_def persistsFiles_def run andThen_storageConfig split: sum.split)
qed

lemma sweepOrphanFiles_sweeps:
  assumes "lists (pl_listing pl)"
  shows "(\<exists>e. sweepOrphanFiles pl t s = (Inl e, s)) \<or> (\<not> keeps_files s \<and> sweepOrphanFiles pl t s = (Inr 0, s)) \<or>
    (\<exists>g. keeps_files s \<and> orphanGraceMs (environ s) = Inr g \<and>
         sweeps s (swept (js_date (t - g)) (files s)) (sweepOrphanFiles pl t s))"
proof -
  have "mset (pl_listing pl fs) = mset fs" for fs using assms by (simp add: lists_def)
  then have "swept c (pl_listing pl fs) = swept c fs" for c fs
    by (simp add: swept_def mset_eq_setD[of "pl_listing pl fs"])
  then show ?thesis using sweepOrphanFiles_any[of pl t s] by simp
qed

section \<open>What is due\<close>

definition due_notification :: "millis \<Rightarrow> int \<Rightarrow> notification_row \<Rightarrow> bool" where
  "due_notification t days n \<longleftrightarrow> days \<noteq> 0 \<and> readBefore (t - days * MS_PER_DAY) n"

definition due_activity :: "millis \<Rightarrow> int \<Rightarrow> activity_row \<Rightarrow> bool" where
  "due_activity t days x \<longleftrightarrow> days \<noteq> 0 \<and> ac_createdAt x < t - days * MS_PER_DAY"

definition due_ping :: "millis \<Rightarrow> int \<Rightarrow> ping_row \<Rightarrow> bool" where
  "due_ping t days p \<longleftrightarrow> days \<noteq> 0 \<and> up_createdAt p < t - days * MS_PER_DAY"

definition due_invitation :: "millis \<Rightarrow> int \<Rightarrow> invitation_row \<Rightarrow> bool" where
  "due_invitation t days i \<longleftrightarrow> days \<noteq> 0 \<and> finishedBefore t (t - days * MS_PER_DAY) i"

text \<open>The primary keys of the six tables, and the result of a sweep of one.\<close>

definition purge_keys :: "database \<Rightarrow> bool" where
  "purge_keys d \<longleftrightarrow> distinct (map ss_id (sessions d)) \<and> distinct (map vf_id (verifications d)) \<and>
     distinct (map n_id (notifications d)) \<and> distinct (map ac_id (activities d)) \<and>
     distinct (map up_id (pings d)) \<and> distinct (map i_id (invitations d))"

definition purges ::
    "(database \<Rightarrow> 'r list) \<Rightarrow> (('r \<Rightarrow> bool) \<Rightarrow> database \<Rightarrow> database) \<Rightarrow> ('r \<Rightarrow> bool) \<Rightarrow> world \<Rightarrow>
     (http_error + nat) \<times> world \<Rightarrow> bool" where
  "purges table remove P s result \<longleftrightarrow>
     (\<exists>Q. result = (Inr (length (filter Q (table (db s)))), s\<lparr>db := remove Q (db s)\<rparr>) \<and>
        (\<forall>x \<in> set (table (db s)). Q x \<longrightarrow> P x))"

text \<open>Whatever the outcome, a table loses only rows that are due.\<close>

definition purges_or_not ::
    "(database \<Rightarrow> 'r list) \<Rightarrow> (('r \<Rightarrow> bool) \<Rightarrow> database \<Rightarrow> database) \<Rightarrow> ('r \<Rightarrow> bool) \<Rightarrow> world \<Rightarrow>
     (http_error + nat) \<times> world \<Rightarrow> bool" where
  "purges_or_not table remove P s result \<longleftrightarrow> (\<exists>e. result = (Inl e, s)) \<or> purges table remove P s result"

context purgeable
begin

lemma purges_batches:
  "scans (pl_scan pl) \<Longrightarrow> distinct (map key (table (db s))) \<Longrightarrow>
     purges table remove P s (deleteInBatches (deleteBatch pl table key remove P) s)"
  by (rule deleteInBatches_run) (auto simp: purges_def)

lemma purges_nothing: "purges table remove P s (Inr 0, s)"
  unfolding purges_def by (intro exI[of _ "\<lambda>_. False"]) (simp add: remove_none)

text \<open>A sweep with a window in days, which zero switches off.\<close>

definition windowed :: "platform \<Rightarrow> millis \<Rightarrow> int \<Rightarrow> (millis \<Rightarrow> 'r \<Rightarrow> bool) \<Rightarrow> nat request" where
  "windowed pl t days P =
     (if days = 0 then ret 0
      else withCutoff pl (cutoffFor t days) (\<lambda>c. deleteInBatches (deleteBatch pl table key remove (P c))))"

lemma windowed_purges:
  assumes "scans (pl_scan pl)" "distinct (map key (table (db s)))"
    and "\<And>c. days \<noteq> 0 \<Longrightarrow> cutoffFor t days = Some c \<Longrightarrow> P c = D"
  shows "purges_or_not table remove D s (windowed pl t days P s)"
proof (cases "days = 0 \<or> cutoffFor t days = None")
  case True
  then show ?thesis
    using purges_nothing
    by (cases "days = 0"; cases "pl_invalidDate pl") (simp_all add: purges_or_not_def windowed_def withCutoff_def run)
next
  case False
  then show ?thesis
    using purges_batches[OF assms(1,2)] assms(3) by (auto simp: purges_or_not_def windowed_def withCutoff_def)
qed

lemma windowed_exact:
  assumes "scans (pl_scan pl)" "distinct (map key (table (db s)))" "cutoffFor t days = Some c"
    and "\<And>x. D x = (days \<noteq> 0 \<and> P c x)"
    and "length (filter D (table (db s))) \<le> MAX_BATCHES_PER_TABLE * CLEANUP_BATCH_SIZE"
  shows "windowed pl t days P s = (Inr (length (filter D (table (db s)))), s\<lparr>db := remove D (db s)\<rparr>)"
proof (cases "days = 0")
  case True
  then have "D = (\<lambda>_. False)" using assms(4) by auto
  then show ?thesis using True remove_none by (simp add: windowed_def run)
next
  case False
  then have "P c = D" using assms(4) by auto
  then show ?thesis using False assms(3) deleteInBatches_all[OF assms(1,2,5)] by (simp add: windowed_def withCutoff_def)
qed

end

lemma cutoff_due: "cutoffFor t days = Some c \<Longrightarrow> c = t - days * MS_PER_DAY"
  by (auto simp: cutoffFor_def js_date_def split: if_splits)

lemma windows:
  "purgeNotifications pl t days = notifications_purge.windowed pl t days readBefore"
  "purgeActivities pl t days = activities_purge.windowed pl t days (\<lambda>c x. ac_createdAt x < c)"
  "purgePings pl t days = pings_purge.windowed pl t days (\<lambda>c p. up_createdAt p < c)"
  "purgeInvitations pl t days = invitations_purge.windowed pl t days (finishedBefore t)"
  by (simp_all add: purgeNotifications_def purgeActivities_def purgePings_def purgeInvitations_def
      notifications_purge.windowed_def activities_purge.windowed_def pings_purge.windowed_def invitations_purge.windowed_def)

lemmas due_defs = due_notification_def due_activity_def due_ping_def due_invitation_def

lemma purge_steps:
  assumes "scans (pl_scan pl)" "purge_keys (db s)"
  shows "purges_or_not sessions (\<lambda>P. sessions_update (filter (\<lambda>x. \<not> P x))) (\<lambda>x. ss_expiresAt x < t) s (purgeSessions pl t s)"
    "purges_or_not verifications (\<lambda>P. verifications_update (filter (\<lambda>x. \<not> P x))) (\<lambda>v. vf_expiresAt v < t) s (purgeVerifications pl t s)"
    "purges_or_not notifications (\<lambda>P. notifications_update (filter (\<lambda>x. \<not> P x))) (due_notification t nd) s (purgeNotifications pl t nd s)"
    "purges_or_not activities delete_activities (due_activity t ad) s (purgeActivities pl t ad s)"
    "purges_or_not pings (\<lambda>P. pings_update (filter (\<lambda>x. \<not> P x))) (due_ping t ad) s (purgePings pl t ad s)"
    "purges_or_not invitations (\<lambda>P. invitations_update (filter (\<lambda>x. \<not> P x))) (due_invitation t idays) s (purgeInvitations pl t idays s)"
proof -
  have keys: "distinct (map ss_id (sessions (db s)))" "distinct (map vf_id (verifications (db s)))"
    "distinct (map n_id (notifications (db s)))" "distinct (map ac_id (activities (db s)))"
    "distinct (map up_id (pings (db s)))" "distinct (map i_id (invitations (db s)))"
    using assms(2) by (simp_all add: purge_keys_def)
  show "purges_or_not sessions (\<lambda>P. sessions_update (filter (\<lambda>x. \<not> P x))) (\<lambda>x. ss_expiresAt x < t) s (purgeSessions pl t s)"
    using sessions_purge.purges_batches[OF assms(1) keys(1)] by (simp add: purges_or_not_def purgeSessions_def)
  show "purges_or_not verifications (\<lambda>P. verifications_update (filter (\<lambda>x. \<not> P x))) (\<lambda>v. vf_expiresAt v < t) s (purgeVerifications pl t s)"
    using verifications_purge.purges_batches[OF assms(1) keys(2)] by (simp add: purges_or_not_def purgeVerifications_def)
qed (unfold windows, rule notifications_purge.windowed_purges[OF assms(1)] activities_purge.windowed_purges[OF assms(1)]
      pings_purge.windowed_purges[OF assms(1)] invitations_purge.windowed_purges[OF assms(1)];
    use assms(2) in \<open>auto simp: purge_keys_def due_defs fun_eq_iff dest!: cutoff_due\<close>)+

section \<open>The tables after a run\<close>

definition retained :: "retention_settings \<Rightarrow> millis \<Rightarrow> database \<Rightarrow> database" where
  "retained S t d =
     delete_activities (due_activity t (rs_activityDays S))
       (d\<lparr>sessions := filter (\<lambda>x. t \<le> ss_expiresAt x) (sessions d),
          verifications := filter (\<lambda>v. t \<le> vf_expiresAt v) (verifications d),
          notifications := filter (\<lambda>n. \<not> due_notification t (rs_notificationDays S) n) (notifications d),
          pings := filter (\<lambda>p. \<not> due_ping t (rs_activityDays S) p) (pings d),
          invitations := filter (\<lambda>i. \<not> due_invitation t (rs_invitationDays S) i) (invitations d)\<rparr>)"

text \<open>No table holds more due rows than the batches of a run delete.\<close>

definition within_ceiling :: "retention_settings \<Rightarrow> millis \<Rightarrow> database \<Rightarrow> bool" where
  "within_ceiling S t d \<longleftrightarrow>
     list_all (\<lambda>n. n \<le> 1000000)
       [length (filter (\<lambda>x. ss_expiresAt x < t) (sessions d)), length (filter (\<lambda>v. vf_expiresAt v < t) (verifications d)),
        length (filter (due_notification t (rs_notificationDays S)) (notifications d)),
        length (filter (due_activity t (rs_activityDays S)) (activities d)),
        length (filter (due_ping t (rs_activityDays S)) (pings d)),
        length (filter (due_invitation t (rs_invitationDays S)) (invitations d))]"

lemma ceiling: "MAX_BATCHES_PER_TABLE * CLEANUP_BATCH_SIZE = 1000000"
  by (simp add: MAX_BATCHES_PER_TABLE_def CLEANUP_BATCH_SIZE_def)

definition datable :: "millis \<Rightarrow> int \<Rightarrow> bool" where
  "datable t days \<longleftrightarrow> \<bar>t - days * MS_PER_DAY\<bar> \<le> 8640000000000000"

lemma datable_cutoff: "datable t days \<Longrightarrow> cutoffFor t days = Some (t - days * MS_PER_DAY)"
  by (simp add: datable_def cutoffFor_def js_date_def)

lemma exact_steps:
  assumes "scans (pl_scan pl)"
  shows "distinct (map ss_id (sessions (db s))) \<Longrightarrow> length (filter (\<lambda>x. ss_expiresAt x < t) (sessions (db s))) \<le> 1000000 \<Longrightarrow>
      purgeSessions pl t s = (Inr (length (filter (\<lambda>x. ss_expiresAt x < t) (sessions (db s)))),
        s\<lparr>db := sessions_update (filter (\<lambda>x. \<not> ss_expiresAt x < t)) (db s)\<rparr>)"
    "distinct (map vf_id (verifications (db s))) \<Longrightarrow> length (filter (\<lambda>v. vf_expiresAt v < t) (verifications (db s))) \<le> 1000000 \<Longrightarrow>
      purgeVerifications pl t s = (Inr (length (filter (\<lambda>v. vf_expiresAt v < t) (verifications (db s)))),
        s\<lparr>db := verifications_update (filter (\<lambda>v. \<not> vf_expiresAt v < t)) (db s)\<rparr>)"
    "distinct (map n_id (notifications (db s))) \<Longrightarrow> datable t days \<Longrightarrow> length (filter (due_notification t days) (notifications (db s))) \<le> 1000000 \<Longrightarrow>
      purgeNotifications pl t days s = (Inr (length (filter (due_notification t days) (notifications (db s)))),
        s\<lparr>db := notifications_update (filter (\<lambda>n. \<not> due_notification t days n)) (db s)\<rparr>)"
    "distinct (map ac_id (activities (db s))) \<Longrightarrow> datable t days \<Longrightarrow> length (filter (due_activity t days) (activities (db s))) \<le> 1000000 \<Longrightarrow>
      purgeActivities pl t days s = (Inr (length (filter (due_activity t days) (activities (db s)))),
        s\<lparr>db := delete_activities (due_activity t days) (db s)\<rparr>)"
    "distinct (map up_id (pings (db s))) \<Longrightarrow> datable t days \<Longrightarrow> length (filter (due_ping t days) (pings (db s))) \<le> 1000000 \<Longrightarrow>
      purgePings pl t days s = (Inr (length (filter (due_ping t days) (pings (db s)))),
        s\<lparr>db := pings_update (filter (\<lambda>p. \<not> due_ping t days p)) (db s)\<rparr>)"
    "distinct (map i_id (invitations (db s))) \<Longrightarrow> datable t days \<Longrightarrow> length (filter (due_invitation t days) (invitations (db s))) \<le> 1000000 \<Longrightarrow>
      purgeInvitations pl t days s = (Inr (length (filter (due_invitation t days) (invitations (db s)))),
        s\<lparr>db := invitations_update (filter (\<lambda>i. \<not> due_invitation t days i)) (db s)\<rparr>)"
  unfolding windows purgeSessions_def purgeVerifications_def
  by (rule sessions_purge.deleteInBatches_all[OF assms] verifications_purge.deleteInBatches_all[OF assms]
      notifications_purge.windowed_exact[OF assms _ datable_cutoff] activities_purge.windowed_exact[OF assms _ datable_cutoff]
      pings_purge.windowed_exact[OF assms _ datable_cutoff] invitations_purge.windowed_exact[OF assms _ datable_cutoff];
      simp add: ceiling due_defs)+

end
