(* ===== verification/RetentionKeeping.thy ===== *)
theory RetentionKeeping
  imports RetentionFacts History
begin

text \<open>
  What a run of the sweep keeps, whatever its outcome: the rows that are not due and every other table,
  the files that are claimed or fresh, the references and keys of the tables, and a file for every
  attachment. Each is a preorder between worlds, so it composes along the run.
\<close>

section \<open>Rows\<close>

definition unlinked :: "notification_row \<Rightarrow> notification_row" where
  "unlinked n = n\<lparr>n_activityId := None\<rparr>"

text \<open>The database without the six tables the sweep is about.\<close>

definition otherTables :: "database \<Rightarrow> database" where
  "otherTables d = d\<lparr>sessions := [], verifications := [], notifications := [], activities := [], pings := [], invitations := []\<rparr>"

definition spares :: "retention_settings \<Rightarrow> millis \<Rightarrow> database \<Rightarrow> database \<Rightarrow> bool" where
  "spares S t d d' \<longleftrightarrow>
     filter (\<lambda>x. t \<le> ss_expiresAt x) (sessions d') = filter (\<lambda>x. t \<le> ss_expiresAt x) (sessions d) \<and>
     filter (\<lambda>v. t \<le> vf_expiresAt v) (verifications d') = filter (\<lambda>v. t \<le> vf_expiresAt v) (verifications d) \<and>
     map unlinked (filter (\<lambda>n. \<not> due_notification t (rs_notificationDays S) n) (notifications d')) =
       map unlinked (filter (\<lambda>n. \<not> due_notification t (rs_notificationDays S) n) (notifications d)) \<and>
     filter (\<lambda>x. \<not> due_activity t (rs_activityDays S) x) (activities d') =
       filter (\<lambda>x. \<not> due_activity t (rs_activityDays S) x) (activities d) \<and>
     filter (\<lambda>p. \<not> due_ping t (rs_activityDays S) p) (pings d') = filter (\<lambda>p. \<not> due_ping t (rs_activityDays S) p) (pings d) \<and>
     filter (\<lambda>i. \<not> due_invitation t (rs_invitationDays S) i) (invitations d') =
       filter (\<lambda>i. \<not> due_invitation t (rs_invitationDays S) i) (invitations d) \<and>
     otherTables d' = otherTables d"

definition sparing :: "retention_settings \<Rightarrow> millis \<Rightarrow> world \<Rightarrow> world \<Rightarrow> bool" where
  "sparing S t s s' \<longleftrightarrow> (purge_keys (db s) \<longrightarrow> purge_keys (db s') \<and> spares S t (db s) (db s'))"

lemma spares_refl: "spares S t d d"
  by (simp add: spares_def)

lemma spares_trans: "spares S t a b \<Longrightarrow> spares S t b c \<Longrightarrow> spares S t a c"
  by (simp add: spares_def)

interpretation sparing: frame_rel "sparing S t" for S t
  by unfold_locales (auto simp: sparing_def intro: spares_refl spares_trans)

lemma live_kept: "\<forall>x \<in> set xs. Q x \<longrightarrow> P x \<Longrightarrow> filter (\<lambda>x. \<not> Q x \<and> \<not> P x) xs = filter (\<lambda>x. \<not> P x) xs"
  by (induction xs) auto

lemma unlinked_due:
  "filter (\<lambda>n. \<not> due_notification t days n) (map (\<lambda>n. if P n then n\<lparr>n_activityId := None\<rparr> else n) ns) =
   map (\<lambda>n. if P n then n\<lparr>n_activityId := None\<rparr> else n) (filter (\<lambda>n. \<not> due_notification t days n) ns)"
  by (induction ns) (auto simp: due_notification_def readBefore_def)

lemma unlinked_again: "map unlinked (map (\<lambda>n. if P n then n\<lparr>n_activityId := None\<rparr> else n) ns) = map unlinked ns"
  by (auto simp: unlinked_def)

lemma unlinked_keys: "map n_id (map (\<lambda>n. if P n then n\<lparr>n_activityId := None\<rparr> else n) ns) = map n_id ns"
  by auto

lemma spared_step:
  assumes "\<And>s. purge_keys (db s) \<Longrightarrow> purges_or_not table remove P s (m s)"
    and "\<And>Q d. purge_keys d \<Longrightarrow> \<forall>x \<in> set (table d). Q x \<longrightarrow> P x \<Longrightarrow> purge_keys (remove Q d) \<and> spares S t d (remove Q d)"
  shows "frames (sparing S t) m"
  unfolding frames_def
proof
  fix s
  show "sparing S t s (snd (m s))"
  proof (cases "purge_keys (db s)")
    case True
    from assms(1)[OF True] True show ?thesis
      using assms(2)[OF True] spares_refl by (fastforce simp: purges_or_not_def purges_def sparing_def)
  qed (simp add: sparing_def)
qed

lemma sweeps_rows: "sweeps s ks r \<Longrightarrow> db (snd r) = db s"
  by (auto simp: sweeps_def)

lemma sweepOrphanFiles_rows:
  assumes "lists (pl_listing pl)"
  shows "db (snd (sweepOrphanFiles pl t s)) = db s"
  using sweepOrphanFiles_sweeps[OF assms, of t s] by (auto dest: sweeps_rows)

lemma cleanupTables_spares:
  assumes "scans (pl_scan pl)" "lists (pl_listing pl)"
  shows "frames (sparing S t) (cleanupTables pl t S)"
proof -
  note steps = purge_steps[OF assms(1)]
  note now_defs = purge_keys_def spares_def otherTables_def distinct_map_filter
  have "frames (sparing S t) (purgeSessions pl t)"
    by (rule spared_step[OF steps(1)]) (use live_kept[where P = "\<lambda>x. ss_expiresAt x < t"] in \<open>auto simp: now_defs not_less\<close>)
  moreover have "frames (sparing S t) (purgeVerifications pl t)"
    by (rule spared_step[OF steps(2)]) (use live_kept[where P = "\<lambda>x. vf_expiresAt x < t"] in \<open>auto simp: now_defs not_less\<close>)
  moreover have "frames (sparing S t) (purgeNotifications pl t (rs_notificationDays S))"
    by (rule spared_step[OF steps(3)]) (simp_all add: now_defs live_kept)
  moreover have "frames (sparing S t) (purgeActivities pl t (rs_activityDays S))"
    by (rule spared_step[OF steps(4)])
      (simp_all add: now_defs delete_activities_def Let_def live_kept unlinked_due unlinked_again unlinked_keys del: map_map)
  moreover have "frames (sparing S t) (purgePings pl t (rs_activityDays S))"
    by (rule spared_step[OF steps(5)]) (simp_all add: now_defs live_kept)
  moreover have "frames (sparing S t) (purgeInvitations pl t (rs_invitationDays S))"
    by (rule spared_step[OF steps(6)]) (simp_all add: now_defs live_kept)
  moreover have "frames (sparing S t) (sweepOrphanFiles pl t)"
    by (simp add: frames_def sparing_def sweepOrphanFiles_rows[OF assms(2)] spares_refl)
  ultimately show ?thesis
    unfolding cleanupTables_def by (intro sparing.frame_rules)
qed

lemma runCleanup_run:
  "runCleanup pl t s =
     (case retentionSettings (environ s) of
        Inl e \<Rightarrow> (Inl e, s)
      | Inr S \<Rightarrow> if \<not> rs_enabled S then (Inr emptyCounts, s)
          else (case cleanupTables pl t S s of
                  (Inl e, s') \<Rightarrow> (Inl e, s')
                | (Inr c, s') \<Rightarrow> (Inr c, s'\<lparr>logs := logs s' @ [cleanupLine (clock s') c]\<rparr>)))"
  by (simp add: runCleanup_def run andThen_def[of "cleanupTables _ _ _"] split: sum.split prod.split)

lemma runCleanup_spares:
  assumes "scans (pl_scan pl)" "lists (pl_listing pl)" "retentionSettings (environ s) = Inr S"
  shows "sparing S t s (snd (runCleanup pl t s))"
proof -
  have "sparing S t s (snd (cleanupTables pl t S s))"
    using cleanupTables_spares[OF assms(1,2), of S t] by (simp add: frames_def)
  then show ?thesis
    by (auto simp: runCleanup_run assms(3) sparing_def spares_refl split: sum.split prod.split)
qed

section \<open>Files\<close>

definition keeping :: "millis option \<Rightarrow> world \<Rightarrow> world \<Rightarrow> bool" where
  "keeping c s s' \<longleftrightarrow> attachments (db s') = attachments (db s) \<and> environ s' = environ s \<and> set (files s') \<subseteq> set (files s) \<and>
     (distinct (map sf_key (files s)) \<longrightarrow> distinct (map sf_key (files s')) \<and>
        (\<forall>f \<in> set (files s). claimed (db s) (sf_key f) \<or> tooFresh c f \<longrightarrow> f \<in> set (files s')))"

interpretation keeping: frame_rel "keeping c" for c
  by unfold_locales (auto simp: keeping_def claimed_def)

text \<open>Whatever the sweeps of the six tables keep, they keep one statement at a time.\<close>

lemma batched_frames:
  assumes "frame_rel R" and "\<And>Q. frames R (writeDb (remove Q))"
  shows "frames R (deleteInBatches (deleteBatch pl table key remove P))"
    and "frames R (withCutoff pl cutoff (\<lambda>x. deleteInBatches (deleteBatch pl table key remove (W x))))"
proof -
  note rules = frame_rel.frame_rules[OF assms(1)]
  have read: "frames R (readDb f)" for f :: "database \<Rightarrow> 'x"
    by (rule frame_rel.frames_still[OF assms(1)]) (simp add: run)
  have batch: "frames R (deleteBatch pl table key remove P)" for P
    unfolding deleteBatch_def by (intro rules assms(2) read)
  have "frames R (batches n (deleteBatch pl table key remove P))" for n P
    by (induction n) (simp_all add: rules batch)
  then have all: "frames R (deleteInBatches (deleteBatch pl table key remove P))" for P
    by (simp add: deleteInBatches_def)
  show "frames R (deleteInBatches (deleteBatch pl table key remove P))" by (rule all)
  show "frames R (withCutoff pl cutoff (\<lambda>x. deleteInBatches (deleteBatch pl table key remove (W x))))"
    by (cases cutoff; cases "pl_invalidDate pl") (simp_all add: withCutoff_def all rules)
qed

lemma cleanupTables_frames:
  assumes "frame_rel R"
    and "\<And>Q. frames R (writeDb (sessions_update (filter (\<lambda>x. \<not> Q x))))"
    and "\<And>Q. frames R (writeDb (verifications_update (filter (\<lambda>x. \<not> Q x))))"
    and "\<And>Q. frames R (writeDb (notifications_update (filter (\<lambda>x. \<not> Q x))))"
    and "\<And>Q. frames R (writeDb (delete_activities Q))"
    and "\<And>Q. frames R (writeDb (pings_update (filter (\<lambda>x. \<not> Q x))))"
    and "\<And>Q. frames R (writeDb (invitations_update (filter (\<lambda>x. \<not> Q x))))"
    and "frames R (sweepOrphanFiles pl t)"
  shows "frames R (cleanupTables pl t S)"
  unfolding cleanupTables_def purgeSessions_def purgeVerifications_def purgeNotifications_def purgeActivities_def
    purgePings_def purgeInvitations_def
  by (intro frame_rel.frame_rules[OF assms(1)] batched_frames[OF assms(1)] assms(2-8))

lemma still_attachments: "frames (keeping c) (writeDb f)" if "\<And>d. attachments (f d) = attachments d"
  using that by (simp add: frames_def run keeping_def)

lemma sweeps_keep:
  assumes "sweeps s (swept c (files s)) r"
  shows "keeping c s (snd r)"
proof -
  obtain n gone where r: "r = (Inr n, s\<lparr>files := filter (\<lambda>f. sf_key f \<notin> gone) (files s)\<rparr>)"
    and gone: "gone \<subseteq> orphans (db s) (swept c (files s))"
    using assms by (auto simp: sweeps_def)
  have "sf_key f \<notin> gone"
    if "f \<in> set (files s)" "distinct (map sf_key (files s))" "claimed (db s) (sf_key f) \<or> tooFresh c f" for f
    using that gone unfolding orphans_def swept_def distinct_map inj_on_def by auto
  then show ?thesis by (auto simp: keeping_def r distinct_map_filter)
qed

lemma cleanupTables_keeps_files:
  assumes "lists (pl_listing pl)" "orphanGraceMs (environ s) = Inr g"
  shows "keeping (js_date (t - g)) s (snd (cleanupTables pl t S s))"
proof -
  let ?R = "\<lambda>s s'. orphanGraceMs (environ s) = Inr g \<longrightarrow> keeping (js_date (t - g)) s s'"
  have R: "frame_rel ?R"
    by unfold_locales (use keeping.refl keeping.trans in \<open>auto simp: keeping_def claimed_def\<close>)
  have "frames ?R (sweepOrphanFiles pl t)"
    unfolding frames_def
  proof (intro allI impI)
    fix s :: world
    assume "orphanGraceMs (environ s) = Inr g"
    then show "keeping (js_date (t - g)) s (snd (sweepOrphanFiles pl t s))"
      using sweepOrphanFiles_sweeps[OF assms(1), of t s] sweeps_keep[of s "js_date (t - g)" "sweepOrphanFiles pl t s"] keeping.refl
      by auto
  qed
  then have "frames ?R (cleanupTables pl t S)"
    by (intro cleanupTables_frames R) (use still_attachments in \<open>simp_all add: frames_def delete_activities_def Let_def\<close>)
  then show ?thesis using assms(2) by (simp add: frames_def)
qed

lemma runCleanup_keeps_files:
  assumes "lists (pl_listing pl)" "orphanGraceMs (environ s) = Inr g"
  shows "keeping (js_date (t - g)) s (snd (runCleanup pl t s))"
proof (cases "retentionSettings (environ s)")
  case (Inr S)
  have logs: "keeping c s u \<Longrightarrow> keeping c s (u\<lparr>logs := lines\<rparr>)" for c u lines by (simp add: keeping_def)
  have "keeping (js_date (t - g)) s (snd (cleanupTables pl t S s))"
    by (rule cleanupTables_keeps_files[OF assms])
  then show ?thesis
    using logs by (auto simp: runCleanup_run Inr keeping.refl split: sum.split prod.split)
qed (simp add: runCleanup_run keeping.refl)

section \<open>References, keys and stored files\<close>

definition upkeep :: "world \<Rightarrow> world \<Rightarrow> bool" where
  "upkeep s s' \<longleftrightarrow> clock s' = clock s \<and> environ s' = environ s \<and> uuids s' = uuids s \<and> drawn s' = drawn s \<and>
     outbox s' = outbox s \<and> mails s' = mails s \<and> prefix (logs s) (logs s') \<and>
     (keyed s \<longrightarrow> keyed s') \<and> (stored s \<longrightarrow> stored s') \<and> (ref_integrity (db s) \<longrightarrow> ref_integrity (db s'))"

interpretation upkeep: frame_rel upkeep
  by unfold_locales (auto simp: upkeep_def intro: prefix_order.trans)

lemma upkeep_write:
  assumes "\<And>d. unique_ids d \<Longrightarrow> unique_ids (f d)" "\<And>d. used_ids (f d) \<subseteq> used_ids d" "\<And>d. attachments (f d) = attachments d"
    and "\<And>d. ref_integrity d \<Longrightarrow> ref_integrity (f d)"
  shows "frames upkeep (writeDb f)"
  using assms by (auto simp: frames_def upkeep_def run keyed_write stored_def)

lemma sweeps_upkeep:
  assumes "sweeps s ks r" shows "upkeep s (snd r)"
proof -
  obtain n gone where r: "r = (Inr n, s\<lparr>files := filter (\<lambda>f. sf_key f \<notin> gone) (files s)\<rparr>)"
    and gone: "gone \<subseteq> orphans (db s) ks"
    using assms by (auto simp: sweeps_def)
  have "stored (s\<lparr>files := filter (\<lambda>f. sf_key f \<notin> gone) (files s)\<rparr>)" if st: "stored s"
    unfolding stored_def
  proof (intro conjI ballI allI impI)
    fix a assume "a \<in> set (attachments (db (s\<lparr>files := filter (\<lambda>f. sf_key f \<notin> gone) (files s)\<rparr>)))"
    then have a: "a \<in> set (attachments (db s))" by simp
    then have "backed (files s) a" using st by (simp add: stored_def)
    moreover have "sf_key f \<notin> gone" if "a_storageKey a = Some (sf_key f)" for f
      using gone a that by (auto simp: orphans_def claimed_def list_ex_iff)
    ultimately show "backed (files (s\<lparr>files := filter (\<lambda>f. sf_key f \<notin> gone) (files s)\<rparr>)) a"
      by (auto simp: backed_def)
  qed (use st in \<open>auto simp: stored_def\<close>)
  then show ?thesis by (simp add: upkeep_def r keyed_def)
qed

lemma sweepOrphanFiles_upkeep: "frames upkeep (sweepOrphanFiles pl t)"
  unfolding frames_def using sweepOrphanFiles_any[of pl t] sweeps_upkeep upkeep.refl by (metis snd_conv)

lemma authentication_writes:
  "frames upkeep (writeDb (sessions_update (filter (\<lambda>x. \<not> Q x))))"
  "frames upkeep (writeDb (verifications_update (filter (\<lambda>x. \<not> R x))))"
  "frames upkeep (writeDb (pings_update (filter (\<lambda>x. \<not> V x))))"
  by (simp_all add: frames_def run upkeep_def keyed_def stored_def unique_ids_def used_ids_def ref_integrity_def refs_filter)

lemma invitations_write: "frames upkeep (writeDb (invitations_update (filter (\<lambda>x. \<not> Q x))))"
proof (rule upkeep_write)
  show "used_ids (invitations_update (filter (\<lambda>x. \<not> Q x)) d) \<subseteq> used_ids d" for d by (fastforce simp: used_ids_def)
qed (simp_all add: unique_ids_def distinct_map_filter, simp add: ref_integrity_def refs_filter)

lemma notifications_write: "frames upkeep (writeDb (notifications_update (filter (\<lambda>x. \<not> Q x))))"
proof (rule upkeep_write)
  show "ref_integrity d \<Longrightarrow> ref_integrity (notifications_update (filter (\<lambda>x. \<not> Q x)) d)" for d
    by (simp add: ref_integrity_def refs_filter opt_refs_filter)
qed (simp_all add: unique_ids_def used_ids_def)

lemma activities_write: "frames upkeep (writeDb (delete_activities Q))"
proof (rule upkeep_write)
  show "ref_integrity d \<Longrightarrow> ref_integrity (delete_activities Q d)" for d by (rule delete_activities_integrity)
qed (simp_all add: unique_ids_def used_ids_def)

lemma cleanupTables_upkeep: "frames upkeep (cleanupTables pl t S)"
  by (intro cleanupTables_frames upkeep.frame_rel_axioms authentication_writes invitations_write notifications_write
      activities_write sweepOrphanFiles_upkeep)

lemma upkeep_logs: "upkeep s t \<Longrightarrow> upkeep s (t\<lparr>logs := logs t @ lines\<rparr>)"
  by (auto simp: upkeep_def keyed_def stored_def)

lemma runCleanup_upkeep: "frames upkeep (runCleanup pl t)"
  unfolding frames_def
proof
  fix s
  show "upkeep s (snd (runCleanup pl t s))"
  proof (cases "retentionSettings (environ s)")
    case (Inr S)
    have "upkeep s (snd (cleanupTables pl t S s))"
      using cleanupTables_upkeep by (simp add: frames_def)
    then show ?thesis
      using upkeep_logs by (auto simp: runCleanup_run Inr upkeep.refl split: sum.split prod.split)
  qed (simp add: runCleanup_run upkeep.refl)
qed

lemma cleanup_process_upkeep: "frames upkeep (cleanup_process pl)"
  unfolding cleanup_process_def now_def by (intro upkeep.frame_rules runCleanup_upkeep)

section \<open>A run below the ceilings\<close>

definition tally :: "retention_settings \<Rightarrow> millis \<Rightarrow> database \<Rightarrow> nat \<Rightarrow> cleanup_counts" where
  "tally S t d orphaned =
     \<lparr>cc_sessions = length (filter (\<lambda>x. ss_expiresAt x < t) (sessions d)),
      cc_verifications = length (filter (\<lambda>v. vf_expiresAt v < t) (verifications d)),
      cc_notifications = length (filter (due_notification t (rs_notificationDays S)) (notifications d)),
      cc_activities = length (filter (due_activity t (rs_activityDays S)) (activities d)),
      cc_usagePings = length (filter (due_ping t (rs_activityDays S)) (pings d)),
      cc_invitations = length (filter (due_invitation t (rs_invitationDays S)) (invitations d)),
      cc_orphanedFiles = orphaned\<rparr>"

lemma cleanupTables_exact:
  assumes "scans (pl_scan pl)" "purge_keys (db s)" "within_ceiling S t (db s)"
    and "datable t (rs_notificationDays S)" "datable t (rs_activityDays S)" "datable t (rs_invitationDays S)"
  obtains s6 where "db s6 = retained S t (db s)" "cleanupTables pl t S s =
    (case sweepOrphanFiles pl t s6 of (Inl e, s') \<Rightarrow> (Inl e, s')
     | (Inr n, s') \<Rightarrow> (Inr (tally S t (db s) n), s'))"
proof -
  note steps = exact_steps[OF assms(1)]
  let ?d = "\<lambda>f s. s\<lparr>db := f (db s)\<rparr>"
  let ?s1 = "?d (sessions_update (filter (\<lambda>x. \<not> ss_expiresAt x < t))) s"
  let ?s2 = "?d (verifications_update (filter (\<lambda>v. \<not> vf_expiresAt v < t))) ?s1"
  let ?s3 = "?d (notifications_update (filter (\<lambda>n. \<not> due_notification t (rs_notificationDays S) n))) ?s2"
  let ?s4 = "?d (delete_activities (due_activity t (rs_activityDays S))) ?s3"
  let ?s5 = "?d (pings_update (filter (\<lambda>p. \<not> due_ping t (rs_activityDays S) p))) ?s4"
  let ?s6 = "?d (invitations_update (filter (\<lambda>i. \<not> due_invitation t (rs_invitationDays S) i))) ?s5"
  have keys: "distinct (map ss_id (sessions (db s)))" "distinct (map vf_id (verifications (db s)))"
    "distinct (map n_id (notifications (db s)))" "distinct (map ac_id (activities (db s)))"
    "distinct (map up_id (pings (db s)))" "distinct (map i_id (invitations (db s)))"
    using assms(2) by (simp_all add: purge_keys_def)
  note within = assms(3)[unfolded within_ceiling_def, simplified]
  have "db ?s6 = retained S t (db s)"
    by (simp add: retained_def delete_activities_def Let_def not_less)
  moreover have "purgeSessions pl t s = (Inr (length (filter (\<lambda>x. ss_expiresAt x < t) (sessions (db s)))), ?s1)"
    by (rule steps(1)) (use keys within in simp_all)
  moreover have "purgeVerifications pl t ?s1 = (Inr (length (filter (\<lambda>v. vf_expiresAt v < t) (verifications (db s)))), ?s2)"
    using steps(2)[of ?s1 t] keys within by simp
  moreover have "purgeNotifications pl t (rs_notificationDays S) ?s2 =
      (Inr (length (filter (due_notification t (rs_notificationDays S)) (notifications (db s)))), ?s3)"
    using steps(3)[of ?s2 t "rs_notificationDays S"] keys within assms(4) by simp
  moreover have "purgeActivities pl t (rs_activityDays S) ?s3 =
      (Inr (length (filter (due_activity t (rs_activityDays S)) (activities (db s)))), ?s4)"
    using steps(4)[of ?s3 t "rs_activityDays S"] keys within assms(5) by simp
  moreover have "purgePings pl t (rs_activityDays S) ?s4 =
      (Inr (length (filter (due_ping t (rs_activityDays S)) (pings (db s)))), ?s5)"
    using steps(5)[of ?s4 t "rs_activityDays S"] keys within assms(5) by simp
  moreover have "purgeInvitations pl t (rs_invitationDays S) ?s5 =
      (Inr (length (filter (due_invitation t (rs_invitationDays S)) (invitations (db s)))), ?s6)"
    using steps(6)[of ?s5 t "rs_invitationDays S"] keys within assms(6) by simp
  ultimately show ?thesis
    by (intro that[of ?s6]) (simp_all only: cleanupTables_def tally_def andThen_def ret_def prod.case sum.case)
qed

end
