(* ===== verification/DueSoonReminders.thy ===== *)
theory DueSoonReminders
  imports Notifications History "HOL-Library.Product_Lexorder"
begin

text \<open>
  \<open>apps/api/src/notification/due-soon.worker.ts\<close>: every quarter of an hour the tasks due within a day are
  read in pages, by due date and id, and each assignee who was not told yet gets a reminder, a signal and
  a mail. The partial unique index of the notifications allows one unread reminder for a task and a user.
\<close>

section \<open>A page of tasks\<close>

definition DUE_WINDOW_MS :: millis where
  "DUE_WINDOW_MS = 24 * 60 * 60 * 1000"

definition SCAN_BATCH_SIZE :: nat where
  "SCAN_BATCH_SIZE = 500"

record scan_task =
  st_id :: ident
  st_title :: string
  st_dueDate :: "millis option"
  st_workspaceId :: ident
  st_assignees :: "ident list"

definition dueAssignees :: "database \<Rightarrow> ident \<Rightarrow> ident list" where
  "dueAssignees d taskId = map ta_userId (filter (\<lambda>x. ta_taskId x = taskId) (assignees d))"

definition workspaceOfBoard :: "database \<Rightarrow> ident \<Rightarrow> ident" where
  "workspaceOfBoard d boardId =
     (case find (\<lambda>b. b_id b = boardId) (boards d) of None \<Rightarrow> [] | Some b \<Rightarrow> b_workspaceId b)"

definition scanTask :: "database \<Rightarrow> task_row \<Rightarrow> scan_task" where
  "scanTask d x = \<lparr>st_id = t_id x, st_title = t_title x, st_dueDate = t_dueDate x,
     st_workspaceId = workspaceOfBoard d (t_boardId x), st_assignees = dueAssignees d (t_id x)\<rparr>"

text \<open>\<open>dueDate: \{ gt: now, lte: until \}\<close> and at least one assignee.\<close>

definition dueWithin :: "database \<Rightarrow> millis \<Rightarrow> millis \<Rightarrow> task_row \<Rightarrow> bool" where
  "dueWithin d t until x \<longleftrightarrow>
     (case t_dueDate x of None \<Rightarrow> False | Some due \<Rightarrow> t < due \<and> due \<le> until) \<and> dueAssignees d (t_id x) \<noteq> []"

type_synonym scan_cursor = "(millis \<times> ident) option"

definition pastCursor :: "scan_cursor \<Rightarrow> task_row \<Rightarrow> bool" where
  "pastCursor cursor x \<longleftrightarrow>
     (case cursor of
        None \<Rightarrow> True
      | Some (due, k) \<Rightarrow>
          (case t_dueDate x of None \<Rightarrow> False | Some due' \<Rightarrow> due < due' \<or> (due' = due \<and> k < t_id x)))"

definition dueKey :: "task_row \<Rightarrow> millis \<times> ident" where
  "dueKey x = (case t_dueDate x of None \<Rightarrow> 0 | Some due \<Rightarrow> due, t_id x)"

definition scanPage :: "millis \<Rightarrow> millis \<Rightarrow> scan_cursor \<Rightarrow> database \<Rightarrow> scan_task list" where
  "scanPage t until cursor d =
     map (scanTask d) (take SCAN_BATCH_SIZE
       (sort_key dueKey (filter (\<lambda>x. dueWithin d t until x \<and> pastCursor cursor x) (tasks d))))"

section \<open>A batch of reminders\<close>

definition pairsOf :: "scan_task list \<Rightarrow> (ident \<times> ident) list" where
  "pairsOf ts =
     concat (map (\<lambda>x. if st_dueDate x = None then [] else map (\<lambda>u. (st_id x, u)) (st_assignees x)) ts)"

text \<open>Told: the reminder is unread, or younger than the window.\<close>

definition toldBy :: "millis \<Rightarrow> ident \<times> ident \<Rightarrow> notification_row \<Rightarrow> bool" where
  "toldBy since p n \<longleftrightarrow>
     n_type n = DueSoon \<and> n_taskId n = Some (fst p) \<and> n_userId n = snd p \<and> (n_readAt n = None \<or> since \<le> n_createdAt n)"

definition findAlreadyNotified :: "(ident \<times> ident) list \<Rightarrow> millis \<Rightarrow> database \<Rightarrow> (ident \<times> ident) list" where
  "findAlreadyNotified pairs since d = filter (\<lambda>p. list_ex (toldBy since p) (notifications d)) pairs"

record reminder =
  rm_workspaceId :: ident
  rm_userId :: ident
  rm_taskId :: ident
  rm_payload :: json

definition remindersFor :: "(ident \<times> ident) list \<Rightarrow> scan_task list \<Rightarrow> reminder list" where
  "remindersFor skip ts =
     concat (map (\<lambda>x. case st_dueDate x of
          None \<Rightarrow> []
        | Some due \<Rightarrow> map (\<lambda>u. \<lparr>rm_workspaceId = st_workspaceId x, rm_userId = u, rm_taskId = st_id x,
              rm_payload = JObj [(''title'', JStr (st_title x)), (''dueDate'', JNum (of_int due)),
                                 (''type'', JStr (notification_name DueSoon))]\<rparr>)
            (filter (\<lambda>u. (st_id x, u) \<notin> set skip) (st_assignees x))) ts)"

text \<open>\<open>createMany(.., skipDuplicates)\<close>: a row the unique index refuses is left out.\<close>

fun createReminders :: "reminder list \<Rightarrow> nat request" where
  "createReminders [] = ret 0"
| "createReminders (r # rs) =
     andThen freshId (\<lambda>newId. andThen now (\<lambda>t.
     andThen (readDb (\<lambda>d. list_ex (\<lambda>n. n_type n = DueSoon \<and> n_taskId n = Some (rm_taskId r) \<and>
                n_userId n = rm_userId r \<and> n_readAt n = None) (notifications d))) (\<lambda>taken.
     andThen (whenever (\<not> taken) (writeDb (\<lambda>d. d\<lparr>notifications := notifications d @
        [\<lparr>n_id = newId, n_workspaceId = rm_workspaceId r, n_userId = rm_userId r, n_type = DueSoon,
          n_taskId = Some (rm_taskId r), n_activityId = None, n_payload = rm_payload r, n_readAt = None,
          n_createdAt = t\<rparr>]\<rparr>))) (\<lambda>_.
     andThen (createReminders rs) (\<lambda>n.
       ret (if taken then n else Suc n))))))"

definition notifyBatch :: "scan_task list \<Rightarrow> millis \<Rightarrow> (nat \<times> reminder list) request" where
  "notifyBatch ts since =
     (let pairs = pairsOf ts
      in if pairs = [] then ret (0, [])
         else andThen (readDb (findAlreadyNotified pairs since)) (\<lambda>skip.
              let rows = remindersFor skip ts
              in if rows = [] then ret (0, [])
                 else andThen (createReminders rows) (\<lambda>created.
                      if created = 0 then ret (0, []) else ret (created, rows))))"

section \<open>The scan\<close>

text \<open>The tasks a scan has still to read.\<close>

definition unread :: "millis \<Rightarrow> millis \<Rightarrow> scan_cursor \<Rightarrow> database \<Rightarrow> task_row list" where
  "unread t until cursor d = filter (\<lambda>x. dueWithin d t until x \<and> pastCursor cursor x) (tasks d)"

definition same_tasks :: "world \<Rightarrow> world \<Rightarrow> bool" where
  "same_tasks s s' \<longleftrightarrow> tasks (db s') = tasks (db s) \<and> assignees (db s') = assignees (db s)"

interpretation same_tasks: frame_rel same_tasks
  by unfold_locales (simp_all add: same_tasks_def)

lemma createReminders_same: "frames same_tasks (createReminders rs)"
proof (induction rs)
  case (Cons r rs)
  have "frames same_tasks (writeDb (\<lambda>d. d\<lparr>notifications := notifications d @ N\<rparr>))" for N
    by (simp add: frames_def run same_tasks_def)
  moreover have "frames same_tasks freshId" by (simp add: frames_def run same_tasks_def)
  moreover have "frames same_tasks (readDb f)" for f :: "database \<Rightarrow> bool" by (simp add: frames_def run same_tasks_def)
  moreover have "frames same_tasks now" by (simp add: frames_def run same_tasks_def)
  ultimately show ?case unfolding createReminders.simps by (intro same_tasks.frame_rules Cons.IH)
qed (simp add: same_tasks.frame_rules)

lemma notifyBatch_same: "frames same_tasks (notifyBatch ts since)"
proof -
  have "frames same_tasks (readDb f)" for f :: "database \<Rightarrow> (ident \<times> ident) list"
    by (simp add: frames_def run same_tasks_def)
  then show ?thesis
    unfolding notifyBatch_def Let_def by (intro same_tasks.frame_rules createReminders_same)
qed

lemma pastCursor_irrefl: "t_dueDate x = Some due \<Longrightarrow> \<not> pastCursor (Some (due, t_id x)) x"
  by (simp add: pastCursor_def)

lemma pastCursor_trans:
  "t_dueDate x = Some due \<Longrightarrow> pastCursor cursor x \<Longrightarrow> pastCursor (Some (due, t_id x)) y \<Longrightarrow> pastCursor cursor y"
  by (auto simp: pastCursor_def split: option.splits)

lemma unread_shrinks:
  assumes "x \<in> set (unread t until cursor d)" "t_dueDate x = Some due"
    and "tasks d' = tasks d" "assignees d' = assignees d"
  shows "length (unread t until (Some (due, t_id x)) d') < length (unread t until cursor d)"
proof -
  have same: "dueWithin d' = dueWithin d" using assms(4) by (simp add: fun_eq_iff dueWithin_def dueAssignees_def)
  have "unread t until (Some (due, t_id x)) d' = filter (pastCursor (Some (due, t_id x))) (unread t until cursor d)"
    using assms(1,2) pastCursor_trans by (auto simp: unread_def same assms(3) intro!: filter_cong)
  then show ?thesis
    using length_filter_less[OF assms(1), of "pastCursor (Some (due, t_id x))"] pastCursor_irrefl[OF assms(2)] by simp
qed

lemma last_of_page:
  assumes "page = scanPage t until cursor d" "page \<noteq> []"
  obtains x where "x \<in> set (unread t until cursor d)" "last page = scanTask d x"
proof -
  let ?xs = "take SCAN_BATCH_SIZE (sort_key dueKey (unread t until cursor d))"
  have page: "page = map (scanTask d) ?xs" by (simp add: assms(1) scanPage_def unread_def)
  then have "?xs \<noteq> []" using assms(2) by auto
  then have "last ?xs \<in> set (unread t until cursor d)" by (metis last_in_set in_set_takeD set_sort)
  moreover have "last page = scanTask d (last ?xs)" using \<open>?xs \<noteq> []\<close> by (simp add: page last_map del: take_eq_Nil)
  ultimately show ?thesis by (rule that)
qed

text \<open>The pages, from a cursor on: how many reminders were created, and for whom.\<close>

function scanPages :: "millis \<Rightarrow> scan_cursor \<Rightarrow> world \<Rightarrow> (http_error + nat \<times> reminder list) \<times> world" where
  "scanPages t cursor s =
     (let page = scanPage t (t + DUE_WINDOW_MS) cursor (db s)
      in if page = [] then (Inr (0, []), s)
         else case notifyBatch page (t - DUE_WINDOW_MS) s of
           (Inl e, s') \<Rightarrow> (Inl e, s')
         | (Inr (created, recipients), s') \<Rightarrow>
             if length page < SCAN_BATCH_SIZE then (Inr (created, recipients), s')
             else case st_dueDate (last page) of
               None \<Rightarrow> (Inr (created, recipients), s')
             | Some due \<Rightarrow>
                 (case scanPages t (Some (due, st_id (last page))) s' of
                    (Inl e, s'') \<Rightarrow> (Inl e, s'')
                  | (Inr (n, rs), s'') \<Rightarrow> (Inr (created + n, recipients @ rs), s'')))"
  by pat_completeness auto
termination
proof (relation "measure (\<lambda>(t, cursor, s). length (unread t (t + DUE_WINDOW_MS) cursor (db s)))")
  fix t cursor s page r s' b pr created recipients due
  assume page: "page = scanPage t (t + DUE_WINDOW_MS) cursor (db s)" "page \<noteq> []"
    and step: "(r, s') = notifyBatch page (t - DUE_WINDOW_MS) s" and due: "st_dueDate (last page) = Some due"
  obtain x where x: "x \<in> set (unread t (t + DUE_WINDOW_MS) cursor (db s))" "last page = scanTask (db s) x"
    by (rule last_of_page[OF page])
  have "same_tasks s s'" using notifyBatch_same step unfolding frames_def by (metis snd_conv)
  then show "((t, Some (due, st_id (last page)), s'), t, cursor, s)
      \<in> measure (\<lambda>(t, cursor, s). length (unread t (t + DUE_WINDOW_MS) cursor (db s)))"
    using unread_shrinks[OF x(1)] due by (simp add: x(2) scanTask_def same_tasks_def)
qed simp

declare scanPages.simps [simp del]

text \<open>One signal for each user of each workspace, workspaces in the order they came up.\<close>

definition recipientsOf :: "reminder list \<Rightarrow> ident \<Rightarrow> ident list" where
  "recipientsOf rs w = map rm_userId (filter (\<lambda>r. rm_workspaceId r = w) rs)"

definition runScan :: "nat request" where
  "runScan =
     andThen now (\<lambda>t.
     andThen (scanPages t None) (\<lambda>(totalCreated, recipients).
     andThen (forEach (unique (map rm_workspaceId recipients))
                (\<lambda>w. emitUnreadChanged w (recipientsOf recipients w))) (\<lambda>_.
     andThen (sendForCreated (map (\<lambda>r. \<lparr>mi_workspaceId = rm_workspaceId r, mi_userId = rm_userId r,
                mi_actorId = None, mi_type = DueSoon, mi_taskId = rm_taskId r\<rparr>) recipients)) (\<lambda>_.
       ret totalCreated))))"

end
