(* ===== verification/DueSoonFacts.thy ===== *)
theory DueSoonFacts
  imports DueSoonReminders AccountFacts
begin

text \<open>
  The reminder scan: its pages come to one pass over the due tasks, no reminder it writes is refused by the
  unique index, and what it leaves in the world.
\<close>

section \<open>Pages\<close>

definition dueList :: "millis \<Rightarrow> database \<Rightarrow> task_row list" where
  "dueList t d = sort_key dueKey (filter (dueWithin d t (t + DUE_WINDOW_MS)) (tasks d))"

lemma scanPage_alt:
  "scanPage t (t + DUE_WINDOW_MS) cursor d =
     map (scanTask d) (take SCAN_BATCH_SIZE (filter (pastCursor cursor) (dueList t d)))"
proof -
  have "filter (pastCursor cursor) (dueList t d) =
      sort_key dueKey (filter (\<lambda>x. dueWithin d t (t + DUE_WINDOW_MS) x \<and> pastCursor cursor x) (tasks d))"
    unfolding dueList_def filter_sort by (simp add: conj_commute)
  then show ?thesis by (simp only: scanPage_def)
qed

lemma dueList_due: "x \<in> set (dueList t d) \<Longrightarrow> \<exists>due. t_dueDate x = Some due"
  by (auto simp: dueList_def dueWithin_def split: option.splits)

lemma dueList_strict:
  assumes "distinct (map t_id (tasks d))"
  shows "sorted_wrt (\<lambda>x y. dueKey x < dueKey y) (dueList t d)"
proof -
  let ?xs = "filter (dueWithin d t (t + DUE_WINDOW_MS)) (tasks d)"
  have "distinct (map t_id ?xs)" using assms by (rule distinct_map_filter)
  then have "distinct (map dueKey ?xs)"
    by (auto simp: distinct_map dueKey_def inj_on_def)
  then have "distinct (map dueKey (dueList t d))" "sorted (map dueKey (dueList t d))"
    by (simp_all add: dueList_def distinct_map)
  then have "sorted_wrt (<) (map dueKey (dueList t d))" by (simp add: strict_sorted_iff)
  then show ?thesis by (simp add: sorted_wrt_map)
qed

lemma pastCursor_key:
  assumes "t_dueDate x = Some due" "t_dueDate y = Some due'"
  shows "pastCursor (Some (due, t_id x)) y \<longleftrightarrow> dueKey x < dueKey y"
  using assms by (auto simp: pastCursor_def dueKey_def less_prod_def)

lemma rest_after:
  assumes "distinct (map t_id (tasks d))" "dueList t d = before @ x # rest" "t_dueDate x = Some due"
  shows "filter (pastCursor (Some (due, t_id x))) (dueList t d) = rest"
proof -
  have past: "pastCursor (Some (due, t_id x)) y \<longleftrightarrow> dueKey x < dueKey y" if "y \<in> set (dueList t d)" for y
    using pastCursor_key[OF assms(3)] dueList_due[OF that] by blast
  have s: "sorted_wrt (\<lambda>x y. dueKey x < dueKey y) (before @ x # rest)"
    using dueList_strict[OF assms(1), of t] assms(2) by simp
  have "\<not> dueKey x < dueKey y" if "y \<in> set before" for y
    using s that by (auto simp: sorted_wrt_append dest: less_asym)
  moreover have "dueKey x < dueKey y" if "y \<in> set rest" for y
    using s that by (simp add: sorted_wrt_append)
  ultimately have "filter (\<lambda>y. dueKey x < dueKey y) (before @ x # rest) = rest"
    by (simp add: filter_empty_conv filter_id_conv)
  then show ?thesis using past assms(2) by (metis (mono_tags, lifting) filter_cong)
qed

section \<open>Batches\<close>

definition told :: "database \<Rightarrow> millis \<Rightarrow> ident \<times> ident \<Rightarrow> bool" where
  "told d since p \<longleftrightarrow> list_ex (toldBy since p) (notifications d)"

text \<open>The reminders still owed for some tasks.\<close>

definition owed :: "database \<Rightarrow> millis \<Rightarrow> task_row list \<Rightarrow> reminder list" where
  "owed d since xs =
     concat (map (\<lambda>x. map (\<lambda>u. \<lparr>rm_workspaceId = workspaceOfBoard d (t_boardId x), rm_userId = u, rm_taskId = t_id x,
          rm_payload = JObj [(''title'', JStr (t_title x)), (''dueDate'', JNum (of_int (the (t_dueDate x)))),
                             (''type'', JStr (notification_name DueSoon))]\<rparr>)
        (filter (\<lambda>u. \<not> told d since (t_id x, u)) (dueAssignees d (t_id x)))) xs)"

definition reminderKey :: "reminder \<Rightarrow> ident \<times> ident" where
  "reminderKey r = (rm_taskId r, rm_userId r)"

lemma owed_append: "owed d since (xs @ ys) = owed d since xs @ owed d since ys"
  by (simp add: owed_def)

lemma reminders_owed:
  assumes "\<And>x. x \<in> set xs \<Longrightarrow> t_dueDate x \<noteq> None"
  shows "remindersFor (findAlreadyNotified (pairsOf (map (scanTask d) xs)) since d) (map (scanTask d) xs) = owed d since xs"
proof -
  let ?skip = "findAlreadyNotified (pairsOf (map (scanTask d) xs)) since d"
  have skip: "(t_id x, u) \<notin> set ?skip \<longleftrightarrow> \<not> told d since (t_id x, u)"
    if "x \<in> set xs" "u \<in> set (dueAssignees d (t_id x))" for x u
    using that assms[OF that(1)]
    by (auto simp: findAlreadyNotified_def told_def pairsOf_def scanTask_def)
  have "filter (\<lambda>u. (t_id x, u) \<notin> set ?skip) (dueAssignees d (t_id x)) =
      filter (\<lambda>u. \<not> told d since (t_id x, u)) (dueAssignees d (t_id x))" if "x \<in> set xs" for x
    using skip[OF that] by (intro filter_cong) auto
  then have "(case t_dueDate x of None \<Rightarrow> []
      | Some due \<Rightarrow> map (\<lambda>u. \<lparr>rm_workspaceId = workspaceOfBoard d (t_boardId x), rm_userId = u, rm_taskId = t_id x,
          rm_payload = JObj [(''title'', JStr (t_title x)), (''dueDate'', JNum (of_int due)),
                             (''type'', JStr (notification_name DueSoon))]\<rparr>)
        (filter (\<lambda>u. (t_id x, u) \<notin> set ?skip) (dueAssignees d (t_id x)))) = owed d since [x]" if "x \<in> set xs" for x
    using that assms[OF that] by (auto simp: owed_def)
  then show ?thesis
    unfolding remindersFor_def owed_def map_map comp_def scanTask_def scan_task.simps
    by (intro arg_cong[where f = concat] map_cong refl) (simp add: owed_def)
qed

definition reminderRows :: "world \<Rightarrow> reminder list \<Rightarrow> notification_row list" where
  "reminderRows s rs =
     map (\<lambda>i. storedNotification s i (rm_workspaceId (rs ! i)) (rm_userId (rs ! i)) DueSoon (Some (rm_taskId (rs ! i)))
                None (rm_payload (rs ! i))) [0..<length rs]"

lemma reminderRows_Cons:
  "reminderRows s (r # rs) =
     storedNotification s 0 (rm_workspaceId r) (rm_userId r) DueSoon (Some (rm_taskId r)) None (rm_payload r) #
     map (\<lambda>i. storedNotification s (Suc i) (rm_workspaceId (rs ! i)) (rm_userId (rs ! i)) DueSoon (Some (rm_taskId (rs ! i)))
                None (rm_payload (rs ! i))) [0..<length rs]"
  unfolding reminderRows_def list.size One_nat_def add_Suc_right add_0_right
  by (simp add: upt_conv_Cons map_Suc_upt [symmetric] comp_def del: upt_Suc)

lemma reminderRows_later:
  "reminderRows (s\<lparr>drawn := Suc (drawn s), db := D\<rparr>) rs =
     map (\<lambda>i. storedNotification s (Suc i) (rm_workspaceId (rs ! i)) (rm_userId (rs ! i)) DueSoon (Some (rm_taskId (rs ! i)))
                None (rm_payload (rs ! i))) [0..<length rs]"
  by (simp add: reminderRows_def storedNotification_def)

lemma reminderRows_append:
  "reminderRows s (xs @ ys) = reminderRows s xs @ reminderRows (s\<lparr>drawn := drawn s + length xs, db := D\<rparr>) ys"
proof (induction xs arbitrary: s)
  case Nil
  then show ?case by (simp add: reminderRows_def storedNotification_def)
next
  case (Cons x xs)
  have "reminderRows s ((x # xs) @ ys) =
      storedNotification s 0 (rm_workspaceId x) (rm_userId x) DueSoon (Some (rm_taskId x)) None (rm_payload x) #
      reminderRows (s\<lparr>drawn := Suc (drawn s), db := D\<rparr>) (xs @ ys)"
    by (simp only: append_Cons reminderRows_Cons reminderRows_later)
  also have "\<dots> = reminderRows s (x # xs) @ reminderRows (s\<lparr>drawn := drawn s + length (x # xs), db := D\<rparr>) ys"
    unfolding Cons.IH by (simp add: reminderRows_Cons reminderRows_later)
  finally show ?case .
qed

lemma reminderRows_keys: "map (\<lambda>n. (n_taskId n, n_userId n)) (reminderRows s rs) = map (\<lambda>r. (Some (rm_taskId r), rm_userId r)) rs"
  by (rule nth_equalityI) (simp_all add: reminderRows_def storedNotification_def)

lemma reminderRows_shape:
  "n \<in> set (reminderRows s rs) \<Longrightarrow> n_type n = DueSoon \<and> n_readAt n = None \<and> n_createdAt n = clock s"
  by (auto simp: reminderRows_def storedNotification_def)

definition blocks :: "reminder \<Rightarrow> notification_row \<Rightarrow> bool" where
  "blocks r n \<longleftrightarrow> n_type n = DueSoon \<and> n_taskId n = Some (rm_taskId r) \<and> n_userId n = rm_userId r \<and> n_readAt n = None"

lemma createReminders_run:
  assumes "distinct (map reminderKey rs)" "\<forall>r \<in> set rs. \<forall>n \<in> set (notifications (db s)). \<not> blocks r n"
  shows "createReminders rs s =
    (Inr (length rs), s\<lparr>drawn := drawn s + length rs,
       db := (db s)\<lparr>notifications := notifications (db s) @ reminderRows s rs\<rparr>\<rparr>)"
  using assms
proof (induction rs arbitrary: s)
  case Nil
  then show ?case by (simp add: run reminderRows_def)
next
  case (Cons r rs)
  let ?row = "storedNotification s 0 (rm_workspaceId r) (rm_userId r) DueSoon (Some (rm_taskId r)) None (rm_payload r)"
  let ?t = "s\<lparr>drawn := Suc (drawn s), db := (db s)\<lparr>notifications := notifications (db s) @ [?row]\<rparr>\<rparr>"
  have free: "\<not> list_ex (\<lambda>n. n_type n = DueSoon \<and> n_taskId n = Some (rm_taskId r) \<and> n_userId n = rm_userId r \<and> n_readAt n = None)
      (notifications (db s))"
    using Cons.prems(2) by (auto simp: list_ex_iff blocks_def)
  have "\<forall>x \<in> set rs. \<forall>n \<in> set (notifications (db ?t)). \<not> blocks x n"
    using Cons.prems by (auto simp: blocks_def storedNotification_def reminderKey_def image_iff)
  then have "createReminders rs ?t = (Inr (length rs), ?t\<lparr>drawn := drawn ?t + length rs,
      db := (db ?t)\<lparr>notifications := notifications (db ?t) @ reminderRows ?t rs\<rparr>\<rparr>)"
    using Cons.IH[of ?t] Cons.prems(1) by simp
  then show ?case
    using free
    by (simp add: run reminderRows_Cons reminderRows_later storedNotification_def [of s 0] andThen_def[of "createReminders rs"])
qed

lemma notifyBatch_run:
  assumes "\<And>x. x \<in> set xs \<Longrightarrow> t_dueDate x \<noteq> None" "distinct (map reminderKey (owed (db s) since xs))"
  shows "notifyBatch (map (scanTask (db s)) xs) since s =
    (Inr (length (owed (db s) since xs), owed (db s) since xs),
     s\<lparr>drawn := drawn s + length (owed (db s) since xs),
       db := (db s)\<lparr>notifications := notifications (db s) @ reminderRows s (owed (db s) since xs)\<rparr>\<rparr>)"
proof -
  let ?O = "owed (db s) since xs"
  have free: "\<forall>r \<in> set ?O. \<forall>n \<in> set (notifications (db s)). \<not> blocks r n"
    by (auto simp: owed_def told_def list_ex_iff blocks_def toldBy_def)
  have none: "?O = []" if "pairsOf (map (scanTask (db s)) xs) = []"
  proof -
    have "dueAssignees (db s) (t_id x) = []" if "x \<in> set xs" for x
      using \<open>pairsOf _ = []\<close> that assms(1)[OF that] by (auto simp: pairsOf_def scanTask_def)
    then show ?thesis by (auto simp: owed_def)
  qed
  show ?thesis
    using createReminders_run[OF assms(2) free] none
    by (auto simp: notifyBatch_def Let_def run reminders_owed[OF assms(1)] andThen_def[of "createReminders _"] reminderRows_def)
qed

section \<open>The whole scan\<close>

text \<open>Reminders for some tasks tell nobody about others.\<close>

lemma told_others:
  assumes "k \<notin> rm_taskId ` set rs" "notifications d' = notifications d @ reminderRows s rs"
  shows "told d' since (k, u) = told d since (k, u)"
proof -
  have "\<not> toldBy since (k, u) n" if "n \<in> set (reminderRows s rs)" for n
  proof -
    have "(n_taskId n, n_userId n) \<in> set (map (\<lambda>r. (Some (rm_taskId r), rm_userId r)) rs)"
      using that unfolding reminderRows_keys[of s rs, symmetric] by force
    then show ?thesis using assms(1) by (auto simp: toldBy_def)
  qed
  then show ?thesis by (auto simp: told_def assms(2) list_ex_iff)
qed

lemma owed_tasks: "rm_taskId ` set (owed d since xs) \<subseteq> t_id ` set xs"
  by (auto simp: owed_def)

lemma owed_others:
  assumes "t_id ` set xs \<inter> rm_taskId ` set rs = {}"
    and "d' = d\<lparr>notifications := notifications d @ reminderRows s rs\<rparr>"
  shows "owed d' since xs = owed d since xs"
proof -
  have "told d' since (t_id x, u) = told d since (t_id x, u)" if "x \<in> set xs" for x u
    by (rule told_others) (use that assms in auto)
  then show ?thesis
    unfolding owed_def assms(2)
    by (intro arg_cong[where f = concat] map_cong filter_cong refl) (auto simp: workspaceOfBoard_def dueAssignees_def)
qed

lemma owed_keys_distinct:
  assumes "distinct (map t_id xs)" "distinct (map (\<lambda>x. (ta_taskId x, ta_userId x)) (assignees d))"
  shows "distinct (map reminderKey (owed d since xs))"
proof -
  have one: "distinct (dueAssignees d k)" for k
  proof -
    have "distinct (map (\<lambda>x. (ta_taskId x, ta_userId x)) (filter (\<lambda>x. ta_taskId x = k) (assignees d)))"
      using assms(2) by (rule distinct_map_filter)
    then show ?thesis by (auto simp: dueAssignees_def distinct_map inj_on_def)
  qed
  show ?thesis
    using assms(1)
  proof (induction xs)
    case Nil
    then show ?case by (simp add: owed_def)
  next
    case (Cons x xs)
    have "map reminderKey (owed d since [x]) = map (\<lambda>u. (t_id x, u)) (filter (\<lambda>u. \<not> told d since (t_id x, u)) (dueAssignees d (t_id x)))"
      by (simp add: owed_def reminderKey_def)
    then have "distinct (map reminderKey (owed d since [x]))" using one[of "t_id x"] by (simp add: distinct_map inj_on_def)
    moreover have "set (map reminderKey (owed d since [x])) \<inter> set (map reminderKey (owed d since xs)) = {}"
      using Cons.prems owed_tasks[of d since xs] by (auto simp: owed_def reminderKey_def)
    ultimately show ?case using Cons owed_append[of d since "[x]" xs] by simp
  qed
qed

lemma dueList_same:
  "tasks d' = tasks d \<Longrightarrow> assignees d' = assignees d \<Longrightarrow> dueList t d' = dueList t d"
  by (simp add: dueList_def dueWithin_def [abs_def] dueAssignees_def)

definition reminded :: "reminder list \<Rightarrow> world \<Rightarrow> world" where
  "reminded rs s = s\<lparr>drawn := drawn s + length rs,
     db := (db s)\<lparr>notifications := notifications (db s) @ reminderRows s rs\<rparr>\<rparr>"

lemma reminded_outbox [simp]: "outbox (reminded rs s) = outbox s" "mails (reminded rs s) = mails s"
  "environ (reminded rs s) = environ s"
  by (simp_all add: reminded_def)

lemma reminded_append: "reminded (xs @ ys) s = reminded ys (reminded xs s)"
  using reminderRows_append[of s xs ys "(db s)\<lparr>notifications := notifications (db s) @ reminderRows s xs\<rparr>"]
  by (simp add: reminded_def)

lemma scanPages_run:
  assumes "distinct (map t_id (tasks (db s)))" "distinct (map (\<lambda>x. (ta_taskId x, ta_userId x)) (assignees (db s)))"
    and "dueList t (db s) = before @ rest" "filter (pastCursor cursor) (dueList t (db s)) = rest"
  shows "scanPages t cursor s =
    (Inr (length (owed (db s) (t - DUE_WINDOW_MS) rest), owed (db s) (t - DUE_WINDOW_MS) rest),
     reminded (owed (db s) (t - DUE_WINDOW_MS) rest) s)"
  using assms
proof (induction "length rest" arbitrary: before rest cursor s rule: less_induct)
  case less
  let ?since = "t - DUE_WINDOW_MS"
  let ?xs = "take SCAN_BATCH_SIZE rest" and ?ys = "drop SCAN_BATCH_SIZE rest"
  have page: "scanPage t (t + DUE_WINDOW_MS) cursor (db s) = map (scanTask (db s)) ?xs"
    by (simp only: scanPage_alt less.prems(4))
  have "distinct (map dueKey (dueList t (db s)))"
    using dueList_strict[OF less.prems(1), of t] by (metis sorted_wrt_map strict_sorted_iff)
  have ids: "distinct (map t_id (dueList t (db s)))"
    using less.prems(1) by (simp add: dueList_def distinct_map) (auto intro: inj_on_subset)
  have rest_in: "set rest \<subseteq> set (dueList t (db s))" by (simp add: less.prems(3))
  have due: "t_dueDate x \<noteq> None" if "x \<in> set rest" for x using dueList_due rest_in that by blast
  have dist: "distinct (map t_id rest)" using ids by (simp add: less.prems(3))
  have owed: "owed (db s) ?since rest = owed (db s) ?since ?xs @ owed (db s) ?since ?ys"
    by (metis append_take_drop_id owed_append)
  have xs_due: "t_dueDate x \<noteq> None" if "x \<in> set ?xs" for x using due in_set_takeD[OF that] by blast
  have "distinct (map t_id ?xs)" using dist by (simp flip: take_map)
  then have batch: "notifyBatch (map (scanTask (db s)) ?xs) ?since s =
      (Inr (length (owed (db s) ?since ?xs), owed (db s) ?since ?xs), reminded (owed (db s) ?since ?xs) s)"
    unfolding reminded_def
    by (intro notifyBatch_run owed_keys_distinct less.prems(2) xs_due)
  show ?case
  proof (cases "length rest < SCAN_BATCH_SIZE")
    case True
    then have "?xs = rest" by simp
    then show ?thesis
      using True batch
      by (subst scanPages.simps) (auto simp: page Let_def owed_def reminded_def reminderRows_def split: option.split)
  next
    case False
    let ?s1 = "reminded (owed (db s) ?since ?xs) s"
    let ?x = "last ?xs"
    have ne: "?xs \<noteq> []" using False by (auto simp: SCAN_BATCH_SIZE_def)
    then have x: "?x \<in> set rest" by (metis in_set_takeD last_in_set)
    then obtain d where d: "t_dueDate ?x = Some d" using due by blast
    have same: "tasks (db ?s1) = tasks (db s)" "assignees (db ?s1) = assignees (db s)" by (simp_all add: reminded_def)
    have split: "dueList t (db s) = (before @ butlast ?xs) @ ?x # ?ys"
      using less.prems(3) ne by (metis append.assoc append_butlast_last_id append_Cons append_Nil append_take_drop_id)
    have "scanPages t (Some (d, t_id ?x)) ?s1 =
        (Inr (length (owed (db ?s1) ?since ?ys), owed (db ?s1) ?since ?ys), reminded (owed (db ?s1) ?since ?ys) ?s1)"
    proof (rule less.hyps[where before = "before @ ?xs"])
      show "length ?ys < length rest" using False by (auto simp: SCAN_BATCH_SIZE_def)
      show "dueList t (db ?s1) = (before @ ?xs) @ ?ys" using less.prems(3) by (simp add: dueList_same[OF same])
      show "filter (pastCursor (Some (d, t_id ?x))) (dueList t (db ?s1)) = ?ys"
        unfolding dueList_same[OF same] by (rule rest_after[OF less.prems(1) split d])
    qed (use less.prems(1,2) same in simp_all)
    moreover have "owed (db ?s1) ?since ?ys = owed (db s) ?since ?ys"
    proof (rule owed_others)
      have "t_id ` set ?xs \<inter> t_id ` set ?ys = {}"
        using dist by (metis append_take_drop_id distinct_append list.set_map map_append)
      then show "t_id ` set ?ys \<inter> rm_taskId ` set (owed (db s) ?since ?xs) = {}"
        using owed_tasks[of "db s" ?since ?xs] by blast
    qed (simp add: reminded_def)
    moreover have "last (map (scanTask (db s)) ?xs) = scanTask (db s) ?x" using ne by (simp add: last_map)
    ultimately show ?thesis
      using batch ne False d
      by (subst scanPages.simps) (simp add: page Let_def owed reminded_append scanTask_def)
  qed
qed

text \<open>The signals and mails of a scan.\<close>

definition signals :: "reminder list \<Rightarrow> emission list" where
  "signals rs = concat (map (\<lambda>w. map (\<lambda>u. ToUser w u NOTIFICATION_UNREAD_CHANGED) (unique (recipientsOf rs w)))
     (unique (map rm_workspaceId rs)))"

definition reminderMail :: "reminder \<Rightarrow> mail_input" where
  "reminderMail r = \<lparr>mi_workspaceId = rm_workspaceId r, mi_userId = rm_userId r, mi_actorId = None,
     mi_type = DueSoon, mi_taskId = rm_taskId r\<rparr>"

lemma signals_run:
  "forEach ws (\<lambda>w. emitUnreadChanged w (recipientsOf rs w)) s =
     (Inr (), s\<lparr>outbox := outbox s @ concat (map (\<lambda>w. map (\<lambda>u. ToUser w u NOTIFICATION_UNREAD_CHANGED)
        (unique (recipientsOf rs w))) ws)\<rparr>)"
  by (induction ws arbitrary: s) (simp_all add: run)

definition due_reminders :: "world \<Rightarrow> reminder list" where
  "due_reminders s = owed (db s) (clock s - DUE_WINDOW_MS) (dueList (clock s) (db s))"

definition scanned_world :: "world \<Rightarrow> world" where
  "scanned_world s = (let rs = due_reminders s in (reminded rs s)\<lparr>outbox := outbox s @ signals rs\<rparr>)"

lemma runScan_run:
  assumes "unique_ids (db s)"
  shows "runScan s =
    (case mailEnabled (environ s) of
       Inl e \<Rightarrow> if due_reminders s = [] then (Inr 0, s) else (Inl e, scanned_world s)
     | Inr _ \<Rightarrow> (Inr (length (due_reminders s)), (scanned_world s)\<lparr>mails := mails s @
          mailsFor (map reminderMail (due_reminders s)) (scanned_world s)\<rparr>))"
proof -
  let ?O = "due_reminders s"
  have "scanPages (clock s) None s = (Inr (length ?O, ?O), reminded ?O s)"
    using scanPages_run[of s "clock s" "[]" "dueList (clock s) (db s)" None] assms
    by (simp add: due_reminders_def unique_ids_def pastCursor_def)
  then have "runScan s = andThen (sendForCreated (map reminderMail ?O)) (\<lambda>_. ret (length ?O)) (scanned_world s)"
    by (simp add: runScan_def andThen_now andThen_def[of "scanPages _ _"] andThen_def[of "forEach _ _"] signals_run scanned_world_def
        Let_def signals_def reminderMail_def[abs_def])
  moreover have "scanned_world s = s" if "?O = []"
    using that by (simp add: scanned_world_def reminded_def reminderRows_def signals_def unique_def)
  moreover have "environ (scanned_world s) = environ s" "mails (scanned_world s) = mails s"
    by (simp_all add: scanned_world_def reminded_def Let_def)
  ultimately show ?thesis by (cases "mailEnabled (environ s)") (simp_all add: run)
qed

lemma scanned_world_facts:
  "db (scanned_world s) = (db s)\<lparr>notifications := notifications (db s) @ reminderRows s (due_reminders s)\<rparr>"
  "clock (scanned_world s) = clock s" "environ (scanned_world s) = environ s" "logs (scanned_world s) = logs s"
  "files (scanned_world s) = files s" "outbox (scanned_world s) = outbox s @ signals (due_reminders s)"
  "mails (scanned_world s) = mails s" "uuids (scanned_world s) = uuids s"
  by (simp_all add: scanned_world_def reminded_def Let_def)

text \<open>Any world a scan leaves has the tables, clock and signals of \<open>scanned_world\<close>.\<close>

lemma runScan_left:
  assumes "unique_ids (db s)" "runScan s = (r, s')"
  obtains M where "s' = (scanned_world s)\<lparr>mails := M\<rparr>" "\<And>n. r = Inr n \<Longrightarrow> n = length (due_reminders s)"
proof -
  have same: "scanned_world s = s" if "due_reminders s = []"
    using that by (simp add: scanned_world_def reminded_def reminderRows_def signals_def unique_def)
  show ?thesis
  proof (cases "mailEnabled (environ s)")
    case (Inl e)
    show ?thesis
      by (rule that[of "mails s"])
        (use assms(2) Inl same in \<open>auto simp: runScan_run[OF assms(1)] scanned_world_def Let_def split: if_splits\<close>)
  next
    case (Inr b)
    show ?thesis
      by (rule that[of "mails s'"]) (use assms(2) Inr in \<open>auto simp: runScan_run[OF assms(1)]\<close>)
  qed
qed

section \<open>Keys and references\<close>

lemma createReminders_evolves: "frames evolves (createReminders rs)"
proof (induction rs)
  case (Cons r rs)
  have "frames evolves (writeDb (\<lambda>d. d\<lparr>notifications := notifications d @ N\<rparr>))" for N
    by (intro frames_writeDb keyless_write)
  then show ?case unfolding createReminders.simps by (intro evolving Cons.IH frames_freshId frames_now) 
qed (simp add: evolving)

lemma notifyBatch_evolves: "frames evolves (notifyBatch ts since)"
  unfolding notifyBatch_def Let_def by (intro evolving createReminders_evolves)

lemma scanPages_evolves: "evolves s (snd (scanPages t cursor s))"
proof (induction t cursor s rule: scanPages.induct)
  case (1 t cursor s)
  let ?page = "scanPage t (t + DUE_WINDOW_MS) cursor (db s)"
  have step: "evolves s s'" if "notifyBatch ?page (t - DUE_WINDOW_MS) s = (r, s')" for r s'
    using notifyBatch_evolves that unfolding frames_def by (metis snd_conv)
  show ?case
  proof (cases "?page = [] \<or> (\<exists>e s'. notifyBatch ?page (t - DUE_WINDOW_MS) s = (Inl e, s'))")
    case True
    then show ?thesis using step by (subst scanPages.simps) (auto simp: Let_def evolves_refl)
  next
    case False
    then obtain created rs s' where b: "notifyBatch ?page (t - DUE_WINDOW_MS) s = (Inr (created, rs), s')"
      by (metis old.sum.exhaust prod.collapse)
    have s': "evolves s s'" by (rule step[OF b])
    show ?thesis
    proof (cases "length ?page < SCAN_BATCH_SIZE \<or> st_dueDate (last ?page) = None")
      case True
      then show ?thesis using False b s' by (subst scanPages.simps) (auto simp: Let_def)
    next
      case rec: False
      then obtain due where due: "st_dueDate (last ?page) = Some due" by blast
      have "evolves s' (snd (scanPages t (Some (due, st_id (last ?page))) s'))"
        using "1.IH"[OF refl _ _ refl refl _ due] False rec b by metis
      then have "evolves s (snd (scanPages t (Some (due, st_id (last ?page))) s'))" using s' evolves_trans by blast
      then show ?thesis
        using False rec b due by (subst scanPages.simps) (auto simp: Let_def split: prod.split sum.split)
    qed
  qed
qed

lemma runScan_evolves: "frames evolves runScan"
proof -
  have "frames evolves (scanPages t None)" for t by (simp add: frames_def scanPages_evolves)
  then show ?thesis unfolding runScan_def by (intro evolving)
qed

lemma runScan_integrity:
  assumes "ref_integrity (db s)" "unique_ids (db s)"
  shows "ref_integrity (db (snd (runScan s)))"
proof -
  obtain M where "snd (runScan s) = (scanned_world s)\<lparr>mails := M\<rparr>"
    using runScan_left[OF assms(2)] by (metis surjective_pairing)
  then have d: "db (snd (runScan s)) = (db s)\<lparr>notifications := notifications (db s) @ reminderRows s (due_reminders s)\<rparr>"
    by (simp add: scanned_world_facts)
  have rows: "\<exists>x \<in> set (tasks (db s)). n_taskId n = Some (t_id x) \<and> n_workspaceId n = workspaceOfBoard (db s) (t_boardId x) \<and>
      n_userId n \<in> set (dueAssignees (db s) (t_id x)) \<and> n_activityId n = None"
    if "n \<in> set (reminderRows s (due_reminders s))" for n
    using that unfolding reminderRows_def
    by (fastforce simp: storedNotification_def due_reminders_def owed_def dueList_def in_set_conv_nth[of _ "concat _"] dest!: nth_mem)
  have "refs (tasks (db s)) t_boardId (boards (db s)) b_id" "refs (boards (db s)) b_workspaceId (workspaces (db s)) w_id"
    "refs (assignees (db s)) ta_userId (users (db s)) u_id"
    using assms(1) by (simp_all add: ref_integrity_def)
  note tables = this[unfolded refs_def]
  have w: "\<exists>w \<in> set (workspaces (db s)). w_id w = workspaceOfBoard (db s) (t_boardId x)" if x: "x \<in> set (tasks (db s))" for x
  proof -
    obtain b where "b \<in> set (boards (db s))" "b_id b = t_boardId x" using tables(1) x by blast
    then obtain b' where "find (\<lambda>b. b_id b = t_boardId x) (boards (db s)) = Some b'" "b' \<in> set (boards (db s))"
      by (metis (mono_tags, lifting) find_None_iff find_Some_iff nth_mem option.exhaust)
    then show ?thesis using tables(2) by (simp add: workspaceOfBoard_def)
  qed
  have u: "\<exists>u \<in> set (users (db s)). u_id u = k" if "k \<in> set (dueAssignees (db s) t)" for k t
    using tables(3) that by (auto simp: dueAssignees_def)
  show ?thesis
    using assms(1) rows w u unfolding d ref_integrity_def
    by (simp add: refs_def opt_refs_def ball_Un) metis
qed

end
