(* ===== verification/Runs.thy ===== *)
theory Runs
  imports TokenRoutes AccountKeeping RetentionKeeping DueSoonFacts
begin

text \<open>
  Runs of the server: requests to the routes of a workspace, erasures of accounts, and the two scheduled
  jobs, one after the other in any order, each finished or broken off, while time passes and the
  environment changes between them. What is invariant along every run is stated on the worlds reachable
  from a consistent one.
\<close>

text \<open>
  What a run depends on beside the requests: the hash of access tokens, the libraries the handlers call, the
  pattern match of the database and what the platform leaves open in a sweep.
\<close>

record surroundings =
  su_hash :: "string \<Rightarrow> string"
  su_libraries :: libraries
  su_like :: "string \<Rightarrow> string \<Rightarrow> bool"
  su_platform :: platform

inductive reaches :: "surroundings \<Rightarrow> world \<Rightarrow> world \<Rightarrow> bool" for su where
  start: "reaches su s s"
| request: "reaches su s t \<Longrightarrow> reaches su s (snd (serve (su_hash su) (su_libraries su) rq call t))"
| tokenRequest: "reaches su s t \<Longrightarrow> reaches su s (snd (serveToken (su_hash su) rq tokenCall t))"
| erasure: "reaches su s t \<Longrightarrow> reaches su s (snd (deleteAccount (su_like su) userId dto initiatedBy actorId t))"
| cleanup: "reaches su s t \<Longrightarrow> reaches su s (snd (cleanup_process (su_platform su) t))"
| reminders: "reaches su s t \<Longrightarrow> reaches su s (snd (runScan t))"
| wait: "reaches su s t \<Longrightarrow> clock t \<le> later \<Longrightarrow> reaches su s (t\<lparr>clock := later\<rparr>)"
| configure: "reaches su s t \<Longrightarrow> reaches su s (t\<lparr>environ := env\<rparr>)"

lemma sound_paired: "sound s \<Longrightarrow> paired (db s)"
  by (simp add: sound_def keyed_def unique_ids_def paired_def)

lemma erasure_sound: "sound s \<Longrightarrow> sound (snd (deleteAccount like k dto i a s))"
  using deleteAccount_evolves[of like k dto i a] deleteAccount_keeps[of s like k dto i a] sound_paired[of s]
  by (simp add: sound_def frames_def evolves_def)

lemma cleanup_sound: "sound s \<Longrightarrow> sound (snd (cleanup_process pl s))"
  using cleanup_process_upkeep[of pl] by (simp add: sound_def frames_def upkeep_def)

lemma reminders_sound: "sound s \<Longrightarrow> sound (snd (runScan s))"
  using runScan_evolves runScan_integrity[of s] by (simp add: sound_def frames_def evolves_def) (simp add: keyed_def)

lemma reaches_sound:
  assumes "reaches su s t" and "sound s"
  shows "sound t"
  using assms
  by induction (simp_all add: serve_sound serveToken_sound erasure_sound cleanup_sound reminders_sound, simp_all add: sound_def keyed_def)

text \<open>What each step does to the record of the run.\<close>

definition appends :: "world \<Rightarrow> world \<Rightarrow> bool" where
  "appends s t \<longleftrightarrow> prefix (outbox s) (outbox t) \<and> prefix (mails s) (mails t) \<and> prefix (logs s) (logs t) \<and>
     drawn s \<le> drawn t \<and> (stored s \<longrightarrow> stored t)"

lemma appends_refl: "appends s s"
  by (simp add: appends_def)

lemma appends_trans: "appends s t \<Longrightarrow> appends t u \<Longrightarrow> appends s u"
  by (auto simp: appends_def intro: prefix_order.trans)

lemma evolves_appends: "evolves s t \<Longrightarrow> appends s t"
  by (simp add: evolves_def appends_def)

lemma upkeep_appends: "upkeep s t \<Longrightarrow> appends s t"
  by (simp add: upkeep_def appends_def)

lemma reaches_appends: "reaches su s t \<Longrightarrow> appends s t"
proof (induction rule: reaches.induct)
  case (request s t rq call)
  then show ?case using serve_evolves evolves_appends appends_trans by blast
next
  case (tokenRequest s t rq tokenCall)
  then show ?case using serveToken_evolves evolves_appends appends_trans by blast
next
  case (erasure s t userId dto initiatedBy actorId)
  then show ?case using deleteAccount_evolves evolves_appends appends_trans unfolding frames_def by blast
next
  case (cleanup s t)
  then show ?case using cleanup_process_upkeep upkeep_appends appends_trans unfolding frames_def by blast
next
  case (reminders s t)
  then show ?case using runScan_evolves evolves_appends appends_trans unfolding frames_def by blast
qed (auto simp: appends_def stored_def)

lemma reaches_stored: "reaches su s t \<Longrightarrow> stored s \<Longrightarrow> stored t"
  using reaches_appends by (auto simp: appends_def)

end
