(* ===== verification/ApiProperties.thy ===== *)
theory ApiProperties
  imports Runs SampleWorkspace
begin

text \<open>
  What the guards and the services promise together: who may change a workspace, what every
  run of the API keeps, and that a run only adds to what it has sent.
\<close>

section \<open>A consistent world\<close>

lemma sample_sound: "sound sample"
proof -
  have "inj (\<lambda>n. CHR ''z'' # replicate n CHR ''z'')"
    by (rule injI) (metis length_Cons length_replicate nat.inject)
  then have "keyed sample"
    by (simp add: keyed_def sample_unique) (simp add: used_ids_def sample_db_def)
  then show ?thesis by (simp add: sound_def sample_integrity)
qed

text \<open>Libraries that parse one date, know one type and one address.\<close>

definition sampleLib :: libraries where
  "sampleLib = \<lparr>parseDate = (\<lambda>_. None), sniffType = (\<lambda>b. if take 4 b = ''%PDF'' then Some ''application/pdf'' else None),
     parseUrl = (\<lambda>u. if take 6 u = ''https:'' then Some (''https:'', u) else None)\<rparr>"

text \<open>Requests of the owner and of the member, each with a session.\<close>

definition ada_request :: http_request where
  "ada_request = \<lparr>rq_authorization = NoHeader,
     rq_session = Some \<lparr>pr_id = ''ada'', pr_email = ''ada@x'', pr_name = ''Ada'', pr_avatarUrl = None, pr_emailVerified = True\<rparr>,
     rq_workspaceId = Some ''w1''\<rparr>"

definition bob_request :: http_request where
  "bob_request = \<lparr>rq_authorization = NoHeader,
     rq_session = Some \<lparr>pr_id = ''bob'', pr_email = ''bob@x'', pr_name = ''Bob'', pr_avatarUrl = None, pr_emailVerified = True\<rparr>,
     rq_workspaceId = Some ''w1''\<rparr>"

lemmas run_guards = workspaceRoles_def sessionAuthGuard_def workspaceGuard_def rolesGuard_def
  parseBearerHeader_def truthy_def ADMIN_ROLES_def CONTENT_ROLES_def Let_def

lemma serve_ada:
  "required call \<in> {[], CONTENT_ROLES, ADMIN_ROLES} \<Longrightarrow> db s = sample_db \<Longrightarrow>
     serve hash lib ada_request call s = perform lib \<lparr>m_id = ''m1'', m_workspaceId = ''w1'', m_userId = ''ada'', m_role = OWNER\<rparr> call s"
  by (auto simp: serve_def run_guards run ada_request_def sample_db_def)

lemma serve_bob_admin:
  "required call = ADMIN_ROLES \<Longrightarrow> db s = sample_db \<Longrightarrow>
     serve hash lib bob_request call s = (Inl (Forbidden ''Insufficient role for this action''), s)"
  by (simp add: serve_def run_guards run bob_request_def sample_db_def)

section \<open>Who may change a workspace\<close>

text \<open>
  C3. A request that is accepted comes from a member of the workspace in its path: the credential it
  presents (a session, or an access token that is live, unexpired and bound to that workspace)
  speaks for the member's user, and the member has one of the roles the route requires.
\<close>

theorem serve_authorised:
  assumes "serve hash lib rq call s = (Inr (), s')"
  shows "\<exists>m \<in> set (members (db s)). rq_workspaceId rq = Some (m_workspaceId m) \<and>
           (required call = [] \<or> m_role m \<in> set (required call)) \<and>
           speaksFor hash rq (db s) (clock s) (m_workspaceId m) (m_userId m)"
proof (cases rule: serve_cases [of hash lib rq call s])
  case (refused e s1)
  with assms show ?thesis by simp
next
  case (served m s1)
  with workspaceRoles_ok [OF served(1)] show ?thesis by blast
qed

theorem serve_authorised_witness:
  "\<exists>m \<in> set (members (db sample)). rq_workspaceId ada_request = Some (m_workspaceId m) \<and>
     speaksFor (\<lambda>x. x) ada_request (db sample) 100 (m_workspaceId m) (m_userId m)"
proof -
  have "\<exists>s'. serve (\<lambda>x. x) sampleLib ada_request (NotificationCall NotificationReadAll) sample = (Inr (), s')"
    by (simp add: serve_ada ignore_def markAllRead_def run)
  then obtain s' where "serve (\<lambda>x. x) sampleLib ada_request (NotificationCall NotificationReadAll) sample = (Inr (), s')" by blast
  from serve_authorised [OF this] show ?thesis by auto
qed



section \<open>Runs\<close>

definition plain :: surroundings where
  "plain = \<lparr>su_hash = (\<lambda>x. x), su_libraries = sampleLib, su_like = (\<lambda>_ _. False),
     su_platform = \<lparr>pl_scan = (\<lambda>d ks. ks), pl_listing = (\<lambda>fs. fs), pl_invalidDate = None\<rparr>\<rparr>"

text \<open>The owner removes the board, and then the nightly sweep runs.\<close>

definition emptied :: world where
  "emptied = snd (serve (\<lambda>x. x) sampleLib ada_request (BoardCall (BoardRemove ''b1'')) sample)"

lemma reaches_emptied: "reaches plain sample (snd (cleanup_process (su_platform plain) emptied))"
  using reaches.cleanup[OF reaches.request[OF reaches.start[of plain sample], of ada_request "BoardCall (BoardRemove ''b1'')"]]
  by (simp add: plain_def emptied_def)





section \<open>Access tokens\<close>

text \<open>
  C90. No access token manages access tokens: a request to create or revoke one that is accepted carries no token
  at all, but the session of a member of the workspace in its path, and acts in that member's name.
\<close>

theorem tokens_need_a_session:
  assumes "serveToken hash rq call s = (Inr (), s')"
  shows "parseBearerHeader (rq_authorization rq) = BearerAbsent \<and>
    (\<exists>m \<in> set (members (db s)). \<exists>p. rq_session rq = Some p \<and> pr_id p = m_userId m \<and> rq_workspaceId rq = Some (m_workspaceId m))"
proof (cases "tokenGate hash rq s")
  case (Pair r s1)
  with assms obtain m where "r = Inr m" by (cases r) (auto simp: serveToken_def andThen_def)
  with Pair tokenGate_ok[of hash rq s m s1] show ?thesis by blast
qed

theorem tokens_need_a_session_witness:
  "\<exists>s'. serveToken (\<lambda>x. x) ada_request (TokenCreate ''secret'' ''ci'' None) sample = (Inr (), s') \<and>
     parseBearerHeader (rq_authorization ada_request) = BearerAbsent"
proof -
  have "\<exists>s'. serveToken (\<lambda>x. x) ada_request (TokenCreate ''secret'' ''ci'' None) sample = (Inr (), s')"
    by (simp add: serveToken_def tokenGate_def sessionAuthGuard_def workspaceGuard_def sessionOnlyGuard_def parseBearerHeader_def
        truthy_def Let_def run ada_request_def sample_db_def ignore_def token_create_def insertToken_def)
  then show ?thesis using tokens_need_a_session by blast
qed

end
