(* ===== verification/BoardProperties.thy ===== *)
theory BoardProperties
  imports Labels SampleWorkspace
begin

text \<open>
  Boards, columns and labels: what a new board starts with, what a removal takes along, and when a
  column may go.
\<close>

section \<open>Creation\<close>

text \<open>The sample with a plan of three boards, and its boards' ceiling.\<close>

definition limited :: world where
  "limited = sample\<lparr>db := sample_db\<lparr>workspaces :=
     [\<lparr>w_id = ''w1'', w_name = ''Works'', w_slug = ''works'', w_planLimits = Some (JObj [(''boards'', JNum 3)])\<rparr>]\<rparr>\<rparr>"

lemma limited_limits:
  "limitsFor ''w1'' limited = Inr \<lparr>wl_seats = None, wl_boards = Some 3, wl_storageBytes = Some 2147483648\<rparr>"
  by (simp add: limited_def limitsFor_def readInstancePlanLimits_def readCeiling_unset readStorageConfig_default
      bind_result_def resolveWorkspacePlanLimits_def parseWorkspacePlanOverride_def parseOverrideValue_def
      quotaBytesToCeiling_def is_integer_def Let_def)

lemma limited_create:
  "\<exists>row s'. board_create ''w1'' ''ada'' \<lparr>cbd_name = ''N'', cbd_description = None, cbd_template = Some Kanban\<rparr> None limited
     = (Inr row, s')"
  by (simp add: board_create_def createBoardRow_def run transaction_def limited_limits Let_def)
    (simp add: room_def boardCount_def limited_def sample_db_def)

text \<open>
  C25. A board that is created starts with exactly the columns of the requested template in the creator's
  language, named and categorised as the template says, in the template's order and with strictly
  increasing positions.
\<close>

theorem board_starts_with_template:
  assumes "board_create w a dto h s = (Inr row, s')"
    and "\<forall>c \<in> set (columns (db s)). c_boardId c \<noteq> uuids s (drawn s)"
  shows "map (\<lambda>c. (c_name c, c_category c)) (columnsOf (b_id row) (columns (db s'))) =
           map (\<lambda>c. (dc_name c, dc_category c)) (fst (seedFor dto (localeFor (db s) a h))) \<and>
         sorted_wrt (\<lambda>x y. c_position x < c_position y) (columnsOf (b_id row) (columns (db s')))"
  using board_create_columns [OF assms] by simp

theorem board_starts_with_template_witness:
  "\<exists>row s'. board_create ''w1'' ''ada'' \<lparr>cbd_name = ''N'', cbd_description = None, cbd_template = Some Kanban\<rparr> None limited
     = (Inr row, s') \<and> length (columnsOf (b_id row) (columns (db s'))) = length (bt_columns (boardTemplateFor Kanban En))"
proof -
  obtain row s' where ok: "board_create ''w1'' ''ada'' \<lparr>cbd_name = ''N'', cbd_description = None, cbd_template = Some Kanban\<rparr>
      None limited = (Inr row, s')"
    using limited_create by blast
  have "\<forall>c \<in> set (columns (db limited)). c_boardId c \<noteq> uuids limited (drawn limited)"
    by (simp add: limited_def sample_db_def)
  note names = board_starts_with_template [OF ok this, THEN conjunct1]
  have "localeFor (db limited) ''ada'' None = En"
    using matchLocale_tag [of En] by (simp add: localeFor_def limited_def sample_db_def)
  with arg_cong [OF names, of length] ok show ?thesis by (auto simp: seedFor_def Let_def)
qed



text \<open>
  Every template is well formed in every language: the copy of the language names each column and label of
  the structure, with names that are distinct and not empty, the column positions increase strictly, one
  column means completed, and the label colours are slots of the palette.
\<close>

theorem templates_well_formed: "template_ok slug l"
  by (rule template_ok_all)

section \<open>Removal\<close>

text \<open>
  C26. Removing a board takes exactly the board of that workspace with its columns, its tasks and its labels,
  and leaves those of every other board as they were.
\<close>

theorem board_removal_is_exact:
  assumes "board_remove w b a s = (Inr (), s')"
  shows "boards (db s') = filter (\<lambda>x. \<not> (b_id x = b \<and> b_workspaceId x = w)) (boards (db s)) \<and>
         columns (db s') = filter (\<lambda>c. c_boardId c \<noteq> b) (columns (db s)) \<and>
         tasks (db s') = filter (\<lambda>t. t_boardId t \<noteq> b) (tasks (db s)) \<and>
         labels (db s') = filter (\<lambda>l. l_boardId l \<noteq> b) (labels (db s))"
  using board_remove_rows [OF assms] by (simp add: boardKey_def)

theorem board_removal_is_exact_witness:
  "\<exists>s'. board_remove ''w1'' ''b1'' ''ada'' sample = (Inr (), s') \<and> tasks (db s') = [] \<and> columns (db s') = []"
proof -
  have "fst (board_remove ''w1'' ''b1'' ''ada'' sample) = Inr ()"
    by (simp add: board_remove_iff boardIn_def sample_db_def)
  then obtain s' where ok: "board_remove ''w1'' ''b1'' ''ada'' sample = (Inr (), s')"
    by (cases "board_remove ''w1'' ''b1'' ''ada'' sample") auto
  from board_removal_is_exact [OF ok] ok show ?thesis by (auto simp: sample_db_def)
qed



text \<open>
  Removing a label strips it from every task that carried it and touches no task and no other label.
\<close>

theorem label_removal_strips:
  assumes "label_remove w k a s = (Inr (), s')" and "distinct (map l_id (labels (db s)))"
  shows "labels (db s') = filter (\<lambda>l. l_id l \<noteq> k) (labels (db s)) \<and>
         task_labels (db s') = filter (\<lambda>x. tl_labelId x \<noteq> k) (task_labels (db s)) \<and>
         tasks (db s') = tasks (db s)"
  using label_remove_rows [OF assms] by simp

theorem label_removal_strips_witness:
  "\<exists>s'. label_remove ''w1'' ''l1'' ''ada'' sample = (Inr (), s') \<and> task_labels (db s') = []"
proof -
  have "\<exists>s'. label_remove ''w1'' ''l1'' ''ada'' sample = (Inr (), s')"
    by (simp add: label_remove_def transaction_def run labelKey_def boardIn_def sample_db_def)
  then obtain s' where ok: "label_remove ''w1'' ''l1'' ''ada'' sample = (Inr (), s')" by blast
  from label_removal_strips [OF ok] ok show ?thesis by (auto simp: sample_db_def)
qed

end
