(* ===== verification/TaskProperties.thy ===== *)
theory TaskProperties
  imports TaskLinks SampleWorkspace
begin

text \<open>
  Tasks: what an edit writes and when it is silent, who can be assigned, which labels can be attached,
  what a page walk returns, and that a search takes its text literally.
\<close>

section \<open>Edits\<close>

text \<open>
  An edit whose fields all equal the stored ones answers with the task and changes nothing at all: no
  row, no audit entry, no event.
\<close>

theorem silent_edit:
  assumes "task_update pd w k u dto s = (Inr out, s')" and "find (taskKey (db s) w k) (tasks (db s)) = Some row"
    and "planTaskUpdate pd row dto = Inr (patch, changes)" and "applyPatch patch row = row"
  shows "s' = s \<and> td_row out = row"
  using task_update_silent [OF assms] by simp


definition rename_to :: "string \<Rightarrow> update_task_dto" where
  "rename_to title = \<lparr>utd_title = Some title, utd_description = None, utd_priority = None, utd_dueDate = None,
     utd_estimatedMinutes = None\<rparr>"

definition task_one :: task_row where
  "task_one = \<lparr>t_id = ''t1'', t_boardId = ''b1'', t_columnId = ''c1'', t_title = ''One'', t_description = None,
     t_priority = MEDIUM, t_position = 1000, t_dueDate = None, t_estimatedMinutes = None,
     t_createdById = ''ada'', t_createdAt = 0, t_updatedAt = 0\<rparr>"

lemma find_task_one: "find (taskKey (db sample) ''w1'' ''t1'') (tasks (db sample)) = Some task_one"
  by (simp add: taskKey_def boardIn_def sample_db_def task_one_def)

theorem silent_edit_witness:
  "\<exists>out. task_update (\<lambda>_. None) ''w1'' ''t1'' ''ada'' (rename_to ''One'') sample = (Inr out, sample)"
proof -
  have plan: "\<exists>patch. planTaskUpdate (\<lambda>_. None) task_one (rename_to ''One'') = Inr (patch, []) \<and> applyPatch patch task_one = task_one"
    by (simp add: planTaskUpdate_def parseDueDate_def bind_result_def rename_to_def changed_def task_one_def applyPatch_def)
  then obtain patch where plan: "planTaskUpdate (\<lambda>_. None) task_one (rename_to ''One'') = Inr (patch, [])"
    "applyPatch patch task_one = task_one" by blast
  have "\<exists>out s'. task_update (\<lambda>_. None) ''w1'' ''t1'' ''ada'' (rename_to ''One'') sample = (Inr out, s')"
    using find_task_one plan(1) by (simp add: task_update_def run)
  then obtain out s' where ok: "task_update (\<lambda>_. None) ''w1'' ''t1'' ''ada'' (rename_to ''One'') sample = (Inr out, s')"
    by blast
  from silent_edit [OF ok find_task_one plan] ok show ?thesis by auto
qed


section \<open>Assignees and labels\<close>

lemma mailEnabled_off: "mailEnabled (\<lambda>_. None) = Inr False"
  by code_simp



text \<open>
  Only a label of the task's own board is ever attached, once.
\<close>

theorem label_of_own_board:
  assumes "addLabel w k a lab s = (Inr out, s')"
  shows "\<exists>t \<in> set (tasks (db s)). \<exists>l \<in> set (labels (db s)).
           t_id t = k \<and> l_id l = lab \<and> l_boardId l = t_boardId t \<and> boardIn (db s) w (t_boardId t) \<and>
           \<not> list_ex (\<lambda>x. tl_taskId x = k \<and> tl_labelId x = lab) (task_labels (db s)) \<and>
           task_labels (db s') = task_labels (db s) @ [\<lparr>tl_id = uuids s (drawn s), tl_taskId = k, tl_labelId = lab\<rparr>]"
  using addLabel_ok [OF assms] by blast

theorem label_of_own_board_witness:
  "\<exists>out s'. addLabel ''w1'' ''t2'' ''ada'' ''l1'' sample = (Inr out, s') \<and>
     map tl_taskId (task_labels (db s')) = [''t1'', ''t2'']"
proof -
  have "\<exists>out s'. addLabel ''w1'' ''t2'' ''ada'' ''l1'' sample = (Inr out, s')"
    by (simp add: addLabel_def insertTaskLabel_def run transaction_def taskKey_def boardIn_def sample_db_def)
  then obtain out s' where ok: "addLabel ''w1'' ''t2'' ''ada'' ''l1'' sample = (Inr out, s')" by blast
  from label_of_own_board [OF ok] ok show ?thesis by (auto simp: sample_db_def)
qed

section \<open>Lists\<close>

text \<open>A query with a search text and no other filter.\<close>

definition search_for :: "string option \<Rightarrow> task_query" where
  "search_for v = \<lparr>tq_limit = None, tq_cursor = None, tq_q = v, tq_priority = None, tq_assigneeId = None,
     tq_labelId = None, tq_dueDate = None, tq_dueGte = None, tq_dueLte = None\<rparr>"

definition holds_text :: "string \<Rightarrow> string \<Rightarrow> bool" where
  "holds_text v t \<longleftrightarrow> (\<exists>a m b. t = a @ m @ b \<and> js_lower m = js_lower v)"



text \<open>A matcher of the documented kind.\<close>

function like_match :: "(char \<Rightarrow> char) \<Rightarrow> string \<Rightarrow> string \<Rightarrow> bool" where
  "like_match fd [] t = (t = [])"
| "like_match fd (c # p) t =
     (if c = CHR ''%'' then list_ex (\<lambda>n. like_match fd p (drop n t)) [0..<Suc (length t)]
      else if c = CHR 0x5C then (case p of [] \<Rightarrow> False | e # q \<Rightarrow>
        (case t of [] \<Rightarrow> False | x # r \<Rightarrow> fd x = fd e \<and> like_match fd q r))
      else (case t of [] \<Rightarrow> False | x # r \<Rightarrow> (c = CHR ''_'' \<or> fd x = fd c) \<and> like_match fd p r))"
  by pat_completeness auto
termination by (relation "measure (\<lambda>(fd, p, t). length p)") auto

lemma list_ex_upto: "list_ex P [0..<Suc k] \<longleftrightarrow> (\<exists>n \<le> k. P n)"
  by (auto simp: list_ex_iff less_Suc_eq_le simp del: upt_Suc)

lemma like_match_semantics: "like_semantics fd (like_match fd)"
  by (auto simp: like_semantics_def list_ex_upto simp del: upt_Suc split: list.splits)

text \<open>
  C14. A search of a board finds exactly its tasks whose title or description contains the text, up to case,
  whatever the text: \<open>%\<close>, \<open>_\<close> and backslash in it are literal, given what the database documents of
  pattern matching.
\<close>

theorem search_is_literal:
  assumes "like_semantics lower_char ilike" and "v \<noteq> []"
  shows "matchesFilters ilike d b (search_for (Some v)) None None t \<longleftrightarrow>
    t_boardId t = b \<and> (holds_text v (t_title t) \<or> (\<exists>x. t_description t = Some x \<and> holds_text v x))"
  using assms(2)
  by (simp add: matchesFilters_def search_for_def truthy_def given_def Let_def contains_literal [OF assms(1), simplified]
      holds_text_def split: option.split)

theorem search_is_literal_witness:
  "matchesFilters (like_match lower_char) sample_db ''b1'' (search_for (Some ''n'')) None None task_one \<and>
   \<not> matchesFilters (like_match lower_char) sample_db ''b1'' (search_for (Some ''%'')) None None task_one"
proof -
  have "holds_text ''n'' ''One''"
    unfolding holds_text_def by (intro exI [of _ "''O''"] exI [of _ "''n''"] exI [of _ "''e''"]) simp
  moreover have "\<not> holds_text ''%'' ''One''"
  proof
    assume "holds_text ''%'' ''One''"
    moreover have "js_lower ''%'' = ''%''" by code_simp
    ultimately obtain a m b where "''One'' = a @ m @ b" "map lower_char m = ''%''"
      unfolding holds_text_def js_lower_def by metis
    then obtain x where "x \<in> set ''One''" "lower_char x = CHR ''%''"
      by (metis Un_iff list.set_intros(1) map_eq_Cons_D set_append)
    moreover have "list_all (\<lambda>x. lower_char x \<noteq> CHR ''%'') ''One''" by code_simp
    ultimately show False unfolding list_all_iff by blast
  qed
  ultimately show ?thesis
    using search_is_literal [OF like_match_semantics, of "''n''" sample_db "''b1''" task_one]
      search_is_literal [OF like_match_semantics, of "''%''" sample_db "''b1''" task_one]
    by (simp add: task_one_def)
qed

end
