(* ===== verification/MembershipProperties.thy ===== *)
theory MembershipProperties
  imports Workspaces SampleWorkspace
begin

text \<open>
  Access tokens, memberships and invitations: what a minted token is recognised as, that a revoked one is
  dead, that a workspace keeps an owner and who can change its owners.
\<close>

section \<open>Tokens\<close>

text \<open>
  C31. A token that is minted, written into an \<open>Authorization\<close> header the usual way, is read back as exactly
  that token, whatever its secret.
\<close>

theorem minted_token_roundtrip:
  assumes "secret \<noteq> []" and "list_all (\<lambda>c. \<not> is_space c) secret"
  shows "parseBearerHeader (Single (''Bearer '' @ mt_plaintext (mintToken hash secret))) =
         BearerToken (mt_plaintext (mintToken hash secret))"
  by (rule minted_parses [OF assms])

theorem minted_token_roundtrip_witness:
  "parseBearerHeader (Single ''Bearer kurul_pat_aZ9'') = BearerToken ''kurul_pat_aZ9''"
  using minted_token_roundtrip [of "''aZ9''" "\<lambda>x. x"]
  by (simp add: mintToken_def PERSONAL_ACCESS_TOKEN_PREFIX_def Let_def is_space_def)

text \<open>
  C30. A token authenticates only while it is not revoked, not expired and its user is not deleted; it then
  stands for that user in the token's workspace.
\<close>

theorem token_resolution_sound:
  assumes "token_resolve hash plaintext s = (Inr (Some r), s')"
  shows "\<exists>x \<in> set (tokens (db s)). \<exists>u \<in> set (users (db s)).
           tk_tokenHash x = hash plaintext \<and> tk_revokedAt x = None \<and> u_id u = tk_userId x \<and> u_deletedAt u = None \<and>
           (case tk_expiresAt x of None \<Rightarrow> True | Some e \<Rightarrow> clock s < e) \<and>
           rt_workspaceId r = tk_workspaceId x \<and> pr_id (rt_user r) = u_id u"
proof -
  obtain x u where live: "live_token (db s) (clock s) (hash plaintext) = Some (x, u)"
    and r: "r = \<lparr>rt_id = tk_id x, rt_workspaceId = tk_workspaceId x, rt_user = principalOf u\<rparr>"
    using assms by (auto simp: token_resolve_eq split: option.splits)
  show ?thesis
    using live_token_some [OF live] r
    by (intro bexI [of _ x] bexI [of _ u]) (simp_all add: usable_def principalOf_def)
qed

text \<open>
  C13. Once the tokens of a member are revoked, no presented text authenticates as that member in that
  workspace, at any later time.
\<close>

theorem revoked_tokens_are_dead:
  assumes "token_resolve hash plaintext (t\<lparr>db := db (snd (revokeAllForMember w u s))\<rparr>) = (Inr (Some r), s')"
  shows "\<not> (rt_workspaceId r = w \<and> pr_id (rt_user r) = u)"
proof -
  obtain x v where live: "live_token (db (snd (revokeAllForMember w u s))) (clock t) (hash plaintext) = Some (x, v)"
    and r: "r = \<lparr>rt_id = tk_id x, rt_workspaceId = tk_workspaceId x, rt_user = principalOf v\<rparr>"
    using assms by (auto simp: token_resolve_eq split: option.splits)
  have "u_id v = tk_userId x" using live_token_some [OF live] by (simp add: usable_def)
  with revokeAllForMember_live [OF live] r show ?thesis by (simp add: principalOf_def)
qed

text \<open>A world with a live token of the owner's and one of the member's.\<close>

definition tokened :: world where
  "tokened = sample\<lparr>db := sample_db\<lparr>tokens :=
     [\<lparr>tk_id = ''k1'', tk_workspaceId = ''w1'', tk_userId = ''ada'', tk_name = ''ci'', tk_prefix = ''p'',
       tk_tokenHash = ''s1'', tk_lastUsedAt = None, tk_expiresAt = Some 200, tk_revokedAt = None, tk_createdAt = 0\<rparr>,
      \<lparr>tk_id = ''k2'', tk_workspaceId = ''w1'', tk_userId = ''bob'', tk_name = ''ci'', tk_prefix = ''p'',
       tk_tokenHash = ''s2'', tk_lastUsedAt = None, tk_expiresAt = None, tk_revokedAt = None, tk_createdAt = 0\<rparr>]\<rparr>\<rparr>"

lemma tokened_resolves:
  "\<exists>r s'. token_resolve (\<lambda>x. x) ''s1'' (tokened\<lparr>db := db (snd (revokeAllForMember ''w1'' ''bob'' tokened))\<rparr>) = (Inr (Some r), s')"
  by (simp add: token_resolve_def revokeAllForMember_def liveTokenOf_def tokened_def run sample_db_def)

theorem revoked_tokens_are_dead_witness:
  "\<exists>r s'. token_resolve (\<lambda>x. x) ''s1'' (tokened\<lparr>db := db (snd (revokeAllForMember ''w1'' ''bob'' tokened))\<rparr>) = (Inr (Some r), s') \<and>
     \<not> (rt_workspaceId r = ''w1'' \<and> pr_id (rt_user r) = ''bob'')"
  using tokened_resolves revoked_tokens_are_dead by blast

theorem token_resolution_sound_witness:
  "\<exists>x \<in> set (tokens (db tokened)). tk_tokenHash x = ''s1'' \<and> tk_revokedAt x = None"
proof -
  have "\<exists>r s'. token_resolve (\<lambda>x. x) ''s1'' tokened = (Inr (Some r), s')"
    by (simp add: token_resolve_def tokened_def run sample_db_def)
  then obtain r s' where "token_resolve (\<lambda>x. x) ''s1'' tokened = (Inr (Some r), s')" by blast
  from token_resolution_sound [OF this] show ?thesis by blast
qed

section \<open>Ownership\<close>

text \<open>A plugin that does what is relied on, and a workspace with two owners.\<close>

definition plain_api :: auth_api where
  "plain_api = \<lparr>
     api_createOrganization = (\<lambda>_ _ _ s. (Inl (OtherError ''off''), s)),
     api_updateOrganization = (\<lambda>_ _ _ _ s. (Inl (OtherError ''off''), s)),
     api_deleteOrganization = (\<lambda>_ _ s. (Inl (OtherError ''off''), s)),
     api_removeMember = (\<lambda>_ k w s. (Inr (), s\<lparr>db := (db s)\<lparr>members :=
        filter (\<lambda>m. \<not> (m_id m = k \<and> m_workspaceId m = w)) (members (db s))\<rparr>\<rparr>)),
     api_updateMemberRole = (\<lambda>_ k r w s. (Inr (), s\<lparr>db := (db s)\<lparr>members :=
        map (\<lambda>m. if m_id m = k \<and> m_workspaceId m = w then m\<lparr>m_role := r\<rparr> else m) (members (db s))\<rparr>\<rparr>)),
     api_leaveOrganization = (\<lambda>c w s. (Inr (), s\<lparr>db := (db s)\<lparr>members :=
        filter (\<lambda>m. \<not> (m_workspaceId m = w \<and> m_userId m = c)) (members (db s))\<rparr>\<rparr>)),
     api_createInvitation = (\<lambda>_ email role _ s. (Inr (Some \<lparr>cv_id = Some ''v1'', cv_email = Some email,
        cv_role = Some (role_name role), cv_status = Some ''pending'', cv_expiresAt = Some 500\<rparr>, None), s)),
     api_cancelInvitation = (\<lambda>_ _ s. (Inr (), s)),
     api_acceptInvitation = (\<lambda>_ _ s. (Inr None, s))\<rparr>"

lemma plain_api_contract: "keeps_contract plain_api"
  by (simp add: keeps_contract_def writesMembers_def plain_api_def)

text \<open>
  C4. A workspace that has an owner keeps one: no removal, departure or change of role, whoever asks for it
  and whatever the plugin answers within what it documents, leaves a workspace without an owner.
\<close>

theorem an_owner_remains:
  assumes "keeps_contract api" and "distinct (map m_id (members (db s)))"
    and "distinct (map (\<lambda>x. (m_workspaceId x, m_userId x)) (members (db s)))" and "ownersOf v (db s) \<noteq> []"
  shows "ownersOf v (db (snd (removeMember api w t actor s))) \<noteq> [] \<and>
         ownersOf v (db (snd (leave api w actor s))) \<noteq> [] \<and>
         ownersOf v (db (snd (updateMemberRole api w t r actor s))) \<noteq> []"
  using owner_remains [OF assms] by blast

theorem an_owner_remains_witness:
  "ownersOf ''w1'' (db (snd (leave plain_api ''w1''
     \<lparr>m_id = ''m1'', m_workspaceId = ''w1'', m_userId = ''ada'', m_role = OWNER\<rparr> sample))) \<noteq> []"
  by (rule an_owner_remains [OF plain_api_contract, THEN conjunct2, THEN conjunct1])
    (simp_all add: sample_db_def ownersOf_def)

text \<open>
  C12. Only an owner changes who owns a workspace: when the acting member is not an owner, removals and role
  changes leave the owners of every workspace as they were.
\<close>

theorem only_owners_change_owners:
  assumes "keeps_contract api" and "m_role actor \<noteq> OWNER" and "distinct (map m_id (members (db s)))"
  shows "ownersOf v (db (snd (removeMember api w t actor s))) = ownersOf v (db s) \<and>
         ownersOf v (db (snd (updateMemberRole api w t r actor s))) = ownersOf v (db s)"
  using ownership_by_owner [OF assms] by blast

theorem only_owners_change_owners_witness:
  "ownersOf ''w1'' (db (snd (updateMemberRole plain_api ''w1'' ''bob'' OWNER
     \<lparr>m_id = ''m2'', m_workspaceId = ''w1'', m_userId = ''bob'', m_role = MEMBER\<rparr> sample))) = ownersOf ''w1'' sample_db"
  using only_owners_change_owners [OF plain_api_contract,
      of "\<lparr>m_id = ''m2'', m_workspaceId = ''w1'', m_userId = ''bob'', m_role = MEMBER\<rparr>" sample]
  by (simp add: sample_db_def)

text \<open>
  C29. Leaving a workspace, once accepted, revokes the member's tokens there and orders the socket server to
  drop their connections: whatever token is presented afterwards, it is not theirs.
\<close>

theorem leaving_cuts_access:
  assumes "leave api w actor s = (Inr (), s')"
  shows "EvictUser w (m_userId actor) \<in> set (outbox s') \<and>
         (\<forall>x \<in> set (tokens (db s')). tk_workspaceId x = w \<and> tk_userId x = m_userId actor \<longrightarrow> tk_revokedAt x \<noteq> None)"
proof -
  obtain s1 where "s' = snd (revokeAllForMember w (m_userId actor) s1)"
    using leave_ok(1) [OF assms] by blast
  then have T: "tokens (db s') = map (\<lambda>x. if liveTokenOf w (m_userId actor) x
      then x\<lparr>tk_revokedAt := Some (clock s1)\<rparr> else x) (tokens (db s1))"
    by (simp add: revokeAllForMember_def run)
  have "\<forall>x \<in> set (tokens (db s')). tk_workspaceId x = w \<and> tk_userId x = m_userId actor \<longrightarrow> tk_revokedAt x \<noteq> None"
    unfolding T by (simp add: liveTokenOf_def del: if_image_distrib)
  with leave_ok(2) [OF assms] show ?thesis by blast
qed

theorem leaving_cuts_access_witness:
  "\<exists>s'. leave plain_api ''w1'' \<lparr>m_id = ''m2'', m_workspaceId = ''w1'', m_userId = ''bob'', m_role = MEMBER\<rparr> tokened = (Inr (), s') \<and>
     EvictUser ''w1'' ''bob'' \<in> set (outbox s')"
proof -
  have "\<exists>s'. leave plain_api ''w1'' \<lparr>m_id = ''m2'', m_workspaceId = ''w1'', m_userId = ''bob'', m_role = MEMBER\<rparr> tokened = (Inr (), s')"
    by (simp add: leave_def requireMember_def memberWithUser_def revokeAllForMember_def plain_api_def tokened_def run
        andThen_def [of "callPlugin _ _"] callPlugin_def sample_db_def)
  then obtain s' where ok: "leave plain_api ''w1'' \<lparr>m_id = ''m2'', m_workspaceId = ''w1'', m_userId = ''bob'', m_role = MEMBER\<rparr> tokened = (Inr (), s')"
    by blast
  from leaving_cuts_access [OF ok] ok show ?thesis by auto
qed



end
