(* ===== verification/CommentProperties.thy ===== *)
theory CommentProperties
  imports Comments SampleWorkspace
begin

text \<open>
  Mentions, comments and notifications: what is read out of a written body, what redaction leaves, whom a
  comment reaches, and who may delete one.
\<close>

section \<open>Mentions\<close>

text \<open>A user id of the kind the database draws.\<close>

definition eve :: ident where
  "eve = ''01890a5d-ac96-774b-bcce-b302099a8057''"

definition mallory :: ident where
  "mallory = ''01890a5d-ac96-774b-9cce-b302099a8058''"

lemma eve_uuid: "isUuidV7 eve"
  by code_simp

lemma mallory_uuid: "isUuidV7 mallory"
  by code_simp





section \<open>Comments\<close>

text \<open>
  C11. A comment that is accepted is stored once, and notifies exactly the members of the workspace it
  mentions, other than its author, each with one unread notification about that task.
\<close>

theorem comment_notifies_mentioned_members:
  assumes "comment_create w t u body s = (Inr out, s')"
  shows "comments (db s') = comments (db s) @ [cmd_row out] \<and>
         cm_taskId (cmd_row out) = t \<and> cm_userId (cmd_row out) = u \<and> cm_body (cmd_row out) = body \<and>
         (\<exists>N. notifications (db s') = notifications (db s) @ N \<and> distinct (map n_userId N) \<and>
            n_userId ` set N = {m_userId m | m. m \<in> set (members (db s)) \<and> m_workspaceId m = w \<and>
               m_userId m \<in> set (parseMentions body) \<and> m_userId m \<noteq> u} \<and>
            list_all (\<lambda>n. n_workspaceId n = w \<and> n_type n = Mention \<and> n_taskId n = Some t \<and> n_readAt n = None) N)"
proof -
  obtain N where N: "notifications (db s') = notifications (db s) @ N"
    "map n_userId N = unique (addressed (db s) w u body)"
    "\<forall>n \<in> set N. n_workspaceId n = w \<and> n_type n = Mention \<and> n_taskId n = Some t \<and> n_readAt n = None"
    using comment_create_ok(4) [OF assms] by blast
  have "n_userId ` set N = set (addressed (db s) w u body)"
    using arg_cong [OF N(2), of set] by simp
  then have "n_userId ` set N = {m_userId m | m. m \<in> set (members (db s)) \<and> m_workspaceId m = w \<and>
       m_userId m \<in> set (parseMentions body) \<and> m_userId m \<noteq> u}"
    by (simp only: addressed_set parseMentions_def set_unique)
  with N comment_create_ok(2,3) [OF assms] show ?thesis
    by (auto simp: list_all_iff)
qed

theorem comment_notifies_mentioned_members_witness:
  "\<exists>out s'. comment_create ''w1'' ''t1'' ''ada'' ''plain'' sample = (Inr out, s') \<and>
     map cm_body (comments (db s')) = [''hi'', ''plain'']"
proof -
  have none: "parseMentions ''plain'' = []"
    by (simp add: parseMentions_def mentionMatch_no_at unique_def)
  have "\<exists>out s'. comment_create ''w1'' ''t1'' ''ada'' ''plain'' sample = (Inr out, s')"
    by (simp add: comment_create_def commentTask_def run andThen_transaction none boardIn_def sample_db_def Let_def
        membersAmong_def)
  then obtain out s' where ok: "comment_create ''w1'' ''t1'' ''ada'' ''plain'' sample = (Inr out, s')" by blast
  from comment_notifies_mentioned_members [OF ok] ok show ?thesis by (auto simp: sample_db_def)
qed

text \<open>
  A comment is deleted by its author or by an owner or admin of the workspace, and by nobody else; what
  is deleted is that comment alone, and a refusal changes nothing.
\<close>

theorem comment_removal_cases:
  "comment_remove w k a role s =
     (case find (\<lambda>c. cm_id c = k \<and> taskIn (db s) w (cm_taskId c)) (comments (db s)) of
        None \<Rightarrow> (Inl (NotFound ''Comment not found''), s)
      | Some c \<Rightarrow>
          if cm_userId c = a \<or> role = OWNER \<or> role = ADMIN
          then (Inr (), s\<lparr>db := (db s)\<lparr>comments :=
                  filter (\<lambda>c. \<not> (cm_id c = k \<and> taskIn (db s) w (cm_taskId c))) (comments (db s))\<rparr>\<rparr>)
          else (Inl (Forbidden ''Only the author or an admin can delete this comment''), s))"
proof -
  have "commentKey (db s) w k = (\<lambda>c. cm_id c = k \<and> taskIn (db s) w (cm_taskId c))"
    by (rule ext) (simp add: commentKey_def)
  then show ?thesis by (simp only: comment_remove_cases)
qed

section \<open>Notifications\<close>

text \<open>
  Marking all read leaves the caller with no unread notification in that workspace, answers with how many
  there were, touches nobody else's, and signals the caller once if there were any.
\<close>

theorem mark_all_read_clears:
  assumes "markAllRead w u s = (r, s')"
  shows "r = Inr (length (filter (unreadFor w u) (notifications (db s)))) \<and>
         filter (unreadFor w u) (notifications (db s')) = [] \<and>
         filter (\<lambda>n. \<not> (n_workspaceId n = w \<and> n_userId n = u)) (notifications (db s')) =
           filter (\<lambda>n. \<not> (n_workspaceId n = w \<and> n_userId n = u)) (notifications (db s)) \<and>
         outbox s' = outbox s @
           (if filter (unreadFor w u) (notifications (db s)) = [] then []
            else [ToUser w u NOTIFICATION_UNREAD_CHANGED])"
  using markAllRead_ok [OF assms] by blast

theorem mark_all_read_clears_witness:
  "fst (markAllRead ''w1'' ''bob'' sample) = Inr 1"
  using mark_all_read_clears [of "''w1''" "''bob''" sample "fst (markAllRead ''w1'' ''bob'' sample)"
      "snd (markAllRead ''w1'' ''bob'' sample)"]
  by (simp add: unreadFor_def sample_db_def)

text \<open>
  C33. An email about a task goes only to the user it is for, at that user's address, and only if the account
  is not deleted, has not turned emails off and is not the one who acted; it is about a task of that
  workspace, and a reminder only about one that has a due date.
\<close>

theorem mail_goes_to_the_right_user:
  assumes "buildMail env d item = Some m"
  shows "(\<exists>u \<in> set (users d). u_id u = mi_userId item \<and> mm_to m = u_email u \<and>
            u_deletedAt u = None \<and> u_emailNotifications u \<and> mi_actorId item \<noteq> Some (u_id u)) \<and>
         (\<exists>t \<in> set (tasks d). t_id t = mi_taskId item \<and> boardIn d (mi_workspaceId item) (t_boardId t) \<and>
            mm_taskTitle m = t_title t \<and> (mi_type item \<noteq> DueSoon \<or> (mm_dueDate m = t_dueDate t \<and> t_dueDate t \<noteq> None)))"
  using mail_recipient [OF assms] by blast

theorem mail_goes_to_the_right_user_witness:
  "\<exists>m. buildMail (\<lambda>_. None) sample_db \<lparr>mi_workspaceId = ''w1'', mi_userId = ''bob'', mi_actorId = Some ''ada'',
     mi_type = Assignment, mi_taskId = ''t1''\<rparr> = Some m \<and> mm_to m = ''bob@x''"
proof -
  let ?item = "\<lparr>mi_workspaceId = ''w1'', mi_userId = ''bob'', mi_actorId = Some ''ada'',
     mi_type = Assignment, mi_taskId = ''t1''\<rparr>"
  have "\<exists>m. buildMail (\<lambda>_. None) sample_db ?item = Some m"
    by (simp add: buildMail_def boardIn_def sample_db_def Let_def)
  then obtain m where ok: "buildMail (\<lambda>_. None) sample_db ?item = Some m" by blast
  from mail_goes_to_the_right_user [OF ok] ok show ?thesis by (auto simp: sample_db_def)
qed

end
