(* ===== verification/ConfigProperties.thy ===== *)
theory ConfigProperties
  imports PlanLimits Locales SampleWorkspace
begin

text \<open>
  Configuration: numbers read from the environment, the storage ceilings, the plan of a workspace and the
  language of a reader.
\<close>

text \<open>
  An integer printed into an environment variable is read back as that integer, for every integer a
  double holds exactly.
\<close>

theorem env_int_roundtrip:
  assumes "env name = Some (int_string n)" and "\<bar>n\<bar> < 2 ^ 53"
  shows "envInt env name fallback = Inr n"
  by (rule envInt_reads_back [of env name n]) (use assms in simp_all)

theorem env_int_roundtrip_witness: "envInt [''N'' \<mapsto> int_string (- 42)] ''N'' 7 = Inr (- 42)"
  by (rule env_int_roundtrip) simp_all

text \<open>
  A storage configuration that is accepted is usable: the size of a file is positive, no quota or rate
  is negative, and a disk root is an absolute path.
\<close>

theorem storage_config_usable:
  assumes "readStorageConfig env = Inr c"
  shows "0 < sc_maxBytes c \<and> 0 \<le> sc_workspaceQuotaBytes c \<and> 0 \<le> sc_instanceQuotaBytes c \<and>
         0 \<le> sc_uploadBytesPerMinute c \<and>
         (case sc_disk c of None \<Rightarrow> True | Some path \<Rightarrow> starts_with ''/'' path)"
  using readStorageConfig_sound [OF assms] by (simp split: option.split)

theorem storage_config_usable_witness:
  "\<exists>c. readStorageConfig (\<lambda>_. None) = Inr c \<and> 0 < sc_maxBytes c"
proof -
  have "\<exists>c. readStorageConfig (\<lambda>_. None) = Inr c" by (simp add: readStorageConfig_default)
  with storage_config_usable show ?thesis by blast
qed

text \<open>
  A seat is granted exactly while the members, with the pending invitations when they count, are fewer
  than the workspace's plan allows; a plan without a ceiling grants every seat.
\<close>

theorem seat_granted_iff_room:
  assumes "limitsFor w s = Inr limits"
  shows "fst (assertSeatAvailable w counts s) = Inr () \<longleftrightarrow>
    (case wl_seats limits of
       None \<Rightarrow> True
     | Some n \<Rightarrow> length (filter (\<lambda>m. m_workspaceId m = w) (members (db s))) +
         (if counts then length (filter (\<lambda>i. i_workspaceId i = w \<and> i_status i = ''pending'' \<and> clock s < i_expiresAt i)
            (invitations (db s))) else 0) < n)"
  using assertSeatAvailable_iff [OF assms, of counts]
  by (simp add: room_def memberCount_def pendingInvitation_def [abs_def] split: option.split)

theorem seat_granted_iff_room_witness:
  "fst (assertSeatAvailable ''w1'' True sample) = Inr ()"
proof -
  have "limitsFor ''w1'' sample = Inr \<lparr>wl_seats = None, wl_boards = None, wl_storageBytes = Some 2147483648\<rparr>"
    by (simp add: limitsFor_def readInstancePlanLimits_def readCeiling_unset readStorageConfig_default sample_db_def
      bind_result_def resolveWorkspacePlanLimits_def parseWorkspacePlanOverride_def quotaBytesToCeiling_def Let_def)
  from seat_granted_iff_room [OF this, of True] show ?thesis by simp
qed

text \<open>
  The ceiling of a workspace on seats is its own override when that is a whole number or an explicit
  null, zero and null meaning no ceiling, and the instance's otherwise: a malformed override defers.
\<close>

theorem override_beats_instance:
  assumes "limitsFor w s = Inr limits" and "readInstancePlanLimits (environ s) = Inr inst"
    and "find (\<lambda>x. w_id x = w) (workspaces (db s)) = Some row"
  shows "wl_seats limits =
      (case (case w_planLimits row of Some (JObj kv) \<Rightarrow> map_of kv ''seats'' | _ \<Rightarrow> None) of
         Some JNull \<Rightarrow> None
       | Some (JNum v) \<Rightarrow>
           if is_integer v \<and> 0 \<le> v then (if v = 0 then None else Some (nat \<lfloor>v\<rfloor>)) else il_seatsPerWorkspace inst
       | _ \<Rightarrow> il_seatsPerWorkspace inst)"
  by (rule override_precedence(2) [OF assms])

theorem override_beats_instance_witness:
  "\<exists>limits. limitsFor ''w1'' sample = Inr limits \<and> wl_seats limits = None"
proof -
  have l: "limitsFor ''w1'' sample = Inr \<lparr>wl_seats = None, wl_boards = None, wl_storageBytes = Some 2147483648\<rparr>"
    by (simp add: limitsFor_def readInstancePlanLimits_def readCeiling_unset readStorageConfig_default sample_db_def
      bind_result_def resolveWorkspacePlanLimits_def parseWorkspacePlanOverride_def quotaBytesToCeiling_def Let_def)
  have "readInstancePlanLimits (environ sample) = Inr \<lparr>il_seatsPerWorkspace = None, il_boardsPerWorkspace = None,
      il_workspaces = None, il_users = None\<rparr>"
    by (simp add: readInstancePlanLimits_def readCeiling_unset bind_result_def)
  moreover have "find (\<lambda>x. w_id x = ''w1'') (workspaces (db sample)) =
      Some \<lparr>w_id = ''w1'', w_name = ''Works'', w_slug = ''works'', w_planLimits = None\<rparr>"
    by (simp add: sample_db_def)
  ultimately show ?thesis using override_beats_instance [OF l] l by simp
qed

text \<open>
  The language chosen from an \<open>Accept-Language\<close> header is one the header names with the greatest weight
  among those the interface has.
\<close>

theorem negotiation_prefers_weight:
  assumes "negotiateLocale (Some header) = Some l"
  shows "\<exists>w \<in> set (acceptable header). matchLocale (Some (wt_tag w)) = Some l \<and>
           list_all (\<lambda>v. matchLocale (Some (wt_tag v)) = None \<or> wt_quality v \<le> wt_quality w) (acceptable header)"
  using negotiate_best [OF assms] unfolding list_all_iff by blast

theorem negotiation_prefers_weight_witness:
  "\<exists>w \<in> set (acceptable ''fr,tr;q=0.8,en;q=0.5''). matchLocale (Some (wt_tag w)) = Some Tr"
proof -
  have "negotiateLocale (Some ''fr,tr;q=0.8,en;q=0.5'') = Some Tr" by code_simp
  from negotiation_prefers_weight [OF this] show ?thesis by blast
qed

end
