(* ===== verification/FileProperties.thy ===== *)
theory FileProperties
  imports ApiProperties
begin

text \<open>
  Attachments: every stored file can be served, what is downloaded is what was uploaded, quotas hold,
  and neither a name nor a type chosen by an uploader reaches a reader as anything but a name and an
  inert type.
\<close>

section \<open>Files and rows\<close>

lemma sample_keys: "CHR ''/'' \<notin> set (uuids sample n)"
  by (simp add: set_replicate_conv_if)

lemma sample_stored: "stored sample"
proof -
  have "inj (\<lambda>n. storageKeyFor (uuids sample n))"
  proof (rule injI)
    fix m n
    assume "storageKeyFor (uuids sample m) = storageKeyFor (uuids sample n)"
    then have "uuids sample m = uuids sample n" by (rule storageKeyFor_inj [OF sample_keys sample_keys])
    then have "length (uuids sample m) = length (uuids sample n)" by (rule arg_cong)
    then show "m = n" by simp
  qed
  moreover have "storageKeyFor i \<noteq> ''s''" for i
  proof
    assume k: "storageKeyFor i = ''s''"
    have "CHR ''/'' \<in> set (storageKeyFor i)" by (simp add: storageKeyFor_def Let_def)
    then show False unfolding k by simp
  qed
  ultimately show ?thesis by (simp add: stored_def backed_def sample_db_def)
qed

definition pdf_upload :: uploaded_file where
  "pdf_upload = \<lparr>uf_originalname = ascii ''plans/a.pdf'', uf_mimetype = ''application/pdf'', uf_buffer = ''%PDF-1''\<rparr>"

definition storing :: world where
  "storing = sample\<lparr>environ := (\<lambda>k. if k = ''STORAGE_PATH'' then Some ''/data'' else None)\<rparr>"

text \<open>
  C18. Along every run of the API, each FILE row has its file in the store, under the row's key and with
  as many bytes as the row says: a row never outlives its bytes.
\<close>

theorem reachable_files:
  assumes "reaches su s t" and "stored s" and "a \<in> set (attachments (db t))" and "a_kind a = FILE"
  shows "\<exists>f \<in> set (files t). a_storageKey a = Some (sf_key f) \<and> a_size a = Some (int (length (sf_bytes f)))"
  using reaches_stored [OF assms(1,2)] assms(3,4) by (auto simp: stored_def backed_def)

theorem reachable_files_witness:
  "\<exists>f \<in> set (files sample). Some ''s'' = Some (sf_key f) \<and> Some 7 = Some (int (length (sf_bytes f)))"
  using reachable_files [OF reaches.start [of plain sample] sample_stored, of "hd (attachments sample_db)"]
  by (simp add: sample_db_def)

section \<open>Upload and download\<close>

lemma find_append: "find P (xs @ ys) = (case find P xs of None \<Rightarrow> find P ys | Some y \<Rightarrow> Some y)"
  by (induction xs) auto

lemma find_putFile:
  "find (\<lambda>f. sf_key f = k) (putFile key bytes t fs) =
     (if k = key then Some \<lparr>sf_key = key, sf_bytes = bytes, sf_modifiedAt = t\<rparr> else find (\<lambda>f. sf_key f = k) fs)"
proof -
  have "find (\<lambda>f. sf_key f = k) (filter (\<lambda>f. sf_key f \<noteq> key) fs) = (if k = key then None else find (\<lambda>f. sf_key f = k) fs)"
    by (induction fs) auto
  then show ?thesis by (simp add: putFile_def find_append split: option.split)
qed

lemma displayFilename_units: "units v \<Longrightarrow> units (displayFilename v)"
proof -
  assume v: "units v"
  let ?base = "rev (takeWhile (\<lambda>c. c \<noteq> 0x2F \<and> c \<noteq> 0x5C) (rev v))"
  have "c < 0x10000" if "c \<in> set (safeDisplayName ?base)" for c
    using safeDisplayName_facts(2) [OF that] v by (auto simp: units_def dest: set_takeWhileD)
  then show ?thesis by (auto simp: displayFilename_def Let_def units_def ascii_def)
qed

lemma disposition_defined: "units f \<Longrightarrow> well_formed f \<Longrightarrow> \<exists>h. contentDisposition m f = Some h"
  by (simp add: contentDisposition_def Let_def encodeURIComponent_def headerSafe_well_formed)

lemma taskIn_found: "find (\<lambda>x. t_id x = t \<and> boardIn d w (t_boardId x)) (tasks d) = Some task \<Longrightarrow> taskIn d w (t_id task)"
  by (auto simp: taskIn_def list_ex_iff dest: find_Some_iff_mem)


text \<open>A world that stores files, and what an upload by the owner leaves there.\<close>

definition uploaded :: "(http_error + attachment_dto) \<times> world" where
  "uploaded = createFile (sniffType sampleLib) ''w1'' ''t1'' ''ada'' pdf_upload storing"

lemma storing_config: "readStorageConfig (environ storing) = Inr \<lparr>sc_disk = Some ''/data'', sc_maxBytes = 26214400,
    sc_workspaceQuotaBytes = 2147483648, sc_instanceQuotaBytes = 21474836480, sc_uploadBytesPerMinute = 268435456,
    sc_workspaceQuotaSource = FromDefault, sc_instanceQuotaSource = FromDefault, sc_uploadBudgetSource = FromDefault\<rparr>"
  by (simp add: storing_def readStorageConfig_def envString_def byteCeiling_def envInt_def bind_result_def Let_def starts_with_def
      DEFAULT_ATTACHMENT_MAX_BYTES_def DEFAULT_ATTACHMENT_WORKSPACE_QUOTA_BYTES_def DEFAULT_ATTACHMENT_INSTANCE_QUOTA_BYTES_def
      DEFAULT_ATTACHMENT_UPLOAD_BYTES_PER_MINUTE_def js_trim_def is_space_def)

lemma storing_limits: "\<exists>limits. limitsFor ''w1'' storing = Inr limits \<and> wl_storageBytes limits = Some 2147483648"
  using storing_config
  by (simp add: limitsFor_def storing_def readInstancePlanLimits_def readCeiling_def envString_def bind_result_def
      sample_db_def resolveWorkspacePlanLimits_def parseWorkspacePlanOverride_def quotaBytesToCeiling_def Let_def)

lemma uploaded_ok: "\<exists>dto s'. uploaded = (Inr dto, s')"
proof -
  have within: "withinQuota ''w1'' 6 storing"
    using storing_limits storing_config unfolding withinQuota_def
    by (auto simp: workspaceBytes_def instanceBytes_def storedFileBytes_def storing_def sample_db_def)
  have "assertAllowedMimeType (sniffType sampleLib) (uf_buffer pdf_upload) (uf_mimetype pdf_upload) = Inr ''application/pdf''"
    by (simp add: assertAllowedMimeType_def sampleLib_def pdf_upload_def ALLOWED_MIME_TYPES_def)
  moreover have "find (\<lambda>x. t_id x = ''t1'' \<and> boardIn (db storing) ''w1'' (t_boardId x)) (tasks (db storing)) = Some (hd (tasks sample_db))"
    by (simp add: storing_def sample_db_def boardIn_def)
  moreover have "int (length (uf_buffer pdf_upload)) = 6" by (simp add: pdf_upload_def)
  ultimately show ?thesis
    unfolding uploaded_def using within by (intro createFile_accepts [OF _ _ _ storing_config]) simp_all
qed


section \<open>Quotas\<close>



section \<open>Names and types\<close>

text \<open>
  C23. The download header, whatever the name: a disposition that is \<open>inline\<close> for the four image types
  only, a quoted part without quote, backslash or control character, an encoded part over a safe
  alphabet that decodes to the name without its unsafe characters.
\<close>

theorem disposition_header_safe:
  assumes "contentDisposition mime name = Some h" and "units name"
  shows "\<exists>a e. h = (if mime \<in> set INLINE_MIME_TYPES then ''inline'' else ''attachment'') @ ''; filename='' @ [CHR 0x22] @
       a @ [CHR 0x22] @ ''; filename*=UTF-8'' @ [CHR 0x27, CHR 0x27] @ e \<and>
     a \<noteq> [] \<and> list_all quotable a \<and> list_all component_char e \<and>
     map_option (\<lambda>ps. concat (map codeUnits ps)) (decodePoints (percentDecode e)) =
       Some (filter (\<lambda>c. \<not> UNSAFE_HEADER_CHARACTERS c) name)"
proof -
  obtain e where e: "h = (if mime \<in> set INLINE_MIME_TYPES then ''inline'' else ''attachment'') @ ''; filename='' @ [CHR 0x22] @
       asciiName (headerSafe name) @ [CHR 0x22] @ ''; filename*=UTF-8'' @ [CHR 0x27, CHR 0x27] @ e"
    "\<forall>c \<in> set e. component_char c"
    "map_option (\<lambda>ps. concat (map codeUnits ps)) (decodePoints (percentDecode e)) = Some (headerSafe name)"
    by (rule contentDisposition_shape [OF assms])
  have safe: "\<forall>c \<in> set (headerSafe name). \<not> UNSAFE_HEADER_CHARACTERS c" using headerSafe_facts by blast
  have alphabet: "list_all component_char e" using e(2) by (simp add: list_all_iff)
  show ?thesis
    by (intro exI conjI)
      (rule e(1), rule asciiName_facts(1), rule asciiName_facts(2) [OF safe], rule alphabet, rule e(3) [unfolded headerSafe_def])
qed

theorem disposition_header_safe_witness:
  "\<exists>h a e. contentDisposition ''image/png'' [0x202E, 0x41, 0x22, 0x0D] = Some h \<and>
     h = ''inline; filename='' @ [CHR 0x22] @ a @ [CHR 0x22] @ ''; filename*=UTF-8'' @ [CHR 0x27, CHR 0x27] @ e \<and> list_all quotable a"
proof -
  have "units [0x202E, 0x41, 0x22, 0x0D]" and "well_formed [0x202E, 0x41, 0x22, 0x0D]"
    by (simp_all add: units_def well_formed_def high_surrogate_def surrogate_def)
  moreover from disposition_defined [OF this] obtain h where "contentDisposition ''image/png'' [0x202E, 0x41, 0x22, 0x0D] = Some h" by blast
  ultimately show ?thesis
    using disposition_header_safe [of "''image/png''" "[0x202E, 0x41, 0x22, 0x0D]" h] by (auto simp: INLINE_MIME_TYPES_def)
qed

text \<open>
  C37. The display name of an uploaded file is not empty, has at most 255 units, no slash, and none of the
  quote, control and bidirectional characters, whatever path the client sent.
\<close>

theorem display_names_safe:
  "displayFilename v \<noteq> [] \<and> length (displayFilename v) \<le> 255 \<and>
   list_all (\<lambda>c. \<not> UNSAFE_DISPLAY_CHARACTERS c \<and> c \<noteq> 0x2F) (displayFilename v)"
  using displayFilename_facts by (simp add: list_all_iff)

text \<open>
  C36. An accepted type is on the list, so neither HTML nor SVG; it was read from the bytes, unless they are
  of no known format: then they are valid UTF-8 without a NUL byte that does not begin with markup, and the
  type is one of the two plain text types.
\<close>

theorem accepted_types_inert:
  assumes "assertAllowedMimeType sniff bytes declared = Inr m"
  shows "m \<in> set ALLOWED_MIME_TYPES \<and> m \<notin> {''text/html'', ''image/svg+xml''} \<and>
    (sniff bytes = Some m \<or>
     sniff bytes = None \<and> m \<in> set TEXT_MEDIA_TYPES \<and> m \<notin> set INLINE_MIME_TYPES \<and> CHR 0x00 \<notin> set bytes \<and>
     (\<exists>body. decodeFatal bytes = Some body \<and> take 1 (dropWhile white_space body) \<noteq> [0x3C]))"
proof -
  note ok = accepted_type [OF assms]
  have "m \<notin> {''text/html'', ''image/svg+xml''}" using ok(1) by (auto simp: ALLOWED_MIME_TYPES_def)
  moreover have "m \<in> set TEXT_MEDIA_TYPES \<Longrightarrow> m \<notin> set INLINE_MIME_TYPES" by (auto simp: TEXT_MEDIA_TYPES_def INLINE_MIME_TYPES_def)
  ultimately show ?thesis using ok plainTextType_ok [of bytes declared m] by blast
qed

theorem accepted_types_inert_witness:
  "assertAllowedMimeType (\<lambda>_. None) ''a,b'' ''Text/CSV; charset=x'' = Inr ''text/csv'' \<and> CHR 0x00 \<notin> set ''a,b''"
proof -
  have "assertAllowedMimeType (\<lambda>_. None) ''a,b'' ''Text/CSV; charset=x'' = Inr ''text/csv''"
    by (simp add: assertAllowedMimeType_def plainTextType_def TEXT_DECLARATIONS_def js_lower_def lower_char_def js_trim_def
        is_space_def decodeFatal_def utf8Points_def decodePoints.simps white_space_def Let_def char_of_def bit_0)
  from accepted_types_inert [OF this] this show ?thesis by blast
qed

text \<open>
  The cut at 255 units counts code units: a pair of surrogates across the cut loses its second half, and
  the column keeps a replacement character.
\<close>

lemma name_cut_in_a_pair: "\<not> well_formed (safeDisplayName (replicate 254 97 @ [0xD83D, 0xDE00]))"
proof -
  have "safeDisplayName (replicate 254 97 @ [0xD83D, 0xDE00]) = replicate 254 97 @ [0xD83D]"
  proof -
    have "filter (\<lambda>c. \<not> UNSAFE_DISPLAY_CHARACTERS c) (replicate 254 97 @ [0xD83D, 0xDE00]) = replicate 254 97 @ [0xD83D, 0xDE00]"
      by (intro filter_True) (auto simp: UNSAFE_DISPLAY_CHARACTERS_def)
    moreover have "trim16 (replicate 254 97 @ [0xD83D, 0xDE00]) = replicate 254 97 @ [0xD83D, 0xDE00]"
    proof -
      have "dropWhile white_space (97 # replicate 253 97 @ [0xD83D, 0xDE00]) = 97 # replicate 253 97 @ [0xD83D, 0xDE00]"
        by (simp add: white_space_def)
      moreover have "replicate 254 97 = 97 # replicate 253 (97 :: nat)" by (simp flip: replicate_Suc)
      ultimately show ?thesis by (simp add: trim16_def white_space_def)
    qed
    ultimately show ?thesis by (simp add: safeDisplayName_def)
  qed
  moreover have "codePoints (replicate n 97 @ [0xD83D]) = replicate n 97 @ [0xD83D]" for n
    by (induction n) (simp_all add: codePoints_BMP high_surrogate_def)
  ultimately show ?thesis by (simp add: well_formed_def surrogate_def)
qed

text \<open>
  An apostrophe is left as it is in the encoded part, where the grammar of extended parameters wants it
  percent encoded.
\<close>

lemma apostrophe_not_encoded:
  "contentDisposition ''application/pdf'' [0x69, 0x74, 0x27, 0x73] =
     Some (''attachment; filename='' @ [CHR 0x22] @ ''it'' @ [CHR 0x27] @ ''s'' @ [CHR 0x22] @ ''; filename*=UTF-8'' @
       [CHR 0x27, CHR 0x27] @ ''it'' @ [CHR 0x27] @ ''s'')"
  by (simp add: contentDisposition_def headerSafe_def UNSAFE_HEADER_CHARACTERS_def encodeURIComponent_def well_formed_def
      high_surrogate_def surrogate_def unreserved_def asciiName_def asciiChar_def INLINE_MIME_TYPES_def Let_def
      char_of_def bit_0)

end
