(* ===== verification/RateLimits.thy ===== *)
theory RateLimits
  imports Environment
begin

text \<open>
  \<open>apps/api/src/common/rate-limit/\<close>, \<open>auth/auth-rate-limit.ts\<close> and \<open>attachment/upload-budget.guard.ts\<close>:
  fixed-window counters. A counter table is a list of keyed entries in insertion order, as a
  JavaScript \<open>Map\<close> iterates; the two in-process tables (bytes per address, attempts per address and
  path) have the same shape and are interpretations of one interface, whose client lemma bounds
  what a window admits. Redis runs the counter scripts; an outage is an answer of its own.
\<close>

section \<open>Policies\<close>

definition RATE_LIMIT_WINDOW_SECONDS :: int where
  "RATE_LIMIT_WINDOW_SECONDS = 60"

definition DEFAULT_RATE_LIMIT :: nat where
  "DEFAULT_RATE_LIMIT = 100"

definition INVITATION_RATE_LIMIT :: nat where
  "INVITATION_RATE_LIMIT = 10"

definition TASK_SEARCH_RATE_LIMIT :: nat where
  "TASK_SEARCH_RATE_LIMIT = 30"

definition ATTACHMENT_UPLOAD_RATE_LIMIT :: nat where
  "ATTACHMENT_UPLOAD_RATE_LIMIT = 20"

definition ATTACHMENT_DOWNLOAD_RATE_LIMIT :: nat where
  "ATTACHMENT_DOWNLOAD_RATE_LIMIT = 300"

definition IMPORT_RATE_LIMIT :: nat where
  "IMPORT_RATE_LIMIT = 3"

definition rateLimitEnabled :: "environment \<Rightarrow> http_error + bool" where
  "rateLimitEnabled env = envBool env ''RATE_LIMIT_ENABLED'' True"

text \<open>\<open>req.query.q\<close>: absent, one string, or the array a repeated key gives.\<close>

datatype query_value = NoValue | OneValue string | ManyValues "string list"

definition hasSearchTerm :: "query_value \<Rightarrow> bool" where
  "hasSearchTerm q =
     (case q of OneValue v \<Rightarrow> js_trim v \<noteq> [] | ManyValues vs \<Rightarrow> vs \<noteq> [] | NoValue \<Rightarrow> False)"

definition taskListRateLimit :: "query_value \<Rightarrow> nat" where
  "taskListRateLimit q = (if hasSearchTerm q then TASK_SEARCH_RATE_LIMIT else DEFAULT_RATE_LIMIT)"

section \<open>Tables of counters\<close>

record window_entry =
  we_total :: int
  we_expiresAt :: millis

type_synonym windows = "(string \<times> window_entry) list"

definition deleteKey :: "string \<Rightarrow> windows \<Rightarrow> windows" where
  "deleteKey key ws = filter (\<lambda>p. fst p \<noteq> key) ws"

text \<open>\<open>existing.total += n\<close> on the entry itself: the entry keeps its place.\<close>

definition bump :: "string \<Rightarrow> int \<Rightarrow> windows \<Rightarrow> windows" where
  "bump key n ws = map (\<lambda>p. if fst p = key then (fst p, (snd p)\<lparr>we_total := we_total (snd p) + n\<rparr>) else p) ws"

text \<open>Whole seconds from \<open>now\<close> to \<open>until\<close>, rounded up, at least one.\<close>

definition secondsUntil :: "millis \<Rightarrow> millis \<Rightarrow> int" where
  "secondsUntil t until = max 1 ((until - t + 999) div 1000)"

section \<open>The byte budget\<close>

definition UPLOAD_BUDGET_KEY_PREFIX :: string where
  "UPLOAD_BUDGET_KEY_PREFIX = ''kurul:upload-budget:''"

definition UPLOAD_BUDGET_ERROR_MESSAGE :: string where
  "UPLOAD_BUDGET_ERROR_MESSAGE = ''Upload byte budget exceeded. Please try again in a minute.''"

definition UPLOAD_BUDGET_FALLBACK_MAX_ENTRIES :: nat where
  "UPLOAD_BUDGET_FALLBACK_MAX_ENTRIES = 10000"

definition UPLOAD_BUDGET_REPORT_DAMPEN_MS :: int where
  "UPLOAD_BUDGET_REPORT_DAMPEN_MS = 5 * 60 * 1000"

record byte_verdict =
  bv_allowed :: bool
  bv_retryAfterSeconds :: int

definition evictOne :: "millis \<Rightarrow> windows \<Rightarrow> windows" where
  "evictOne t ws =
     (case find (\<lambda>p. we_expiresAt (snd p) \<le> t) ws of
        Some p \<Rightarrow> deleteKey (fst p) ws
      | None \<Rightarrow> (case ws of [] \<Rightarrow> [] | p # _ \<Rightarrow> deleteKey (fst p) ws))"

definition chargeSync :: "millis \<Rightarrow> string \<Rightarrow> int \<Rightarrow> int \<Rightarrow> int \<Rightarrow> windows \<Rightarrow> byte_verdict \<times> windows" where
  "chargeSync t key bytes limit windowSeconds ws =
     (let existing = map_of ws key
      in case existing of
           Some e \<Rightarrow>
             if t < we_expiresAt e
             then (\<lparr>bv_allowed = we_total e + bytes \<le> limit, bv_retryAfterSeconds = secondsUntil t (we_expiresAt e)\<rparr>,
                   bump key bytes ws)
             else (\<lparr>bv_allowed = bytes \<le> limit, bv_retryAfterSeconds = windowSeconds\<rparr>,
                   deleteKey key ws @ [(key, \<lparr>we_total = bytes, we_expiresAt = t + windowSeconds * 1000\<rparr>)])
         | None \<Rightarrow>
             let ws' = (if UPLOAD_BUDGET_FALLBACK_MAX_ENTRIES \<le> length ws then evictOne t ws else ws)
             in (\<lparr>bv_allowed = bytes \<le> limit, bv_retryAfterSeconds = windowSeconds\<rparr>,
                 ws' @ [(key, \<lparr>we_total = bytes, we_expiresAt = t + windowSeconds * 1000\<rparr>)]))"

text \<open>
  The script Redis runs, on the counter it stores and the time that one expires, if it has a time: a
  counter past its time is gone, \<open>INCRBY\<close> opens a new one at zero, and the branch for a negative TTL
  gives a time to a counter that has none.
\<close>

type_synonym redis_counter = "int \<times> millis option"

definition live_counter :: "millis \<Rightarrow> redis_counter option \<Rightarrow> redis_counter" where
  "live_counter t stored =
     (case stored of
        Some (v, Some x) \<Rightarrow> if t < x then (v, Some x) else (0, None)
      | Some (v, None) \<Rightarrow> (v, None)
      | None \<Rightarrow> (0, None))"

definition CHARGE_SCRIPT :: "redis_counter option \<Rightarrow> millis \<Rightarrow> int \<Rightarrow> int \<Rightarrow> int \<Rightarrow> bool \<times> redis_counter" where
  "CHARGE_SCRIPT stored t bytes windowSeconds limit =
     (let (v, x) = live_counter t stored;
          total = v + bytes;
          expiry = (case x of Some u \<Rightarrow> u | None \<Rightarrow> t + windowSeconds * 1000)
      in (\<not> limit < total, (total, Some expiry)))"

text \<open>What one call to Redis comes back with: the script's two integers, or an error.\<close>

datatype redis_answer = RedisError string | RedisAnswer int int

datatype report = Recovered | Degraded string

record redis_budget =
  rb_degraded :: bool
  rb_lastReportedAt :: millis
  rb_fallback :: windows

text \<open>\<open>shouldReport\<close>: whether the slot is free, and the state with the slot claimed.\<close>

definition shouldReport :: "millis \<Rightarrow> redis_budget \<Rightarrow> bool \<times> redis_budget" where
  "shouldReport t b =
     (if t - rb_lastReportedAt b < UPLOAD_BUDGET_REPORT_DAMPEN_MS then (False, b)
      else (True, b\<lparr>rb_lastReportedAt := t\<rparr>))"

text \<open>One charge: the verdict, the reports made (with their time), the budget after it.\<close>

definition redisCharge ::
    "redis_answer \<Rightarrow> millis \<Rightarrow> string \<Rightarrow> int \<Rightarrow> int \<Rightarrow> int \<Rightarrow> redis_budget \<Rightarrow>
     byte_verdict \<times> (millis \<times> report) list \<times> redis_budget" where
  "redisCharge answer t key bytes limit windowSeconds b =
     (case answer of
        RedisAnswer allowed ttl \<Rightarrow>
          let (reports, b') =
                (if rb_degraded b
                 then let (ok, b1) = shouldReport t (b\<lparr>rb_degraded := False\<rparr>)
                      in (if ok then [(t, Recovered)] else [], b1)
                 else ([], b))
          in (\<lparr>bv_allowed = (allowed = 1), bv_retryAfterSeconds = (if 0 < ttl then ttl else windowSeconds)\<rparr>, reports, b')
      | RedisError message \<Rightarrow>
          let (reports, b') =
                (if \<not> rb_degraded b
                 then let (ok, b1) = shouldReport t (b\<lparr>rb_degraded := True\<rparr>)
                      in (if ok then [(t, Degraded message)] else [], b1)
                 else ([], b));
              (verdict, ws) = chargeSync t key bytes limit windowSeconds (rb_fallback b')
          in (verdict, reports, b'\<lparr>rb_fallback := ws\<rparr>))"

section \<open>The guard of the upload route\<close>

record upload_request =
  ur_contentType :: "string option"
  ur_contentLength :: "string option"
  ur_ip :: "string option"

definition declaredBytes :: "upload_request \<Rightarrow> int option" where
  "declaredBytes rq =
     (case ur_contentLength rq of
        None \<Rightarrow> None
      | Some header \<Rightarrow>
          if js_trim header = [] then None
          else (case js_number (js_trim header) of
                  None \<Rightarrow> None
                | Some v \<Rightarrow> if is_integer v \<and> 0 \<le> v then Some \<lfloor>v\<rfloor> else None))"

definition UPLOAD_BUDGET_ERROR :: string where
  "UPLOAD_BUDGET_ERROR = ''Upload Budget Exceeded''"

text \<open>
  The decision of the guard with its effect on the counters: \<open>charge\<close> is the budget's charge for a key, a
  number of bytes, a limit and a window, on a state \<open>'b\<close>.
\<close>

definition uploadBudgetGuard ::
    "bool \<Rightarrow> storage_config \<Rightarrow> (string \<Rightarrow> int \<Rightarrow> int \<Rightarrow> int \<Rightarrow> 'b \<Rightarrow> byte_verdict \<times> 'b) \<Rightarrow> upload_request \<Rightarrow> ('b, unit) action" where
  "uploadBudgetGuard enabled c charge rq b =
     (let limit = sc_uploadBytesPerMinute c
      in if \<not> enabled \<or> limit = 0 then (Inr (), b)
         else if \<not> (case ur_contentType rq of None \<Rightarrow> False | Some t \<Rightarrow> starts_with ''multipart/'' (js_lower t)) then (Inr (), b)
         else
           let bytes = (case declaredBytes rq of Some n \<Rightarrow> n | None \<Rightarrow> sc_maxBytes c);
               key = UPLOAD_BUDGET_KEY_PREFIX @ (case ur_ip rq of Some ip \<Rightarrow> ip | None \<Rightarrow> ''unknown'');
               (verdict, b') = charge key bytes limit RATE_LIMIT_WINDOW_SECONDS b
           in if bv_allowed verdict then (Inr (), b')
              else (Inl (TooManyRequests UPLOAD_BUDGET_ERROR_MESSAGE UPLOAD_BUDGET_ERROR (nat (bv_retryAfterSeconds verdict))), b'))"

section \<open>The limiter of the authentication routes\<close>

definition AUTH_RATE_LIMIT_MAX :: int where
  "AUTH_RATE_LIMIT_MAX = 100"

definition AUTH_RATE_LIMIT_KEY_PREFIX :: string where
  "AUTH_RATE_LIMIT_KEY_PREFIX = ''kurul:auth-rate-limit:''"

definition FALLBACK_MAX_ENTRIES :: nat where
  "FALLBACK_MAX_ENTRIES = 10000"

definition AUTH_RATE_LIMIT_REPORT_DAMPEN_MS :: int where
  "AUTH_RATE_LIMIT_REPORT_DAMPEN_MS = 5 * 60 * 1000"

record rate_rule =
  rr_window :: int
  rr_max :: int

text \<open>Allowed, or the seconds to wait.\<close>

type_synonym rate_verdict = "bool \<times> int option"

definition CONSUME_SCRIPT :: "redis_counter option \<Rightarrow> millis \<Rightarrow> rate_rule \<Rightarrow> bool \<times> redis_counter" where
  "CONSUME_SCRIPT stored t rule =
     (let (v, x) = live_counter t stored;
          count = v + 1;
          expiry = (case x of Some u \<Rightarrow> u | None \<Rightarrow> t + rr_window rule * 1000)
      in (\<not> rr_max rule < count, (count, Some expiry)))"

definition evictOneFallbackEntry :: "millis \<Rightarrow> windows \<Rightarrow> windows" where
  "evictOneFallbackEntry t ws =
     (case find (\<lambda>p. we_expiresAt (snd p) \<le> t) ws of
        Some p \<Rightarrow> deleteKey (fst p) ws
      | None \<Rightarrow> (case ws of [] \<Rightarrow> [] | p # _ \<Rightarrow> deleteKey (fst p) ws))"

definition consumeInMemory :: "millis \<Rightarrow> string \<Rightarrow> rate_rule \<Rightarrow> windows \<Rightarrow> rate_verdict \<times> windows" where
  "consumeInMemory t key rule ws =
     (let existing = map_of ws key;
          fresh = (if rr_max rule < 1 then (False, Some (rr_window rule)) else (True, None));
          entry = \<lparr>we_total = 1, we_expiresAt = t + rr_window rule * 1000\<rparr>
      in case existing of
           Some e \<Rightarrow>
             if t < we_expiresAt e
             then (if rr_max rule < we_total e + 1 then (False, Some (secondsUntil t (we_expiresAt e))) else (True, None),
                   bump key 1 ws)
             else (fresh, deleteKey key ws @ [(key, entry)])
         | None \<Rightarrow>
             let ws' = (if FALLBACK_MAX_ENTRIES \<le> length ws then evictOneFallbackEntry t ws else ws)
             in (fresh, ws' @ [(key, entry)]))"

text \<open>The module's state is one flag, one time and the fallback counters.\<close>

definition shouldReportTransition :: "millis \<Rightarrow> redis_budget \<Rightarrow> bool \<times> redis_budget" where
  "shouldReportTransition t b =
     (if t - rb_lastReportedAt b < AUTH_RATE_LIMIT_REPORT_DAMPEN_MS then (False, b)
      else (True, b\<lparr>rb_lastReportedAt := t\<rparr>))"

definition consume ::
    "redis_answer \<Rightarrow> millis \<Rightarrow> string \<Rightarrow> rate_rule \<Rightarrow> redis_budget \<Rightarrow> rate_verdict \<times> (millis \<times> report) list \<times> redis_budget" where
  "consume answer t raw rule b =
     (case answer of
        RedisAnswer allowed retryAfter \<Rightarrow>
          let (reports, b') =
                (if rb_degraded b
                 then let (ok, b1) = shouldReportTransition t (b\<lparr>rb_degraded := False\<rparr>)
                      in (if ok then [(t, Recovered)] else [], b1)
                 else ([], b))
          in (if allowed = 1 then (True, None)
              else (False, Some (if 0 < retryAfter then retryAfter else rr_window rule)), reports, b')
      | RedisError message \<Rightarrow>
          let (reports, b') =
                (if \<not> rb_degraded b
                 then let (ok, b1) = shouldReportTransition t (b\<lparr>rb_degraded := True\<rparr>)
                      in (if ok then [(t, Degraded message)] else [], b1)
                 else ([], b));
              (verdict, ws) = consumeInMemory t (AUTH_RATE_LIMIT_KEY_PREFIX @ raw) rule (rb_fallback b')
          in (verdict, reports, b'\<lparr>rb_fallback := ws\<rparr>))"

section \<open>What every table of counters promises\<close>

definition has_table :: "nat \<Rightarrow> windows \<Rightarrow> bool" where
  "has_table cap ws \<longleftrightarrow> distinct (map fst ws) \<and> length ws \<le> cap"

definition has_room :: "nat \<Rightarrow> string \<Rightarrow> windows \<Rightarrow> bool" where
  "has_room cap k ws \<longleftrightarrow> k \<in> set (map fst ws) \<or> length ws < cap"

text \<open>What a run of charges lets through: the key, the end of the window it fell in, its cost.\<close>

fun admitted ::
    "(millis \<Rightarrow> string \<Rightarrow> int \<Rightarrow> windows \<Rightarrow> bool \<times> windows) \<Rightarrow> (millis \<times> string \<times> int) list \<Rightarrow> windows \<Rightarrow> (string \<times> millis \<times> int) list" where
  "admitted charge [] ws = []"
| "admitted charge ((t, k, n) # es) ws =
     (let (ok, ws') = charge t k n ws
      in (case map_of ws' k of Some e \<Rightarrow> if ok then [(k, we_expiresAt e, n)] else [] | None \<Rightarrow> [])
         @ admitted charge es ws')"

fun table_after ::
    "(millis \<Rightarrow> string \<Rightarrow> int \<Rightarrow> windows \<Rightarrow> bool \<times> windows) \<Rightarrow> (millis \<times> string \<times> int) list \<Rightarrow> windows \<Rightarrow> windows" where
  "table_after charge [] ws = ws"
| "table_after charge ((t, k, n) # es) ws = table_after charge es (snd (charge t k n ws))"

definition spent :: "string \<Rightarrow> millis \<Rightarrow> (string \<times> millis \<times> int) list \<Rightarrow> int" where
  "spent k x as = sum_list (map (\<lambda>(_, _, n). n) (filter (\<lambda>(k', x', _). k' = k \<and> x' = x) as))"

lemma spent_simps [simp]:
  "spent k x [] = 0"
  "spent k x ((k', x', n) # as) = (if k' = k \<and> x' = x then n else 0) + spent k x as"
  "spent k x (as @ bs) = spent k x as + spent k x bs"
  by (auto simp: spent_def)

text \<open>
  One charge on an open window adds to it; on none, or one that has run out, it opens a window of
  its own, and only a new key in a full table costs another key its entry.
\<close>

locale window_table =
  fixes charge :: "millis \<Rightarrow> string \<Rightarrow> int \<Rightarrow> windows \<Rightarrow> bool \<times> windows"
    and cap :: nat and limit :: int and width :: int
  assumes cap_pos: "0 < cap"
    and kept: "has_table cap ws \<Longrightarrow> has_table cap (snd (charge t k n ws))"
    and open_window:
      "distinct (map fst ws) \<Longrightarrow> map_of ws k = Some e \<Longrightarrow> t < we_expiresAt e \<Longrightarrow>
       fst (charge t k n ws) \<longleftrightarrow> we_total e + n \<le> limit"
      "distinct (map fst ws) \<Longrightarrow> map_of ws k = Some e \<Longrightarrow> t < we_expiresAt e \<Longrightarrow>
       map_of (snd (charge t k n ws)) = (map_of ws)(k \<mapsto> e\<lparr>we_total := we_total e + n\<rparr>)"
    and fresh_window:
      "distinct (map fst ws) \<Longrightarrow> has_room cap k ws \<Longrightarrow> (\<And>e. map_of ws k = Some e \<Longrightarrow> we_expiresAt e \<le> t) \<Longrightarrow>
       fst (charge t k n ws) \<longleftrightarrow> n \<le> limit"
      "distinct (map fst ws) \<Longrightarrow> has_room cap k ws \<Longrightarrow> (\<And>e. map_of ws k = Some e \<Longrightarrow> we_expiresAt e \<le> t) \<Longrightarrow>
       map_of (snd (charge t k n ws)) = (map_of ws)(k \<mapsto> \<lparr>we_total = n, we_expiresAt = t + width\<rparr>)"
begin

lemma bounded: "has_table cap ws \<Longrightarrow> has_table cap (table_after charge es ws)"
proof (induction es arbitrary: ws)
  case (Cons ev es)
  then show ?case by (cases ev) (simp add: kept)
qed simp

lemma keys_after:
  assumes "distinct (map fst ws)" "has_room cap k ws"
  shows "set (map fst (snd (charge t k n ws))) = insert k (set (map fst ws))"
proof -
  have "dom (map_of (snd (charge t k n ws))) = insert k (dom (map_of ws))"
  proof (cases "\<exists>e. map_of ws k = Some e \<and> t < we_expiresAt e")
    case True
    then obtain e where "map_of ws k = Some e" "t < we_expiresAt e" by blast
    then show ?thesis using open_window(2)[OF assms(1)] by auto
  next
    case False
    then have "map_of (snd (charge t k n ws)) = (map_of ws)(k \<mapsto> \<lparr>we_total = n, we_expiresAt = t + width\<rparr>)"
      using fresh_window(2)[OF assms] by (meson linorder_not_le)
    then show ?thesis by auto
  qed
  then show ?thesis by (simp add: dom_map_of_conv_image_fst)
qed

text \<open>A run on few enough keys never costs a key its window.\<close>

definition fits :: "(millis \<times> string \<times> int) list \<Rightarrow> windows \<Rightarrow> bool" where
  "fits es ws \<longleftrightarrow> has_table cap ws \<and> card (set (map fst ws) \<union> (fst \<circ> snd) ` set es) \<le> cap"

lemma fits_Nil: "fits es [] \<longleftrightarrow> card ((fst \<circ> snd) ` set es) \<le> cap"
  by (simp add: fits_def has_table_def)

lemma fitsD:
  assumes "fits ((t, k, n) # es) ws"
  shows "distinct (map fst ws)" "has_room cap k ws" "fits es (snd (charge t k n ws))"
proof -
  show d: "distinct (map fst ws)" using assms by (simp add: fits_def has_table_def)
  show r: "has_room cap k ws"
  proof (rule ccontr)
    assume "\<not> has_room cap k ws"
    then have "k \<notin> set (map fst ws)" "cap \<le> length ws" by (auto simp: has_room_def)
    moreover have "card (set (map fst ws)) = length ws" using d by (simp add: distinct_card[OF d, simplified])
    ultimately have "cap < card (insert k (set (map fst ws)))" by simp
    also have "\<dots> \<le> card (set (map fst ws) \<union> (fst \<circ> snd) ` set ((t, k, n) # es))" by (rule card_mono) auto
    finally show False using assms by (simp add: fits_def)
  qed
  show "fits es (snd (charge t k n ws))"
    using assms keys_after[OF d r] kept[of ws t k n] by (simp add: fits_def)
qed

lemma charge_cases:
  assumes "distinct (map fst ws)" "has_room cap k ws"
  obtains (live) e where "map_of ws k = Some e" "t < we_expiresAt e"
      "fst (charge t k n ws) \<longleftrightarrow> we_total e + n \<le> limit"
      "map_of (snd (charge t k n ws)) = (map_of ws)(k \<mapsto> e\<lparr>we_total := we_total e + n\<rparr>)"
    | (fresh) "\<And>e. map_of ws k = Some e \<Longrightarrow> we_expiresAt e \<le> t"
      "fst (charge t k n ws) \<longleftrightarrow> n \<le> limit"
      "map_of (snd (charge t k n ws)) = (map_of ws)(k \<mapsto> \<lparr>we_total = n, we_expiresAt = t + width\<rparr>)"
proof (cases "\<exists>e. map_of ws k = Some e \<and> t < we_expiresAt e")
  case True then show ?thesis using live open_window[OF assms(1)] by metis
next
  case False
  then have "\<And>e. map_of ws k = Some e \<Longrightarrow> we_expiresAt e \<le> t" by (meson linorder_not_le)
  then show ?thesis using fresh fresh_window[OF assms] by blast
qed

lemma no_return:
  "fits es ws \<Longrightarrow> 0 < width \<Longrightarrow> map_of ws k = Some e \<Longrightarrow> x < we_expiresAt e \<Longrightarrow> spent k x (admitted charge es ws) = 0"
proof (induction es arbitrary: ws e)
  case (Cons ev es)
  obtain t k' n where ev: "ev = (t, k', n)" by (cases ev)
  note f = fitsD[OF Cons.prems(1)[unfolded ev]]
  obtain ok ws' where c: "charge t k' n ws = (ok, ws')" by fastforce
  obtain e' where e': "map_of ws' k = Some e'" "x < we_expiresAt e'"
    using Cons.prems c by (cases rule: charge_cases[OF f(1,2), of t n]) (force simp: fun_upd_def split: if_splits)+
  have "spent k x (admitted charge es ws') = 0"
    using Cons.IH[OF _ Cons.prems(2) e'] f(3) c by simp
  then show ?case using e' by (auto simp: ev c split: option.splits)
qed simp

definition base :: "string \<Rightarrow> millis \<Rightarrow> windows \<Rightarrow> int" where
  "base k x ws = (case map_of ws k of Some e \<Rightarrow> if we_expiresAt e = x then we_total e else 0 | None \<Rightarrow> 0)"

lemma window_spend:
  "fits es ws \<Longrightarrow> 0 < width \<Longrightarrow> list_all (\<lambda>(_, _, n). 0 \<le> n) es \<Longrightarrow>
   spent k x (admitted charge es ws) \<le> max 0 (limit - base k x ws)"
proof (induction es arbitrary: ws)
  case (Cons ev es)
  obtain t k' n where ev: "ev = (t, k', n)" by (cases ev)
  note f = fitsD[OF Cons.prems(1)[unfolded ev]]
  obtain ok ws' where c: "charge t k' n ws = (ok, ws')" by fastforce
  have n: "0 \<le> n" and IH: "spent k x (admitted charge es ws') \<le> max 0 (limit - base k x ws')"
    using Cons.IH[of ws'] Cons.prems f(3) by (auto simp: ev c)
  show ?case
  proof (cases "k' = k")
    case other: False
    then have "base k x ws' = base k x ws"
      using c by (cases rule: charge_cases[OF f(1,2), of t n]) (auto simp: base_def)
    then show ?thesis using IH other by (auto simp: ev c split: option.splits)
  next
    case same: True
    note c = c[unfolded same]
    show ?thesis
    proof (cases rule: charge_cases[OF f(1,2), of t n, case_names live fresh])
      case (live e)
      then show ?thesis using IH n same by (auto simp: ev c base_def split: if_splits)
    next
      case fresh
      have "spent k x (admitted charge es ws') = 0" if "x < t + width"
        using no_return[OF f(3) Cons.prems(2), of k "\<lparr>we_total = n, we_expiresAt = t + width\<rparr>" x] fresh(3) c same that by simp
      moreover have "base k x ws = 0" if "t + width \<le> x"
        using fresh(1) same that Cons.prems(2) by (fastforce simp: base_def split: option.splits)
      ultimately show ?thesis
        using IH n fresh same by (cases "x < t + width") (auto simp: ev c base_def split: if_splits)
    qed
  qed
qed simp

text \<open>From an empty table, one window of one key lets through at most the limit.\<close>

lemma window_bound:
  assumes "0 < width" "0 \<le> limit" "list_all (\<lambda>(_, _, n). 0 \<le> n) es" "card ((fst \<circ> snd) ` set es) \<le> cap"
  shows "spent k x (admitted charge es []) \<le> limit"
  using window_spend[OF _ assms(1,3), of "[]" k x] assms(2,4) by (simp add: fits_Nil base_def)

end

section \<open>Both tables keep the promises\<close>

lemma map_of_deleteKey [simp]: "map_of (deleteKey k ws) = (map_of ws)(k := None)"
  by (induction ws) (auto simp: deleteKey_def)

lemma deleteKey_distinct [simp]: "distinct (map fst ws) \<Longrightarrow> distinct (map fst (deleteKey k ws))"
  by (induction ws) (auto simp: deleteKey_def)

lemma deleteKey_not_in [simp]: "k \<notin> fst ` set (deleteKey k ws)"
  by (auto simp: deleteKey_def)

lemma deleteKey_keys: "k' \<in> fst ` set (deleteKey k ws) \<Longrightarrow> k' \<in> fst ` set ws"
  by (auto simp: deleteKey_def)

lemma deleteKey_length: "k \<in> fst ` set ws \<Longrightarrow> length (deleteKey k ws) < length ws"
  unfolding deleteKey_def by (auto intro!: length_filter_less)

lemma bump_keys [simp]: "map fst (bump k n ws) = map fst ws"
  by (auto simp: bump_def)

lemma bump_length [simp]: "length (bump k n ws) = length ws"
  by (simp add: bump_def)

lemma map_of_bump:
  "map_of ws k = Some e \<Longrightarrow> map_of (bump k n ws) = (map_of ws)(k \<mapsto> e\<lparr>we_total := we_total e + n\<rparr>)"
proof -
  assume e: "map_of ws k = Some e"
  have "map_of (bump k n ws) k' = (if k' = k then map_option (\<lambda>d. d\<lparr>we_total := we_total d + n\<rparr>) (map_of ws k') else map_of ws k')" for k'
    by (induction ws) (auto simp: bump_def)
  then show ?thesis using e by auto
qed

text \<open>Both evictions are the same function; what is freed is one entry, when there is any.\<close>

lemma evictions_agree: "evictOneFallbackEntry = evictOne"
  by (simp add: fun_eq_iff evictOne_def evictOneFallbackEntry_def)

lemma evictOne_frees:
  assumes "ws \<noteq> []"
  obtains p where "p \<in> set ws" "evictOne t ws = deleteKey (fst p) ws"
proof (cases "find (\<lambda>p. we_expiresAt (snd p) \<le> t) ws")
  case None
  then show ?thesis using that assms by (cases ws) (auto simp: evictOne_def)
next
  case (Some p)
  then have "p \<in> set ws" by (auto simp: find_Some_iff)
  then show ?thesis using that Some by (simp add: evictOne_def)
qed

text \<open>Room for a new entry at the tail, as both counters make it.\<close>

definition make_room :: "nat \<Rightarrow> millis \<Rightarrow> windows \<Rightarrow> windows" where
  "make_room cap t ws = (if cap \<le> length ws then evictOne t ws else ws)"

lemma make_room_table:
  assumes "has_table cap ws" "0 < cap" "k \<notin> fst ` set ws"
  shows "has_table cap (make_room cap t ws @ [(k, e)])"
proof (cases "cap \<le> length ws")
  case False
  then show ?thesis using assms by (auto simp: make_room_def has_table_def)
next
  case True
  then have "ws \<noteq> []" using assms by auto
  then obtain p where p: "p \<in> set ws" "evictOne t ws = deleteKey (fst p) ws" by (rule evictOne_frees)
  have "length (deleteKey (fst p) ws) < length ws" using p(1) by (simp add: deleteKey_length)
  then show ?thesis
    using True assms p(2) deleteKey_keys[of k "fst p" ws] by (auto simp: make_room_def has_table_def)
qed

lemma make_room_id: "has_room cap k ws \<Longrightarrow> k \<notin> fst ` set ws \<Longrightarrow> make_room cap t ws = ws"
  by (auto simp: make_room_def has_room_def)

lemma reopened_table:
  assumes "has_table cap ws" "k \<in> fst ` set ws"
  shows "has_table cap (deleteKey k ws @ [(k, e)])"
  using assms deleteKey_length[of k ws] by (simp add: has_table_def)

lemma map_of_snoc: "m k = None \<Longrightarrow> [k \<mapsto> e] ++ m = m(k \<mapsto> e)"
  by (auto simp: fun_eq_iff map_add_def split: option.splits)

text \<open>The fixed window both counters are: an entry in time is added to, any other is replaced at the tail.\<close>

definition fixed_window :: "nat \<Rightarrow> int \<Rightarrow> int \<Rightarrow> millis \<Rightarrow> string \<Rightarrow> int \<Rightarrow> windows \<Rightarrow> bool \<times> windows" where
  "fixed_window cap limit width t k n ws =
     (case map_of ws k of
        Some e \<Rightarrow> if t < we_expiresAt e then (we_total e + n \<le> limit, bump k n ws)
                  else (n \<le> limit, deleteKey k ws @ [(k, \<lparr>we_total = n, we_expiresAt = t + width\<rparr>)])
      | None \<Rightarrow> (n \<le> limit, make_room cap t ws @ [(k, \<lparr>we_total = n, we_expiresAt = t + width\<rparr>)]))"

lemma fixed_window_live:
  "map_of ws k = Some e \<Longrightarrow> t < we_expiresAt e \<Longrightarrow>
   fixed_window cap limit width t k n ws = (we_total e + n \<le> limit, bump k n ws)"
  by (simp add: fixed_window_def)

lemma fixed_window_fresh:
  assumes "has_room cap k ws" "\<And>e. map_of ws k = Some e \<Longrightarrow> we_expiresAt e \<le> t"
  shows "fst (fixed_window cap limit width t k n ws) \<longleftrightarrow> n \<le> limit"
    and "map_of (snd (fixed_window cap limit width t k n ws)) = (map_of ws)(k \<mapsto> \<lparr>we_total = n, we_expiresAt = t + width\<rparr>)"
proof -
  show "fst (fixed_window cap limit width t k n ws) \<longleftrightarrow> n \<le> limit"
    using assms(2) by (fastforce simp: fixed_window_def split: option.splits)
  show "map_of (snd (fixed_window cap limit width t k n ws)) = (map_of ws)(k \<mapsto> \<lparr>we_total = n, we_expiresAt = t + width\<rparr>)"
  proof (cases "map_of ws k")
    case None
    then have "k \<notin> fst ` set ws" by (simp add: map_of_eq_None_iff)
    with None assms(1) show ?thesis by (simp add: fixed_window_def make_room_id[of cap k ws] map_of_snoc)
  next
    case (Some e)
    with assms(2) have "\<not> t < we_expiresAt e" by fastforce
    with Some show ?thesis by (simp add: fixed_window_def map_of_snoc)
  qed
qed

lemma fixed_window_kept:
  assumes "0 < cap" "has_table cap ws" shows "has_table cap (snd (fixed_window cap limit width t k n ws))"
proof (cases "map_of ws k")
  case None
  then have "k \<notin> fst ` set ws" by (simp add: map_of_eq_None_iff)
  with None assms show ?thesis by (simp add: fixed_window_def make_room_table)
next
  case (Some e)
  then have "k \<in> fst ` set ws" by (force dest: map_of_SomeD)
  then show ?thesis using Some assms by (simp add: fixed_window_def reopened_table) (simp add: has_table_def)
qed

lemma fixed_window_laws: "0 < cap \<Longrightarrow> window_table (fixed_window cap limit width) cap limit width"
  by (unfold_locales; (rule fixed_window_fresh)?; simp add: fixed_window_kept fixed_window_live map_of_bump del: map_of_eq_Some_iff)

text \<open>The byte budget and the attempts are such windows; an attempt costs one.\<close>

definition byte_charge :: "int \<Rightarrow> int \<Rightarrow> millis \<Rightarrow> string \<Rightarrow> int \<Rightarrow> windows \<Rightarrow> bool \<times> windows" where
  "byte_charge limit windowSeconds t k n ws =
     (let (v, ws') = chargeSync t k n limit windowSeconds ws in (bv_allowed v, ws'))"

lemma byte_charge_window:
  "byte_charge limit windowSeconds = fixed_window UPLOAD_BUDGET_FALLBACK_MAX_ENTRIES limit (windowSeconds * 1000)"
  by (auto simp: fun_eq_iff byte_charge_def chargeSync_def fixed_window_def make_room_def Let_def split: option.splits)

lemma attempt_window:
  "fst (fst (consumeInMemory t k rule ws)) =
     fst (fixed_window FALLBACK_MAX_ENTRIES (rr_max rule) (rr_window rule * 1000) t k 1 ws)"
  "snd (consumeInMemory t k rule ws) =
     snd (fixed_window FALLBACK_MAX_ENTRIES (rr_max rule) (rr_window rule * 1000) t k 1 ws)"
  by (auto simp: consumeInMemory_def fixed_window_def make_room_def evictions_agree Let_def split: option.splits)

interpretation byte_windows: window_table "byte_charge limit windowSeconds"
    UPLOAD_BUDGET_FALLBACK_MAX_ENTRIES limit "windowSeconds * 1000" for limit windowSeconds
  unfolding byte_charge_window by (rule fixed_window_laws) (simp add: UPLOAD_BUDGET_FALLBACK_MAX_ENTRIES_def)

interpretation attempt_windows: window_table
    "fixed_window FALLBACK_MAX_ENTRIES (rr_max rule) (rr_window rule * 1000)"
    FALLBACK_MAX_ENTRIES "rr_max rule" "rr_window rule * 1000" for rule
  by (rule fixed_window_laws) (simp add: FALLBACK_MAX_ENTRIES_def)


section \<open>Redis and its fallback\<close>

text \<open>A stored entry as the counter Redis would hold.\<close>

definition as_counter :: "window_entry \<Rightarrow> redis_counter" where
  "as_counter e = (we_total e, Some (we_expiresAt e))"

lemma fixed_window_script:
  assumes "has_table cap ws" "has_room cap k ws"
  shows "map_option as_counter (map_of (snd (fixed_window cap limit width t k n ws)) k)
       = Some (fst (live_counter t (map_option as_counter (map_of ws k))) + n,
               Some (case snd (live_counter t (map_option as_counter (map_of ws k))) of Some u \<Rightarrow> u | None \<Rightarrow> t + width))"
    and "fst (fixed_window cap limit width t k n ws)
         \<longleftrightarrow> fst (live_counter t (map_option as_counter (map_of ws k))) + n \<le> limit"
proof -
  have "map_option as_counter (map_of (snd (fixed_window cap limit width t k n ws)) k)
       = Some (fst (live_counter t (map_option as_counter (map_of ws k))) + n,
               Some (case snd (live_counter t (map_option as_counter (map_of ws k))) of Some u \<Rightarrow> u | None \<Rightarrow> t + width))
     \<and> (fst (fixed_window cap limit width t k n ws)
         \<longleftrightarrow> fst (live_counter t (map_option as_counter (map_of ws k))) + n \<le> limit)"
  proof (cases "\<exists>e. map_of ws k = Some e \<and> t < we_expiresAt e")
    case True
    then obtain e where e: "map_of ws k = Some e" "t < we_expiresAt e" by blast
    then show ?thesis by (simp add: fixed_window_live live_counter_def as_counter_def map_of_bump)
  next
    case False
    then have old: "\<And>e. map_of ws k = Some e \<Longrightarrow> we_expiresAt e \<le> t" by (meson linorder_not_le)
    then have "live_counter t (map_option as_counter (map_of ws k)) = (0, None)"
      by (cases "map_of ws k") (auto simp: live_counter_def as_counter_def dest: old)
    then show ?thesis using fixed_window_fresh[OF assms(2) old] by (simp add: as_counter_def)
  qed
  then show "map_option as_counter (map_of (snd (fixed_window cap limit width t k n ws)) k)
       = Some (fst (live_counter t (map_option as_counter (map_of ws k))) + n,
               Some (case snd (live_counter t (map_option as_counter (map_of ws k))) of Some u \<Rightarrow> u | None \<Rightarrow> t + width))"
    and "fst (fixed_window cap limit width t k n ws)
         \<longleftrightarrow> fst (live_counter t (map_option as_counter (map_of ws k))) + n \<le> limit" by auto
qed

text \<open>The runs of the two storages: one report at most in any \<open>DAMPEN\<close> milliseconds.\<close>

fun charge_reports :: "(redis_answer \<times> millis \<times> string \<times> int) list \<Rightarrow> int \<Rightarrow> int \<Rightarrow> redis_budget \<Rightarrow> (millis \<times> report) list" where
  "charge_reports [] limit w b = []"
| "charge_reports ((a, t, k, n) # es) limit w b =
     (let r = snd (redisCharge a t k n limit w b) in fst r @ charge_reports es limit w (snd r))"

fun consume_reports :: "(redis_answer \<times> millis \<times> string \<times> rate_rule) list \<Rightarrow> redis_budget \<Rightarrow> (millis \<times> report) list" where
  "consume_reports [] b = []"
| "consume_reports ((a, t, k, rule) # es) b =
     (let r = snd (consume a t k rule b) in fst r @ consume_reports es (snd r))"

definition spaced :: "int \<Rightarrow> (millis \<times> report) list \<Rightarrow> bool" where
  "spaced d rs = sorted_wrt (\<lambda>r r'. fst r + d \<le> fst r') rs"

definition spaced_from :: "int \<Rightarrow> millis \<Rightarrow> (millis \<times> report) list \<Rightarrow> bool" where
  "spaced_from d last_at rs \<longleftrightarrow> spaced d rs \<and> list_all (\<lambda>r. last_at + d \<le> fst r) rs"

lemma spaced_from_simps [simp]:
  "spaced_from d u []"
  "0 \<le> d \<Longrightarrow> spaced_from d u ((t, r) # rs) \<longleftrightarrow> u + d \<le> t \<and> spaced_from d t rs"
  by (fastforce simp: spaced_from_def spaced_def list_all_iff)+

lemma charge_reports_spaced:
  "spaced_from UPLOAD_BUDGET_REPORT_DAMPEN_MS (rb_lastReportedAt b) (charge_reports es limit w b)"
proof (induction es limit w b rule: charge_reports.induct)
  case (2 a t k n es limit w b)
  then show ?case
    by (cases a) (auto simp: redisCharge_def shouldReport_def UPLOAD_BUDGET_REPORT_DAMPEN_MS_def Let_def
        split: prod.splits if_splits)
qed simp

lemma consume_reports_spaced:
  "spaced_from AUTH_RATE_LIMIT_REPORT_DAMPEN_MS (rb_lastReportedAt b) (consume_reports es b)"
proof (induction es b rule: consume_reports.induct)
  case (2 a t k rule es b)
  then show ?case
    by (cases a) (auto simp: consume_def shouldReportTransition_def AUTH_RATE_LIMIT_REPORT_DAMPEN_MS_def Let_def
        split: prod.splits if_splits)
qed simp

section \<open>What passes the guard\<close>

text \<open>The bytes an upload counts for, and whether it is one the budget is for.\<close>

definition upload_bytes :: "storage_config \<Rightarrow> upload_request \<Rightarrow> int" where
  "upload_bytes c rq = (case declaredBytes rq of Some n \<Rightarrow> n | None \<Rightarrow> sc_maxBytes c)"

definition is_multipart :: "upload_request \<Rightarrow> bool" where
  "is_multipart rq = (case ur_contentType rq of None \<Rightarrow> False | Some ct \<Rightarrow> starts_with ''multipart/'' (js_lower ct))"

definition upload_key :: "upload_request \<Rightarrow> string" where
  "upload_key rq = UPLOAD_BUDGET_KEY_PREFIX @ (case ur_ip rq of Some ip \<Rightarrow> ip | None \<Rightarrow> ''unknown'')"

text \<open>The multipart uploads the guard lets through: whose, in which window, how large.\<close>

fun let_through :: "storage_config \<Rightarrow> (millis \<times> upload_request) list \<Rightarrow> windows \<Rightarrow> (string \<times> millis \<times> int) list" where
  "let_through c [] ws = []"
| "let_through c ((t, rq) # rqs) ws =
     (let (r, ws') = uploadBudgetGuard True c (chargeSync t) rq ws
      in (case (r, map_of ws' (upload_key rq)) of
            (Inr _, Some e) \<Rightarrow> if is_multipart rq then [(upload_key rq, we_expiresAt e, upload_bytes c rq)] else []
          | _ \<Rightarrow> [])
         @ let_through c rqs ws')"

definition charges :: "storage_config \<Rightarrow> (millis \<times> upload_request) list \<Rightarrow> (millis \<times> string \<times> int) list" where
  "charges c rqs = map (\<lambda>(t, rq). (t, upload_key rq, upload_bytes c rq)) (filter (\<lambda>(t, rq). is_multipart rq) rqs)"

lemma let_through_admitted:
  "sc_uploadBytesPerMinute c \<noteq> 0 \<Longrightarrow>
   let_through c rqs ws
   = admitted (byte_charge (sc_uploadBytesPerMinute c) RATE_LIMIT_WINDOW_SECONDS) (charges c rqs) ws"
proof (induction c rqs ws rule: let_through.induct)
  case (2 c t rq rqs ws)
  obtain v ws' where v: "chargeSync t (upload_key rq) (upload_bytes c rq) (sc_uploadBytesPerMinute c) RATE_LIMIT_WINDOW_SECONDS ws = (v, ws')"
    by fastforce
  show ?case
  proof (cases "is_multipart rq")
    case False
    then have g: "uploadBudgetGuard True c (chargeSync t) rq ws = (Inr (), ws)"
      by (simp add: uploadBudgetGuard_def is_multipart_def Let_def)
    show ?thesis using "2.IH"[OF g[symmetric] refl "2.prems"] False
      by (simp add: g charges_def split: option.splits)
  next
    case True
    obtain r where g: "uploadBudgetGuard True c (chargeSync t) rq ws = (r, ws')" and r: "isl r = (\<not> bv_allowed v)"
      using v True "2.prems" that
      by (cases "bv_allowed v") (auto simp: uploadBudgetGuard_def is_multipart_def upload_key_def upload_bytes_def Let_def)
    show ?thesis using "2.IH"[OF g[symmetric] refl "2.prems"] True r
      by (cases r) (auto simp: g charges_def byte_charge_def v split: option.splits)
  qed
qed (simp add: charges_def)

lemma declaredBytes_nonneg: "declaredBytes rq = Some n \<Longrightarrow> 0 \<le> n"
  by (auto simp: declaredBytes_def split: option.splits if_splits)

lemma charges_nonneg: "0 \<le> sc_maxBytes c \<Longrightarrow> list_all (\<lambda>(_, _, n). 0 \<le> n) (charges c rqs)"
  by (auto simp: charges_def upload_bytes_def list_all_iff dest: declaredBytes_nonneg split: option.splits)

text \<open>Attempts as charges of one.\<close>

definition attempt_charge :: "rate_rule \<Rightarrow> millis \<Rightarrow> string \<Rightarrow> int \<Rightarrow> windows \<Rightarrow> bool \<times> windows" where
  "attempt_charge rule t k n ws = (let (v, ws') = consumeInMemory t k rule ws in (fst v, ws'))"

lemma attempts_admitted:
  "admitted (attempt_charge rule) (map (\<lambda>(t, k). (t, k, 1)) es) ws
   = admitted (fixed_window FALLBACK_MAX_ENTRIES (rr_max rule) (rr_window rule * 1000)) (map (\<lambda>(t, k). (t, k, 1)) es) ws"
proof (induction es arbitrary: ws)
  case (Cons e es)
  obtain t k where e: "e = (t, k)" by (cases e)
  have "attempt_charge rule t k 1 ws = fixed_window FALLBACK_MAX_ENTRIES (rr_max rule) (rr_window rule * 1000) t k 1 ws"
    by (simp add: attempt_charge_def split_beta attempt_window prod_eq_iff)
  then show ?case using Cons.IH by (simp add: e split: prod.splits)
qed simp

text \<open>
  C20. The upload budget holds for every run. However many requests reach the upload route, in whatever
  order and at whatever times, the multipart uploads the guard lets through for one address in one
  window of the in-process budget declare at most the configured bytes between them, an upload that declares none counting
  for the largest it could be, as long as no more addresses are tracked than the table holds.
\<close>

theorem upload_budget_holds:
  assumes "readStorageConfig env = Inr c" "sc_uploadBytesPerMinute c \<noteq> 0"
    and "card ((upload_key \<circ> snd) ` set rqs) \<le> UPLOAD_BUDGET_FALLBACK_MAX_ENTRIES"
  shows "spent key x (let_through c rqs []) \<le> sc_uploadBytesPerMinute c"
proof -
  have "(fst \<circ> snd) ` set (charges c rqs) \<subseteq> (upload_key \<circ> snd) ` set rqs" by (auto simp: charges_def intro: rev_image_eqI)
  then have "card ((fst \<circ> snd) ` set (charges c rqs)) \<le> UPLOAD_BUDGET_FALLBACK_MAX_ENTRIES"
    using card_mono[of "(upload_key \<circ> snd) ` set rqs"] assms(3) by (meson List.finite_set finite_imageI order_trans)
  moreover have "0 < sc_uploadBytesPerMinute c" "0 \<le> sc_maxBytes c"
    using readStorageConfig_sound[OF assms(1)] assms(2) by simp_all
  ultimately show ?thesis
    using charges_nonneg[of c rqs] let_through_admitted[of c rqs "[]"]
      byte_windows.window_bound[of RATE_LIMIT_WINDOW_SECONDS "sc_uploadBytesPerMinute c" "charges c rqs" key x]
    by (simp add: RATE_LIMIT_WINDOW_SECONDS_def)
qed

theorem upload_budget_holds_witness:
  "\<exists>c. readStorageConfig (\<lambda>_. None) = Inr c \<and>
     spent (UPLOAD_BUDGET_KEY_PREFIX @ ''1.2.3.4'') 60000
       (let_through c [(0, \<lparr>ur_contentType = Some ''multipart/form-data'', ur_contentLength = None, ur_ip = Some ''1.2.3.4''\<rparr>)] [])
     \<le> sc_uploadBytesPerMinute c"
  by (intro exI conjI, rule readStorageConfig_default[OF refl refl refl refl refl],
      rule upload_budget_holds[OF readStorageConfig_default[of "\<lambda>_. None", OF refl refl refl refl refl]])
    (simp_all add: UPLOAD_BUDGET_FALLBACK_MAX_ENTRIES_def)





text \<open>
  C38. A flapping Redis is reported at most once in five minutes. Whatever Redis answers to a run of
  charges, and to a run of authentication attempts, any two reports made are at least five minutes apart.
\<close>

theorem reports_dampened:
  "spaced (5 * 60 * 1000) (charge_reports calls limit w b)
   \<and> spaced (5 * 60 * 1000) (consume_reports attempts b')"
  using charge_reports_spaced[of b calls limit w] consume_reports_spaced[of b' attempts]
  by (simp add: spaced_from_def UPLOAD_BUDGET_REPORT_DAMPEN_MS_def AUTH_RATE_LIMIT_REPORT_DAMPEN_MS_def)

end
