(* ===== verification/AccountProperties.thy ===== *)
theory AccountProperties
  imports AccountKeeping ApiProperties TaskProperties
begin

text \<open>
  Erasing an account: what is gone, what is rewritten, who owns the workspaces afterwards, when the
  request is refused, and that a request which follows its preview is carried out.
\<close>

section \<open>Rows that name a person\<close>

lemma map_of_setField: "map_of (map (\<lambda>(k', x). if k' = k then (k', v) else (k', x)) kvs) j =
   (if j = k then map_option (\<lambda>_. v) (map_of kvs j) else map_of kvs j)"
  by (induction kvs) auto

lemma payload_field_setField:
  "payload_field p k \<noteq> JNull \<Longrightarrow> payload_field (setField k v p) j = (if j = k then v else payload_field p j)"
  by (auto simp: payload_field_def setField_def map_of_setField split: json.splits option.splits)

lemma redactedActivity_name:
  "payload_field (ac_payload (redactedActivity k x)) ''targetUserId'' = JStr k \<Longrightarrow>
   payload_field (ac_payload (redactedActivity k x)) ''targetName'' \<in> {JNull, JStr ANONYMOUS_USER_NAME}"
  by (auto simp: redactedActivity_def namesDeparted_def payload_field_setField split: if_splits)

text \<open>Whether any table still has a row of the account, or a text that spells out its address.\<close>

definition names_nobody :: "ident \<Rightarrow> string \<Rightarrow> database \<Rightarrow> bool" where
  "names_nobody k email d \<longleftrightarrow>
     list_all (\<lambda>m. m_userId m \<noteq> k) (members d) \<and> list_all (\<lambda>x. ta_userId x \<noteq> k) (assignees d) \<and>
     list_all (\<lambda>n. n_userId n \<noteq> k) (notifications d) \<and> list_all (\<lambda>x. ss_userId x \<noteq> k) (sessions d) \<and>
     list_all (\<lambda>x. tk_userId x \<noteq> k) (tokens d) \<and> list_all (\<lambda>x. acc_userId x \<noteq> k) (accounts d) \<and>
     list_all (\<lambda>p. up_userId p \<noteq> k) (pings d) \<and>
     list_all (\<lambda>i. i_email i \<noteq> js_lower email \<and> (i_inviterId i = k \<longrightarrow> i_status i \<noteq> ''pending'')) (invitations d) \<and>
     list_all (\<lambda>v. vf_value v \<noteq> k \<and> \<not> (\<exists>a b. vf_identifier v = a @ email @ b)) (verifications d) \<and>
     list_all (\<lambda>x. payload_field (ac_payload x) ''targetUserId'' = JStr k \<longrightarrow>
       payload_field (ac_payload x) ''targetName'' \<in> {JNull, JStr ANONYMOUS_USER_NAME}) (activities d)"

lemma erased_names_nobody:
  assumes "like_semantics id like"
  shows "names_nobody k email (anonymised k t (erased like k email d))"
  using contains_exactly[OF assms] redactedActivity_name
  by (auto simp: names_nobody_def anonymised_def erased_def list_all_iff)

lemma settle_users: "settleWorkspace ds k a m s = (Inr r, s') \<Longrightarrow> users (db s') = users (db s)"
  by (cases rule: settleWorkspace_ok, assumption) (auto simp: delete_workspaces_tables)

lemma settled_users:
  assumes "mapEach ms (settleWorkspace ds k a) s = (Inr rs, s1)" shows "users (db s1) = users (db s)"
  using mapEach_keeps[OF assms, of "\<lambda>t. users (db t) = users (db s)"] settle_users by metis

text \<open>
  C1. An erasure erases. After a deletion that succeeded no membership, assignment, notification, session,
  token, credential or ping of the account is left, no invitation it made is pending and none is addressed
  to it, no verification carries its id or its address, no audit entry about it shows another name than
  the anonymous one; its own row holds the derived address, the anonymous name and the time of the deletion, and
  every other user's row is as it was.
\<close>

theorem deletion_erases:
  assumes "like_semantics id like" and "deleteAccount like k dto i actorId s = (Inr c, s')"
  shows "\<exists>u. find (\<lambda>u. u_id u = k) (users (db s)) = Some u \<and> names_nobody k (u_email u) (db s') \<and>
     users (db s') = map (\<lambda>u. if u_id u = k
       then u\<lparr>u_email := ''deleted-'' @ k @ ''@deleted.invalid'', u_name := ''Deleted user'', u_emailVerified := False,
              u_avatarUrl := None, u_locale := None, u_deletedAt := Some (clock s)\<rparr> else u) (users (db s))"
  using assms(2)
proof (cases rule: deleteAccount_ok)
  case (1 user ds settled s1 acts)
  have "find (\<lambda>u. u_id u = k) (users (db s)) = Some user"
    using 1(1) by (auto simp: liveUser_def split: option.splits if_splits)
  moreover have "names_nobody k (u_email user) (db s')" unfolding 1(7) by (rule erased_names_nobody[OF assms(1)])
  moreover have "users (db s') = map (\<lambda>u. if u_id u = k then anonymisedUserFields k (clock s) u else u) (users (db s))"
    unfolding 1(7) by (simp add: anonymised_def erased_def settled_users[OF 1(4)])
  ultimately show ?thesis
    by (simp add: anonymisedUserFields_def anonymisedEmailFor_def ANONYMOUS_EMAIL_DOMAIN_def ANONYMOUS_USER_NAME_def)
qed

section \<open>Success\<close>

lemma candidate_ready:
  assumes "paired d" "c \<in> set (candidatesFor d w k)"
  shows "\<exists>t u. memberWithUser w (tc_userId c) d = Some (t, u) \<and> u_deletedAt u = None \<and> tc_userId c \<noteq> k"
proof -
  obtain m u where m: "m \<in> set (members d)" "m_workspaceId m = w" "m_userId m \<noteq> k" "tc_userId c = m_userId m"
    and u: "find (\<lambda>u. u_id u = m_userId m) (users d) = Some u" "u_deletedAt u = None"
    using assms(2) by (auto simp: candidatesFor_def split: option.splits if_splits dest!: sym[of "Some _"])
  have "find (\<lambda>x. (m_workspaceId x, m_userId x) = (m_workspaceId m, m_userId m)) (members d) = Some m"
    using assms(1) m(1) unfolding paired_def by (rule find_distinct_key)
  then show ?thesis using m u by (simp add: memberWithUser_def)
qed

lemma preview_run:
  assumes "preview k s = (Inr pv, s1)"
  obtains u where "s1 = s" "liveUser k (db s) = Some u"
    "map so_workspaceId (pv_soleOwnedWorkspaces pv) = map m_workspaceId (fst (partitionMemberships k (db s)))"
    "\<And>so. so \<in> set (pv_soleOwnedWorkspaces pv) \<Longrightarrow> so_transferCandidates so = candidatesFor (db s) (so_workspaceId so) k"
proof -
  let ?so = "fst (partitionMemberships k (db s))"
  let ?dto = "\<lambda>m. \<lparr>so_workspaceId = m_workspaceId m, so_name = nameOfWorkspace (db s) (m_workspaceId m),
      so_slug = slugOfWorkspace (db s) (m_workspaceId m), so_memberCount = memberCount (m_workspaceId m) (db s),
      so_boardCount = boardCount (m_workspaceId m) (db s), so_transferCandidates = candidatesFor (db s) (m_workspaceId m) k\<rparr>"
  obtain u where u: "liveUser k (db s) = Some u" "s1 = s" and so: "pv_soleOwnedWorkspaces pv = map ?dto ?so"
    using assms by (auto simp: preview_def andThen_requireLiveUser run split_beta Let_def split: option.splits)
  show ?thesis by (rule that[OF u(2,1)]) (auto simp: so)
qed

lemma distinct_memberships:
  assumes "paired d" shows "distinct (map m_workspaceId (fst (partitionMemberships k d)))"
proof -
  have "distinct (members d)" using assms by (simp add: paired_def distinct_map)
  then have "distinct (fst (partitionMemberships k d))"
    by (simp add: partitionMemberships_def membershipsOf_def)
  moreover have "inj_on m_workspaceId (set (fst (partitionMemberships k d)))"
    unfolding partition_parts by (rule inj_onI) (use paired_eq[OF assms] in auto)
  ultimately show ?thesis by (simp add: distinct_map)
qed

lemma preview_then_delete:
  assumes pv: "preview k s = (Inr pv, s)" and follows: "follows_preview pv ds"
    and user: "find (\<lambda>u. u_id u = k) (users (db s)) = Some user"
    and confirm: "js_lower (js_trim typed) = js_lower (js_trim (u_email user))"
    and free: "\<not> list_ex (\<lambda>u. u_email u = anonymisedEmailFor k \<and> u_id u \<noteq> k) (users (db s))"
    and int: "ref_integrity (db s)" and paired: "paired (db s)"
  shows "\<exists>c s'. deleteAccount like k \<lparr>da_confirmEmail = typed, da_dispositions = Some ds\<rparr> i actorId s = (Inr c, s')"
proof -
  let ?dto = "\<lparr>da_confirmEmail = typed, da_dispositions = Some ds\<rparr>"
  let ?so = "fst (partitionMemberships k (db s))" and ?ot = "snd (partitionMemberships k (db s))"
  obtain u where u: "liveUser k (db s) = Some u"
    and so: "map so_workspaceId (pv_soleOwnedWorkspaces pv) = map m_workspaceId ?so"
    and cand: "\<And>so. so \<in> set (pv_soleOwnedWorkspaces pv) \<Longrightarrow> so_transferCandidates so = candidatesFor (db s) (so_workspaceId so) k"
    using preview_run[OF pv] by metis
  have uu: "u = user" using u user by (auto simp: liveUser_def split: if_splits)
  let ?ds = "map (\<lambda>x. (dp_workspaceId x, x)) ds"
  have d: "distinct (map dp_workspaceId ds)" "set (map dp_workspaceId ds) = m_workspaceId ` set ?so"
    using follows so by (simp_all add: follows_preview_def flip: set_map)
  have match: "matchDispositions ?so ds = Inr ?ds" by (rule matchDispositions_ok[OF d])
  have "ready ?ds k m s" if m: "m \<in> set ?so" for m
  proof -
    obtain x where x: "x \<in> set ds" "dp_workspaceId x = m_workspaceId m" using d(2) m by (metis image_iff list.set_map)
    have mo: "map_of ?ds (m_workspaceId m) = Some x"
      using x d(1) by (intro map_of_is_SomeI) (auto simp: comp_def intro: rev_image_eqI)
    show ?thesis
    proof (cases "dp_action x")
      case Transfer
      then obtain so' c where so': "so' \<in> set (pv_soleOwnedWorkspaces pv)" "so_workspaceId so' = dp_workspaceId x"
          "c \<in> set (so_transferCandidates so')" "dp_newOwnerUserId x = Some (tc_userId c)"
        using follows x(1) by (auto simp: follows_preview_def list_all_iff list_ex_iff)
      then have "c \<in> set (candidatesFor (db s) (m_workspaceId m) k)" using cand x(2) by simp
      from candidate_ready[OF paired this] mo Transfer so'(4) show ?thesis by (auto simp: ready_def)
    next
      case DeleteIt
      have "has_workspace (m_workspaceId m) (db s)" using member_workspace[OF int, of m] m by (simp add: partition_parts)
      with mo DeleteIt show ?thesis by (simp add: ready_def)
    qed
  qed
  then obtain rs s1 where s1: "mapEach ?so (settleWorkspace ?ds k actorId) s = (Inr rs, s1)"
    using mapEach_settles[OF _ distinct_memberships[OF paired]] by (fastforce simp: list_all_iff)
  have free1: "\<not> list_ex (\<lambda>u. u_email u = anonymisedEmailFor k \<and> u_id u \<noteq> k) (users (db s1))"
    using free settled_users[OF s1] by simp
  obtain counts lines t where
    "deletionTransaction like k (u_email u) ?so ?ot ?ds i actorId (clock s) s = (Inr (counts, lines, map m_workspaceId (departing ?ds ?so ?ot)), t)"
    using deletionTransaction_run[OF s1, of ?ot like "u_email u" i "clock s"] free1 by auto
  then show ?thesis
    using u match confirm uu
    by (simp add: deleteAccount_run confirms_def sentDispositions_def andThen_transaction afterCommit_run)
qed

section \<open>A deletion of the sample\<close>

definition hand_over :: "disposition list" where
  "hand_over = [\<lparr>dp_workspaceId = ''w1'', dp_action = Transfer, dp_newOwnerUserId = Some ''bob''\<rparr>]"

definition ada_leaves :: delete_account_dto where
  "ada_leaves = \<lparr>da_confirmEmail = ''ADA@x '', da_dispositions = Some hand_over\<rparr>"

lemma sample_preview: "\<exists>pv. preview ''ada'' sample = (Inr pv, sample) \<and> follows_preview pv hand_over"
  by (simp add: preview_def andThen_requireLiveUser liveUser_def run sample_db_def partitionMemberships_def membershipsOf_def
      isSoleOwner_def ownersOf_def candidatesFor_def follows_preview_def hand_over_def)

lemma sample_paired: "paired (db sample)"
  using sample_unique by (simp add: paired_def unique_ids_def)

lemma ada_confirms: "js_lower (js_trim ''ADA@x '') = js_lower (js_trim ''ada@x'')"
  by code_simp

lemma sample_ada: "\<exists>u. find (\<lambda>u. u_id u = ''ada'') (users (db sample)) = Some u \<and> u_email u = ''ada@x''"
  by (simp add: sample_db_def)

lemma sample_deletion: "\<exists>c s'. deleteAccount like ''ada'' ada_leaves Self None sample = (Inr c, s')"
proof -
  obtain pv where "preview ''ada'' sample = (Inr pv, sample)" "follows_preview pv hand_over" using sample_preview by blast
  moreover obtain u where u: "find (\<lambda>u. u_id u = ''ada'') (users (db sample)) = Some u" "u_email u = ''ada@x''"
    using sample_ada by blast
  moreover have "\<not> list_ex (\<lambda>u. u_email u = anonymisedEmailFor ''ada'' \<and> u_id u \<noteq> ''ada'') (users (db sample))"
    by (simp add: sample_db_def anonymisedEmailFor_def)
  ultimately show ?thesis
    unfolding ada_leaves_def using sample_integrity sample_paired ada_confirms
    by (intro preview_then_delete[where user = u]) simp_all
qed

theorem deletion_erases_witness:
  "\<exists>c s' u. deleteAccount (like_match id) ''ada'' ada_leaves Self None sample = (Inr c, s') \<and>
     find (\<lambda>u. u_id u = ''ada'') (users (db sample)) = Some u \<and> names_nobody ''ada'' (u_email u) (db s')"
  using sample_deletion[of "like_match id"] deletion_erases[OF like_match_semantics, of "''ada''" ada_leaves Self None sample] by blast

text \<open>
  C2. A workspace that survives the deletion of an account keeps an owner, and it is somebody else: if it had an
  owner before, then after a deletion that succeeds some other account is an owner of it.
\<close>

theorem deletion_leaves_an_owner:
  assumes "deleteAccount like k dto i actorId s = (Inr c, s')"
    and "distinct (map (\<lambda>x. (m_workspaceId x, m_userId x)) (members (db s)))"
    and "list_ex (\<lambda>m. m_workspaceId m = w \<and> m_role m = OWNER) (members (db s))"
    and "list_ex (\<lambda>x. w_id x = w) (workspaces (db s'))"
  shows "list_ex (\<lambda>m. m_workspaceId m = w \<and> m_role m = OWNER \<and> m_userId m \<noteq> k) (members (db s'))"
  using deleteAccount_heirs[OF assms(1), of w] assms(2-4)
  by (simp add: paired_def list_ex_iff has_workspace_def)

theorem deletion_leaves_an_owner_witness:
  "\<exists>c s'. deleteAccount (like_match id) ''ada'' ada_leaves Self None sample = (Inr c, s') \<and>
     (list_ex (\<lambda>x. w_id x = ''w1'') (workspaces (db s')) \<longrightarrow>
      list_ex (\<lambda>m. m_workspaceId m = ''w1'' \<and> m_role m = OWNER \<and> m_userId m \<noteq> ''ada'') (members (db s')))"
proof -
  obtain c s' where d: "deleteAccount (like_match id) ''ada'' ada_leaves Self None sample = (Inr c, s')" using sample_deletion by blast
  from deletion_leaves_an_owner[OF d, of "''w1''"] sample_paired
  have "list_ex (\<lambda>x. w_id x = ''w1'') (workspaces (db s')) \<Longrightarrow>
      list_ex (\<lambda>m. m_workspaceId m = ''w1'' \<and> m_role m = OWNER \<and> m_userId m \<noteq> ''ada'') (members (db s'))"
    by (simp add: paired_def sample_db_def)
  with d show ?thesis by blast
qed

text \<open>
  C3. A deletion that follows its preview is carried out. With one decision for each workspace the preview
  says needs one, every transfer to one of the candidates it offers, and the address of the account typed in, up to case and
  spaces around it, the request succeeds, unless another account holds the anonymous address.
\<close>

theorem previewed_deletion_succeeds:
  assumes "preview k s = (Inr pv, s)" and "follows_preview pv ds"
    and "find (\<lambda>u. u_id u = k) (users (db s)) = Some user"
    and "js_lower (js_trim typed) = js_lower (js_trim (u_email user))"
    and "\<not> list_ex (\<lambda>u. u_email u = anonymisedEmailFor k \<and> u_id u \<noteq> k) (users (db s))"
    and "ref_integrity (db s)" and "distinct (map (\<lambda>x. (m_workspaceId x, m_userId x)) (members (db s)))"
  shows "\<exists>c s'. deleteAccount like k \<lparr>da_confirmEmail = typed, da_dispositions = Some ds\<rparr> i actorId s = (Inr c, s')"
  using preview_then_delete assms by (simp add: paired_def)

theorem previewed_deletion_succeeds_witness:
  "\<exists>c s'. deleteAccount (like_match id) ''ada'' \<lparr>da_confirmEmail = ''ADA@x '', da_dispositions = Some hand_over\<rparr> Self None sample = (Inr c, s')"
proof -
  obtain pv where pv: "preview ''ada'' sample = (Inr pv, sample)" "follows_preview pv hand_over" using sample_preview by blast
  obtain u where u: "find (\<lambda>u. u_id u = ''ada'') (users (db sample)) = Some u" "u_email u = ''ada@x''"
    using sample_ada by blast
  have "\<not> list_ex (\<lambda>u. u_email u = anonymisedEmailFor ''ada'' \<and> u_id u \<noteq> ''ada'') (users (db sample))"
    by (simp add: sample_db_def anonymisedEmailFor_def)
  then show ?thesis
    using sample_integrity sample_paired ada_confirms u(2)
    by (intro previewed_deletion_succeeds[OF pv u(1)]) (simp_all add: paired_def)
qed

text \<open>
  C4. A refused deletion changes nothing: whatever the refusal, also one met in the middle of the transaction,
  when workspaces were already handed over or removed, every table is as before.
\<close>

theorem deletion_all_or_nothing:
  assumes "deleteAccount like k dto i actorId s = (Inl e, s')"
  shows "db s' = db s"
  using assms by (rule deleteAccount_refused)

text \<open>A transfer to somebody outside the workspace, found out inside the transaction.\<close>

definition ada_to_stranger :: delete_account_dto where
  "ada_to_stranger = \<lparr>da_confirmEmail = ''ada@x'',
     da_dispositions = Some [\<lparr>dp_workspaceId = ''w1'', dp_action = Transfer, dp_newOwnerUserId = Some ''zed''\<rparr>]\<rparr>"

theorem deletion_all_or_nothing_witness:
  "\<exists>e s'. deleteAccount (like_match id) ''ada'' ada_to_stranger Self None sample = (Inl e, s') \<and> db s' = db sample"
proof -
  obtain u where u: "liveUser ''ada'' (db sample) = Some u" "u_email u = ''ada@x''"
    by (simp add: liveUser_def sample_db_def)
  have dto: "confirms ada_to_stranger u" "sentDispositions ada_to_stranger =
      [\<lparr>dp_workspaceId = ''w1'', dp_action = Transfer, dp_newOwnerUserId = Some ''zed''\<rparr>]"
    using u(2) by (simp_all add: confirms_def sentDispositions_def ada_to_stranger_def)
  have "\<exists>m rest. partitionMemberships ''ada'' (db sample) = ([m], rest) \<and> m_workspaceId m = ''w1''"
    by (simp add: sample_db_def partitionMemberships_def membershipsOf_def isSoleOwner_def ownersOf_def)
  then obtain m rest where p: "partitionMemberships ''ada'' (db sample) = ([m], rest)" "m_workspaceId m = ''w1''" by blast
  have "memberWithUser ''w1'' ''zed'' (db sample) = None"
    by (simp add: memberWithUser_def sample_db_def)
  then have "transferOwnership m ''zed'' ''ada'' sample = (Inl (NotFound ''Workspace member not found''), sample)"
    by (simp add: transferOwnership_def run p(2))
  then have "settleWorkspace [(''w1'', \<lparr>dp_workspaceId = ''w1'', dp_action = Transfer, dp_newOwnerUserId = Some ''zed''\<rparr>)]
      ''ada'' None m sample = (Inl (NotFound ''Workspace member not found''), sample)"
    by (simp add: settleWorkspace_def p(2) andThen_def)
  then have "deletionTransaction (like_match id) ''ada'' ''ada@x'' [m] rest
      [(''w1'', \<lparr>dp_workspaceId = ''w1'', dp_action = Transfer, dp_newOwnerUserId = Some ''zed''\<rparr>)] Self None (clock sample) sample
      = (Inl (NotFound ''Workspace member not found''), sample)"
    by (simp add: deletionTransaction_def andThen_def)
  then have "\<exists>e s'. deleteAccount (like_match id) ''ada'' ada_to_stranger Self None sample = (Inl e, s')"
    using u dto p by (simp add: deleteAccount_run matchDispositions_def andThen_transaction)
  then show ?thesis using deletion_all_or_nothing by blast
qed

text \<open>
  C5. A workspace left undecided refuses the deletion: if a live, confirmed account is the only owner of a
  workspace for which no decision was sent, the answer is a conflict and the world is as it was.
\<close>

theorem undecided_workspace_refuses:
  assumes "find (\<lambda>u. u_id u = k) (users (db s)) = Some user" and "u_deletedAt user = None"
    and "js_lower (js_trim typed) = js_lower (js_trim (u_email user))"
    and "m \<in> set (members (db s))" and "m_userId m = k"
    and "m_role m = OWNER" and "length (ownersOf (m_workspaceId m) (db s)) \<le> 1"
    and "m_workspaceId m \<notin> dp_workspaceId ` set ds"
  shows "\<exists>text. deleteAccount like k \<lparr>da_confirmEmail = typed, da_dispositions = Some ds\<rparr> i actorId s = (Inl (Conflict text), s)"
proof -
  let ?so = "fst (partitionMemberships k (db s))"
  let ?required = "remdups (map m_workspaceId ?so)"
  have gather: "(\<exists>text. gatherDispositions r xs acc = Inl (Conflict text))
      \<or> (\<exists>by. gatherDispositions r xs acc = Inr by \<and> fst ` set by = fst ` set acc \<union> dp_workspaceId ` set xs)" for r xs acc
    by (induction r xs acc rule: gatherDispositions.induct) auto
  have "m \<in> set ?so" using assms(4-7) by (simp add: partition_parts isSoleOwner_def)
  then have undecided: "m_workspaceId m \<in> set (filter (\<lambda>k. k \<notin> dp_workspaceId ` set ds) ?required)"
    using assms(8) by simp
  have "\<exists>text. matchDispositions ?so ds = Inl (Conflict text)"
  proof (cases "gatherDispositions ?required ds []")
    case (Inl e')
    then show ?thesis using gather[of ?required ds "[]"] by (auto simp: matchDispositions_def Let_def)
  next
    case (Inr byW)
    then have "fst ` set byW = dp_workspaceId ` set ds" using gather[of ?required ds "[]"] by auto
    then have "filter (\<lambda>k. k \<notin> fst ` set byW) ?required \<noteq> []" using undecided by (metis empty_iff empty_set)
    then show ?thesis by (simp add: matchDispositions_def Inr Let_def)
  qed
  moreover have "liveUser k (db s) = Some user" using assms(1,2) by (simp add: liveUser_def)
  ultimately show ?thesis
    using assms(3) by (auto simp: deleteAccount_run confirms_def sentDispositions_def)
qed

theorem undecided_workspace_refuses_witness:
  "\<exists>text. deleteAccount (like_match id) ''ada'' \<lparr>da_confirmEmail = ''ADA@x '', da_dispositions = Some []\<rparr> Self None sample
     = (Inl (Conflict text), sample)"
proof -
  obtain u where u: "find (\<lambda>u. u_id u = ''ada'') (users (db sample)) = Some u" "u_email u = ''ada@x''" "u_deletedAt u = None"
    by (simp add: sample_db_def)
  let ?m = "hd (members (db sample))"
  have m: "?m \<in> set (members (db sample))" by (rule hd_in_set) (simp add: sample_db_def)
  have f: "m_userId ?m = ''ada''" "m_role ?m = OWNER" "m_workspaceId ?m = ''w1''" by (simp_all add: sample_db_def)
  have "length (ownersOf ''w1'' (db sample)) \<le> 1" by (simp add: ownersOf_def sample_db_def)
  then show ?thesis using u f ada_confirms by (intro undecided_workspace_refuses[OF u(1,3) _ m]) simp_all
qed

text \<open>
  C6. The comments that mention the account are rewritten in pages, and the pages come to one pass over
  the table: whatever the number of comments, the loop ends with every comment whose text contains the id
  rewritten, no other touched, and it counts those whose text changed.
\<close>

theorem paged_redaction_is_one_pass:
  assumes "distinct (map cm_id cs)"
  shows "redactComments k None cs =
    (length (filter (\<lambda>c. holds k (cm_body c) \<and> redactMentionsOf (cm_body c) k ''Deleted user'' \<noteq> cm_body c) cs),
     map (\<lambda>c. if holds k (cm_body c) then c\<lparr>cm_body := redactMentionsOf (cm_body c) k ''Deleted user''\<rparr> else c) cs)"
proof -
  have "redactedComment k c \<noteq> c \<longleftrightarrow> redactMentionsOf (cm_body c) k ''Deleted user'' \<noteq> cm_body c" for c
    by (cases c) (simp add: redactedComment_def ANONYMOUS_USER_NAME_def)
  then show ?thesis
    using redactComments_once[OF assms, of k None]
    by (simp add: mentioning_def after_def redactedComment_def ANONYMOUS_USER_NAME_def)
qed

theorem paged_redaction_is_one_pass_witness:
  "redactComments ''bob'' None (comments sample_db) =
    (length (filter (\<lambda>c. holds ''bob'' (cm_body c) \<and> redactMentionsOf (cm_body c) ''bob'' ''Deleted user'' \<noteq> cm_body c) (comments sample_db)),
     map (\<lambda>c. if holds ''bob'' (cm_body c) then c\<lparr>cm_body := redactMentionsOf (cm_body c) ''bob'' ''Deleted user''\<rparr> else c) (comments sample_db))"
  by (rule paged_redaction_is_one_pass) (simp add: sample_db_def)

text \<open>
  C7. Whoever holds the anonymous address of an account blocks its deletion: while another user's address is
  \<open>deleted-<id>@deleted.invalid\<close>, which nothing in a sign-up refuses, no request deletes the account.
\<close>

theorem deletion_blocked_by_alias:
  assumes "list_ex (\<lambda>u. u_email u = ''deleted-'' @ k @ ''@deleted.invalid'' \<and> u_id u \<noteq> k) (users (db s))"
  shows "deleteAccount like k dto i actorId s \<noteq> (Inr c, s')"
proof
  assume "deleteAccount like k dto i actorId s = (Inr c, s')"
  then show False
  proof (cases rule: deleteAccount_ok)
    case (1 user ds settled s1 acts)
    then show ?thesis
      using assms settled_users[OF 1(4)] by (simp add: anonymisedEmailFor_def ANONYMOUS_EMAIL_DOMAIN_def)
  qed
qed

text \<open>The sample once another sign-up took the address that would be ada's.\<close>

definition alias_taken :: world where
  "alias_taken = sample\<lparr>db := sample_db\<lparr>users := map (\<lambda>u. if u_id u = ''bob''
     then u\<lparr>u_email := ''deleted-ada@deleted.invalid''\<rparr> else u) (users sample_db)\<rparr>\<rparr>"

theorem deletion_blocked_by_alias_witness:
  "\<not> (\<exists>c s'. deleteAccount (like_match id) ''ada'' ada_leaves Self None alias_taken = (Inr c, s'))"
  using deletion_blocked_by_alias[of "''ada''" alias_taken "like_match id" ada_leaves Self None]
  by (simp add: alias_taken_def sample_db_def)

end
