(* ===== verification/RetentionProperties.thy ===== *)
theory RetentionProperties
  imports RetentionKeeping FileProperties
begin

text \<open>
  The nightly sweep: what it may never delete, what it deletes, and the files it takes for orphans.
\<close>

section \<open>A world to clean up\<close>

text \<open>A hundred days after the sample, with an orphaned file and an upload under way.\<close>

definition attic :: world where
  "attic = storing\<lparr>files := [\<lparr>sf_key = ''s'', sf_bytes = ''1234567'', sf_modifiedAt = 0\<rparr>,
     \<lparr>sf_key = ''left'', sf_bytes = ''x'', sf_modifiedAt = 0\<rparr>,
     \<lparr>sf_key = ''new'', sf_bytes = ''y'', sf_modifiedAt = 8639999999\<rparr>]\<rparr>"

definition in_order :: platform where
  "in_order = \<lparr>pl_scan = (\<lambda>d ks. ks), pl_listing = (\<lambda>fs. fs), pl_invalidDate = None\<rparr>"

definition standard :: retention_settings where
  "standard = \<lparr>rs_enabled = True, rs_notificationDays = 90, rs_activityDays = 365, rs_invitationDays = 90\<rparr>"

lemma in_order_orders: "scans (pl_scan in_order)" "lists (pl_listing in_order)"
  by (simp_all add: in_order_def scans_def lists_def)

lemma attic_settings: "retentionSettings (environ attic) = Inr standard"
  by (simp add: attic_def storing_def retentionSettings_def envBool_def retentionDays_def envInt_def bind_result_def
      standard_def DEFAULT_NOTIFICATION_RETENTION_DAYS_def DEFAULT_ACTIVITY_RETENTION_DAYS_def
      DEFAULT_INVITATION_RETENTION_DAYS_def)

lemma attic_grace: "orphanGraceMs (environ attic) = Inr 604800000"
  by (simp add: attic_def storing_def orphanGraceMs_def envInt_def bind_result_def Let_def DEFAULT_BACKUP_INTERVAL_SECONDS_def
      DEFAULT_BACKUP_KEEP_def MIN_ORPHAN_GRACE_MS_def MS_PER_DAY_def)

lemma attic_keys: "purge_keys (db attic)"
  by (simp add: purge_keys_def attic_def storing_def sample_db_def)

section \<open>What stays\<close>

text \<open>
  C1. Nothing that lives is deleted. Whatever comes of a run of the sweep, finished or broken off, every session
  and verification that has not expired stays, every notification that is unread or was read within its window, every
  activity and ping within theirs, every invitation that is pending and unexpired or young, and every row of every other table;
  at most a notification loses the link to an activity that was due.
\<close>

theorem cleanup_spares_the_living:
  assumes "scans (pl_scan pl)" and "lists (pl_listing pl)" and "retentionSettings (environ s) = Inr S"
    and "purge_keys (db s)"
  shows "spares S t (db s) (db (snd (runCleanup pl t s)))"
  using runCleanup_spares[OF assms(1-3)] assms(4) by (simp add: sparing_def)

theorem cleanup_spares_the_living_witness:
  "n_id ` set (notifications (db (snd (runCleanup in_order 8640000000 attic)))) \<supseteq> {''n1''}"
proof -
  let ?ns = "filter (\<lambda>n. \<not> due_notification 8640000000 90 n) (notifications (db (snd (runCleanup in_order 8640000000 attic))))"
  have "spares standard 8640000000 (db attic) (db (snd (runCleanup in_order 8640000000 attic)))"
    by (rule cleanup_spares_the_living[OF in_order_orders attic_settings attic_keys])
  then have "map unlinked ?ns = map unlinked (notifications sample_db)"
    by (simp add: spares_def standard_def attic_def storing_def sample_db_def due_notification_def readBefore_def)
  then have "map n_id (map unlinked ?ns) = map n_id (map unlinked (notifications sample_db))" by simp
  then have "map n_id ?ns = [''n1'']" by (simp add: unlinked_def comp_def sample_db_def)
  then have "n_id ` set ?ns = {''n1''}" by (metis list.set(1,2) set_map)
  moreover have "n_id ` set ?ns \<subseteq> n_id ` set (notifications (db (snd (runCleanup in_order 8640000000 attic))))"
    by (intro image_mono filter_is_subset)
  ultimately show ?thesis by simp
qed

text \<open>
  C2. No file that is somebody's is deleted, and none that may be on its way: whatever comes of a run, a
  file some attachment claims stays, and so does every file written within the grace period, which is a day
  at least, whatever the backup settings; and no file is added.
\<close>

theorem cleanup_keeps_files:
  assumes "lists (pl_listing pl)" and "distinct (map sf_key (files s))"
    and "orphanGraceMs (environ s) = Inr g" and "\<bar>t - g\<bar> \<le> 8640000000000000"
  shows "86400000 \<le> g \<and> set (files (snd (runCleanup pl t s))) \<subseteq> set (files s) \<and>
    list_all (\<lambda>f. claimed (db s) (sf_key f) \<or> t - g \<le> sf_modifiedAt f \<longrightarrow> f \<in> set (files (snd (runCleanup pl t s)))) (files s)"
proof -
  have g: "86400000 \<le> g"
    using assms(3)
    by (auto simp: orphanGraceMs_def bind_result_def Let_def MIN_ORPHAN_GRACE_MS_def MS_PER_DAY_def split: sum.splits)
  have "keeping (js_date (t - g)) s (snd (runCleanup pl t s))"
    by (rule runCleanup_keeps_files[OF assms(1,3)])
  with g show ?thesis
    using assms(2,4) by (auto simp: keeping_def list_all_iff tooFresh_def js_date_def)
qed

theorem cleanup_keeps_files_witness:
  "\<lparr>sf_key = ''new'', sf_bytes = ''y'', sf_modifiedAt = 8639999999\<rparr> \<in> set (files (snd (runCleanup in_order 8640000000 attic)))"
  using cleanup_keeps_files[OF in_order_orders(2) _ attic_grace, of 8640000000]
  by (simp add: attic_def claimed_def storing_def sample_db_def)

section \<open>What goes\<close>

text \<open>
  C3. What is due is deleted. Once its settings are readable and switched on, a run leaves in the six tables what
  the policy retains, at once, in however many batches, as long as no table has more than a million rows due; the
  links to the activities deleted are cleared, and if the run succeeds it reports the rows each table lost.
\<close>

theorem cleanup_deletes_what_is_due:
  assumes "scans (pl_scan pl)" and "retentionSettings (environ s) = Inr S" and "rs_enabled S"
    and "purge_keys (db s)" and "within_ceiling S t (db s)" and "lists (pl_listing pl)"
    and "datable t (rs_notificationDays S)" and "datable t (rs_activityDays S)" and "datable t (rs_invitationDays S)"
    and "runCleanup pl t s = (r, s')"
  shows "db s' = retained S t (db s) \<and> (\<forall>c. r = Inr c \<longrightarrow> c = tally S t (db s) (cc_orphanedFiles c))"
proof -
  obtain s6 where s6: "db s6 = retained S t (db s)" "cleanupTables pl t S s =
      (case sweepOrphanFiles pl t s6 of (Inl e, s') \<Rightarrow> (Inl e, s') | (Inr n, s') \<Rightarrow> (Inr (tally S t (db s) n), s'))"
    by (rule cleanupTables_exact[OF assms(1,4,5,7-9)])
  have "db (snd (sweepOrphanFiles pl t s6)) = db s6" by (rule sweepOrphanFiles_rows[OF assms(6)])
  moreover have "tally S t (db s) (cc_orphanedFiles (tally S t (db s) n)) = tally S t (db s) n" for n
    by (simp add: tally_def)
  ultimately show ?thesis
    using assms(10) s6 unfolding runCleanup_run assms(2) by (auto simp: assms(3) split: sum.splits prod.splits)
qed

theorem cleanup_deletes_what_is_due_witness:
  "sessions (db (snd (runCleanup in_order 8640000000 attic))) = []"
proof -
  have "within_ceiling standard 8640000000 (db attic)" "datable 8640000000 90" "datable 8640000000 365"
    by (simp_all add: within_ceiling_def attic_def storing_def sample_db_def standard_def datable_def MS_PER_DAY_def due_notification_def readBefore_def)
  then have "db (snd (runCleanup in_order 8640000000 attic)) = retained standard 8640000000 (db attic)"
    using cleanup_deletes_what_is_due[OF in_order_orders(1) attic_settings _ attic_keys _ in_order_orders(2), of 8640000000]
    by (simp add: standard_def prod_eq_iff)
  then show ?thesis by (simp add: retained_def attic_def storing_def sample_db_def)
qed

section \<open>Orphans\<close>

text \<open>
  C4. The sweep removes the orphans and nothing else. Files being kept, a sweep that succeeds and reports
  less than a million removals leaves exactly the files that some attachment claims or that were written
  within the grace period, and touches nothing but files.
\<close>

theorem orphan_sweep_exact:
  assumes "lists (pl_listing pl)" and "keeps_files s" and "distinct (map sf_key (files s))"
    and "orphanGraceMs (environ s) = Inr g" and "\<bar>t - g\<bar> \<le> 8640000000000000"
    and "sweepOrphanFiles pl t s = (Inr n, s')" and "n < 1000000"
  shows "s' = s\<lparr>files := filter (\<lambda>f. list_ex (\<lambda>a. a_storageKey a = Some (sf_key f)) (attachments (db s)) \<or> t - g \<le> sf_modifiedAt f) (files s)\<rparr>"
proof -
  have "sweeps s (swept (Some (t - g)) (files s)) (Inr n, s')"
    using sweepOrphanFiles_sweeps[OF assms(1), of t s] assms(2,4,5,6) by (simp add: js_date_def)
  then have "s' = s\<lparr>files := filter (\<lambda>f. sf_key f \<notin> orphans (db s) (swept (Some (t - g)) (files s))) (files s)\<rparr>"
    using assms(7) by (auto simp: sweeps_def SWEEP_CEILING_def CLEANUP_BATCH_SIZE_def MAX_BATCHES_PER_TABLE_def)
  moreover have "sf_key f \<in> swept (Some (t - g)) (files s) \<longleftrightarrow> sf_modifiedAt f < t - g" if "f \<in> set (files s)" for f
    using that assms(3) by (auto simp: swept_def tooFresh_def distinct_map inj_on_def)
  then have "filter (\<lambda>f. sf_key f \<notin> orphans (db s) (swept (Some (t - g)) (files s))) (files s) =
      filter (\<lambda>f. list_ex (\<lambda>a. a_storageKey a = Some (sf_key f)) (attachments (db s)) \<or> t - g \<le> sf_modifiedAt f) (files s)"
    by (intro filter_cong) (auto simp: orphans_def claimed_def)
  ultimately show ?thesis by simp
qed

theorem orphan_sweep_exact_witness:
  "map sf_key (files (snd (sweepOrphanFiles in_order 8640000000 attic))) = [''s'', ''new'']"
proof -
  have k: "keeps_files attic" using storing_config by (simp add: keeps_files_def attic_def storing_def)
  have run: "sweepOrphanFiles in_order 8640000000 attic = sweepEntries (Some 8035200000) (files attic) 0 [] attic"
    using attic_grace storing_config
    by (simp add: sweepOrphanFiles_def persistsFiles_def run in_order_def js_date_def attic_def storing_def)
  have "\<exists>n s'. sweepOrphanFiles in_order 8640000000 attic = (Inr n, s') \<and> n < 1000000"
    unfolding run by (simp add: attic_def tooFresh_def CLEANUP_BATCH_SIZE_def SWEEP_CEILING_def MAX_BATCHES_PER_TABLE_def Let_def
        sweepFlush_run[OF k, unfolded attic_def])
  then obtain n s' where r: "sweepOrphanFiles in_order 8640000000 attic = (Inr n, s')" "n < 1000000" by blast
  have d: "distinct (map sf_key (files attic))" by (simp add: attic_def)
  have "files s' = filter (\<lambda>f. list_ex (\<lambda>a. a_storageKey a = Some (sf_key f)) (attachments (db attic)) \<or>
      8640000000 - 604800000 \<le> sf_modifiedAt f) (files attic)"
    using orphan_sweep_exact[OF in_order_orders(2) k d attic_grace _ r] by simp
  then show ?thesis by (simp add: r(1)) (simp add: attic_def storing_def sample_db_def)
qed

text \<open>
  C5. A backup window beyond the range of dates switches the grace period off: then the cutoff is no date, every
  comparison with it is false, and a sweep removes whatever no row claims yet, an upload under way among it.
\<close>

theorem huge_backup_window_sweeps_uploads:
  assumes "lists (pl_listing pl)" and "keeps_files s"
    and "orphanGraceMs (environ s) = Inr g" and "8640000000000000 < \<bar>t - g\<bar>"
    and "sweepOrphanFiles pl t s = (Inr n, s')" and "n < 1000000"
  shows "files s' = filter (\<lambda>f. list_ex (\<lambda>a. a_storageKey a = Some (sf_key f)) (attachments (db s))) (files s)"
proof -
  have "sweeps s (swept None (files s)) (Inr n, s')"
    using sweepOrphanFiles_sweeps[OF assms(1), of t s] assms(2-5) by (simp add: js_date_def)
  then have "s' = s\<lparr>files := filter (\<lambda>f. sf_key f \<notin> orphans (db s) (swept None (files s))) (files s)\<rparr>"
    using assms(6) by (auto simp: sweeps_def SWEEP_CEILING_def CLEANUP_BATCH_SIZE_def MAX_BATCHES_PER_TABLE_def)
  moreover have "sf_key f \<in> swept None (files s)" if "f \<in> set (files s)" for f
    using that by (auto simp: swept_def tooFresh_def)
  then have "filter (\<lambda>f. sf_key f \<notin> orphans (db s) (swept None (files s))) (files s) =
      filter (\<lambda>f. list_ex (\<lambda>a. a_storageKey a = Some (sf_key f)) (attachments (db s))) (files s)"
    by (intro filter_cong) (auto simp: orphans_def claimed_def)
  ultimately show ?thesis by simp
qed

text \<open>The same attic, with a backup interval of \<open>10 ^ 13\<close> seconds.\<close>

definition patient :: world where
  "patient = attic\<lparr>environ := (environ attic)(''BACKUP_INTERVAL'' \<mapsto> int_string 10000000000000)\<rparr>"

lemma patient_grace: "orphanGraceMs (environ patient) = Inr 70000000000000000"
proof -
  have "envInt (environ patient) ''BACKUP_INTERVAL'' 86400 = Inr 10000000000000"
    by (rule envInt_reads_back) (simp_all add: patient_def)
  moreover have "envInt (environ patient) ''BACKUP_KEEP'' 7 = Inr 7"
    by (simp add: patient_def attic_def storing_def envInt_def)
  ultimately show ?thesis
    by (simp add: orphanGraceMs_def bind_result_def Let_def DEFAULT_BACKUP_INTERVAL_SECONDS_def DEFAULT_BACKUP_KEEP_def
        MIN_ORPHAN_GRACE_MS_def MS_PER_DAY_def)
qed

lemma patient_config: "\<exists>c. readStorageConfig (environ patient) = Inr c \<and> sc_disk c = Some ''/data''"
  by (simp add: patient_def attic_def storing_def readStorageConfig_def envString_def byteCeiling_def envInt_def bind_result_def
      Let_def starts_with_def DEFAULT_ATTACHMENT_MAX_BYTES_def DEFAULT_ATTACHMENT_WORKSPACE_QUOTA_BYTES_def
      DEFAULT_ATTACHMENT_INSTANCE_QUOTA_BYTES_def DEFAULT_ATTACHMENT_UPLOAD_BYTES_PER_MINUTE_def js_trim_def is_space_def)

theorem huge_backup_window_sweeps_uploads_witness:
  "map sf_key (files (snd (sweepOrphanFiles in_order 8640000000 patient))) = [''s'']"
proof -
  obtain c where c: "readStorageConfig (environ patient) = Inr c" "sc_disk c = Some ''/data''" using patient_config by blast
  then have k: "keeps_files patient" by (simp add: keeps_files_def)
  have run: "sweepOrphanFiles in_order 8640000000 patient = sweepEntries None (files patient) 0 [] patient"
    using c by (simp add: sweepOrphanFiles_def persistsFiles_def run in_order_def js_date_def patient_grace)
  have "\<exists>n s'. sweepOrphanFiles in_order 8640000000 patient = (Inr n, s') \<and> n < 1000000"
    unfolding run by (simp add: patient_def attic_def tooFresh_def CLEANUP_BATCH_SIZE_def SWEEP_CEILING_def
        MAX_BATCHES_PER_TABLE_def Let_def sweepFlush_run[OF k, unfolded patient_def attic_def, simplified])
  then obtain n s' where r: "sweepOrphanFiles in_order 8640000000 patient = (Inr n, s')" "n < 1000000" by blast
  have "files s' = filter (\<lambda>f. list_ex (\<lambda>a. a_storageKey a = Some (sf_key f)) (attachments (db patient))) (files patient)"
    by (rule huge_backup_window_sweeps_uploads[OF in_order_orders(2) k patient_grace _ r]) simp
  then show ?thesis by (simp add: r(1)) (simp add: patient_def attic_def storing_def sample_db_def)
qed

end
