(* ===== verification/DueSoonProperties.thy ===== *)
theory DueSoonProperties
  imports DueSoonFacts SampleWorkspace
begin

text \<open>
  Reminders of due dates: who gets one, and that nobody gets it twice.
\<close>

text \<open>
  Whether a user is owed a reminder of a task: the task is due within a day, the user is assigned to it, and no
  reminder of it to the user is unread or younger than a day.
\<close>

definition owes_reminder :: "world \<Rightarrow> ident \<Rightarrow> ident \<Rightarrow> bool" where
  "owes_reminder s k u \<longleftrightarrow>
     list_ex (\<lambda>x. t_id x = k \<and> (case t_dueDate x of None \<Rightarrow> False
        | Some due \<Rightarrow> clock s < due \<and> due \<le> clock s + 86400000)) (tasks (db s)) \<and>
     list_ex (\<lambda>x. ta_taskId x = k \<and> ta_userId x = u) (assignees (db s)) \<and>
     \<not> list_ex (\<lambda>n. n_type n = DueSoon \<and> n_taskId n = Some k \<and> n_userId n = u \<and>
          (n_readAt n = None \<or> clock s - 86400000 \<le> n_createdAt n)) (notifications (db s))"

lemma owed_pairs:
  "set (map reminderKey (owed d since xs)) =
     {(k, u). \<exists>x \<in> set xs. t_id x = k \<and> u \<in> set (dueAssignees d k) \<and> \<not> told d since (k, u)}"
  by (force simp: owed_def reminderKey_def)

lemma owed_reminders: "(k, u) \<in> set (map reminderKey (due_reminders s)) \<longleftrightarrow> owes_reminder s k u"
proof -
  have d: "(\<exists>x \<in> set (dueList (clock s) (db s)). t_id x = k) \<and> u \<in> set (dueAssignees (db s) k) \<longleftrightarrow>
      (\<exists>x \<in> set (tasks (db s)). t_id x = k \<and> (case t_dueDate x of None \<Rightarrow> False
        | Some due \<Rightarrow> clock s < due \<and> due \<le> clock s + 86400000)) \<and> u \<in> set (dueAssignees (db s) k)"
    by (auto simp: dueList_def dueWithin_def DUE_WINDOW_MS_def)
  have a: "u \<in> set (dueAssignees (db s) k) \<longleftrightarrow> list_ex (\<lambda>x. ta_taskId x = k \<and> ta_userId x = u) (assignees (db s))"
    by (auto simp: dueAssignees_def list_ex_iff)
  have t: "told (db s) (clock s - DUE_WINDOW_MS) (k, u) \<longleftrightarrow> list_ex (\<lambda>n. n_type n = DueSoon \<and> n_taskId n = Some k \<and> n_userId n = u \<and>
      (n_readAt n = None \<or> clock s - 86400000 \<le> n_createdAt n)) (notifications (db s))"
    by (simp add: told_def toldBy_def [abs_def] DUE_WINDOW_MS_def)
  show ?thesis
    unfolding due_reminders_def owed_pairs owes_reminder_def
    using d a t by (simp add: list_ex_iff) blast
qed

lemma due_keys:
  assumes "unique_ids (db s)" shows "distinct (map reminderKey (due_reminders s))"
proof -
  have "distinct (map t_id (dueList (clock s) (db s)))"
    using assms by (simp add: dueList_def distinct_map unique_ids_def) (auto intro: inj_on_subset)
  then show ?thesis
    unfolding due_reminders_def using assms by (intro owed_keys_distinct) (simp_all add: unique_ids_def)
qed

lemma set_signals: "set (signals rs) = (\<lambda>r. ToUser (rm_workspaceId r) (rm_userId r) NOTIFICATION_UNREAD_CHANGED) ` set rs"
  by (auto simp: signals_def recipientsOf_def) (metis (mono_tags, lifting) image_eqI)

lemma distinct_signals: "distinct (signals rs)"
proof -
  have "distinct (concat (map (\<lambda>w. map (\<lambda>u. ToUser w u NOTIFICATION_UNREAD_CHANGED) (unique (F w))) ws))" if "distinct ws" for F ws
    using that by (induction ws) (auto simp: distinct_map inj_on_def)
  then show ?thesis by (simp add: signals_def)
qed

lemma reminderRows_map:
  "map (\<lambda>n. (n_workspaceId n, n_taskId n, n_userId n)) (reminderRows s rs) =
   map (\<lambda>r. (rm_workspaceId r, Some (rm_taskId r), rm_userId r)) rs"
  by (rule nth_equalityI) (simp_all add: reminderRows_def storedNotification_def)

text \<open>
  C1. A scan reminds exactly those it owes a reminder: however many pages the due tasks fill, it adds one unread
  reminder for each task and assignee owed one, and none else, and signals each of their recipients once in each
  workspace; the number it returns is the number of reminders added.
\<close>

theorem scan_reminds_whom_it_owes:
  assumes "unique_ids (db s)" and "runScan s = (r, s')"
  shows "\<exists>new sent. notifications (db s') = notifications (db s) @ new \<and> outbox s' = outbox s @ sent \<and>
    distinct (map (\<lambda>n. (n_taskId n, n_userId n)) new) \<and> distinct sent \<and>
    (\<forall>k u. (Some k, u) \<in> (\<lambda>n. (n_taskId n, n_userId n)) ` set new \<longleftrightarrow> owes_reminder s k u) \<and>
    list_all (\<lambda>n. n_taskId n \<noteq> None \<and> n_type n = DueSoon \<and> n_readAt n = None \<and> n_createdAt n = clock s) new \<and>
    set sent = (\<lambda>n. ToUser (n_workspaceId n) (n_userId n) NOTIFICATION_UNREAD_CHANGED) ` set new \<and>
    (\<forall>n. r = Inr n \<longrightarrow> n = length new)"
proof (intro exI conjI)
  let ?rs = "due_reminders s" and ?new = "reminderRows s (due_reminders s)"
  obtain M where s': "s' = (scanned_world s)\<lparr>mails := M\<rparr>" and n: "\<And>n. r = Inr n \<Longrightarrow> n = length ?rs"
    using runScan_left[OF assms] by blast
  show "notifications (db s') = notifications (db s) @ ?new" "outbox s' = outbox s @ signals ?rs"
    by (simp_all add: s' scanned_world_facts)
  have keys: "map (\<lambda>n. (n_taskId n, n_userId n)) ?new = map (\<lambda>(k, u). (Some k, u)) (map reminderKey ?rs)"
    unfolding reminderRows_keys by (simp add: reminderKey_def)
  show "distinct (map (\<lambda>n. (n_taskId n, n_userId n)) ?new)"
    unfolding keys using due_keys[OF assms(1)] by (subst distinct_map) (auto intro: inj_onI split: prod.splits)
  show "distinct (signals ?rs)" by (rule distinct_signals)
  have "(\<lambda>n. (n_taskId n, n_userId n)) ` set ?new = (\<lambda>(k, u). (Some k, u)) ` set (map reminderKey ?rs)"
    using arg_cong[OF keys, of set] unfolding set_map .
  then have "(Some k, u) \<in> (\<lambda>n. (n_taskId n, n_userId n)) ` set ?new \<longleftrightarrow> (k, u) \<in> set (map reminderKey ?rs)" for k u
    by (simp only:) force
  then show "\<forall>k u. (Some k, u) \<in> (\<lambda>n. (n_taskId n, n_userId n)) ` set ?new \<longleftrightarrow> owes_reminder s k u"
    unfolding owed_reminders by blast
  show "list_all (\<lambda>n. n_taskId n \<noteq> None \<and> n_type n = DueSoon \<and> n_readAt n = None \<and> n_createdAt n = clock s) ?new"
    by (auto simp: list_all_iff reminderRows_def storedNotification_def)
  have "map (\<lambda>n. (n_workspaceId n, n_userId n)) ?new = map (\<lambda>r. (rm_workspaceId r, rm_userId r)) ?rs"
    using arg_cong[OF reminderRows_map[of s ?rs], of "map (\<lambda>(w, _, u). (w, u))"] by (simp add: comp_def)
  from arg_cong[OF this, of "\<lambda>ps. (\<lambda>(w, u). ToUser w u NOTIFICATION_UNREAD_CHANGED) ` set ps"]
  show "set (signals ?rs) = (\<lambda>n. ToUser (n_workspaceId n) (n_userId n) NOTIFICATION_UNREAD_CHANGED) ` set ?new"
    by (simp add: set_signals image_image)
  show "\<forall>n. r = Inr n \<longrightarrow> n = length ?new" using n by (simp add: reminderRows_def)
qed

text \<open>The sample with a task of bob's due in a minute.\<close>

definition pressing :: world where
  "pressing = sample\<lparr>db := sample_db\<lparr>tasks := map (\<lambda>x. if t_id x = ''t1'' then x\<lparr>t_dueDate := Some 60100\<rparr> else x) (tasks sample_db)\<rparr>\<rparr>"

lemma pressing_unique: "unique_ids (db pressing)"
  using sample_unique by (simp add: pressing_def unique_ids_def comp_def if_distrib[of t_id] cong: if_cong)

lemma pressing_owes: "owes_reminder pressing ''t1'' ''bob''"
  by (simp add: owes_reminder_def pressing_def sample_db_def)

theorem scan_reminds_whom_it_owes_witness:
  "\<exists>n \<in> set (notifications (db (snd (runScan pressing)))). n_type n = DueSoon \<and> n_taskId n = Some ''t1'' \<and> n_userId n = ''bob''"
proof -
  obtain new where new: "notifications (db (snd (runScan pressing))) = notifications (db pressing) @ new"
    "(Some ''t1'', ''bob'') \<in> (\<lambda>n. (n_taskId n, n_userId n)) ` set new" "list_all (\<lambda>n. n_type n = DueSoon) new"
    using scan_reminds_whom_it_owes[OF pressing_unique, of "fst (runScan pressing)" "snd (runScan pressing)"] pressing_owes
    by (auto simp: list_all_iff)
  then show ?thesis by (auto simp: list_all_iff)
qed

text \<open>
  C2. Nobody is told twice: a scan that comes right after another, as a retried job does, finds everybody told,
  whether or not the mails of the first went out, and changes nothing at all.
\<close>

theorem repeated_scan_is_silent:
  assumes "unique_ids (db s)" and "runScan s = (r, s')"
  shows "runScan s' = (Inr 0, s')"
proof -
  obtain M where s': "s' = (scanned_world s)\<lparr>mails := M\<rparr>" using runScan_left[OF assms] by blast
  have db: "db s' = (db s)\<lparr>notifications := notifications (db s) @ reminderRows s (due_reminders s)\<rparr>" "clock s' = clock s"
    by (simp_all add: s' scanned_world_facts)
  have u: "unique_ids (db s')" using assms(1) by (simp add: db unique_ids_def)
  have "\<not> owes_reminder s' k v" for k v
  proof
    assume owes: "owes_reminder s' k v"
    then have "owes_reminder s k v" unfolding owes_reminder_def db(2) by (simp add: db(1))
    then have "(k, v) \<in> set (map reminderKey (due_reminders s))" unfolding owed_reminders .
    then have "(Some k, v) \<in> set (map (\<lambda>n. (n_taskId n, n_userId n)) (reminderRows s (due_reminders s)))"
      unfolding reminderRows_keys by (force simp: reminderKey_def)
    then obtain n where n: "n \<in> set (reminderRows s (due_reminders s))" "n_taskId n = Some k" "n_userId n = v" by auto
    moreover have "n_type n = DueSoon" "n_readAt n = None" using reminderRows_shape[OF n(1)] by simp_all
    moreover have "n \<in> set (notifications (db s'))" using n(1) by (simp add: db)
    ultimately show False using owes by (auto simp: owes_reminder_def list_ex_iff)
  qed
  then have "map reminderKey (due_reminders s') = []"
    using owed_reminders[of _ _ s'] by (metis list.set_intros(1) neq_Nil_conv surj_pair)
  then have none: "due_reminders s' = []" by simp
  then have "scanned_world s' = s'" by (simp add: scanned_world_def reminded_def reminderRows_def signals_def unique_def)
  then show ?thesis
    unfolding runScan_run[OF u] none by (auto simp: mailsFor_def map_filter_simps split: sum.split)
qed

theorem repeated_scan_is_silent_witness:
  "runScan (snd (runScan pressing)) = (Inr 0, snd (runScan pressing))"
  by (rule repeated_scan_is_silent[OF pressing_unique]) (rule surjective_pairing)

end
