(* ===== verification/Json.thy ===== *)
theory Json
  imports Utf16
begin

text \<open>
  What an uploaded JSON file is read with: \<open>Buffer.toString('utf8')\<close>, which writes a replacement
  character for every maximal ill-formed part, and \<open>JSON.parse\<close> over the code units of the text. The
  parser runs on fuel; twice the length of the text is enough, whatever the text.
\<close>

section \<open>Bytes to text\<close>

text \<open>The bounds of the second byte after a leading byte, and how many bytes may follow it.\<close>

definition secondBounds :: "nat \<Rightarrow> nat \<times> nat" where
  "secondBounds b = (if b = 0xE0 then 0xA0 else if b = 0xF0 then 0x90 else 0x80,
                     if b = 0xED then 0x9F else if b = 0xF4 then 0x8F else 0xBF)"

definition followers :: "nat \<Rightarrow> nat" where
  "followers b = (if 0xC2 \<le> b \<and> b \<le> 0xDF then 1 else if 0xE0 \<le> b \<and> b \<le> 0xEF then 2
                  else if 0xF0 \<le> b \<and> b \<le> 0xF4 then 3 else 0)"

text \<open>The length of the maximal ill-formed part at the head: always at least one byte.\<close>

definition illFormedLength :: "nat list \<Rightarrow> nat" where
  "illFormedLength bs =
     (case bs of
        b # c # r \<Rightarrow>
          if followers b = 0 \<or> c < fst (secondBounds b) \<or> snd (secondBounds b) < c then 1
          else 2 + length (takeWhile continuation (take (followers b - 2) r))
      | _ \<Rightarrow> 1)"

lemma illFormedLength_pos [simp]: "0 < illFormedLength bs"
  by (simp add: illFormedLength_def split: list.split)

function lossyPoints :: "nat list \<Rightarrow> nat list" where
  "lossyPoints bs =
     (if bs = [] then []
      else (case utf8Head bs of
              Some (p, r) \<Rightarrow> p # lossyPoints r
            | None \<Rightarrow> 0xFFFD # lossyPoints (drop (illFormedLength bs) bs)))"
  by auto
termination
  by (relation "measure length") (auto dest: utf8Head_shorter)

declare lossyPoints.simps [simp del]

definition bufferToString :: "string \<Rightarrow> utf16" where
  "bufferToString bytes = concat (map codeUnits (lossyPoints (map of_char bytes)))"

section \<open>Values\<close>

text \<open>A number is a double, or \<open>None\<close> where the literal is too large for one and becomes infinite.\<close>

datatype parsed =
    PNull
  | PBool bool
  | PNum "float64 option"
  | PStr utf16
  | PArr "parsed list"
  | PObj "(utf16 \<times> parsed) list"

text \<open>\<open>entry.key\<close> on a parsed object: the last of equal keys wins, \<open>None\<close> is \<open>undefined\<close>.\<close>

definition field :: "parsed \<Rightarrow> string \<Rightarrow> parsed option" where
  "field entry key = (case entry of PObj kvs \<Rightarrow> map_of (rev kvs) (ascii key) | _ \<Rightarrow> None)"

definition prepend :: "'a \<Rightarrow> ('a list \<times> 'b) option \<Rightarrow> ('a list \<times> 'b) option" where
  "prepend x = map_option (\<lambda>(xs, r). (x # xs, r))"

section \<open>JSON.parse\<close>

definition skipWhite :: "utf16 \<Rightarrow> utf16" where
  "skipWhite cs = dropWhile (\<lambda>c. c = 9 \<or> c = 10 \<or> c = 13 \<or> c = 32) cs"

definition hexValue :: "nat \<Rightarrow> nat option" where
  "hexValue c = (if 48 \<le> c \<and> c \<le> 57 then Some (c - 48)
                 else if 65 \<le> c \<and> c \<le> 70 then Some (c - 55)
                 else if 97 \<le> c \<and> c \<le> 102 then Some (c - 87) else None)"

text \<open>The character after a backslash.\<close>

definition escaped :: "nat \<Rightarrow> nat option" where
  "escaped c = map_of [(0x22, 0x22), (0x5C, 0x5C), (0x2F, 0x2F), (98, 8), (102, 12), (110, 10), (114, 13), (116, 9)] c"

text \<open>What follows an opening quote: the text up to the closing one, and the rest.\<close>

fun jsonString :: "utf16 \<Rightarrow> (utf16 \<times> utf16) option" where
  "jsonString [] = None"
| "jsonString (c # cs) =
     (if c = 0x22 then Some ([], cs)
      else if c = 0x5C then
        (case cs of
           [] \<Rightarrow> None
         | e # r \<Rightarrow>
             if e = 117 then
               (case r of
                  h1 # h2 # h3 # h4 # r' \<Rightarrow>
                    (case (hexValue h1, hexValue h2, hexValue h3, hexValue h4) of
                       (Some x1, Some x2, Some x3, Some x4) \<Rightarrow>
                         prepend (((x1 * 16 + x2) * 16 + x3) * 16 + x4) (jsonString r')
                     | _ \<Rightarrow> None)
                | _ \<Rightarrow> None)
             else (case escaped e of None \<Rightarrow> None | Some x \<Rightarrow> prepend x (jsonString r)))
      else if c < 0x20 then None
      else prepend c (jsonString cs))"

text \<open>
  A number is delimited by what no number contains; the literal has to follow the grammar, which knows
  no leading zero, no bare point and no plus sign.
\<close>

definition numeric :: "nat \<Rightarrow> bool" where
  "numeric c \<longleftrightarrow> 48 \<le> c \<and> c \<le> 57 \<or> c \<in> set (ascii ''+-.eE'')"

definition jsonLiteral :: "string \<Rightarrow> bool" where
  "jsonLiteral t =
     (let whole = takeWhile is_digit t; rest = dropWhile is_digit t
      in whole \<noteq> [] \<and> (hd whole = CHR ''0'' \<longrightarrow> length whole = 1) \<and>
         (starts_with ''.'' rest \<longrightarrow> takeWhile is_digit (tl rest) \<noteq> []) \<and> complete_exponent (decimal_tail t))"

definition jsonNumber :: "utf16 \<Rightarrow> parsed option" where
  "jsonNumber token =
     (let s = map char_of token; t = (if starts_with ''-'' s then tl s else s)
      in if jsonLiteral t
         then map_option (\<lambda>v. PNum (to_double (if starts_with ''-'' s then - v else v))) (parse_unsigned t)
         else None)"

definition jsonKeyword :: "utf16 \<Rightarrow> (parsed \<times> utf16) option" where
  "jsonKeyword cs =
     (if take 4 cs = ascii ''null'' then Some (PNull, drop 4 cs)
      else if take 4 cs = ascii ''true'' then Some (PBool True, drop 4 cs)
      else if take 5 cs = ascii ''false'' then Some (PBool False, drop 5 cs)
      else None)"

text \<open>A value without parts: what neither bracket nor brace opens.\<close>

definition jsonScalar :: "utf16 \<Rightarrow> (parsed \<times> utf16) option" where
  "jsonScalar cs =
     (case cs of
        [] \<Rightarrow> None
      | c # r \<Rightarrow>
          if c = 0x22 then map_option (\<lambda>(s, r'). (PStr s, r')) (jsonString r)
          else if numeric c then map_option (\<lambda>v. (v, dropWhile numeric cs)) (jsonNumber (takeWhile numeric cs))
          else jsonKeyword cs)"

text \<open>The value at the head of a text; the elements after a bracket; the members after a brace.\<close>

fun jsonValue :: "nat \<Rightarrow> utf16 \<Rightarrow> (parsed \<times> utf16) option"
and jsonElements :: "nat \<Rightarrow> utf16 \<Rightarrow> (parsed list \<times> utf16) option"
and jsonMembers :: "nat \<Rightarrow> utf16 \<Rightarrow> ((utf16 \<times> parsed) list \<times> utf16) option" where
  "jsonValue 0 cs = None"
| "jsonValue (Suc n) cs =
     (case skipWhite cs of
        [] \<Rightarrow> None
      | c # r \<Rightarrow>
          if c = 0x7B then
            (if take 1 (skipWhite r) = [0x7D] then Some (PObj [], drop 1 (skipWhite r))
             else map_option (\<lambda>(kvs, r'). (PObj kvs, r')) (jsonMembers n r))
          else if c = 0x5B then
            (if take 1 (skipWhite r) = [0x5D] then Some (PArr [], drop 1 (skipWhite r))
             else map_option (\<lambda>(vs, r'). (PArr vs, r')) (jsonElements n r))
          else jsonScalar (c # r))"
| "jsonElements 0 cs = None"
| "jsonElements (Suc n) cs =
     (case jsonValue n cs of
        None \<Rightarrow> None
      | Some (v, r) \<Rightarrow>
          if take 1 (skipWhite r) = [0x2C] then prepend v (jsonElements n (drop 1 (skipWhite r)))
          else if take 1 (skipWhite r) = [0x5D] then Some ([v], drop 1 (skipWhite r))
          else None)"
| "jsonMembers 0 cs = None"
| "jsonMembers (Suc n) cs =
     (if take 1 (skipWhite cs) \<noteq> [0x22] then None
      else (case jsonString (drop 1 (skipWhite cs)) of
              None \<Rightarrow> None
            | Some (key, r) \<Rightarrow>
                if take 1 (skipWhite r) \<noteq> [0x3A] then None
                else (case jsonValue n (drop 1 (skipWhite r)) of
                        None \<Rightarrow> None
                      | Some (v, r') \<Rightarrow>
                          if take 1 (skipWhite r') = [0x2C] then prepend (key, v) (jsonMembers n (drop 1 (skipWhite r')))
                          else if take 1 (skipWhite r') = [0x7D] then Some ([(key, v)], drop 1 (skipWhite r'))
                          else None)))"

text \<open>\<open>None\<close> is the \<open>SyntaxError\<close>.\<close>

definition jsonParse :: "utf16 \<Rightarrow> parsed option" where
  "jsonParse text =
     (case jsonValue (2 * length text + 2) text of
        None \<Rightarrow> None
      | Some (v, r) \<Rightarrow> if skipWhite r = [] then Some v else None)"

section \<open>Enough fuel\<close>

lemma skipWhite_le: "length (skipWhite cs) \<le> length cs"
  unfolding skipWhite_def by (rule length_dropWhile_le)

lemma drop_skipWhite: "take 1 (skipWhite cs) = [x] \<Longrightarrow> length (drop 1 (skipWhite cs)) < length cs"
  using skipWhite_le [of cs] by (cases "skipWhite cs") simp_all

lemma prepend_Some: "prepend x p = Some (ys, r) \<longleftrightarrow> (\<exists>xs. p = Some (xs, r) \<and> ys = x # xs)"
  by (auto simp: prepend_def)

lemma jsonString_shorter: "jsonString cs = Some (s, r) \<Longrightarrow> length r < length cs"
proof (induction "length cs" arbitrary: cs s rule: less_induct)
  case less
  then obtain c t where cs: "cs = c # t" by (cases cs) simp_all
  have shrink: "length r < length cs" if "jsonString u = Some (v, r)" "length u \<le> length t" for u v
    using less.hyps [of u v] that cs by simp
  consider "c = 0x22" | "c = 0x5C" | "c \<noteq> 0x22" "c \<noteq> 0x5C" by blast
  then show ?case
  proof cases
    case 1
    with less.prems cs show ?thesis by simp
  next
    case c: 2
    with less.prems cs obtain e u where t: "t = e # u" by (auto split: list.splits)
    show ?thesis
    proof (cases "e = 117")
      case False
      with less.prems cs c t obtain v where "jsonString u = Some (v, r)" by (auto simp: prepend_Some split: option.splits)
      then show ?thesis by (rule shrink) (simp add: t)
    next
      case True
      obtain h1 h2 h3 h4 w x where u: "u = h1 # h2 # h3 # h4 # w" and w: "prepend x (jsonString w) = Some (s, r)"
        using less.prems unfolding cs t jsonString.simps using c True
        by (auto split: list.splits option.splits)
      from w obtain v where "jsonString w = Some (v, r)" by (auto simp: prepend_Some)
      then show ?thesis by (rule shrink) (simp add: t u)
    qed
  next
    case 3
    with less.prems cs obtain v where "jsonString t = Some (v, r)" by (auto simp: prepend_Some split: if_splits)
    then show ?thesis by (rule shrink) simp
  qed
qed

lemma jsonScalar_shorter: "jsonScalar cs = Some (v, r) \<Longrightarrow> length r < length cs"
proof (cases cs)
  case (Cons c t)
  assume sc: "jsonScalar cs = Some (v, r)"
  consider "c = 0x22" | "c \<noteq> 0x22" "numeric c" | "c \<noteq> 0x22" "\<not> numeric c" by blast
  then show ?thesis
  proof cases
    case 1
    with sc Cons show ?thesis by (auto simp: jsonScalar_def dest!: jsonString_shorter)
  next
    case 2
    with sc Cons have "r = dropWhile numeric t" by (auto simp: jsonScalar_def)
    then show ?thesis using Cons length_dropWhile_le [of numeric t] by simp
  next
    case 3
    with sc Cons have "jsonKeyword cs = Some (v, r)" by (simp add: jsonScalar_def)
    then have "r = drop 4 cs \<or> r = drop 5 cs" by (auto simp: jsonKeyword_def split: if_splits)
    with Cons show ?thesis by auto
  qed
qed (simp add: jsonScalar_def)

lemma json_shorter:
  "jsonValue n cs = Some (v, r) \<Longrightarrow> length r < length cs"
  "jsonElements n cs = Some (vs, r) \<Longrightarrow> length r < length cs"
  "jsonMembers n cs = Some (kvs, r) \<Longrightarrow> length r < length cs"
proof (induction n arbitrary: cs v vs kvs r)
  case (Suc n)
  {
    case 1
    then obtain c t where ct: "skipWhite cs = c # t" by (auto split: list.splits)
    have len: "length t < length cs" using skipWhite_le [of cs] ct by simp
    have one: "length (drop 1 (skipWhite t)) \<le> length t" using skipWhite_le [of t] by simp
    consider "c = 0x7B" | "c = 0x5B" | "c \<noteq> 0x7B" "c \<noteq> 0x5B" by blast
    then show ?case
    proof cases
      case b: 1
      with 1 ct have "r = drop 1 (skipWhite t) \<or> (\<exists>kvs. jsonMembers n t = Some (kvs, r))"
        by (auto split: if_splits)
      with len one Suc(3) [of t _ r] show ?thesis by (auto intro: le_less_trans less_trans)
    next
      case b: 2
      with 1 ct have "r = drop 1 (skipWhite t) \<or> (\<exists>vs. jsonElements n t = Some (vs, r))"
        by (auto split: if_splits)
      with len one Suc(2) [of t _ r] show ?thesis by (auto intro: le_less_trans less_trans)
    next
      case 3
      with 1 ct have "jsonScalar (c # t) = Some (v, r)" by simp
      with jsonScalar_shorter [OF this] len show ?thesis by simp
    qed
  next
    case 2
    then obtain w t where v: "jsonValue n cs = Some (w, t)" by (auto split: option.splits)
    have t: "length t < length cs" by (rule Suc(1) [OF v])
    consider ws where "take 1 (skipWhite t) = [0x2C]" "jsonElements n (drop 1 (skipWhite t)) = Some (ws, r)"
      | "take 1 (skipWhite t) = [0x5D]" "r = drop 1 (skipWhite t)"
      using 2 v by (auto simp: prepend_Some split: if_splits)
    then show ?case
    proof cases
      case a: 1
      from Suc(2) [OF a(2)] drop_skipWhite [OF a(1)] t show ?thesis by simp
    next
      case b: 2
      from drop_skipWhite [OF b(1)] t b(2) show ?thesis by simp
    qed
  next
    case 3
    then have q: "take 1 (skipWhite cs) = [0x22]" by (simp split: if_splits)
    with 3 obtain k t where s: "jsonString (drop 1 (skipWhite cs)) = Some (k, t)"
      and rest: "(if take 1 (skipWhite t) \<noteq> [0x3A] then None
                else (case jsonValue n (drop 1 (skipWhite t)) of
                        None \<Rightarrow> None
                      | Some (v, r') \<Rightarrow>
                          if take 1 (skipWhite r') = [0x2C] then prepend (k, v) (jsonMembers n (drop 1 (skipWhite r')))
                          else if take 1 (skipWhite r') = [0x7D] then Some ([(k, v)], drop 1 (skipWhite r'))
                          else None)) = Some (kvs, r)"
      by (auto split: option.splits)
    have t: "length t < length cs" using jsonString_shorter [OF s] drop_skipWhite [OF q] by simp
    from rest have colon: "take 1 (skipWhite t) = [0x3A]" by (simp split: if_splits)
    with rest obtain w u where w: "jsonValue n (drop 1 (skipWhite t)) = Some (w, u)" by (auto split: option.splits)
    have u: "length u < length cs" using Suc(1) [OF w] drop_skipWhite [OF colon] t by simp
    consider ws where "take 1 (skipWhite u) = [0x2C]" "jsonMembers n (drop 1 (skipWhite u)) = Some (ws, r)"
      | "take 1 (skipWhite u) = [0x7D]" "r = drop 1 (skipWhite u)"
      using rest colon w by (auto simp: prepend_Some split: if_splits)
    then show ?case
    proof cases
      case a: 1
      from Suc(3) [OF a(2)] drop_skipWhite [OF a(1)] u show ?thesis by simp
    next
      case b: 2
      from drop_skipWhite [OF b(1)] u b(2) show ?thesis by simp
    qed
  }
qed simp_all

lemma json_fuel:
  "2 * length cs + 1 \<le> n \<Longrightarrow> n \<le> m \<Longrightarrow> jsonValue m cs = jsonValue n cs"
  "2 * length cs + 2 \<le> n \<Longrightarrow> n \<le> m \<Longrightarrow> jsonElements m cs = jsonElements n cs"
  "2 * length cs + 2 \<le> n \<Longrightarrow> n \<le> m \<Longrightarrow> jsonMembers m cs = jsonMembers n cs"
proof (induction n arbitrary: cs m)
  case (Suc n)
  {
    case 1
    then obtain k where m: "m = Suc k" "n \<le> k" by (cases m) auto
    show ?case
    proof (cases "skipWhite cs")
      case (Cons c t)
      then have "length t < length cs" using skipWhite_le [of cs] by simp
      then have "2 * length t + 2 \<le> n" using 1 by simp
      with m Cons Suc(2) [of t k] Suc(3) [of t k] show ?thesis by simp
    qed (simp add: m)
  next
    case 2
    then obtain k where m: "m = Suc k" "n \<le> k" by (cases m) auto
    have v: "jsonValue k cs = jsonValue n cs" using 2 m by (intro Suc(1)) auto
    show ?case
    proof (cases "jsonValue n cs")
      case (Some p)
      obtain w t where p: "p = (w, t)" by (cases p)
      have t: "length t < length cs" using json_shorter(1) Some p by blast
      have "jsonElements k (drop 1 (skipWhite t)) = jsonElements n (drop 1 (skipWhite t))"
        if "take 1 (skipWhite t) = [0x2C]"
        using drop_skipWhite [OF that] t 2 m by (intro Suc(2)) auto
      with Some p m v show ?thesis by simp
    qed (simp add: m v)
  next
    case 3
    then obtain k where m: "m = Suc k" "n \<le> k" by (cases m) auto
    show ?case
    proof (cases "take 1 (skipWhite cs) = [0x22]")
      case q: True
      show ?thesis
      proof (cases "jsonString (drop 1 (skipWhite cs))")
        case (Some p)
        obtain key t where p: "p = (key, t)" by (cases p)
        have t: "length t < length cs"
          using jsonString_shorter [of "drop 1 (skipWhite cs)" key t] Some p drop_skipWhite [OF q] by simp
        show ?thesis
        proof (cases "take 1 (skipWhite t) = [0x3A]")
          case colon: True
          let ?u = "drop 1 (skipWhite t)"
          have u: "length ?u < length t" by (rule drop_skipWhite [OF colon])
          have v: "jsonValue k ?u = jsonValue n ?u" using u t 3 m by (intro Suc(1)) auto
          show ?thesis
          proof (cases "jsonValue n ?u")
            case w: (Some x)
            obtain val r where x: "x = (val, r)" by (cases x)
            have r: "length r < length ?u" using json_shorter(1) w x by blast
            have "jsonMembers k (drop 1 (skipWhite r)) = jsonMembers n (drop 1 (skipWhite r))"
              if "take 1 (skipWhite r) = [0x2C]"
              using drop_skipWhite [OF that] r u t 3 m by (intro Suc(3)) auto
            with Some p q colon v w x m show ?thesis by simp
          qed (use Some p q colon v m in simp)
        qed (use Some p q m in simp)
      qed (use q m in simp)
    qed (simp add: m)
  }
qed simp_all

lemma jsonParse_fuel:
  assumes "2 * length cs + 2 \<le> n"
  shows "jsonParse cs = (case jsonValue n cs of
     None \<Rightarrow> None | Some (v, r) \<Rightarrow> if skipWhite r = [] then Some v else None)"
  using json_fuel(1) [of cs "2 * length cs + 2" n] assms by (simp add: jsonParse_def)

section \<open>Well-formed bytes are read as they are\<close>

lemma lossyPoints_decoded: "decodePoints bs = Some ps \<Longrightarrow> lossyPoints bs = ps"
proof (induction bs arbitrary: ps rule: decodePoints.induct)
  case (1 bs)
  show ?case
  proof (cases "bs = []")
    case True
    with 1 show ?thesis by (simp add: decodePoints.simps lossyPoints.simps)
  next
    case False
    with "1.prems" obtain p r where h: "utf8Head bs = Some (p, r)"
      by (subst (asm) decodePoints.simps) (auto split: option.splits)
    with "1.prems" False obtain qs where qs: "decodePoints r = Some qs" "ps = p # qs"
      by (subst (asm) decodePoints.simps) auto
    have "lossyPoints r = qs" using False h qs(1) by (intro "1.IH") simp_all
    with h False qs(2) show ?thesis by (subst lossyPoints.simps) simp
  qed
qed

lemma bufferToString_fromUtf8: "fromUtf8 bytes = Some text \<Longrightarrow> bufferToString bytes = text"
  by (auto simp: fromUtf8_def utf8Points_def bufferToString_def lossyPoints_decoded)

end
