(* ===== verification/TrelloExport.thy ===== *)
theory TrelloExport
  imports Json
begin

text \<open>
  \<open>apps/api/src/import/trello-export.ts\<close>: the narrowing of an uploaded file to a Trello board. An
  entry that cannot be read is dropped and leaves an issue behind; only a file that is no JSON, or no
  board export, is refused. The scopes and reasons of issues are those of
  \<open>packages/shared-types/src/entities.ts\<close>.
\<close>

section \<open>The report's vocabulary\<close>

datatype import_scope =
    ListScope | ColumnScope | CardScope | LabelScope | ChecklistScope | ChecklistItemScope
  | AttachmentScope | MemberScope | CommentScope

datatype skip_reason = OutOfScope | Archived | Unmappable | UnsupportedScheme | Malformed | Defaulted

record read_issue =
  ri_scope :: import_scope
  ri_reason :: skip_reason
  ri_sample :: "utf16 option"

definition malformed :: "import_scope \<Rightarrow> utf16 option \<Rightarrow> read_issue" where
  "malformed scope sample = \<lparr>ri_scope = scope, ri_reason = Malformed, ri_sample = sample\<rparr>"

section \<open>The narrowed export\<close>

record trello_list =
  tr_list_id :: utf16
  tr_list_name :: utf16
  tr_list_pos :: "float64 option"
  tr_list_closed :: bool

record trello_attachment =
  tr_att_id :: utf16
  tr_att_name :: utf16
  tr_att_url :: utf16

record trello_card =
  tr_card_id :: utf16
  tr_card_name :: utf16
  tr_card_desc :: "utf16 option"
  tr_card_idList :: "utf16 option"
  tr_card_pos :: "float64 option"
  tr_card_closed :: bool
  tr_card_due :: "utf16 option"
  tr_card_idLabels :: "utf16 list"
  tr_card_idMembers :: "utf16 list"
  tr_card_attachments :: "trello_attachment list"

record trello_label =
  tr_label_id :: utf16
  tr_label_name :: utf16
  tr_label_color :: "utf16 option"

record trello_check_item =
  tr_item_id :: utf16
  tr_item_name :: utf16
  tr_item_state :: "utf16 option"
  tr_item_pos :: "float64 option"

record trello_checklist =
  tr_check_id :: utf16
  tr_check_idCard :: "utf16 option"
  tr_check_name :: utf16
  tr_check_pos :: "float64 option"
  tr_check_items :: "trello_check_item list"

record trello_export =
  ex_name :: utf16
  ex_desc :: "utf16 option"
  ex_lists :: "trello_list list"
  ex_cards :: "trello_card list"
  ex_labels :: "trello_label list"
  ex_checklists :: "trello_checklist list"
  ex_commentCount :: nat
  ex_memberCount :: nat

section \<open>Fields of an entry\<close>

definition isRecord :: "parsed \<Rightarrow> bool" where
  "isRecord v \<longleftrightarrow> (case v of PObj _ \<Rightarrow> True | _ \<Rightarrow> False)"

text \<open>The methods of \<open>EntryFields\<close>: the value, and whether it makes the entry unusable.\<close>

definition stringField :: "parsed option \<Rightarrow> utf16 \<Rightarrow> utf16 \<times> bool" where
  "stringField v fallback =
     (case v of Some (PStr s) \<Rightarrow> (s, False) | None \<Rightarrow> (fallback, False) | Some PNull \<Rightarrow> (fallback, False)
              | Some _ \<Rightarrow> (fallback, True))"

definition nullableString :: "parsed option \<Rightarrow> utf16 option \<times> bool" where
  "nullableString v =
     (case v of Some (PStr s) \<Rightarrow> (Some s, False) | None \<Rightarrow> (None, False) | Some PNull \<Rightarrow> (None, False)
              | Some _ \<Rightarrow> (None, True))"

definition booleanField :: "parsed option \<Rightarrow> bool \<times> bool" where
  "booleanField v =
     (case v of Some (PBool b) \<Rightarrow> (b, False) | None \<Rightarrow> (False, False) | Some PNull \<Rightarrow> (False, False)
              | Some _ \<Rightarrow> (False, True))"

definition arrayField :: "parsed option \<Rightarrow> parsed list \<times> bool" where
  "arrayField v =
     (case v of Some (PArr vs) \<Rightarrow> (vs, False) | None \<Rightarrow> ([], False) | Some PNull \<Rightarrow> ([], False)
              | Some _ \<Rightarrow> ([], True))"

definition asString :: "parsed \<Rightarrow> utf16 option" where
  "asString v = (case v of PStr s \<Rightarrow> Some s | _ \<Rightarrow> None)"

definition stringArray :: "parsed option \<Rightarrow> utf16 list \<times> bool" where
  "stringArray v =
     (let (vs, bad) = arrayField v; strings = List.map_filter asString vs
      in (strings, bad \<or> length strings \<noteq> length vs))"

definition readPos :: "parsed option \<Rightarrow> float64 option" where
  "readPos v = (case v of Some (PNum (Some x)) \<Rightarrow> Some x | _ \<Rightarrow> None)"

definition readId :: "parsed option \<Rightarrow> utf16 option" where
  "readId v = (case v of Some (PStr s) \<Rightarrow> if s \<noteq> [] then Some s else None | _ \<Rightarrow> None)"

section \<open>Entries\<close>

text \<open>An entry has to be an object with the identity its section asks for.\<close>

definition identified :: "string \<Rightarrow> (utf16 \<Rightarrow> 'a option) \<Rightarrow> parsed \<Rightarrow> 'a option" where
  "identified key read entry =
     (if \<not> isRecord entry then None
      else (case readId (field entry key) of None \<Rightarrow> None | Some i \<Rightarrow> read i))"

definition readList :: "parsed \<Rightarrow> trello_list option" where
  "readList entry = identified ''id'' (\<lambda>i.
     let (name, bad1) = stringField (field entry ''name'') [];
         (closed, bad2) = booleanField (field entry ''closed'')
     in if bad1 \<or> bad2 then None
        else Some \<lparr>tr_list_id = i, tr_list_name = name, tr_list_pos = readPos (field entry ''pos''),
                   tr_list_closed = closed\<rparr>) entry"

definition readAttachment :: "parsed \<Rightarrow> trello_attachment option" where
  "readAttachment entry = identified ''url'' (\<lambda>url.
     let (i, bad1) = stringField (field entry ''id'') [];
         (name, bad2) = stringField (field entry ''name'') url
     in if bad1 \<or> bad2 then None else Some \<lparr>tr_att_id = i, tr_att_name = name, tr_att_url = url\<rparr>) entry"

definition readCard :: "parsed \<Rightarrow> trello_card option" where
  "readCard entry = identified ''id'' (\<lambda>i.
     let (raws, bad1) = arrayField (field entry ''attachments'');
         bad2 = list_ex (\<lambda>raw. readAttachment raw = None) raws;
         (name, bad3) = stringField (field entry ''name'') [];
         (desc, bad4) = nullableString (field entry ''desc'');
         (idList, bad5) = nullableString (field entry ''idList'');
         (closed, bad6) = booleanField (field entry ''closed'');
         (due, bad7) = nullableString (field entry ''due'');
         (idLabels, bad8) = stringArray (field entry ''idLabels'');
         (idMembers, bad9) = stringArray (field entry ''idMembers'')
     in if bad1 \<or> bad2 \<or> bad3 \<or> bad4 \<or> bad5 \<or> bad6 \<or> bad7 \<or> bad8 \<or> bad9 then None
        else Some \<lparr>tr_card_id = i, tr_card_name = name, tr_card_desc = desc, tr_card_idList = idList,
                   tr_card_pos = readPos (field entry ''pos''), tr_card_closed = closed, tr_card_due = due,
                   tr_card_idLabels = idLabels, tr_card_idMembers = idMembers,
                   tr_card_attachments = List.map_filter readAttachment raws\<rparr>) entry"

definition readLabel :: "parsed \<Rightarrow> trello_label option" where
  "readLabel entry = identified ''id'' (\<lambda>i.
     let (name, bad1) = stringField (field entry ''name'') [];
         (color, bad2) = nullableString (field entry ''color'')
     in if bad1 \<or> bad2 then None else Some \<lparr>tr_label_id = i, tr_label_name = name, tr_label_color = color\<rparr>) entry"

definition readCheckItem :: "parsed \<Rightarrow> trello_check_item option" where
  "readCheckItem entry = identified ''id'' (\<lambda>i.
     let (name, bad1) = stringField (field entry ''name'') [];
         (state, bad2) = nullableString (field entry ''state'')
     in if bad1 \<or> bad2 then None
        else Some \<lparr>tr_item_id = i, tr_item_name = name, tr_item_state = state, tr_item_pos = readPos (field entry ''pos'')\<rparr>) entry"

text \<open>
  An unreadable item is an issue of its own and leaves the checklist in place; the issues are written
  before the rest of the checklist is looked at.
\<close>

definition readChecklist :: "parsed \<Rightarrow> read_issue list \<Rightarrow> trello_checklist option \<times> read_issue list" where
  "readChecklist entry issues =
     (if \<not> isRecord entry then (None, issues)
      else (case readId (field entry ''id'') of
              None \<Rightarrow> (None, issues)
            | Some i \<Rightarrow>
                let (raws, bad1) = arrayField (field entry ''checkItems'');
                    issues' = issues @ replicate (length (filter (\<lambda>raw. readCheckItem raw = None) raws))
                                         (malformed ChecklistItemScope None);
                    (idCard, bad2) = nullableString (field entry ''idCard'');
                    (name, bad3) = stringField (field entry ''name'') []
                in (if bad1 \<or> bad2 \<or> bad3 then None
                    else Some \<lparr>tr_check_id = i, tr_check_idCard = idCard, tr_check_name = name,
                               tr_check_pos = readPos (field entry ''pos''),
                               tr_check_items = List.map_filter readCheckItem raws\<rparr>, issues')))"

section \<open>Sections\<close>

text \<open>The name of an entry that cannot be read, when it has one.\<close>

definition entryName :: "parsed \<Rightarrow> utf16 option" where
  "entryName entry = Option.bind (field entry ''name'') asString"

fun readEntries ::
    "import_scope \<Rightarrow> (parsed \<Rightarrow> read_issue list \<Rightarrow> 'a option \<times> read_issue list) \<Rightarrow> parsed list \<Rightarrow> read_issue list \<Rightarrow>
     'a list \<times> read_issue list" where
  "readEntries scope read [] issues = ([], issues)"
| "readEntries scope read (entry # rest) issues =
     (case read entry issues of
        (None, issues') \<Rightarrow> readEntries scope read rest (issues' @ [malformed scope (entryName entry)])
      | (Some row, issues') \<Rightarrow>
          let (rows, issues'') = readEntries scope read rest issues' in (row # rows, issues''))"

definition readSection ::
    "parsed option \<Rightarrow> import_scope \<Rightarrow> (parsed \<Rightarrow> read_issue list \<Rightarrow> 'a option \<times> read_issue list) \<Rightarrow> read_issue list \<Rightarrow>
     'a list \<times> read_issue list" where
  "readSection raw scope read issues =
     (case raw of
        Some (PArr entries) \<Rightarrow> readEntries scope read entries issues
      | _ \<Rightarrow> ([], issues @ [malformed scope None]))"

text \<open>A reader that writes no issues of its own.\<close>

definition plainly :: "(parsed \<Rightarrow> 'a option) \<Rightarrow> parsed \<Rightarrow> read_issue list \<Rightarrow> 'a option \<times> read_issue list" where
  "plainly read entry issues = (read entry, issues)"

definition countActions :: "parsed option \<Rightarrow> read_issue list \<Rightarrow> nat \<times> read_issue list" where
  "countActions raw issues =
     (case raw of
        Some (PArr entries) \<Rightarrow>
          (length (filter (\<lambda>entry. isRecord entry \<and> field entry ''type'' = Some (PStr (ascii ''commentCard''))) entries), issues)
      | _ \<Rightarrow> (0, issues @ [malformed CommentScope None]))"

definition countMembers :: "parsed option \<Rightarrow> read_issue list \<Rightarrow> nat \<times> read_issue list" where
  "countMembers raw issues =
     (case raw of
        Some (PArr entries) \<Rightarrow> (length entries, issues)
      | _ \<Rightarrow> (0, issues @ [malformed MemberScope None]))"

section \<open>The file\<close>

definition readExport :: "parsed \<Rightarrow> utf16 \<Rightarrow> trello_export \<times> read_issue list" where
  "readExport raw name =
     (let (ls, issues1) = readSection (field raw ''lists'') ListScope (plainly readList) [];
          (cards, issues2) = readSection (field raw ''cards'') CardScope (plainly readCard) issues1;
          (lbs, issues3) = readSection (field raw ''labels'') LabelScope (plainly readLabel) issues2;
          (checks, issues4) = readSection (field raw ''checklists'') ChecklistScope readChecklist issues3;
          (comments, issues5) = countActions (field raw ''actions'') issues4;
          (members, issues6) = countMembers (field raw ''members'') issues5
      in (\<lparr>ex_name = name, ex_desc = Option.bind (field raw ''desc'') asString, ex_lists = ls, ex_cards = cards,
           ex_labels = lbs, ex_checklists = checks, ex_commentCount = comments, ex_memberCount = members\<rparr>, issues6))"

definition parseTrelloExport :: "string \<Rightarrow> http_error + trello_export \<times> read_issue list" where
  "parseTrelloExport bytes =
     (case jsonParse (bufferToString bytes) of
        None \<Rightarrow> Inl (BadRequest (toUtf8 (ascii ''This file is not valid JSON '' @ [0x2014] @ ascii '' export the board again'')))
      | Some raw \<Rightarrow>
          (case (field raw ''name'', field raw ''lists'') of
             (Some (PStr name), Some (PArr _)) \<Rightarrow> Inr (readExport raw name)
           | _ \<Rightarrow> Inl (BadRequest ''This does not look like a Trello board export'')))"

section \<open>Every entry is kept or named\<close>

definition issuesOf :: "import_scope \<Rightarrow> read_issue list \<Rightarrow> nat" where
  "issuesOf scope issues = length (filter (\<lambda>i. ri_scope i = scope) issues)"

lemma issuesOf_append [simp]: "issuesOf scope (is @ js) = issuesOf scope is + issuesOf scope js"
  by (simp add: issuesOf_def)

lemma issuesOf_malformed [simp]:
  "issuesOf scope [] = 0" "issuesOf scope [malformed scope' n] = (if scope' = scope then 1 else 0)"
  by (simp_all add: issuesOf_def malformed_def)

lemma issuesOf_replicate [simp]:
  "issuesOf scope (replicate n (malformed scope' x)) = (if scope' = scope then n else 0)"
  by (simp add: issuesOf_def malformed_def filter_replicate)

definition others_only :: "import_scope \<Rightarrow> (parsed \<Rightarrow> read_issue list \<Rightarrow> 'a option \<times> read_issue list) \<Rightarrow> bool" where
  "others_only scope read \<longleftrightarrow> (\<forall>entry issues. issuesOf scope (snd (read entry issues)) = issuesOf scope issues)"

lemma others_only_plainly [simp]: "others_only scope (plainly read)"
  by (simp add: others_only_def plainly_def)

lemma others_only_readChecklist: "scope \<noteq> ChecklistItemScope \<Longrightarrow> others_only scope readChecklist"
  by (auto simp: others_only_def readChecklist_def Let_def split: option.splits prod.splits)

lemma readEntries_count:
  assumes "others_only scope read"
  shows "length (fst (readEntries scope read es issues)) + issuesOf scope (snd (readEntries scope read es issues)) =
     length es + issuesOf scope issues"
proof (induction es arbitrary: issues)
  case (Cons e es)
  obtain row issues' where r: "read e issues = (row, issues')" by (cases "read e issues")
  with assms have i: "issuesOf scope issues' = issuesOf scope issues" by (metis others_only_def snd_conv)
  show ?case
  proof (cases row)
    case None
    with r i Cons [of "issues' @ [malformed scope (entryName e)]"] show ?thesis by simp
  next
    case (Some x)
    with r i Cons [of issues'] show ?thesis by (simp add: case_prod_beta Let_def)
  qed
qed simp

lemma readEntries_others:
  assumes "others_only scope' read" "scope' \<noteq> scope"
  shows "issuesOf scope' (snd (readEntries scope read es issues)) = issuesOf scope' issues"
proof (induction es arbitrary: issues)
  case (Cons e es)
  obtain row issues' where r: "read e issues = (row, issues')" by (cases "read e issues")
  with assms have i: "issuesOf scope' issues' = issuesOf scope' issues" by (metis others_only_def snd_conv)
  show ?case
  proof (cases row)
    case None
    with r i assms Cons [of "issues' @ [malformed scope (entryName e)]"] show ?thesis by simp
  next
    case (Some x)
    with r i Cons [of issues'] show ?thesis by (simp add: case_prod_beta Let_def)
  qed
qed simp

text \<open>The entries of a section: a section that is no array counts as one entry that cannot be read.\<close>

definition entriesIn :: "parsed \<Rightarrow> string \<Rightarrow> nat" where
  "entriesIn raw key = (case field raw key of Some (PArr es) \<Rightarrow> length es | _ \<Rightarrow> 1)"

lemma readSection_count:
  assumes "others_only scope read"
  shows "length (fst (readSection (field raw key) scope read issues)) +
     issuesOf scope (snd (readSection (field raw key) scope read issues)) = entriesIn raw key + issuesOf scope issues"
proof -
  consider es where "field raw key = Some (PArr es)" | "\<And>es. field raw key \<noteq> Some (PArr es)" by blast
  then show ?thesis
  proof cases
    case 1
    with readEntries_count [OF assms] show ?thesis by (simp add: readSection_def entriesIn_def)
  next
    case 2
    then show ?thesis by (auto simp: readSection_def entriesIn_def split: option.splits parsed.splits)
  qed
qed

lemma readSection_others:
  assumes "others_only scope' read" "scope' \<noteq> scope"
  shows "issuesOf scope' (snd (readSection raw scope read issues)) = issuesOf scope' issues"
  using readEntries_others [OF assms] assms(2)
  by (auto simp: readSection_def split: option.splits parsed.splits)

lemma countActions_others: "scope \<noteq> CommentScope \<Longrightarrow> issuesOf scope (snd (countActions raw issues)) = issuesOf scope issues"
  by (auto simp: countActions_def split: option.splits parsed.splits)

lemma countMembers_others: "scope \<noteq> MemberScope \<Longrightarrow> issuesOf scope (snd (countMembers raw issues)) = issuesOf scope issues"
  by (auto simp: countMembers_def split: option.splits parsed.splits)

lemma readExport_counts:
  assumes "readExport raw name = (ex, issues)"
  shows "length (ex_lists ex) + issuesOf ListScope issues = entriesIn raw ''lists''"
    and "length (ex_cards ex) + issuesOf CardScope issues = entriesIn raw ''cards''"
    and "length (ex_labels ex) + issuesOf LabelScope issues = entriesIn raw ''labels''"
    and "length (ex_checklists ex) + issuesOf ChecklistScope issues = entriesIn raw ''checklists''"
  using assms readSection_count [of ListScope "plainly readList" raw "''lists''" "[]"]
    readSection_count [of CardScope "plainly readCard" raw "''cards''"]
    readSection_count [of LabelScope "plainly readLabel" raw "''labels''"]
    readSection_count [of ChecklistScope readChecklist raw "''checklists''"]
  by (auto simp: readExport_def Let_def case_prod_beta readSection_others countActions_others countMembers_others
      others_only_readChecklist)

text \<open>Every issue is about something malformed.\<close>

lemma readEntries_malformed:
  assumes "\<And>entry issues. \<forall>i \<in> set issues. ri_reason i = Malformed \<Longrightarrow>
    \<forall>i \<in> set (snd (read entry issues)). ri_reason i = Malformed"
    and "\<forall>i \<in> set issues. ri_reason i = Malformed"
  shows "\<forall>i \<in> set (snd (readEntries scope read es issues)). ri_reason i = Malformed"
  using assms(2)
proof (induction es arbitrary: issues)
  case (Cons e es)
  obtain row issues' where r: "read e issues = (row, issues')" by (cases "read e issues")
  with assms(1) [of issues e] Cons.prems have i: "\<forall>i \<in> set issues'. ri_reason i = Malformed" by simp
  show ?case
  proof (cases row)
    case None
    from i have "\<forall>i \<in> set (issues' @ [malformed scope (entryName e)]). ri_reason i = Malformed"
      by (auto simp: malformed_def)
    from Cons.IH [OF this] r None show ?thesis by simp
  next
    case (Some x)
    with r Cons.IH [OF i] show ?thesis by (simp add: case_prod_beta Let_def)
  qed
qed simp

end
