(* ===== verification/Spec2Isabelle.thy ===== *)
theory Spec2Isabelle
  imports OrderProperties ApiProperties BoardProperties TaskProperties MembershipProperties
    CommentProperties ConfigProperties FileProperties RateLimits AccountProperties RetentionProperties DueSoonProperties TrelloExport
begin

text \<open>
  The API of Kurul, a kanban board: a verification library of the server under
  \<open>src/apps/api/src\<close>, with the data of \<open>src/apps/api/prisma/schema.prisma\<close> and the constants of
  \<open>src/packages/shared-types/src\<close> that the server uses.

  The program. The API is a NestJS application over PostgreSQL. A request passes the guards
  (\<open>common/guards\<close>: a session or a personal access token, membership of the workspace in the path,
  the roles the route requires), reaches a controller, and ends in a service that reads and writes
  tables inside a transaction, appends an audit row, stores notifications and emits socket events.
  A workspace owns boards, a board owns columns and labels, a column holds tasks; tasks carry
  assignees, labels, checklists with items, comments and attachments. Cards, columns, checklists
  and items are kept in order by fractional positions, JavaScript doubles.

  The model. \<open>Database\<close> has one record per table and the record \<open>world\<close>: the tables, the clock,
  the supply of identifiers, and what has been sent (socket events, mails, log lines). A service
  operation is an action \<open>world \<Rightarrow> (http_error + 'a) \<times> world\<close>, written in \<open>Kurul_Prelude\<close>'s
  combinators so that it reads like the TypeScript: every \<open>throw\<close> is a \<open>raise\<close> or a failed \<open>check\<close>,
  and a transaction restores the tables when its body raises. Handlers do not interleave: a request
  runs to its end before the next one, so the row locks of the code have no counterpart.

  The theories, and the code each one models.
  \<^item> \<open>Kurul_Prelude\<close>: refusals, actions, the frame interface \<open>frame_rel\<close>, facts on lists.
  \<^item> \<open>Float64\<close>, \<open>FractionalIndex\<close>, \<open>OrderedRows\<close>, \<open>SlotOrder\<close>: binary64 rounding, \<open>common/position\<close>
    (midpoints, the closeness test, respreads, insertion slots), the interface \<open>ordered_rows\<close> of a
    table kept in order, and its refinement to plain lists of ids.
  \<^item> \<open>Database\<close>, \<open>Integrity\<close>, \<open>SampleWorkspace\<close>: the tables, their cascades and foreign keys, and one
    concrete workspace the theorems are applied to.
  \<^item> \<open>Activities\<close>: \<open>activity.service.ts\<close>, \<open>board-access.ts\<close>, \<open>field-changes.ts\<close>, cursor pages and the
    interface \<open>cursor_walk\<close> of a paginated list.
  \<^item> \<open>Locales\<close>, \<open>BoardTemplates\<close>, \<open>Environment\<close>, \<open>PlanLimits\<close>: language negotiation, the template
    catalog, configuration read from the environment, plan ceilings.
  \<^item> \<open>Columns\<close>, \<open>Boards\<close>, \<open>Labels\<close>, \<open>Tasks\<close>, \<open>TaskLinks\<close>, \<open>Checklists\<close>, \<open>Comments\<close>,
    \<open>Notifications\<close>: one theory per service, operation by operation.
  \<^item> \<open>Access\<close>, \<open>Workspaces\<close>: tokens and guards; workspaces, members and invitations.
  \<^item> \<open>Api\<close>: the writing routes with the roles they require, composed with the guards, and the worlds
    a run of requests reaches.
  \<^item> \<open>Consistency\<close>, \<open>History\<close>: what every operation keeps, refused or not.

  What is shown.
  \<^item> Order (\<open>OrderProperties\<close>): a create or a move of a task or a column changes the list of ids
    exactly as the request asks and leaves positions strictly increasing, through respreads; a
    midpoint that passes the closeness test lies strictly between its neighbours as long as positions
    stay below \<open>safe_position\<close>, and the test is too weak beyond it; checklist items can tie.
  \<^item> Runs (\<open>ApiProperties\<close>): whoever calls whatever in whatever order, keys are unique and foreign keys
    resolve; an accepted request was made by a member with a required role; a refused one is silent;
    what was sent stays sent.
  \<^item> Boards, tasks, comments (\<open>BoardProperties\<close>, \<open>TaskProperties\<close>, \<open>CommentProperties\<close>): what creations
    start with and removals take along, what an edit writes and when it is silent, pages without loss or
    repetition, literal search, the mentions of a written body and what redaction leaves, who is notified.
  \<^item> Membership (\<open>MembershipProperties\<close>): a workspace keeps an owner, only owners change owners, a revoked
    token is dead, a minted one is recognised, invitations are bounded.
  \<^item> Configuration (\<open>ConfigProperties\<close>): integers round trip, ceilings are usable, the override wins,
    negotiation prefers weight.

  Bounds and fuel. A list kept in order is shorter than \<open>2 ^ 40\<close> rows where its order is stated: a
  respread puts the row at index \<open>i\<close> at \<open>(i + 1) * POSITION_GAP\<close>, which is then exact. A walk over pages takes one
  unit of fuel per page; every page but the last is full and not empty, so the number of rows plus one is
  enough, and the theorem says the walk returns. Doubles are rationals with the rounding
  of binary64 and no exponent range: positions neither overflow nor come near the subnormal numbers.

  Parameters. The token hash, the random secret, the session lookup and the organization plugin of the
  authentication library, date parsing, the SQL pattern match and the validity of a mail address are
  arguments of the definitions that use them; what is relied on is a hypothesis of the theorem.

  Not modelled. Request validation (decorators of a library), reading routes, SQL plans and row
  locks, the Prisma client, sockets, SMTP, files and streams, the queues of the workers, the
  authentication library, the wording of mails, and the web application, which is a user
  interface. Planned next: the Trello import planner, attachment metadata and quotas, rate limits and the
  upload budget, due-soon and retention workers, account deletion, the origin check and proxy trust.
\<close>

end
